(* ===== verification/EG_Prelude.thy ===== *)
theory EG_Prelude
  imports
    "HOL-Library.State_Monad"
    "HOL-Library.AList"
    "HOL-Library.Char_ord"
    "HOL-Library.List_Lexorder"
    "HOL-Library.Multiset"
    "HOL-Library.Word"
begin

text \<open>
  Shared vocabulary of the ExitGuard development: generic facts on lists, sorting and
  association lists, and a small calculus for programs that talk to an environment.

  A Go function that calls the API server, the clock or another component is a program of the
  state monad whose state is the \<^emph>\<open>log\<close> of the calls made so far, each call with the answer it
  got.  The answer is chosen by an environment from the log and the arguments, so a statement
  about all environments is a statement about every interleaving with other writers.  The
  predicates \<open>emits\<close> (what a program may append to the log) and \<open>wp\<close> (the weakest precondition for
  a postcondition on result and log) carry the proofs about such programs.
\<close>

section \<open>Collections of rules\<close>

named_theorems emits_intro \<open>rules that build emits facts along the structure of a program\<close>
named_theorems wp_intro \<open>rules that reduce wp along the structure of a program\<close>
named_theorems go_enum \<open>values of the string constants of the API\<close>

section \<open>Lists, sorting and association lists\<close>

lemma sort_key_perm_eq:
  assumes "mset xs = mset ys" and "inj_on f (set xs)"
  shows "sort_key f xs = sort_key f ys"
  using assms by (intro sort_key_inj_key_eq) auto

lemma distinct_sort_key_map [simp]: "distinct (map f (sort_key g xs)) = distinct (map f xs)"
proof -
  have "mset (map f (sort_key g xs)) = mset (map f xs)" by simp
  then show ?thesis by (metis mset_eq_imp_distinct_iff)
qed

lemma sorted_distinct_strict:
  assumes "sorted xs" and "distinct xs"
  shows "sorted_wrt (<) xs"
  using assms by (simp add: strict_sorted_iff)

lemma distinct_keys_update [simp]:
  "distinct (map fst al) \<Longrightarrow> distinct (map fst (AList.update k v al))"
  by (rule distinct_update)

lemma length_update_fresh:
  "map_of al k = None \<Longrightarrow> length (AList.update k v al) = Suc (length al)"
  by (induction al) (auto split: if_splits)

lemma update_fresh: "map_of al k = None \<Longrightarrow> AList.update k v al = al @ [(k, v)]"
  by (induction al) (auto split: if_splits)

lemma set_update_subset: "set (AList.update k v al) \<subseteq> insert (k, v) (set al)"
  by (induction al) auto

lemma map_of_None_iff_keys: "map_of al k = None \<longleftrightarrow> k \<notin> set (map fst al)"
  by (simp add: map_of_eq_None_iff)

lemma append_sep_eq_iff:
  "c \<notin> set xs \<Longrightarrow> c \<notin> set ys \<Longrightarrow> xs @ c # us = ys @ c # vs \<longleftrightarrow> xs = ys \<and> us = vs"
proof (induction xs arbitrary: ys)
  case Nil
  then show ?case by (cases ys) auto
next
  case (Cons x xs)
  then show ?case by (cases ys) auto
qed

lemma find_Some_mem: "find P xs = Some x \<Longrightarrow> x \<in> set xs \<and> P x"
  by (induction xs) (auto split: if_splits)

lemma find_None_all: "find P xs = None \<longleftrightarrow> (\<forall>x\<in>set xs. \<not> P x)"
  by (induction xs) auto

section \<open>Programs over a log\<close>

text \<open>A program is a state transformer over the log of its calls.\<close>

type_synonym ('e, 'a) prog = "('e list, 'a) state"

text \<open>One call: the environment answers from the log so far, and the call is logged with its answer.\<close>

definition invoke :: "('e list \<Rightarrow> 'r) \<Rightarrow> ('r \<Rightarrow> 'e) \<Rightarrow> ('e, 'r) prog" where
  "invoke answer event = State (\<lambda>log. let r = answer log in (r, log @ [event r]))"

lemma run_invoke [simp]: "run_state (invoke f g) log = (f log, log @ [g (f log)])"
  by (simp add: invoke_def Let_def)

text \<open>A call whose answer the program does not use.\<close>

definition note_event :: "'e \<Rightarrow> ('e, unit) prog" where
  "note_event e = State (\<lambda>log. ((), log @ [e]))"

lemma run_note_event [simp]: "run_state (note_event e) log = ((), log @ [e])"
  by (simp add: note_event_def)

subsection \<open>What a program may append to the log\<close>

definition emits :: "('e \<Rightarrow> bool) \<Rightarrow> ('e, 'a) prog \<Rightarrow> bool" where
  "emits P m \<longleftrightarrow> (\<forall>log. \<exists>es. snd (run_state m log) = log @ es \<and> list_all P es)"

lemma emitsI: "(\<And>log. \<exists>es. snd (run_state m log) = log @ es \<and> list_all P es) \<Longrightarrow> emits P m"
  by (simp add: emits_def)

lemma emitsD:
  assumes "emits P m"
  obtains es where "snd (run_state m log) = log @ es" and "list_all P es"
  using assms unfolding emits_def by blast

lemma emits_mono:
  assumes "emits P m" and "\<And>e. P e \<Longrightarrow> Q e"
  shows "emits Q m"
  using assms unfolding emits_def by (metis list.pred_mono_strong)

lemma emits_return [emits_intro]: "emits P (State_Monad.return x)"
  by (rule emitsI) simp

lemma emits_bind [emits_intro]:
  assumes m: "emits P m" and f: "\<And>x. emits P (f x)"
  shows "emits P (State_Monad.bind m f)"
proof (rule emitsI)
  fix log
  obtain a log' where r: "run_state m log = (a, log')" by (cases "run_state m log")
  from m obtain es where es: "log' = log @ es" "list_all P es"
    by (rule emitsD[where log = log]) (simp add: r)
  from f[of a] obtain es' where es': "snd (run_state (f a) log') = log' @ es'" "list_all P es'"
    by (rule emitsD[where log = log'])
  show "\<exists>es. snd (run_state (State_Monad.bind m f) log) = log @ es \<and> list_all P es"
    using es es' by (intro exI[where x = "es @ es'"]) (simp add: r)
qed

lemma emits_invoke [emits_intro]: "(\<And>r. P (g r)) \<Longrightarrow> emits P (invoke f g)"
  by (rule emitsI) simp

lemma emits_note [emits_intro]: "P e \<Longrightarrow> emits P (note_event e)"
  by (rule emitsI) simp

lemma emits_if [emits_intro]:
  "(b \<Longrightarrow> emits P m) \<Longrightarrow> (\<not> b \<Longrightarrow> emits P n) \<Longrightarrow> emits P (if b then m else n)"
  by simp

lemma emits_case_option [emits_intro]:
  "(x = None \<Longrightarrow> emits P m) \<Longrightarrow> (\<And>a. x = Some a \<Longrightarrow> emits P (n a)) \<Longrightarrow>
   emits P (case x of None \<Rightarrow> m | Some a \<Rightarrow> n a)"
  by (cases x) auto

lemma emits_case_sum [emits_intro]:
  "(\<And>a. x = Inl a \<Longrightarrow> emits P (m a)) \<Longrightarrow> (\<And>b. x = Inr b \<Longrightarrow> emits P (n b)) \<Longrightarrow>
   emits P (case x of Inl a \<Rightarrow> m a | Inr b \<Rightarrow> n b)"
  by (cases x) auto

lemma emits_case_prod [emits_intro]:
  "(\<And>a b. x = (a, b) \<Longrightarrow> emits P (m a b)) \<Longrightarrow> emits P (case x of (a, b) \<Rightarrow> m a b)"
  by (cases x) auto

lemma emits_let [emits_intro]: "(\<And>y. y = x \<Longrightarrow> emits P (m y)) \<Longrightarrow> emits P (let y = x in m y)"
  by simp

lemma emits_case_list [emits_intro]:
  "(xs = [] \<Longrightarrow> emits P m) \<Longrightarrow> (\<And>y ys. xs = y # ys \<Longrightarrow> emits P (n y ys)) \<Longrightarrow>
   emits P (case xs of [] \<Rightarrow> m | y # ys \<Rightarrow> n y ys)"
  by (cases xs) auto

subsection \<open>Weakest preconditions\<close>

text \<open>
  \<open>wp m Q log\<close>: started on this log, the program ends with a result and a log that satisfy \<open>Q\<close>.
  The rule for a call forgets which answer the environment gives, so what is shown through it
  holds for every answer.
\<close>

definition wp :: "('s, 'a) state \<Rightarrow> ('a \<Rightarrow> 's \<Rightarrow> bool) \<Rightarrow> 's \<Rightarrow> bool" where
  "wp m Q s \<longleftrightarrow> Q (fst (run_state m s)) (snd (run_state m s))"

lemma wpD: "wp m Q s \<Longrightarrow> run_state m s = (a, s') \<Longrightarrow> Q a s'"
  by (simp add: wp_def)

lemma wp_return [wp_intro]: "Q x s \<Longrightarrow> wp (State_Monad.return x) Q s"
  by (simp add: wp_def)

lemma wp_bind [wp_intro]: "wp m (\<lambda>x. wp (f x) Q) s \<Longrightarrow> wp (State_Monad.bind m f) Q s"
  by (cases "run_state m s") (simp add: wp_def)

lemma wp_invoke [wp_intro]: "(\<And>r. Q r (s @ [g r])) \<Longrightarrow> wp (invoke f g) Q s"
  by (simp add: wp_def)

lemma wp_note [wp_intro]: "Q () (s @ [e]) \<Longrightarrow> wp (note_event e) Q s"
  by (simp add: wp_def)

lemma wp_if [wp_intro]: "(b \<Longrightarrow> wp m Q s) \<Longrightarrow> (\<not> b \<Longrightarrow> wp n Q s) \<Longrightarrow> wp (if b then m else n) Q s"
  by simp

lemma wp_case_option [wp_intro]:
  "(x = None \<Longrightarrow> wp m Q s) \<Longrightarrow> (\<And>a. x = Some a \<Longrightarrow> wp (n a) Q s) \<Longrightarrow>
   wp (case x of None \<Rightarrow> m | Some a \<Rightarrow> n a) Q s"
  by (cases x) auto

lemma wp_case_sum [wp_intro]:
  "(\<And>a. x = Inl a \<Longrightarrow> wp (m a) Q s) \<Longrightarrow> (\<And>b. x = Inr b \<Longrightarrow> wp (n b) Q s) \<Longrightarrow>
   wp (case x of Inl a \<Rightarrow> m a | Inr b \<Rightarrow> n b) Q s"
  by (cases x) auto

lemma wp_case_prod [wp_intro]:
  "(\<And>a b. x = (a, b) \<Longrightarrow> wp (m a b) Q s) \<Longrightarrow> wp (case x of (a, b) \<Rightarrow> m a b) Q s"
  by (cases x) auto

lemma wp_let [wp_intro]: "(\<And>y. y = x \<Longrightarrow> wp (m y) Q s) \<Longrightarrow> wp (let y = x in m y) Q s"
  by simp

lemma wp_mono: "wp m Q s \<Longrightarrow> (\<And>a s'. Q a s' \<Longrightarrow> Q' a s') \<Longrightarrow> wp m Q' s"
  by (simp add: wp_def)

lemma wp_conj: "wp m Q s \<Longrightarrow> wp m R s \<Longrightarrow> wp m (\<lambda>a s'. Q a s' \<and> R a s') s"
  by (simp add: wp_def)

text \<open>A program of which only the appended events matter.\<close>

lemma wp_emits:
  assumes "emits P m" and "\<And>a es. list_all P es \<Longrightarrow> Q a (s @ es)"
  shows "wp m Q s"
proof -
  from assms(1) obtain es where "snd (run_state m s) = s @ es" "list_all P es"
    by (rule emitsD[where log = s])
  with assms(2)[of es] show ?thesis by (simp add: wp_def)
qed

lemma emits_wp: "emits P m \<longleftrightarrow> (\<forall>s. wp m (\<lambda>_ s'. \<exists>es. s' = s @ es \<and> list_all P es) s)"
  by (simp add: emits_def wp_def)

text \<open>
  What a program adds to the log.  Programs built from calls only ever append, so the log they end
  with is the log they start with followed by \<open>added\<close>.
\<close>

definition added :: "('e, 'a) prog \<Rightarrow> 'e list \<Rightarrow> 'e list" where
  "added m log = drop (length log) (snd (run_state m log))"

lemma added_wp: "wp m (\<lambda>_ s'. \<exists>es. s' = s @ es \<and> Q es) s \<Longrightarrow> Q (added m s)"
  by (auto simp: wp_def added_def)

lemma added_emits: "emits P m \<Longrightarrow> list_all P (added m s)"
  by (rule added_wp) (simp add: emits_wp)

subsection \<open>Specifications from every log\<close>

text \<open>
  \<open>ensures P A m\<close>: from every log, the program appends only events that satisfy \<open>P\<close>, and its result
  satisfies \<open>A\<close> together with the set of events it appended.
\<close>

definition ensures :: "('e \<Rightarrow> bool) \<Rightarrow> ('a \<Rightarrow> 'e set \<Rightarrow> bool) \<Rightarrow> ('e, 'a) prog \<Rightarrow> bool" where
  "ensures P A m \<longleftrightarrow> (\<forall>s. wp m (\<lambda>x s'. \<exists>es. s' = s @ es \<and> list_all P es \<and> A x (set es)) s)"

lemma ensures_mono: "ensures P A m \<Longrightarrow> (\<And>x evs. A x evs \<Longrightarrow> B x evs) \<Longrightarrow> ensures P B m"
  unfolding ensures_def wp_def by blast

lemma ensures_weaken:
  assumes "ensures P A m" and "\<And>e. P e \<Longrightarrow> Q e"
  shows "ensures Q A m"
  using assms unfolding ensures_def wp_def by (metis list.pred_mono_strong)

lemma ensures_return: "A x {} \<Longrightarrow> ensures P A (State_Monad.return x)"
  by (simp add: ensures_def wp_def)

lemma ensures_bind:
  assumes "ensures P A m" and "\<And>x evs. A x evs \<Longrightarrow> ensures P (\<lambda>y evs'. B y (evs \<union> evs')) (f x)"
  shows "ensures P B (State_Monad.bind m f)"
  unfolding ensures_def
proof (intro allI wp_bind)
  fix s
  from assms(1) obtain es where es: "snd (run_state m s) = s @ es" "list_all P es" "A (fst (run_state m s)) (set es)"
    unfolding ensures_def wp_def by blast
  from assms(2)[OF es(3)] obtain es' where "snd (run_state (f (fst (run_state m s))) (s @ es)) = (s @ es) @ es'"
    "list_all P es'" "B (fst (run_state (f (fst (run_state m s))) (s @ es))) (set es \<union> set es')"
    unfolding ensures_def wp_def by blast
  then show "wp m (\<lambda>x. wp (f x) (\<lambda>x s'. \<exists>es. s' = s @ es \<and> list_all P es \<and> B x (set es))) s"
    unfolding wp_def es(1) using es(2) by (intro exI[where x = "es @ es'"]) simp
qed

lemma ensures_invoke: "(\<And>r. P (g r)) \<Longrightarrow> ensures P (\<lambda>r evs. evs = {g r}) (invoke f g)"
  by (simp add: ensures_def wp_def)

lemma ensures_emits: "emits P m \<Longrightarrow> ensures P (\<lambda>_ _. True) m"
  unfolding ensures_def wp_def emits_def by blast

lemma emits_ensures: "ensures P A m \<Longrightarrow> emits P m"
  unfolding ensures_def wp_def emits_def by blast

lemma ensures_cases:
  "(b \<Longrightarrow> ensures P A m) \<Longrightarrow> (\<not> b \<Longrightarrow> ensures P A n) \<Longrightarrow> ensures P A (if b then m else n)"
  "(\<And>e. r = Inl e \<Longrightarrow> ensures P A (f e)) \<Longrightarrow> (\<And>y. r = Inr y \<Longrightarrow> ensures P A (g y)) \<Longrightarrow>
   ensures P A (case r of Inl e \<Rightarrow> f e | Inr y \<Rightarrow> g y)"
  "(opt = None \<Longrightarrow> ensures P A n) \<Longrightarrow> (\<And>y. opt = Some y \<Longrightarrow> ensures P A (h y)) \<Longrightarrow>
   ensures P A (case opt of None \<Rightarrow> n | Some y \<Rightarrow> h y)"
  "(\<And>y z. pair = (y, z) \<Longrightarrow> ensures P A (k y z)) \<Longrightarrow> ensures P A (case pair of (y, z) \<Rightarrow> k y z)"
  by (auto split: sum.splits option.splits prod.splits)

text \<open>Two specifications of the same program.\<close>

lemma ensures_conj:
  assumes "ensures P A m" and "ensures P B m"
  shows "ensures P (\<lambda>x evs. A x evs \<and> B x evs) m"
  unfolding ensures_def wp_def
proof
  fix s
  from assms(1) obtain es where "snd (run_state m s) = s @ es" "list_all P es" "A (fst (run_state m s)) (set es)"
    unfolding ensures_def wp_def by blast
  moreover from assms(2) obtain es' where "snd (run_state m s) = s @ es'" "B (fst (run_state m s)) (set es')"
    unfolding ensures_def wp_def by blast
  ultimately show "\<exists>es. snd (run_state m s) = s @ es \<and> list_all P es \<and> A (fst (run_state m s)) (set es) \<and> B (fst (run_state m s)) (set es)"
    by auto
qed

end
