(* ===== verification/Go_Memory.thy ===== *)
theory Go_Memory
  imports EG_Prelude
begin

text \<open>
  Memory of Go values, for the code whose point is aliasing.  A memory is a list of cells and an address an index
  into it; allocation appends a cell.  A value is a scalar (a string, a number, a boolean), a struct of named
  fields, or a reference: nil, the pointer to a cell with one value, or the slice over a cell with its elements.

  A \<open>shape\<close> is a type.  \<open>decode\<close> reads the value of a shape out of a memory as a tree without addresses, and
  \<open>cells\<close> are the addresses it reads.  A copier is right for a shape (\<open>copies\<close>) if it leaves the memory it finds
  alone and gives a value with the same tree in fresh cells; the rules below follow the constructs of
  generated copying functions.
\<close>

section \<open>Values, types and memories\<close>

datatype gvalue = Scalar string | Struct "(string \<times> gvalue) list" | Ref "nat option"

type_synonym mem = "gvalue list list"

datatype shape = Flat | Fields "(string \<times> shape) list" | Pointer shape | Sequence shape

datatype tree = TScalar string | TStruct "(string \<times> tree) list" | TNil | TRef "tree list"

fun decode :: "shape \<Rightarrow> mem \<Rightarrow> gvalue \<Rightarrow> tree option"
  and decode_fields :: "(string \<times> shape) list \<Rightarrow> mem \<Rightarrow> (string \<times> gvalue) list \<Rightarrow> (string \<times> tree) list option" where
  "decode Flat m v = (case v of Scalar x \<Rightarrow> Some (TScalar x) | _ \<Rightarrow> None)"
| "decode (Fields fs) m v = (case v of Struct vs \<Rightarrow> map_option TStruct (decode_fields fs m vs) | _ \<Rightarrow> None)"
| "decode (Pointer s) m v =
     (case v of
        Ref None \<Rightarrow> Some TNil
      | Ref (Some a) \<Rightarrow>
          if a < length m \<and> length (m ! a) = 1 then map_option (\<lambda>t. TRef [t]) (decode s m (hd (m ! a))) else None
      | _ \<Rightarrow> None)"
| "decode (Sequence s) m v =
     (case v of
        Ref None \<Rightarrow> Some TNil
      | Ref (Some a) \<Rightarrow> if a < length m then map_option TRef (those (map (decode s m) (m ! a))) else None
      | _ \<Rightarrow> None)"
| "decode_fields [] m vs = (if vs = [] then Some [] else None)"
| "decode_fields ((n, s) # fs) m vs =
     (case vs of
        [] \<Rightarrow> None
      | (k, v) # vs' \<Rightarrow>
          if k \<noteq> n then None
          else (case decode s m v of
                  None \<Rightarrow> None
                | Some t \<Rightarrow> map_option (\<lambda>ts. (n, t) # ts) (decode_fields fs m vs')))"

fun cells :: "shape \<Rightarrow> mem \<Rightarrow> gvalue \<Rightarrow> nat set"
  and cells_fields :: "(string \<times> shape) list \<Rightarrow> mem \<Rightarrow> (string \<times> gvalue) list \<Rightarrow> nat set" where
  "cells Flat m v = {}"
| "cells (Fields fs) m v = (case v of Struct vs \<Rightarrow> cells_fields fs m vs | _ \<Rightarrow> {})"
| "cells (Pointer s) m v = (case v of Ref (Some a) \<Rightarrow> insert a (cells s m (hd (m ! a))) | _ \<Rightarrow> {})"
| "cells (Sequence s) m v = (case v of Ref (Some a) \<Rightarrow> insert a (\<Union>x \<in> set (m ! a). cells s m x) | _ \<Rightarrow> {})"
| "cells_fields [] m vs = {}"
| "cells_fields ((n, s) # fs) m vs = (case vs of [] \<Rightarrow> {} | (k, v) # vs' \<Rightarrow> cells s m v \<union> cells_fields fs m vs')"

text \<open>A type without references.\<close>

fun flat :: "shape \<Rightarrow> bool" where
  "flat Flat \<longleftrightarrow> True"
| "flat (Fields fs) \<longleftrightarrow> list_all (\<lambda>(n, s). flat s) fs"
| "flat (Pointer s) \<longleftrightarrow> False"
| "flat (Sequence s) \<longleftrightarrow> False"

section \<open>Copying\<close>

type_synonym copier = "gvalue \<Rightarrow> mem \<Rightarrow> gvalue \<times> mem"

text \<open>\<open>*out = *in\<close>, which copies references as they are.\<close>

definition assign :: copier where
  "assign v m = (v, m)"

text \<open>Nil, or a new cell for what the copier makes of the value: \<open>*out = new(T)\<close> and a copy into it.\<close>

definition new_copy :: "copier \<Rightarrow> copier" where
  "new_copy cp v m =
     (case v of
        Ref (Some a) \<Rightarrow>
          if a < length m \<and> length (m ! a) = 1
          then let (x, m1) = cp (hd (m ! a)) m in (Ref (Some (length m1)), m1 @ [[x]])
          else (v, m)
      | _ \<Rightarrow> (v, m))"

text \<open>Nil, or a new cell with a copy of every element: \<open>*out = make([]T, len(*in))\<close> and a loop, or \<open>copy\<close>.\<close>

fun copy_all :: "copier \<Rightarrow> gvalue list \<Rightarrow> mem \<Rightarrow> gvalue list \<times> mem" where
  "copy_all cp [] m = ([], m)"
| "copy_all cp (x # xs) m = (let (y, m1) = cp x m; (ys, m2) = copy_all cp xs m1 in (y # ys, m2))"

definition make_copy :: "copier \<Rightarrow> copier" where
  "make_copy cp v m =
     (case v of
        Ref (Some a) \<Rightarrow>
          if a < length m then let (xs, m1) = copy_all cp (m ! a) m in (Ref (Some (length m1)), m1 @ [xs]) else (v, m)
      | _ \<Rightarrow> (v, m))"

text \<open>A struct: \<open>*out = *in\<close>, then the fields that have a copier, in the order of the struct.\<close>

fun copy_fields :: "(string \<times> copier) list \<Rightarrow> (string \<times> gvalue) list \<Rightarrow> mem \<Rightarrow> (string \<times> gvalue) list \<times> mem" where
  "copy_fields plan [] m = ([], m)"
| "copy_fields plan ((n, v) # vs) m =
     (let (x, m1) = (case map_of plan n of None \<Rightarrow> (v, m) | Some cp \<Rightarrow> cp v m); (xs, m2) = copy_fields plan vs m1
      in ((n, x) # xs, m2))"

definition copy_struct :: "(string \<times> copier) list \<Rightarrow> copier" where
  "copy_struct plan v m =
     (case v of Struct vs \<Rightarrow> (let (xs, m1) = copy_fields plan vs m in (Struct xs, m1)) | _ \<Rightarrow> (v, m))"

section \<open>Reading\<close>

text \<open>What is read depends on the cells that are read only.\<close>

lemma those_eq: "those xs = Some ys \<longleftrightarrow> xs = map Some ys"
  by (induction xs arbitrary: ys) (auto split: option.splits)

text \<open>Inversion for the shapes whose value is a reference or a field.\<close>

lemma decode_Sequence_Some:
  assumes "decode (Sequence s) m (Ref (Some a)) = Some t"
  obtains ts where "a < length m" "t = TRef ts" "map (decode s m) (m ! a) = map Some ts"
  using assms by (auto simp: those_eq split: if_splits)

lemma decode_element:
  "map (decode s m) xs = map Some ts \<Longrightarrow> x \<in> set xs \<Longrightarrow> \<exists>t. decode s m x = Some t"
  by (metis in_set_conv_nth length_map nth_map)

lemma decode_fields_Cons:
  assumes "decode_fields ((n, s) # fs) m vs = Some ts"
  obtains v vs' t ts' where "vs = (n, v) # vs'" "decode s m v = Some t" "decode_fields fs m vs' = Some ts'" "ts = (n, t) # ts'"
  using assms by (auto split: list.splits prod.splits option.splits if_splits)

lemma decode_cells:
  "decode s m v = Some t \<Longrightarrow> \<forall>a \<in> cells s m v. a < length m' \<and> m' ! a = m ! a \<Longrightarrow>
     decode s m' v = Some t \<and> cells s m' v = cells s m v"
  "decode_fields fs m vs = Some ts \<Longrightarrow> \<forall>a \<in> cells_fields fs m vs. a < length m' \<and> m' ! a = m ! a \<Longrightarrow>
     decode_fields fs m' vs = Some ts \<and> cells_fields fs m' vs = cells_fields fs m vs"
proof (induction s m v and fs m vs arbitrary: t and ts rule: decode_decode_fields.induct)
  case (4 s m v)
  show ?case
  proof (cases v)
    case (Ref r)
    show ?thesis
    proof (cases r)
      case (Some a)
      from 4(2,3) Ref Some obtain ts where a: "a < length m" "t = TRef ts" "map (decode s m) (m ! a) = map Some ts"
        "a < length m'" "m' ! a = m ! a"
        by (auto simp: those_eq split: if_splits)
      have each: "decode s m' x = decode s m x \<and> cells s m' x = cells s m x" if x: "x \<in> set (m ! a)" for x
      proof -
        obtain t' where "decode s m x = Some t'" using a(3) x by (metis in_set_conv_nth length_map nth_map)
        moreover have "\<forall>b \<in> cells s m x. b < length m' \<and> m' ! b = m ! b" using 4(3) Ref Some x by auto
        ultimately show ?thesis using 4(1)[OF Ref Some a(1)] x by auto
      qed
      then have "map (decode s m') (m ! a) = map Some ts" using a(3) by (metis (no_types, lifting) map_cong)
      then show ?thesis using Ref Some a each by (simp add: those_eq)
    qed (use 4 Ref in auto)
  qed (use 4 in auto)
next
  case (6 n s fs m vs)
  from 6(3) obtain v vs' t ts' where vs: "vs = (n, v) # vs'" "decode s m v = Some t" "decode_fields fs m vs' = Some ts'"
    "ts = (n, t) # ts'"
    by (rule decode_fields_Cons)
  moreover have "decode s m' v = Some t \<and> cells s m' v = cells s m v"
    by (rule 6(1)[OF vs(1) refl]) (use vs 6(4) in auto)
  moreover have "decode_fields fs m' vs' = Some ts' \<and> cells_fields fs m' vs' = cells_fields fs m vs'"
    by (rule 6(2)[OF vs(1) refl _ vs(2,3)]) (use vs 6(4) in auto)
  ultimately show ?case by simp
qed (auto split: gvalue.splits option.splits if_splits)

lemma decode_bounded:
  "decode s m v = Some t \<Longrightarrow> \<forall>a \<in> cells s m v. a < length m"
  "decode_fields fs m vs = Some ts \<Longrightarrow> \<forall>a \<in> cells_fields fs m vs. a < length m"
proof (induction s m v and fs m vs arbitrary: t and ts rule: decode_decode_fields.induct)
  case (4 s m v)
  show ?case
  proof (cases "\<exists>a. v = Ref (Some a)")
    case True
    then obtain a where v: "v = Ref (Some a)" by blast
    from 4(2)[unfolded v] obtain ts where a: "a < length m" "map (decode s m) (m ! a) = map Some ts"
      by (rule decode_Sequence_Some)
    have "\<forall>b \<in> cells s m x. b < length m" if x: "x \<in> set (m ! a)" for x
      using decode_element[OF a(2) x] 4(1)[OF v refl a(1) x] by blast
    then show ?thesis using v a(1) by simp
  qed (auto split: gvalue.splits option.splits)
next
  case (6 n s fs m vs)
  from 6(3) obtain v vs' t ts' where vs: "vs = (n, v) # vs'" "decode s m v = Some t" "decode_fields fs m vs' = Some ts'"
    by (rule decode_fields_Cons)
  have "\<forall>a \<in> cells s m v. a < length m" by (rule 6(1)[OF vs(1) refl _ vs(2)]) simp
  moreover have "\<forall>a \<in> cells_fields fs m vs'. a < length m" by (rule 6(2)[OF vs(1) refl _ vs(2,3)]) simp
  ultimately show ?case using vs(1) by auto
next
  case (3 s m v)
  show ?case
  proof (cases "\<exists>a. v = Ref (Some a)")
    case True
    then obtain a where v: "v = Ref (Some a)" by blast
    then obtain t' where "a < length m" "length (m ! a) = 1" "decode s m (hd (m ! a)) = Some t'"
      using 3(2) by (auto split: if_splits)
    then show ?thesis using 3(1)[OF v refl] v by simp
  qed (auto split: gvalue.splits option.splits)
qed (auto split: gvalue.splits)

lemma decode_append:
  assumes "decode s m v = Some t"
  shows "decode s (m @ ms) v = Some t" "cells s (m @ ms) v = cells s m v"
proof -
  have "\<forall>a \<in> cells s m v. a < length (m @ ms) \<and> (m @ ms) ! a = m ! a" using decode_bounded(1)[OF assms] by (auto simp: nth_append)
  from decode_cells(1)[OF assms this] show "decode s (m @ ms) v = Some t" "cells s (m @ ms) v = cells s m v" by simp_all
qed

lemma decode_update:
  assumes "decode s m v = Some t" "a \<notin> cells s m v"
  shows "decode s (m[a := c]) v = Some t"
proof -
  have "\<forall>b \<in> cells s m v. b < length (m[a := c]) \<and> m[a := c] ! b = m ! b"
    using decode_bounded(1)[OF assms(1)] assms(2) by (metis length_list_update nth_list_update_neq)
  from decode_cells(1)[OF assms(1) this] show ?thesis by simp
qed

lemma flat_cells:
  "flat s \<Longrightarrow> cells s m v = {}"
  "list_all (\<lambda>(n, s). flat s) fs \<Longrightarrow> cells_fields fs m vs = {}"
  by (induction s m v and fs m vs rule: cells_cells_fields.induct) (auto split: gvalue.splits list.splits)

section \<open>Copiers that are right\<close>

definition copies :: "shape \<Rightarrow> copier \<Rightarrow> bool" where
  "copies s cp \<longleftrightarrow>
     (\<forall>m v t. decode s m v = Some t \<longrightarrow>
        (\<exists>x ms. cp v m = (x, m @ ms) \<and> decode s (m @ ms) x = Some t \<and> (\<forall>a \<in> cells s (m @ ms) x. length m \<le> a)))"

lemma copiesD:
  assumes "copies s cp" "decode s m v = Some t"
  obtains x ms where "cp v m = (x, m @ ms)" "decode s (m @ ms) x = Some t" "\<forall>a \<in> cells s (m @ ms) x. length m \<le> a"
  using assms unfolding copies_def by blast

lemma copies_assign: "flat s \<Longrightarrow> copies s assign"
  unfolding copies_def assign_def by (auto simp: flat_cells intro!: exI[of _ "[]"])

lemma copies_new:
  assumes "copies s cp"
  shows "copies (Pointer s) (new_copy cp)"
  unfolding copies_def
proof (intro allI impI)
  fix m v t assume d: "decode (Pointer s) m v = Some t"
  show "\<exists>x ms. new_copy cp v m = (x, m @ ms) \<and> decode (Pointer s) (m @ ms) x = Some t
      \<and> (\<forall>a \<in> cells (Pointer s) (m @ ms) x. length m \<le> a)"
  proof (cases "\<exists>a. v = Ref (Some a)")
    case True
    then obtain a where v: "v = Ref (Some a)" by blast
    with d obtain t' where a: "a < length m" "length (m ! a) = 1" "decode s m (hd (m ! a)) = Some t'" "t = TRef [t']"
      by (auto split: if_splits)
    from assms a(3) obtain x ms where x: "cp (hd (m ! a)) m = (x, m @ ms)" "decode s (m @ ms) x = Some t'"
      "\<forall>a \<in> cells s (m @ ms) x. length m \<le> a" by (rule copiesD)
    have "new_copy cp v m = (Ref (Some (length (m @ ms))), m @ (ms @ [[x]]))" using v a x(1) by (simp add: new_copy_def)
    moreover have "decode s (m @ ms @ [[x]]) x = Some t'" "cells s (m @ ms @ [[x]]) x = cells s (m @ ms) x"
      using decode_append[OF x(2), of "[[x]]"] by simp_all
    ultimately show ?thesis using a(4) x(3) by (auto simp: nth_append)
  next
    case False
    then show ?thesis using d by (auto simp: new_copy_def split: gvalue.splits option.splits)
  qed
qed

lemma copy_all_spec:
  assumes "copies s cp" "map (decode s m) xs = map Some ts"
  shows "\<exists>ys ms. copy_all cp xs m = (ys, m @ ms) \<and> map (decode s (m @ ms)) ys = map Some ts
    \<and> (\<forall>y \<in> set ys. \<forall>a \<in> cells s (m @ ms) y. length m \<le> a)"
  using assms(2)
proof (induction xs arbitrary: m ts)
  case (Cons x xs)
  then obtain t ts' where ts: "ts = t # ts'" "decode s m x = Some t" "map (decode s m) xs = map Some ts'" by (cases ts) auto
  from assms(1) ts(2) obtain y ms where y: "cp x m = (y, m @ ms)" "decode s (m @ ms) y = Some t"
    "\<forall>a \<in> cells s (m @ ms) y. length m \<le> a" by (rule copiesD)
  have "map (decode s (m @ ms)) xs = map Some ts'"
    using ts(3) decode_append(1) decode_element[OF ts(3)] by (metis (no_types, lifting) map_cong option.inject)
  from Cons.IH[OF this] obtain ys ms' where ys: "copy_all cp xs (m @ ms) = (ys, (m @ ms) @ ms')"
    "map (decode s ((m @ ms) @ ms')) ys = map Some ts'" "\<forall>y \<in> set ys. \<forall>a \<in> cells s ((m @ ms) @ ms') y. length (m @ ms) \<le> a"
    by blast
  have "decode s ((m @ ms) @ ms') y = Some t" "cells s ((m @ ms) @ ms') y = cells s (m @ ms) y"
    using decode_append[OF y(2)] by blast+
  then show ?case using y ys ts(1) by (intro exI[of _ "y # ys"] exI[of _ "ms @ ms'"]) fastforce
qed simp

lemma copies_make:
  assumes "copies s cp"
  shows "copies (Sequence s) (make_copy cp)"
  unfolding copies_def
proof (intro allI impI)
  fix m v t assume d: "decode (Sequence s) m v = Some t"
  show "\<exists>x ms. make_copy cp v m = (x, m @ ms) \<and> decode (Sequence s) (m @ ms) x = Some t
      \<and> (\<forall>a \<in> cells (Sequence s) (m @ ms) x. length m \<le> a)"
  proof (cases "\<exists>a. v = Ref (Some a)")
    case True
    then obtain a where v: "v = Ref (Some a)" by blast
    from d[unfolded v] obtain ts where a: "a < length m" "t = TRef ts" "map (decode s m) (m ! a) = map Some ts"
      by (rule decode_Sequence_Some)
    from copy_all_spec[OF assms a(3)] obtain ys ms where ys: "copy_all cp (m ! a) m = (ys, m @ ms)"
      "map (decode s (m @ ms)) ys = map Some ts" "\<forall>y \<in> set ys. \<forall>a \<in> cells s (m @ ms) y. length m \<le> a" by blast
    have same: "decode s (m @ ms @ [ys]) y = decode s (m @ ms) y \<and> cells s (m @ ms @ [ys]) y = cells s (m @ ms) y"
      if "y \<in> set ys" for y
      using decode_element[OF ys(2) that] decode_append[of s "m @ ms" y _ "[ys]"] by auto
    then have "map (decode s (m @ ms @ [ys])) ys = map Some ts" using ys(2) by (metis (no_types, lifting) map_cong)
    moreover have "make_copy cp v m = (Ref (Some (length (m @ ms))), m @ (ms @ [ys]))" using v a ys(1) by (simp add: make_copy_def)
    ultimately show ?thesis using a(2) ys(3) same by (auto simp: nth_append those_eq)
  next
    case False
    then show ?thesis using d by (auto simp: make_copy_def split: gvalue.splits option.splits)
  qed
qed

text \<open>Every field that holds references has a copier.\<close>

definition covers :: "(string \<times> copier) list \<Rightarrow> (string \<times> shape) list \<Rightarrow> bool" where
  "covers plan fs \<longleftrightarrow> (\<forall>(n, s) \<in> set fs. case map_of plan n of None \<Rightarrow> flat s | Some cp \<Rightarrow> copies s cp)"

lemma copy_fields_spec:
  assumes "covers plan fs" "decode_fields fs m vs = Some ts"
  shows "\<exists>xs ms. copy_fields plan vs m = (xs, m @ ms) \<and> decode_fields fs (m @ ms) xs = Some ts
    \<and> (\<forall>a \<in> cells_fields fs (m @ ms) xs. length m \<le> a)"
  using assms
proof (induction fs arbitrary: m vs ts)
  case Nil
  then show ?case by (auto split: if_splits)
next
  case (Cons f fs)
  obtain n s where f: "f = (n, s)" by (cases f)
  from Cons.prems(2)[unfolded f] obtain v vs' t ts' where vs: "vs = (n, v) # vs'" "decode s m v = Some t"
    "decode_fields fs m vs' = Some ts'" "ts = (n, t) # ts'" by (rule decode_fields_Cons)
  let ?cp = "case map_of plan n of None \<Rightarrow> assign | Some cp \<Rightarrow> cp"
  have "copies s ?cp" using Cons.prems(1) f by (auto simp: covers_def copies_assign split: option.splits)
  from this vs(2) obtain x ms where x: "?cp v m = (x, m @ ms)" "decode s (m @ ms) x = Some t"
    "\<forall>a \<in> cells s (m @ ms) x. length m \<le> a" by (rule copiesD)
  have "\<forall>a \<in> cells_fields fs m vs'. a < length (m @ ms) \<and> (m @ ms) ! a = m ! a"
    using decode_bounded(2)[OF vs(3)] by (auto simp: nth_append)
  from decode_cells(2)[OF vs(3) this] have rest: "decode_fields fs (m @ ms) vs' = Some ts'" by (rule conjunct1)
  have "covers plan fs" using Cons.prems(1) by (simp add: covers_def)
  from Cons.IH[OF this rest] obtain xs ms' where xs: "copy_fields plan vs' (m @ ms) = (xs, (m @ ms) @ ms')"
    "decode_fields fs ((m @ ms) @ ms') xs = Some ts'" "\<forall>a \<in> cells_fields fs ((m @ ms) @ ms') xs. length (m @ ms) \<le> a"
    by blast
  have dx: "decode s (m @ ms @ ms') x = Some t" "cells s (m @ ms @ ms') x = cells s (m @ ms) x"
    using decode_append[OF x(2), of ms'] by simp_all
  have "(case map_of plan n of None \<Rightarrow> (v, m) | Some cp \<Rightarrow> cp v m) = (x, m @ ms)"
    using x(1) by (simp add: assign_def split: option.splits)
  then have run: "copy_fields plan vs m = ((n, x) # xs, m @ ms @ ms')" using vs(1) xs(1) by simp
  have dec: "decode_fields (f # fs) (m @ ms @ ms') ((n, x) # xs) = Some ts" using f vs(4) dx(1) xs(2) by simp
  have "length m \<le> a" if "a \<in> cells_fields fs (m @ ms @ ms') xs" for a using xs(3) that by auto
  then have "\<forall>a \<in> cells_fields (f # fs) (m @ ms @ ms') ((n, x) # xs). length m \<le> a" using f dx(2) x(3) by auto
  with run dec show ?case by blast
qed

lemma copies_struct:
  assumes "covers plan fs"
  shows "copies (Fields fs) (copy_struct plan)"
  unfolding copies_def
proof (intro allI impI)
  fix m v t assume "decode (Fields fs) m v = Some t"
  then obtain vs ts where v: "v = Struct vs" "decode_fields fs m vs = Some ts" "t = TStruct ts"
    by (auto split: gvalue.splits)
  from copy_fields_spec[OF assms v(2)] show "\<exists>x ms. copy_struct plan v m = (x, m @ ms) \<and> decode (Fields fs) (m @ ms) x = Some t
      \<and> (\<forall>a \<in> cells (Fields fs) (m @ ms) x. length m \<le> a)"
    using v by (fastforce simp: copy_struct_def)
qed

text \<open>A copy is independent of what it was made from: a store to a cell of one of them is not seen by the other.\<close>

lemma copies_independent:
  assumes "copies s cp" "decode s m v = Some t"
  shows "\<exists>x ms. cp v m = (x, m @ ms) \<and> decode s (m @ ms) x = Some t \<and> decode s (m @ ms) v = Some t
    \<and> (\<forall>a c. a \<in> cells s (m @ ms) x \<longrightarrow> decode s ((m @ ms)[a := c]) v = Some t)
    \<and> (\<forall>a c. a \<in> cells s (m @ ms) v \<longrightarrow> decode s ((m @ ms)[a := c]) x = Some t)"
proof -
  from assms obtain x ms where x: "cp v m = (x, m @ ms)" "decode s (m @ ms) x = Some t" "\<forall>a \<in> cells s (m @ ms) x. length m \<le> a"
    by (rule copiesD)
  note v = decode_append[OF assms(2), of ms]
  have "cells s (m @ ms) x \<inter> cells s (m @ ms) v = {}" using x(3) decode_bounded(1)[OF assms(2)] v(2) by fastforce
  then show ?thesis using x v(1) decode_update[OF x(2)] decode_update[OF v(1)] by blast
qed

end
