(* ===== verification/Api_Deepcopy.thy ===== *)
theory Api_Deepcopy
  imports Go_Memory
begin

text \<open>
  The generated copying functions of the API types (\<open>api/v1alpha1/zz_generated.deepcopy.go\<close>), over the memory of
  \<open>Go_Memory\<close>.  A shape lists the fields of a struct as \<open>api/v1alpha1\<close> declares them; a \<open>DeepCopyInto\<close> lists the
  fields that its body copies after \<open>*out = *in\<close>, each with how it is copied.  The types of apimachinery and their
  copying functions are not part of the program: they are the fields of \<open>meta_types\<close>, and \<open>meta_ok\<close> is their documented
  behaviour.

  The models of the controllers work on values, in which a copy is the value itself.  The theorem of this
  theory is why they may: a deep copy has the value of the original and shares no memory with it, so what is done
  to one of them afterwards does not show in the other.
\<close>

named_theorems shapes \<open>the declared types\<close>

section \<open>Types\<close>

record meta_types =
  mt_TypeMeta :: shape
  mt_ObjectMeta :: shape
  mt_ListMeta :: shape
  mt_Time :: shape
  mt_Duration :: shape
  mt_Condition :: shape
  mt_LabelSelector :: shape
  mt_copy_ObjectMeta :: copier
  mt_copy_ListMeta :: copier
  mt_copy_Time :: copier
  mt_copy_Condition :: copier
  mt_copy_LabelSelector :: copier

text \<open>Assigning a \<open>TypeMeta\<close> or a \<open>Duration\<close> copies it, and the others have copying functions that are right.\<close>

definition meta_ok :: "meta_types \<Rightarrow> bool" where
  "meta_ok M \<longleftrightarrow>
     flat (mt_TypeMeta M) \<and> flat (mt_Duration M) \<and> copies (mt_ObjectMeta M) (mt_copy_ObjectMeta M)
     \<and> copies (mt_ListMeta M) (mt_copy_ListMeta M) \<and> copies (mt_Time M) (mt_copy_Time M)
     \<and> copies (mt_Condition M) (mt_copy_Condition M) \<and> copies (mt_LabelSelector M) (mt_copy_LabelSelector M)"

definition TargetReference_shape :: "shape" where [shapes]:
  "TargetReference_shape = Fields
    [(''APIGroup'', Flat), (''Version'', Flat), (''Resource'', Flat), (''Kind'', Flat), (''Namespace'', Flat),
     (''Name'', Flat), (''UID'', Flat)]"

definition ObjectIdentityReference_shape :: "shape" where [shapes]:
  "ObjectIdentityReference_shape = Fields
    [(''Name'', Flat), (''UID'', Flat)]"

definition PolicyReference_shape :: "shape" where [shapes]:
  "PolicyReference_shape = Fields
    [(''Name'', Flat), (''UID'', Flat), (''Generation'', Flat)]"

definition ControllerReference_shape :: "shape" where [shapes]:
  "ControllerReference_shape = Fields
    [(''APIVersion'', Flat), (''Kind'', Flat), (''Namespace'', Flat), (''Name'', Flat)]"

definition Finding_shape :: "shape" where [shapes]:
  "Finding_shape = Fields
    [(''ID'', Flat), (''Type'', Flat), (''Message'', Flat), (''ResourceRef'', Pointer TargetReference_shape),
     (''Finalizer'', Flat), (''APIService'', Flat), (''Webhook'', Flat),
     (''ControllerRef'', Pointer ControllerReference_shape), (''Count'', Pointer Flat), (''Truncated'', Flat)]"

definition TargetSnapshot_shape :: "shape" where [shapes]:
  "TargetSnapshot_shape = Fields
    [(''ResourceVersion'', Flat), (''MetadataFinalizers'', Sequence Flat), (''NamespaceFinalizers'', Sequence Flat)]"

definition RemediationAction_shape :: "shape" where [shapes]:
  "RemediationAction_shape = Fields
    [(''ID'', Flat), (''Type'', Flat), (''Risk'', Flat), (''Target'', TargetReference_shape), (''Finalizer'', Flat),
     (''Eligible'', Flat), (''IneligibleReason'', Flat), (''PreconditionResourceVersion'', Flat), (''Reason'', Flat)]"

definition TargetRule_shape :: "meta_types \<Rightarrow> shape" where [shapes]:
  "TargetRule_shape M = Fields
    [(''APIGroups'', Sequence Flat), (''Resources'', Sequence Flat),
     (''NamespaceSelector'', Pointer (mt_LabelSelector M)), (''ObjectSelector'', Pointer (mt_LabelSelector M)),
     (''ExcludedNamespaces'', Sequence Flat)]"

definition DiagnosisPolicy_shape :: "shape" where [shapes]:
  "DiagnosisPolicy_shape = Fields
    [(''CheckAPIServices'', Flat), (''CheckWebhooks'', Flat), (''MaxNamespaceObjects'', Flat),
     (''MaxCRDInstances'', Flat)]"

definition FinalizerOwner_shape :: "shape" where [shapes]:
  "FinalizerOwner_shape = Fields
    [(''Finalizer'', Flat), (''ControllerRef'', ControllerReference_shape)]"

definition RemediationPolicy_shape :: "meta_types \<Rightarrow> shape" where [shapes]:
  "RemediationPolicy_shape M = Fields
    [(''MaxRisk'', Flat), (''AllowedFinalizers'', Sequence Flat), (''AllowNamespaceForce'', Flat),
     (''ApprovalTTL'', mt_Duration M)]"

definition RetentionPolicy_shape :: "meta_types \<Rightarrow> shape" where [shapes]:
  "RetentionPolicy_shape M = Fields
    [(''ResolvedIncidentTTL'', mt_Duration M)]"

definition TerminationPolicySpec_shape :: "meta_types \<Rightarrow> shape" where [shapes]:
  "TerminationPolicySpec_shape M = Fields
    [(''Priority'', Flat), (''TargetRules'', Sequence (TargetRule_shape M)), (''TerminationAge'', mt_Duration M),
     (''Diagnosis'', DiagnosisPolicy_shape), (''FinalizerOwners'', Sequence FinalizerOwner_shape),
     (''Remediation'', RemediationPolicy_shape M), (''Retention'', RetentionPolicy_shape M)]"

definition TerminationPolicyStatus_shape :: "meta_types \<Rightarrow> shape" where [shapes]:
  "TerminationPolicyStatus_shape M = Fields
    [(''ObservedGeneration'', Flat), (''Conditions'', Sequence (mt_Condition M)),
     (''LastValidatedTime'', Pointer (mt_Time M)), (''ResolvedResourceCount'', Flat)]"

definition TerminationPolicy_shape :: "meta_types \<Rightarrow> shape" where [shapes]:
  "TerminationPolicy_shape M = Fields
    [(''TypeMeta'', mt_TypeMeta M), (''ObjectMeta'', mt_ObjectMeta M), (''Spec'', TerminationPolicySpec_shape M),
     (''Status'', TerminationPolicyStatus_shape M)]"

definition TerminationPolicyList_shape :: "meta_types \<Rightarrow> shape" where [shapes]:
  "TerminationPolicyList_shape M = Fields
    [(''TypeMeta'', mt_TypeMeta M), (''ListMeta'', mt_ListMeta M), (''Items'', Sequence (TerminationPolicy_shape M))]"

definition RemediationApprovalSpec_shape :: "shape" where [shapes]:
  "RemediationApprovalSpec_shape = Fields
    [(''IncidentRef'', ObjectIdentityReference_shape), (''ActionID'', Flat), (''DryRun'', Flat), (''Reason'', Flat)]"

definition RemediationAttempt_shape :: "meta_types \<Rightarrow> shape" where [shapes]:
  "RemediationAttempt_shape M = Fields
    [(''Time'', mt_Time M), (''ActionType'', Flat), (''DryRun'', Flat), (''ResourceVersionBefore'', Flat),
     (''ResourceVersionAfter'', Flat), (''Result'', Flat), (''ErrorReason'', Flat), (''Message'', Flat)]"

definition RemediationApprovalStatus_shape :: "meta_types \<Rightarrow> shape" where [shapes]:
  "RemediationApprovalStatus_shape M = Fields
    [(''Phase'', Flat), (''Result'', Flat), (''ObservedGeneration'', Flat), (''StartedTime'', Pointer (mt_Time M)),
     (''CompletedTime'', Pointer (mt_Time M)), (''Action'', Pointer RemediationAction_shape),
     (''Attempts'', Sequence (RemediationAttempt_shape M)), (''Conditions'', Sequence (mt_Condition M))]"

definition RemediationApproval_shape :: "meta_types \<Rightarrow> shape" where [shapes]:
  "RemediationApproval_shape M = Fields
    [(''TypeMeta'', mt_TypeMeta M), (''ObjectMeta'', mt_ObjectMeta M), (''Spec'', RemediationApprovalSpec_shape),
     (''Status'', RemediationApprovalStatus_shape M)]"

definition RemediationApprovalList_shape :: "meta_types \<Rightarrow> shape" where [shapes]:
  "RemediationApprovalList_shape M = Fields
    [(''TypeMeta'', mt_TypeMeta M), (''ListMeta'', mt_ListMeta M),
     (''Items'', Sequence (RemediationApproval_shape M))]"

definition DeletionIncidentSpec_shape :: "meta_types \<Rightarrow> shape" where [shapes]:
  "DeletionIncidentSpec_shape M = Fields
    [(''Target'', TargetReference_shape), (''FirstObservedTime'', mt_Time M)]"

definition DeletionIncidentStatus_shape :: "meta_types \<Rightarrow> shape" where [shapes]:
  "DeletionIncidentStatus_shape M = Fields
    [(''Phase'', Flat), (''ActivePolicyRef'', Pointer PolicyReference_shape),
     (''DeletionTimestamp'', Pointer (mt_Time M)), (''LastObservedTime'', Pointer (mt_Time M)),
     (''ActionEvidenceTime'', Pointer (mt_Time M)), (''ActionEvidenceExpiresTime'', Pointer (mt_Time M)),
     (''ResolvedTime'', Pointer (mt_Time M)), (''ResolutionReason'', Flat),
     (''TargetSnapshot'', TargetSnapshot_shape), (''Findings'', Sequence Finding_shape),
     (''RecommendedActions'', Sequence RemediationAction_shape), (''Conditions'', Sequence (mt_Condition M))]"

definition DeletionIncident_shape :: "meta_types \<Rightarrow> shape" where [shapes]:
  "DeletionIncident_shape M = Fields
    [(''TypeMeta'', mt_TypeMeta M), (''ObjectMeta'', mt_ObjectMeta M), (''Spec'', DeletionIncidentSpec_shape M),
     (''Status'', DeletionIncidentStatus_shape M)]"

definition DeletionIncidentList_shape :: "meta_types \<Rightarrow> shape" where [shapes]:
  "DeletionIncidentList_shape M = Fields
    [(''TypeMeta'', mt_TypeMeta M), (''ListMeta'', mt_ListMeta M), (''Items'', Sequence (DeletionIncident_shape M))]"

section \<open>Copying functions\<close>

text \<open>\<open>DeepCopyObject\<close>: the copy as an interface value, nil for nil.\<close>

definition copy_object :: "copier \<Rightarrow> copier" where
  "copy_object cp v m = (let (c, m1) = cp v m in if c \<noteq> Ref None then (c, m1) else (Ref None, m1))"

definition TargetReference_DeepCopyInto :: "copier" where
  "TargetReference_DeepCopyInto = copy_struct []"

definition TargetReference_DeepCopy :: "copier" where
  "TargetReference_DeepCopy = new_copy TargetReference_DeepCopyInto"

definition ObjectIdentityReference_DeepCopyInto :: "copier" where
  "ObjectIdentityReference_DeepCopyInto = copy_struct []"

definition ObjectIdentityReference_DeepCopy :: "copier" where
  "ObjectIdentityReference_DeepCopy = new_copy ObjectIdentityReference_DeepCopyInto"

definition PolicyReference_DeepCopyInto :: "copier" where
  "PolicyReference_DeepCopyInto = copy_struct []"

definition PolicyReference_DeepCopy :: "copier" where
  "PolicyReference_DeepCopy = new_copy PolicyReference_DeepCopyInto"

definition ControllerReference_DeepCopyInto :: "copier" where
  "ControllerReference_DeepCopyInto = copy_struct []"

definition ControllerReference_DeepCopy :: "copier" where
  "ControllerReference_DeepCopy = new_copy ControllerReference_DeepCopyInto"

definition Finding_DeepCopyInto :: "copier" where
  "Finding_DeepCopyInto = copy_struct
    [(''ResourceRef'', new_copy assign), (''ControllerRef'', new_copy assign), (''Count'', new_copy assign)]"

definition Finding_DeepCopy :: "copier" where
  "Finding_DeepCopy = new_copy Finding_DeepCopyInto"

definition TargetSnapshot_DeepCopyInto :: "copier" where
  "TargetSnapshot_DeepCopyInto = copy_struct
    [(''MetadataFinalizers'', make_copy assign), (''NamespaceFinalizers'', make_copy assign)]"

definition TargetSnapshot_DeepCopy :: "copier" where
  "TargetSnapshot_DeepCopy = new_copy TargetSnapshot_DeepCopyInto"

definition RemediationAction_DeepCopyInto :: "copier" where
  "RemediationAction_DeepCopyInto = copy_struct
    [(''Target'', assign)]"

definition RemediationAction_DeepCopy :: "copier" where
  "RemediationAction_DeepCopy = new_copy RemediationAction_DeepCopyInto"

definition TargetRule_DeepCopyInto :: "meta_types \<Rightarrow> copier" where
  "TargetRule_DeepCopyInto M = copy_struct
    [(''APIGroups'', make_copy assign), (''Resources'', make_copy assign),
     (''NamespaceSelector'', new_copy (mt_copy_LabelSelector M)),
     (''ObjectSelector'', new_copy (mt_copy_LabelSelector M)), (''ExcludedNamespaces'', make_copy assign)]"

definition TargetRule_DeepCopy :: "meta_types \<Rightarrow> copier" where
  "TargetRule_DeepCopy M = new_copy (TargetRule_DeepCopyInto M)"

definition DiagnosisPolicy_DeepCopyInto :: "copier" where
  "DiagnosisPolicy_DeepCopyInto = copy_struct []"

definition DiagnosisPolicy_DeepCopy :: "copier" where
  "DiagnosisPolicy_DeepCopy = new_copy DiagnosisPolicy_DeepCopyInto"

definition FinalizerOwner_DeepCopyInto :: "copier" where
  "FinalizerOwner_DeepCopyInto = copy_struct
    [(''ControllerRef'', assign)]"

definition FinalizerOwner_DeepCopy :: "copier" where
  "FinalizerOwner_DeepCopy = new_copy FinalizerOwner_DeepCopyInto"

definition RemediationPolicy_DeepCopyInto :: "meta_types \<Rightarrow> copier" where
  "RemediationPolicy_DeepCopyInto M = copy_struct
    [(''AllowedFinalizers'', make_copy assign), (''ApprovalTTL'', assign)]"

definition RemediationPolicy_DeepCopy :: "meta_types \<Rightarrow> copier" where
  "RemediationPolicy_DeepCopy M = new_copy (RemediationPolicy_DeepCopyInto M)"

definition RetentionPolicy_DeepCopyInto :: "meta_types \<Rightarrow> copier" where
  "RetentionPolicy_DeepCopyInto M = copy_struct
    [(''ResolvedIncidentTTL'', assign)]"

definition RetentionPolicy_DeepCopy :: "meta_types \<Rightarrow> copier" where
  "RetentionPolicy_DeepCopy M = new_copy (RetentionPolicy_DeepCopyInto M)"

definition TerminationPolicySpec_DeepCopyInto :: "meta_types \<Rightarrow> copier" where
  "TerminationPolicySpec_DeepCopyInto M = copy_struct
    [(''TargetRules'', make_copy (TargetRule_DeepCopyInto M)), (''TerminationAge'', assign), (''Diagnosis'', assign),
     (''FinalizerOwners'', make_copy assign), (''Remediation'', RemediationPolicy_DeepCopyInto M),
     (''Retention'', assign)]"

definition TerminationPolicySpec_DeepCopy :: "meta_types \<Rightarrow> copier" where
  "TerminationPolicySpec_DeepCopy M = new_copy (TerminationPolicySpec_DeepCopyInto M)"

definition TerminationPolicyStatus_DeepCopyInto :: "meta_types \<Rightarrow> copier" where
  "TerminationPolicyStatus_DeepCopyInto M = copy_struct
    [(''Conditions'', make_copy (mt_copy_Condition M)), (''LastValidatedTime'', new_copy (mt_copy_Time M))]"

definition TerminationPolicyStatus_DeepCopy :: "meta_types \<Rightarrow> copier" where
  "TerminationPolicyStatus_DeepCopy M = new_copy (TerminationPolicyStatus_DeepCopyInto M)"

definition TerminationPolicy_DeepCopyInto :: "meta_types \<Rightarrow> copier" where
  "TerminationPolicy_DeepCopyInto M = copy_struct
    [(''TypeMeta'', assign), (''ObjectMeta'', mt_copy_ObjectMeta M),
     (''Spec'', TerminationPolicySpec_DeepCopyInto M), (''Status'', TerminationPolicyStatus_DeepCopyInto M)]"

definition TerminationPolicy_DeepCopy :: "meta_types \<Rightarrow> copier" where
  "TerminationPolicy_DeepCopy M = new_copy (TerminationPolicy_DeepCopyInto M)"

definition TerminationPolicy_DeepCopyObject :: "meta_types \<Rightarrow> copier" where
  "TerminationPolicy_DeepCopyObject M = copy_object (TerminationPolicy_DeepCopy M)"

definition TerminationPolicyList_DeepCopyInto :: "meta_types \<Rightarrow> copier" where
  "TerminationPolicyList_DeepCopyInto M = copy_struct
    [(''TypeMeta'', assign), (''ListMeta'', mt_copy_ListMeta M),
     (''Items'', make_copy (TerminationPolicy_DeepCopyInto M))]"

definition TerminationPolicyList_DeepCopy :: "meta_types \<Rightarrow> copier" where
  "TerminationPolicyList_DeepCopy M = new_copy (TerminationPolicyList_DeepCopyInto M)"

definition TerminationPolicyList_DeepCopyObject :: "meta_types \<Rightarrow> copier" where
  "TerminationPolicyList_DeepCopyObject M = copy_object (TerminationPolicyList_DeepCopy M)"

definition RemediationApprovalSpec_DeepCopyInto :: "copier" where
  "RemediationApprovalSpec_DeepCopyInto = copy_struct
    [(''IncidentRef'', assign)]"

definition RemediationApprovalSpec_DeepCopy :: "copier" where
  "RemediationApprovalSpec_DeepCopy = new_copy RemediationApprovalSpec_DeepCopyInto"

definition RemediationAttempt_DeepCopyInto :: "meta_types \<Rightarrow> copier" where
  "RemediationAttempt_DeepCopyInto M = copy_struct
    [(''Time'', mt_copy_Time M)]"

definition RemediationAttempt_DeepCopy :: "meta_types \<Rightarrow> copier" where
  "RemediationAttempt_DeepCopy M = new_copy (RemediationAttempt_DeepCopyInto M)"

definition RemediationApprovalStatus_DeepCopyInto :: "meta_types \<Rightarrow> copier" where
  "RemediationApprovalStatus_DeepCopyInto M = copy_struct
    [(''StartedTime'', new_copy (mt_copy_Time M)), (''CompletedTime'', new_copy (mt_copy_Time M)),
     (''Action'', new_copy assign), (''Attempts'', make_copy (RemediationAttempt_DeepCopyInto M)),
     (''Conditions'', make_copy (mt_copy_Condition M))]"

definition RemediationApprovalStatus_DeepCopy :: "meta_types \<Rightarrow> copier" where
  "RemediationApprovalStatus_DeepCopy M = new_copy (RemediationApprovalStatus_DeepCopyInto M)"

definition RemediationApproval_DeepCopyInto :: "meta_types \<Rightarrow> copier" where
  "RemediationApproval_DeepCopyInto M = copy_struct
    [(''TypeMeta'', assign), (''ObjectMeta'', mt_copy_ObjectMeta M), (''Spec'', assign),
     (''Status'', RemediationApprovalStatus_DeepCopyInto M)]"

definition RemediationApproval_DeepCopy :: "meta_types \<Rightarrow> copier" where
  "RemediationApproval_DeepCopy M = new_copy (RemediationApproval_DeepCopyInto M)"

definition RemediationApproval_DeepCopyObject :: "meta_types \<Rightarrow> copier" where
  "RemediationApproval_DeepCopyObject M = copy_object (RemediationApproval_DeepCopy M)"

definition RemediationApprovalList_DeepCopyInto :: "meta_types \<Rightarrow> copier" where
  "RemediationApprovalList_DeepCopyInto M = copy_struct
    [(''TypeMeta'', assign), (''ListMeta'', mt_copy_ListMeta M),
     (''Items'', make_copy (RemediationApproval_DeepCopyInto M))]"

definition RemediationApprovalList_DeepCopy :: "meta_types \<Rightarrow> copier" where
  "RemediationApprovalList_DeepCopy M = new_copy (RemediationApprovalList_DeepCopyInto M)"

definition RemediationApprovalList_DeepCopyObject :: "meta_types \<Rightarrow> copier" where
  "RemediationApprovalList_DeepCopyObject M = copy_object (RemediationApprovalList_DeepCopy M)"

definition DeletionIncidentSpec_DeepCopyInto :: "meta_types \<Rightarrow> copier" where
  "DeletionIncidentSpec_DeepCopyInto M = copy_struct
    [(''Target'', assign), (''FirstObservedTime'', mt_copy_Time M)]"

definition DeletionIncidentSpec_DeepCopy :: "meta_types \<Rightarrow> copier" where
  "DeletionIncidentSpec_DeepCopy M = new_copy (DeletionIncidentSpec_DeepCopyInto M)"

definition DeletionIncidentStatus_DeepCopyInto :: "meta_types \<Rightarrow> copier" where
  "DeletionIncidentStatus_DeepCopyInto M = copy_struct
    [(''ActivePolicyRef'', new_copy assign), (''DeletionTimestamp'', new_copy (mt_copy_Time M)),
     (''LastObservedTime'', new_copy (mt_copy_Time M)), (''ActionEvidenceTime'', new_copy (mt_copy_Time M)),
     (''ActionEvidenceExpiresTime'', new_copy (mt_copy_Time M)), (''ResolvedTime'', new_copy (mt_copy_Time M)),
     (''TargetSnapshot'', TargetSnapshot_DeepCopyInto), (''Findings'', make_copy Finding_DeepCopyInto),
     (''RecommendedActions'', make_copy assign), (''Conditions'', make_copy (mt_copy_Condition M))]"

definition DeletionIncidentStatus_DeepCopy :: "meta_types \<Rightarrow> copier" where
  "DeletionIncidentStatus_DeepCopy M = new_copy (DeletionIncidentStatus_DeepCopyInto M)"

definition DeletionIncident_DeepCopyInto :: "meta_types \<Rightarrow> copier" where
  "DeletionIncident_DeepCopyInto M = copy_struct
    [(''TypeMeta'', assign), (''ObjectMeta'', mt_copy_ObjectMeta M), (''Spec'', DeletionIncidentSpec_DeepCopyInto M),
     (''Status'', DeletionIncidentStatus_DeepCopyInto M)]"

definition DeletionIncident_DeepCopy :: "meta_types \<Rightarrow> copier" where
  "DeletionIncident_DeepCopy M = new_copy (DeletionIncident_DeepCopyInto M)"

definition DeletionIncident_DeepCopyObject :: "meta_types \<Rightarrow> copier" where
  "DeletionIncident_DeepCopyObject M = copy_object (DeletionIncident_DeepCopy M)"

definition DeletionIncidentList_DeepCopyInto :: "meta_types \<Rightarrow> copier" where
  "DeletionIncidentList_DeepCopyInto M = copy_struct
    [(''TypeMeta'', assign), (''ListMeta'', mt_copy_ListMeta M),
     (''Items'', make_copy (DeletionIncident_DeepCopyInto M))]"

definition DeletionIncidentList_DeepCopy :: "meta_types \<Rightarrow> copier" where
  "DeletionIncidentList_DeepCopy M = new_copy (DeletionIncidentList_DeepCopyInto M)"

definition DeletionIncidentList_DeepCopyObject :: "meta_types \<Rightarrow> copier" where
  "DeletionIncidentList_DeepCopyObject M = copy_object (DeletionIncidentList_DeepCopy M)"

text \<open>All of them, with the type they copy.\<close>

definition generated_copies :: "meta_types \<Rightarrow> (shape \<times> copier) list" where
  "generated_copies M =
     [(TargetReference_shape, TargetReference_DeepCopy),
      (ObjectIdentityReference_shape, ObjectIdentityReference_DeepCopy),
      (PolicyReference_shape, PolicyReference_DeepCopy), (ControllerReference_shape, ControllerReference_DeepCopy),
      (Finding_shape, Finding_DeepCopy), (TargetSnapshot_shape, TargetSnapshot_DeepCopy),
      (RemediationAction_shape, RemediationAction_DeepCopy), (TargetRule_shape M, TargetRule_DeepCopy M),
      (DiagnosisPolicy_shape, DiagnosisPolicy_DeepCopy), (FinalizerOwner_shape, FinalizerOwner_DeepCopy),
      (RemediationPolicy_shape M, RemediationPolicy_DeepCopy M),
      (RetentionPolicy_shape M, RetentionPolicy_DeepCopy M),
      (TerminationPolicySpec_shape M, TerminationPolicySpec_DeepCopy M),
      (TerminationPolicyStatus_shape M, TerminationPolicyStatus_DeepCopy M),
      (TerminationPolicy_shape M, TerminationPolicy_DeepCopy M),
      (TerminationPolicyList_shape M, TerminationPolicyList_DeepCopy M),
      (RemediationApprovalSpec_shape, RemediationApprovalSpec_DeepCopy),
      (RemediationAttempt_shape M, RemediationAttempt_DeepCopy M),
      (RemediationApprovalStatus_shape M, RemediationApprovalStatus_DeepCopy M),
      (RemediationApproval_shape M, RemediationApproval_DeepCopy M),
      (RemediationApprovalList_shape M, RemediationApprovalList_DeepCopy M),
      (DeletionIncidentSpec_shape M, DeletionIncidentSpec_DeepCopy M),
      (DeletionIncidentStatus_shape M, DeletionIncidentStatus_DeepCopy M),
      (DeletionIncident_shape M, DeletionIncident_DeepCopy M),
      (DeletionIncidentList_shape M, DeletionIncidentList_DeepCopy M),
      (TerminationPolicy_shape M, TerminationPolicy_DeepCopyObject M),
      (TerminationPolicyList_shape M, TerminationPolicyList_DeepCopyObject M),
      (RemediationApproval_shape M, RemediationApproval_DeepCopyObject M),
      (RemediationApprovalList_shape M, RemediationApprovalList_DeepCopyObject M),
      (DeletionIncident_shape M, DeletionIncident_DeepCopyObject M),
      (DeletionIncidentList_shape M, DeletionIncidentList_DeepCopyObject M)]"

section \<open>They are right\<close>

lemma flat_types [simp]:
  "flat TargetReference_shape"
  "flat ObjectIdentityReference_shape"
  "flat PolicyReference_shape"
  "flat ControllerReference_shape"
  "flat RemediationAction_shape"
  "flat DiagnosisPolicy_shape"
  "flat FinalizerOwner_shape"
  "flat RemediationApprovalSpec_shape"
  by (simp_all add: shapes)

lemma flat_meta_types:
  assumes "meta_ok M"
  shows "flat (RetentionPolicy_shape M)"
  using assms by (simp_all add: shapes meta_ok_def)

lemmas copy_rules = covers_def copies_assign copies_new copies_make

lemma plain_copies:
  "copies TargetReference_shape TargetReference_DeepCopyInto"
  "copies ObjectIdentityReference_shape ObjectIdentityReference_DeepCopyInto"
  "copies PolicyReference_shape PolicyReference_DeepCopyInto"
  "copies ControllerReference_shape ControllerReference_DeepCopyInto"
  "copies Finding_shape Finding_DeepCopyInto"
  "copies TargetSnapshot_shape TargetSnapshot_DeepCopyInto"
  "copies RemediationAction_shape RemediationAction_DeepCopyInto"
  "copies DiagnosisPolicy_shape DiagnosisPolicy_DeepCopyInto"
  "copies FinalizerOwner_shape FinalizerOwner_DeepCopyInto"
  "copies RemediationApprovalSpec_shape RemediationApprovalSpec_DeepCopyInto"
  unfolding
    TargetReference_shape_def TargetReference_DeepCopyInto_def ObjectIdentityReference_shape_def
    ObjectIdentityReference_DeepCopyInto_def PolicyReference_shape_def PolicyReference_DeepCopyInto_def
    ControllerReference_shape_def ControllerReference_DeepCopyInto_def Finding_shape_def Finding_DeepCopyInto_def
    TargetSnapshot_shape_def TargetSnapshot_DeepCopyInto_def RemediationAction_shape_def
    RemediationAction_DeepCopyInto_def DiagnosisPolicy_shape_def DiagnosisPolicy_DeepCopyInto_def
    FinalizerOwner_shape_def FinalizerOwner_DeepCopyInto_def RemediationApprovalSpec_shape_def
    RemediationApprovalSpec_DeepCopyInto_def
  by (rule copies_struct, simp add: copy_rules)+

text \<open>Types whose fields are plain or of apimachinery, then those that contain them, the objects and the lists.\<close>

lemma member_copies:
  assumes "meta_ok M"
  shows
    "copies (TargetRule_shape M) (TargetRule_DeepCopyInto M)"
    "copies (RemediationPolicy_shape M) (RemediationPolicy_DeepCopyInto M)"
    "copies (RetentionPolicy_shape M) (RetentionPolicy_DeepCopyInto M)"
    "copies (TerminationPolicyStatus_shape M) (TerminationPolicyStatus_DeepCopyInto M)"
    "copies (RemediationAttempt_shape M) (RemediationAttempt_DeepCopyInto M)"
    "copies (DeletionIncidentSpec_shape M) (DeletionIncidentSpec_DeepCopyInto M)"
    "copies (DeletionIncidentStatus_shape M) (DeletionIncidentStatus_DeepCopyInto M)"
  unfolding
    TargetRule_shape_def TargetRule_DeepCopyInto_def RemediationPolicy_shape_def RemediationPolicy_DeepCopyInto_def
    RetentionPolicy_shape_def RetentionPolicy_DeepCopyInto_def TerminationPolicyStatus_shape_def
    TerminationPolicyStatus_DeepCopyInto_def RemediationAttempt_shape_def RemediationAttempt_DeepCopyInto_def
    DeletionIncidentSpec_shape_def DeletionIncidentSpec_DeepCopyInto_def DeletionIncidentStatus_shape_def
    DeletionIncidentStatus_DeepCopyInto_def
  by (rule copies_struct, use assms in \<open>simp add: copy_rules meta_ok_def
      plain_copies\<close>)+

lemma section_copies:
  assumes "meta_ok M"
  shows
    "copies (TerminationPolicySpec_shape M) (TerminationPolicySpec_DeepCopyInto M)"
    "copies (RemediationApprovalStatus_shape M) (RemediationApprovalStatus_DeepCopyInto M)"
    "copies (DeletionIncident_shape M) (DeletionIncident_DeepCopyInto M)"
  unfolding
    TerminationPolicySpec_shape_def TerminationPolicySpec_DeepCopyInto_def RemediationApprovalStatus_shape_def
    RemediationApprovalStatus_DeepCopyInto_def DeletionIncident_shape_def DeletionIncident_DeepCopyInto_def
  by (rule copies_struct, use assms in \<open>simp add: copy_rules meta_ok_def
      plain_copies member_copies[OF assms] flat_meta_types[OF assms]\<close>)+

lemma object_copies:
  assumes "meta_ok M"
  shows
    "copies (TerminationPolicy_shape M) (TerminationPolicy_DeepCopyInto M)"
    "copies (RemediationApproval_shape M) (RemediationApproval_DeepCopyInto M)"
    "copies (DeletionIncidentList_shape M) (DeletionIncidentList_DeepCopyInto M)"
  unfolding
    TerminationPolicy_shape_def TerminationPolicy_DeepCopyInto_def RemediationApproval_shape_def
    RemediationApproval_DeepCopyInto_def DeletionIncidentList_shape_def DeletionIncidentList_DeepCopyInto_def
  by (rule copies_struct, use assms in \<open>simp add: copy_rules meta_ok_def
      plain_copies member_copies[OF assms] section_copies[OF assms] flat_meta_types[OF assms]\<close>)+

lemma list_copies:
  assumes "meta_ok M"
  shows
    "copies (TerminationPolicyList_shape M) (TerminationPolicyList_DeepCopyInto M)"
    "copies (RemediationApprovalList_shape M) (RemediationApprovalList_DeepCopyInto M)"
  unfolding
    TerminationPolicyList_shape_def TerminationPolicyList_DeepCopyInto_def RemediationApprovalList_shape_def
    RemediationApprovalList_DeepCopyInto_def
  by (rule copies_struct, use assms in \<open>simp add: copy_rules meta_ok_def
      plain_copies member_copies[OF assms] section_copies[OF assms] object_copies[OF assms] flat_meta_types[OF assms]\<close>)+

lemma copies_object: "copies s cp \<Longrightarrow> copies s (copy_object cp)"
  unfolding copies_def copy_object_def by (fastforce split: prod.splits)

lemmas DeepCopy_defs =
  TargetReference_DeepCopy_def ObjectIdentityReference_DeepCopy_def PolicyReference_DeepCopy_def
  ControllerReference_DeepCopy_def Finding_DeepCopy_def TargetSnapshot_DeepCopy_def RemediationAction_DeepCopy_def
  TargetRule_DeepCopy_def DiagnosisPolicy_DeepCopy_def FinalizerOwner_DeepCopy_def RemediationPolicy_DeepCopy_def
  RetentionPolicy_DeepCopy_def TerminationPolicySpec_DeepCopy_def TerminationPolicyStatus_DeepCopy_def
  TerminationPolicy_DeepCopy_def TerminationPolicyList_DeepCopy_def RemediationApprovalSpec_DeepCopy_def
  RemediationAttempt_DeepCopy_def RemediationApprovalStatus_DeepCopy_def RemediationApproval_DeepCopy_def
  RemediationApprovalList_DeepCopy_def DeletionIncidentSpec_DeepCopy_def DeletionIncidentStatus_DeepCopy_def
  DeletionIncident_DeepCopy_def DeletionIncidentList_DeepCopy_def TerminationPolicy_DeepCopyObject_def
  TerminationPolicyList_DeepCopyObject_def RemediationApproval_DeepCopyObject_def
  RemediationApprovalList_DeepCopyObject_def DeletionIncident_DeepCopyObject_def
  DeletionIncidentList_DeepCopyObject_def

lemma generated_copies_right:
  assumes "meta_ok M" "(s, cp) \<in> set (generated_copies M)"
  shows "copies (Pointer s) cp"
proof -
  have "list_all (\<lambda>(s, cp). copies (Pointer s) cp) (generated_copies M)"
    unfolding generated_copies_def DeepCopy_defs
    by (simp add: copies_object copies_new plain_copies member_copies[OF assms(1)] section_copies[OF assms(1)]
        object_copies[OF assms(1)] list_copies[OF assms(1)])
  then show ?thesis using assms(2) by (auto simp: list_all_iff)
qed

text \<open>
  C39.  Every generated \<open>DeepCopy\<close> and \<open>DeepCopyObject\<close> of a pointer, nil or not, leaves the memory it finds alone and
  gives a pointer to an equal value.  The copy is independent: after it, storing anything in a cell that one of
  the two values reaches does not change what the other one is.
\<close>

theorem deep_copies_independent:
  assumes "meta_ok M" and "(s, cp) \<in> set (generated_copies M)" and "decode (Pointer s) m v = Some t"
  shows "\<exists>x ms. cp v m = (x, m @ ms) \<and> decode (Pointer s) (m @ ms) x = Some t \<and> decode (Pointer s) (m @ ms) v = Some t
    \<and> (\<forall>a c. a \<in> cells (Pointer s) (m @ ms) x \<longrightarrow> decode (Pointer s) ((m @ ms)[a := c]) v = Some t)
    \<and> (\<forall>a c. a \<in> cells (Pointer s) (m @ ms) v \<longrightarrow> decode (Pointer s) ((m @ ms)[a := c]) x = Some t)"
  by (rule copies_independent[OF generated_copies_right[OF assms(1,2)] assms(3)])

text \<open>An incident status with one finding that refers to an object, and stand-ins for the types of apimachinery.\<close>

definition sample_meta :: meta_types where
  "sample_meta =
     \<lparr>mt_TypeMeta = Fields [(''Kind'', Flat), (''APIVersion'', Flat)],
      mt_ObjectMeta = Fields [(''Name'', Flat), (''UID'', Flat), (''Finalizers'', Sequence Flat)],
      mt_ListMeta = Fields [(''ResourceVersion'', Flat), (''RemainingItemCount'', Pointer Flat)],
      mt_Time = Flat, mt_Duration = Flat, mt_Condition = Fields [(''Type'', Flat), (''Status'', Flat)],
      mt_LabelSelector = Fields [(''MatchExpressions'', Sequence Flat)],
      mt_copy_ObjectMeta = copy_struct [(''Finalizers'', make_copy assign)],
      mt_copy_ListMeta = copy_struct [(''RemainingItemCount'', new_copy assign)],
      mt_copy_Time = assign, mt_copy_Condition = copy_struct [],
      mt_copy_LabelSelector = copy_struct [(''MatchExpressions'', make_copy assign)]\<rparr>"

definition sample_mem :: mem where
  "sample_mem =
     [[Struct (map (\<lambda>n. (n, Scalar n)) [''APIGroup'', ''Version'', ''Resource'', ''Kind'', ''Namespace'', ''Name'', ''UID''])],
      [Struct [(''ID'', Scalar ''f''), (''Type'', Scalar ''Unknown''), (''Message'', Scalar ''m''), (''ResourceRef'', Ref (Some 0)),
        (''Finalizer'', Scalar []), (''APIService'', Scalar []), (''Webhook'', Scalar []), (''ControllerRef'', Ref None),
        (''Count'', Ref None), (''Truncated'', Scalar ''false'')]],
      [Struct [(''Phase'', Scalar ''Active''), (''ActivePolicyRef'', Ref None), (''DeletionTimestamp'', Ref None),
        (''LastObservedTime'', Ref None), (''ActionEvidenceTime'', Ref None), (''ActionEvidenceExpiresTime'', Ref None),
        (''ResolvedTime'', Ref None), (''ResolutionReason'', Scalar []),
        (''TargetSnapshot'', Struct [(''ResourceVersion'', Scalar ''1''), (''MetadataFinalizers'', Ref None),
          (''NamespaceFinalizers'', Ref None)]),
        (''Findings'', Ref (Some 1)), (''RecommendedActions'', Ref None), (''Conditions'', Ref None)]]]"

lemma sample_meta_ok: "meta_ok sample_meta"
  unfolding meta_ok_def by (simp add: sample_meta_def copies_struct copy_rules)

theorem deep_copies_independent_witness:
  "case DeletionIncidentStatus_DeepCopy sample_meta (Ref (Some 2)) sample_mem of
     (x, m) \<Rightarrow> decode (Pointer (DeletionIncidentStatus_shape sample_meta)) (m[1 := []]) x
         = decode (Pointer (DeletionIncidentStatus_shape sample_meta)) sample_mem (Ref (Some 2))
       \<and> decode (Pointer (DeletionIncidentStatus_shape sample_meta)) (m[1 := []]) (Ref (Some 2))
         \<noteq> decode (Pointer (DeletionIncidentStatus_shape sample_meta)) sample_mem (Ref (Some 2))"
proof -
  let ?s = "DeletionIncidentStatus_shape sample_meta" and ?cp = "DeletionIncidentStatus_DeepCopy sample_meta"
  have "decode (Pointer ?s) sample_mem (Ref (Some 2)) \<noteq> None" by code_simp
  then obtain t where t: "decode (Pointer ?s) sample_mem (Ref (Some 2)) = Some t" by blast
  have "(?s, ?cp) \<in> set (generated_copies sample_meta)" by (simp add: generated_copies_def)
  from deep_copies_independent[OF sample_meta_ok this t] obtain x ms where
    run: "?cp (Ref (Some 2)) sample_mem = (x, sample_mem @ ms)"
    and indep: "\<forall>a c. a \<in> cells (Pointer ?s) (sample_mem @ ms) (Ref (Some 2)) \<longrightarrow>
      decode (Pointer ?s) ((sample_mem @ ms)[a := c]) x = Some t" by blast
  have "1 \<in> cells (Pointer ?s) sample_mem (Ref (Some 2))" by code_simp
  then have "1 \<in> cells (Pointer ?s) (sample_mem @ ms) (Ref (Some 2))" using decode_append(2)[OF t] by simp
  then have "decode (Pointer ?s) ((sample_mem @ ms)[1 := []]) x = Some t" using indep by blast
  moreover have "case ?cp (Ref (Some 2)) sample_mem of (x, m) \<Rightarrow>
      decode (Pointer ?s) (m[1 := []]) (Ref (Some 2)) \<noteq> decode (Pointer ?s) sample_mem (Ref (Some 2))" by code_simp
  ultimately show ?thesis using run t by simp
qed

end
