(* ===== verification/Go_Runtime.thy ===== *)
theory Go_Runtime
  imports EG_Prelude
begin

text \<open>
  The parts of the Go language and its standard library that the modelled sources use: strings as
  byte sequences with their UTF-8 decoding into runes, decimal and quoted formatting,
  \<open>strings.Join\<close>, \<open>slices.Index\<close>, saturating time differences and 64-bit wrap-around.

  A Go string is a sequence of bytes, here a \<^typ>\<open>string\<close> whose characters are the bytes; Go's
  \<open><\<close> on strings is the lexicographic order of the bytes, which is the order \<^typ>\<open>string\<close> has here.
  A rune is a natural number.
\<close>

section \<open>Runes\<close>

type_synonym rune = nat

definition runeError :: rune where
  "runeError = 0xFFFD"

definition byte_vals :: "string \<Rightarrow> nat list" where
  "byte_vals s = map of_char s"

definition of_bytes :: "nat list \<Rightarrow> string" where
  "of_bytes bs = map char_of bs"

definition continuation :: "nat \<Rightarrow> bool" where
  "continuation b \<longleftrightarrow> 0x80 \<le> b \<and> b \<le> 0xBF"

text \<open>
  Decoding of the first rune of a byte sequence, with its width.  An ill-formed sequence gives
  \<open>runeError\<close> with width 1, as \<open>utf8.DecodeRune\<close> and the range loop over a string do; overlong
  forms, surrogates and values above \<open>0x10FFFF\<close> are ill-formed.
\<close>

definition decode2 :: "nat \<Rightarrow> nat \<Rightarrow> (rune \<times> nat)" where
  "decode2 b0 b1 =
     (if continuation b1 then ((b0 - 0xC0) * 64 + (b1 - 0x80), 2) else (runeError, 1))"

definition decode3 :: "nat \<Rightarrow> nat \<Rightarrow> nat \<Rightarrow> (rune \<times> nat)" where
  "decode3 b0 b1 b2 =
     (if (if b0 = 0xE0 then 0xA0 else 0x80) \<le> b1 \<and> b1 \<le> (if b0 = 0xED then 0x9F else 0xBF)
         \<and> continuation b2
      then ((b0 - 0xE0) * 4096 + (b1 - 0x80) * 64 + (b2 - 0x80), 3) else (runeError, 1))"

definition decode4 :: "nat \<Rightarrow> nat \<Rightarrow> nat \<Rightarrow> nat \<Rightarrow> (rune \<times> nat)" where
  "decode4 b0 b1 b2 b3 =
     (if (if b0 = 0xF0 then 0x90 else 0x80) \<le> b1 \<and> b1 \<le> (if b0 = 0xF4 then 0x8F else 0xBF)
         \<and> continuation b2 \<and> continuation b3
      then ((b0 - 0xF0) * 262144 + (b1 - 0x80) * 4096 + (b2 - 0x80) * 64 + (b3 - 0x80), 4)
      else (runeError, 1))"

definition decode_rune :: "nat \<Rightarrow> nat list \<Rightarrow> (rune \<times> nat)" where
  "decode_rune b0 rest =
     (if b0 < 0x80 then (b0, 1)
      else if 0xC2 \<le> b0 \<and> b0 \<le> 0xDF \<and> length rest \<ge> 1 then decode2 b0 (rest ! 0)
      else if 0xE0 \<le> b0 \<and> b0 \<le> 0xEF \<and> length rest \<ge> 2 then decode3 b0 (rest ! 0) (rest ! 1)
      else if 0xF0 \<le> b0 \<and> b0 \<le> 0xF4 \<and> length rest \<ge> 3
        then decode4 b0 (rest ! 0) (rest ! 1) (rest ! 2)
      else (runeError, 1))"

text \<open>The runes of a byte sequence, each with the bytes it was decoded from.\<close>

fun decode_all :: "nat list \<Rightarrow> (rune \<times> nat list) list" where
  "decode_all [] = []"
| "decode_all (b # bs) =
     (let (r, w) = decode_rune b bs
      in (r, b # take (w - 1) bs) # decode_all (drop (w - 1) bs))"

definition runes :: "nat list \<Rightarrow> rune list" where
  "runes bs = map fst (decode_all bs)"

definition valid_rune :: "rune \<Rightarrow> bool" where
  "valid_rune r \<longleftrightarrow> r < 0xD800 \<or> 0xE000 \<le> r \<and> r \<le> 0x10FFFF"

text \<open>\<open>utf8.AppendRune\<close>: an invalid rune is encoded as \<open>runeError\<close>.\<close>

definition encode_rune :: "rune \<Rightarrow> nat list" where
  "encode_rune r0 =
     (let r = (if valid_rune r0 then r0 else runeError)
      in if r < 0x80 then [r]
         else if r < 0x800 then [0xC0 + r div 64, 0x80 + r mod 64]
         else if r < 0x10000 then [0xE0 + r div 4096, 0x80 + r div 64 mod 64, 0x80 + r mod 64]
         else [0xF0 + r div 262144, 0x80 + r div 4096 mod 64, 0x80 + r div 64 mod 64, 0x80 + r mod 64])"

text \<open>The conversions \<open>[]rune(s)\<close> and \<open>string(runes)\<close>.\<close>

definition runes_of_string :: "string \<Rightarrow> rune list" where
  "runes_of_string s = runes (byte_vals s)"

definition string_of_runes :: "rune list \<Rightarrow> string" where
  "string_of_runes rs = of_bytes (concat (map encode_rune rs))"

text \<open>
  \<open>strings.Map\<close> with a mapping that keeps a rune or drops it: every kept rune is re-encoded, an
  ill-formed byte becomes \<open>runeError\<close>.
\<close>

definition strings_Map_keep :: "(rune \<Rightarrow> bool) \<Rightarrow> string \<Rightarrow> string" where
  "strings_Map_keep keep s = string_of_runes (filter keep (runes_of_string s))"

section \<open>Formatting\<close>

fun digits10 :: "nat \<Rightarrow> nat list" where
  "digits10 n = (if n < 10 then [n] else digits10 (n div 10) @ [n mod 10])"

declare digits10.simps [simp del]

definition nat_string :: "nat \<Rightarrow> string" where
  "nat_string n = map (\<lambda>d. char_of (48 + d)) (digits10 n)"

text \<open>\<open>strconv.FormatInt(_, 10)\<close> and the verb \<open>%d\<close>.\<close>

definition itoa :: "int \<Rightarrow> string" where
  "itoa i = (if i < 0 then ''-'' @ nat_string (nat (- i)) else nat_string (nat i))"

definition hex_digit :: "nat \<Rightarrow> char" where
  "hex_digit d = (if d < 10 then char_of (48 + d) else char_of (87 + d))"

text \<open>The lowest \<open>n\<close> hexadecimal digits of a number, most significant first.\<close>

fun hex_digits :: "nat \<Rightarrow> nat \<Rightarrow> string" where
  "hex_digits 0 x = []"
| "hex_digits (Suc n) x = hex_digits n (x div 16) @ [hex_digit (x mod 16)]"

text \<open>
  The verb \<open>%q\<close> (\<open>strconv.Quote\<close>).  \<open>strconv.IsPrint\<close> is decided by tables for runes above
  ASCII, so it is an argument; below \<open>0x80\<close> the printable runes are the ones from space to tilde.
\<close>

definition is_print :: "(rune \<Rightarrow> bool) \<Rightarrow> rune \<Rightarrow> bool" where
  "is_print isPrint r \<longleftrightarrow> (if r < 0x80 then 0x20 \<le> r \<and> r < 0x7F else isPrint r)"

definition quote_rune :: "(rune \<Rightarrow> bool) \<Rightarrow> rune \<times> nat list \<Rightarrow> string" where
  "quote_rune isPrint rb =
     (let r = fst rb; w = length (snd rb)
      in if r = runeError \<and> w = 1 then CHR 0x5C # ''x'' @ hex_digits 2 (hd (snd rb))
         else if r = 0x22 \<or> r = 0x5C then CHR 0x5C # of_bytes [r]
         else if is_print isPrint r then of_bytes (encode_rune r)
         else if r = 7 then CHR 0x5C # ''a''
         else if r = 8 then CHR 0x5C # ''b''
         else if r = 12 then CHR 0x5C # ''f''
         else if r = 10 then CHR 0x5C # ''n''
         else if r = 13 then CHR 0x5C # ''r''
         else if r = 9 then CHR 0x5C # ''t''
         else if r = 11 then CHR 0x5C # ''v''
         else if r < 0x20 \<or> r = 0x7F then CHR 0x5C # ''x'' @ hex_digits 2 r
         else if r < 0x10000 then CHR 0x5C # ''u'' @ hex_digits 4 r
         else CHR 0x5C # ''U'' @ hex_digits 8 r)"

definition quote :: "(rune \<Rightarrow> bool) \<Rightarrow> string \<Rightarrow> string" where
  "quote isPrint s =
     ''\"'' @ concat (map (quote_rune isPrint) (decode_all (byte_vals s))) @ ''\"''"

text \<open>\<open>strings.Join\<close>.\<close>

fun strings_Join :: "string list \<Rightarrow> string \<Rightarrow> string" where
  "strings_Join [] sep = []"
| "strings_Join [s] sep = s"
| "strings_Join (s # t # ss) sep = s @ sep @ strings_Join (t # ss) sep"

text \<open>
  \<open>strings.Contains\<close>, \<open>strings.ToLower\<close> and \<open>strconv.FormatBool\<close>.  \<open>unicode.ToLower\<close> is decided
  by tables for runes above ASCII, so it is an argument there.
\<close>

fun has_prefix :: "string \<Rightarrow> string \<Rightarrow> bool" where
  "has_prefix [] s = True"
| "has_prefix (p # ps) [] = False"
| "has_prefix (p # ps) (c # cs) = (p = c \<and> has_prefix ps cs)"

fun strings_Contains :: "string \<Rightarrow> string \<Rightarrow> bool" where
  "strings_Contains [] sub = (sub = [])"
| "strings_Contains (c # cs) sub = (has_prefix sub (c # cs) \<or> strings_Contains cs sub)"

definition strings_ToLower :: "(rune \<Rightarrow> rune) \<Rightarrow> string \<Rightarrow> string" where
  "strings_ToLower toLower s =
     string_of_runes (map (\<lambda>r. if r < 0x80 then (if 65 \<le> r \<and> r \<le> 90 then r + 32 else r) else toLower r)
       (runes_of_string s))"

definition format_bool :: "bool \<Rightarrow> string" where
  "format_bool b = (if b then ''true'' else ''false'')"

text \<open>\<open>slices.Index\<close>: the first position, or \<open>None\<close> for Go's \<open>-1\<close>.\<close>

fun slices_Index :: "'a list \<Rightarrow> 'a \<Rightarrow> nat option" where
  "slices_Index [] x = None"
| "slices_Index (y # ys) x = (if y = x then Some 0 else map_option Suc (slices_Index ys x))"

section \<open>Time and machine integers\<close>

text \<open>
  An instant is a number of nanoseconds since Go's zero time, a duration a number of nanoseconds.
  \<open>Time.Sub\<close> saturates at the range of a 64-bit duration; sums and products of durations wrap.
\<close>

type_synonym time = int
type_synonym duration = int

definition max_int64 :: int where "max_int64 = 2 ^ 63 - 1"
definition min_int64 :: int where "min_int64 = - (2 ^ 63)"

definition wrap64 :: "int \<Rightarrow> int" where
  "wrap64 i = (i + 2 ^ 63) mod 2 ^ 64 - 2 ^ 63"

definition wrap32 :: "int \<Rightarrow> int" where
  "wrap32 i = (i + 2 ^ 31) mod 2 ^ 32 - 2 ^ 31"

definition time_sub :: "time \<Rightarrow> time \<Rightarrow> duration" where
  "time_sub t u = max min_int64 (min max_int64 (t - u))"

definition time_IsZero :: "time \<Rightarrow> bool" where
  "time_IsZero t \<longleftrightarrow> t = 0"

definition second :: duration where "second = 1000000000"
definition minute :: duration where "minute = 60 * second"

section \<open>Facts\<close>

subsection \<open>UTF-8\<close>

lemma split64:
  fixes r :: nat
  obtains a b c d where "r = 64 * a + c" "a = 64 * b + d" "c < 64" "d < 64"
    "r div 64 = a" "r mod 64 = c" "a div 64 = b" "a mod 64 = d" "r div 4096 = b"
proof -
  have "r div 4096 = r div 64 div 64" by (simp flip: div_mult2_eq)
  then show ?thesis
    using that[of "r div 64" "r mod 64" "r div 64 div 64" "r div 64 mod 64"] by simp
qed

lemma decode_encode_rune:
  assumes "valid_rune r"
  shows "decode_all (encode_rune r @ bs) = (r, encode_rune r) # decode_all bs"
proof -
  obtain a b c d where q: "r = 64 * a + c" "a = 64 * b + d" "c < 64" "d < 64"
    "r div 64 = a" "r mod 64 = c" "a div 64 = b" "a mod 64 = d" "r div 4096 = b"
    by (rule split64)
  consider "r < 0x80" | "0x80 \<le> r" "r < 0x800" | "0x800 \<le> r" "r < 0x10000" | "0x10000 \<le> r"
    by linarith
  then show ?thesis
  proof cases
    case 1
    then show ?thesis using assms by (simp add: encode_rune_def decode_rune_def)
  next
    case 2
    then have "2 \<le> a" "a < 32" using q(1,3) by linarith+
    then have "decode_rune (0xC0 + a) ((0x80 + c) # bs) = (r, 2)"
      using q(1,3) by (simp add: decode_rune_def decode2_def continuation_def)
    then show ?thesis using 2 q assms by (simp add: encode_rune_def)
  next
    case 3
    have "b < 16" "b = 0 \<longrightarrow> 32 \<le> d" using 3 q(1-4) by linarith+
    moreover have "b = 13 \<longrightarrow> d \<le> 31" using 3 q(1-4) assms unfolding valid_rune_def by linarith
    ultimately have "decode_rune (0xE0 + b) [0x80 + d, 0x80 + c] = (r, 3)"
      using q(1-4) by (simp add: decode_rune_def decode3_def continuation_def)
    then have "decode_rune (0xE0 + b) ((0x80 + d) # (0x80 + c) # bs) = (r, 3)"
      using \<open>b < 16\<close> by (simp add: decode_rune_def)
    then show ?thesis using 3 q assms by (simp add: encode_rune_def)
  next
    case 4
    then have "r \<le> 0x10FFFF" using assms by (simp add: valid_rune_def)
    define e f where "e = b div 64" and "f = b mod 64"
    have b: "b = 64 * e + f" "f < 64" "r div 262144 = e"
      using q by (simp_all add: e_def f_def flip: div_mult2_eq)
    have "e \<le> 4" using \<open>r \<le> 0x10FFFF\<close> q(1-4) b(1,2) by linarith
    moreover have "e = 0 \<longrightarrow> 16 \<le> f" using 4 q(1-4) b(1,2) by linarith
    moreover have "e = 4 \<longrightarrow> f \<le> 15" using \<open>r \<le> 0x10FFFF\<close> q(1-4) b(1,2) by linarith
    ultimately have "decode_rune (0xF0 + e) ((0x80 + f) # (0x80 + d) # (0x80 + c) # bs) = (r, 4)"
      using q(1-4) b(1,2) by (simp add: decode_rune_def decode4_def continuation_def)
    moreover have "encode_rune r = [0xF0 + e, 0x80 + f, 0x80 + d, 0x80 + c]"
      using 4 assms q(5-9) b(3) by (simp add: encode_rune_def f_def)
    ultimately show ?thesis by simp
  qed
qed

lemma decode3_valid:
  assumes "0xE0 \<le> b0" "b0 \<le> 0xEF"
  shows "valid_rune (fst (decode3 b0 b1 b2))"
proof (cases "(if b0 = 0xE0 then 0xA0 else 0x80) \<le> b1 \<and> b1 \<le> (if b0 = 0xED then 0x9F else 0xBF) \<and> continuation b2")
  case True
  obtain x y z where xyz: "b0 = 0xE0 + x" "b1 = 0x80 + y" "b2 = 0x80 + z"
    using True assms by (auto simp: continuation_def le_iff_add split: if_splits)
  have "x * 4096 + y * 64 + z < 0xD800 \<or> 0xE000 \<le> x * 4096 + y * 64 + z"
    and "x * 4096 + y * 64 + z \<le> 0xFFFF"
    using True assms xyz by (auto simp: continuation_def split: if_splits)
  then show ?thesis using True xyz by (auto simp: decode3_def valid_rune_def)
next
  case False
  then have "decode3 b0 b1 b2 = (runeError, 1)" unfolding decode3_def by (rule if_not_P)
  then show ?thesis by (simp add: valid_rune_def runeError_def)
qed

lemma decode4_valid:
  assumes "0xF0 \<le> b0" "b0 \<le> 0xF4"
  shows "valid_rune (fst (decode4 b0 b1 b2 b3))"
proof (cases "(if b0 = 0xF0 then 0x90 else 0x80) \<le> b1 \<and> b1 \<le> (if b0 = 0xF4 then 0x8F else 0xBF)
    \<and> continuation b2 \<and> continuation b3")
  case True
  obtain x y z w where xyz: "b0 = 0xF0 + x" "b1 = 0x80 + y" "b2 = 0x80 + z" "b3 = 0x80 + w"
    using True assms by (auto simp: continuation_def le_iff_add split: if_splits)
  have "0x10000 \<le> x * 262144 + y * 4096 + z * 64 + w" and "x * 262144 + y * 4096 + z * 64 + w \<le> 0x10FFFF"
    using True assms xyz by (auto simp: continuation_def split: if_splits)
  then show ?thesis using True xyz by (auto simp: decode4_def valid_rune_def)
next
  case False
  then have "decode4 b0 b1 b2 b3 = (runeError, 1)" unfolding decode4_def by (rule if_not_P)
  then show ?thesis by (simp add: valid_rune_def runeError_def)
qed

lemma decode_rune_valid: "valid_rune (fst (decode_rune b bs))"
proof -
  have "0xC2 \<le> b0 \<Longrightarrow> b0 \<le> 0xDF \<Longrightarrow> valid_rune (fst (decode2 b0 b1))" for b0 b1
    by (auto simp: decode2_def continuation_def valid_rune_def runeError_def)
  then show ?thesis
    using decode3_valid decode4_valid
    by (simp add: decode_rune_def) (simp add: valid_rune_def runeError_def)
qed

lemma decode_all_valid: "list_all valid_rune (map fst (decode_all bs))"
proof (induction bs rule: decode_all.induct)
  case (2 b bs)
  obtain r w where rw: "decode_rune b bs = (r, w)" by (cases "decode_rune b bs")
  then have "valid_rune r" using decode_rune_valid[of b bs] by simp
  with 2 rw show ?case by simp
qed simp

lemma byte_vals_bound: "list_all (\<lambda>b. b < 256) (byte_vals s)"
  by (induction s) (simp_all add: byte_vals_def)

lemma encode_rune_bound: "list_all (\<lambda>b. b < 256) (encode_rune r)"
proof -
  define q where "q = (if valid_rune r then r else runeError)"
  have "q \<le> 0x10FFFF" by (auto simp: q_def valid_rune_def runeError_def)
  then have "q div 262144 \<le> 4" and "q < 0x10000 \<longrightarrow> q div 4096 < 16" and "q < 0x800 \<longrightarrow> q div 64 < 32"
    by linarith+
  moreover have "q mod 64 < 64" "q div 64 mod 64 < 64" "q div 4096 mod 64 < 64" by simp_all
  ultimately show ?thesis unfolding encode_rune_def q_def[symmetric] Let_def by auto
qed

lemma byte_vals_of_bytes: "list_all (\<lambda>b. b < 256) bs \<Longrightarrow> byte_vals (of_bytes bs) = bs"
  by (induction bs) (simp_all add: byte_vals_def of_bytes_def)

lemma encode_runes_bound: "list_all (\<lambda>b. b < 256) (concat (map encode_rune rs))"
  by (induction rs) (simp_all add: encode_rune_bound)

lemma runes_encoded_append:
  assumes "list_all valid_rune rs"
  shows "runes_of_string (string_of_runes rs @ s) = rs @ runes_of_string s"
proof -
  have "map fst (decode_all (concat (map encode_rune rs) @ bs)) = rs @ map fst (decode_all bs)" for bs
    using assms by (induction rs) (simp_all add: decode_encode_rune)
  moreover have "byte_vals (of_bytes (concat (map encode_rune rs)) @ s) = concat (map encode_rune rs) @ byte_vals s"
    using byte_vals_of_bytes[OF encode_runes_bound, of rs] by (simp add: byte_vals_def)
  ultimately show ?thesis by (simp add: runes_of_string_def string_of_runes_def runes_def)
qed

lemma runes_of_string_of_runes:
  assumes "list_all valid_rune rs"
  shows "runes_of_string (string_of_runes rs) = rs"
proof -
  have "map fst (decode_all (concat (map encode_rune rs))) = rs"
    using assms by (induction rs) (simp_all add: decode_encode_rune)
  then show ?thesis
    by (simp add: runes_of_string_def string_of_runes_def runes_def byte_vals_of_bytes encode_runes_bound)
qed

lemma runes_of_string_valid: "list_all valid_rune (runes_of_string s)"
  unfolding runes_of_string_def runes_def by (rule decode_all_valid)

lemma runes_take_valid: "list_all valid_rune (take n (runes_of_string s))"
  using runes_of_string_valid[of s] by (auto simp: list_all_iff dest: in_set_takeD)

lemma runes_filter_valid: "list_all valid_rune (filter P (runes_of_string s))"
  using runes_of_string_valid[of s] by (auto simp: list_all_iff)

subsection \<open>Formatting\<close>

lemma digits10_small: "d \<in> set (digits10 n) \<Longrightarrow> d < 10"
proof (induction n rule: digits10.induct)
  case (1 n)
  then show ?case by (subst (asm) (2) digits10.simps) (auto split: if_splits)
qed

lemma digits10_value: "foldl (\<lambda>a d. 10 * a + d) 0 (digits10 n) = n"
proof (induction n rule: digits10.induct)
  case (1 n)
  then show ?case by (subst digits10.simps) auto
qed

lemma digits10_inj: "digits10 m = digits10 n \<Longrightarrow> m = n"
  by (metis digits10_value)

lemma digits10_nonempty: "digits10 n \<noteq> []"
  by (subst digits10.simps) simp

lemma nat_string_inj:
  assumes eq: "nat_string m = nat_string n"
  shows "m = n"
proof -
  have "inj_on (\<lambda>d. char_of (48 + d) :: char) {..<10 :: nat}"
  proof (rule inj_onI)
    fix x y :: nat
    assume "x \<in> {..<10}" "y \<in> {..<10}" "(char_of (48 + x) :: char) = char_of (48 + y)"
    then show "x = y" using arg_cong[of "char_of (48 + x)" "char_of (48 + y)" "of_char :: char \<Rightarrow> nat"] by simp
  qed
  moreover have "set (digits10 m) \<union> set (digits10 n) \<subseteq> {..<10}" using digits10_small by auto
  ultimately have "inj_on (\<lambda>d. char_of (48 + d) :: char) (set (digits10 m) \<union> set (digits10 n))"
    by (rule inj_on_subset)
  with eq have "digits10 m = digits10 n" unfolding nat_string_def by (rule map_inj_on)
  then show ?thesis by (rule digits10_inj)
qed

lemma nat_string_digits: "c \<in> set (nat_string n) \<Longrightarrow> 48 \<le> (of_char c :: nat) \<and> (of_char c :: nat) < 58"
  by (auto simp: nat_string_def dest!: digits10_small)

lemma itoa_no_NUL: "CHR 0x00 \<notin> set (itoa i)"
  by (auto simp: itoa_def dest: nat_string_digits)

lemma itoa_inj:
  assumes eq: "itoa i = itoa j"
  shows "i = j"
proof -
  have minus: "nat_string n \<noteq> CHR ''-'' # s" for n s
  proof
    assume "nat_string n = CHR ''-'' # s"
    then have "CHR ''-'' \<in> set (nat_string n)" by simp
    then show False by (auto dest: nat_string_digits)
  qed
  consider "i < 0 \<longleftrightarrow> j < 0" | "i < 0" "0 \<le> j" | "0 \<le> i" "j < 0" by linarith
  then show ?thesis
  proof cases
    case 1
    then show ?thesis using eq by (auto simp: itoa_def split: if_splits dest!: nat_string_inj)
  next
    case 2
    then show ?thesis using eq minus[of "nat j" "nat_string (nat (- i))"] by (simp add: itoa_def)
  next
    case 3
    then show ?thesis using eq minus[of "nat i" "nat_string (nat (- j))"] by (simp add: itoa_def)
  qed
qed

lemma strings_Join_Cons: "ss \<noteq> [] \<Longrightarrow> strings_Join (s # ss) sep = s @ sep @ strings_Join ss sep"
  by (cases ss) auto

lemma strings_Join_inj:
  assumes "strings_Join xs [c] = strings_Join ys [c]" and "length xs = length ys"
    and "\<forall>s\<in>set xs \<union> set ys. c \<notin> set s"
  shows "xs = ys"
  using assms(2,1,3)
proof (induction xs ys rule: list_induct2)
  case (Cons x xs y ys)
  show ?case
  proof (cases "xs = []")
    case True
    with Cons show ?thesis by simp
  next
    case False
    then have "ys \<noteq> []" using Cons.hyps by auto
    have "x @ c # strings_Join xs [c] = y @ c # strings_Join ys [c]"
      using Cons.prems(1) False \<open>ys \<noteq> []\<close> by (simp add: strings_Join_Cons)
    then have "x = y \<and> strings_Join xs [c] = strings_Join ys [c]"
      using Cons.prems(2) by (subst (asm) append_sep_eq_iff) auto
    then show ?thesis using Cons.IH Cons.prems(2) by auto
  qed
qed simp

subsection \<open>Searching\<close>

lemma slices_Index_Some:
  "slices_Index xs x = Some i \<Longrightarrow> i < length xs \<and> xs ! i = x \<and> x \<notin> set (take i xs)"
  by (induction xs arbitrary: i) (auto split: if_splits)

lemma slices_Index_None: "slices_Index xs x = None \<longleftrightarrow> x \<notin> set xs"
  by (induction xs) auto

subsection \<open>Integers and time\<close>

lemma wrap64_id: "min_int64 \<le> i \<Longrightarrow> i \<le> max_int64 \<Longrightarrow> wrap64 i = i"
  by (simp add: wrap64_def min_int64_def max_int64_def)

lemma wrap64_range: "min_int64 \<le> wrap64 i" "wrap64 i \<le> max_int64"
  by (simp_all add: wrap64_def min_int64_def max_int64_def)

lemma wrap32_id: "- (2 ^ 31) \<le> i \<Longrightarrow> i < 2 ^ 31 \<Longrightarrow> wrap32 i = i"
  by (simp add: wrap32_def)

lemma time_sub_pos: "0 < time_sub t u \<longleftrightarrow> u < t"
  by (auto simp: time_sub_def min_int64_def max_int64_def)

lemma time_sub_le: "u \<le> t \<Longrightarrow> time_sub t u \<le> t - u"
  by (auto simp: time_sub_def min_int64_def max_int64_def)

end
