(* ===== verification/Go_Numbers.thy ===== *)
theory Go_Numbers
  imports Go_Runtime
begin

text \<open>
  Numbers and durations as text, in Go's standard library: \<open>strconv.ParseInt\<close> with base 0,
  \<open>time.ParseDuration\<close> and \<open>Duration.String\<close>.  Every error of a parser is \<open>None\<close>: the program looks at
  no error text of these functions.  The only step in floating point, the value of a fraction in
  \<open>ParseDuration\<close>, is an argument.

  The lemmas show that decimal numbers, durations in nanoseconds and what \<open>Duration.String\<close> prints are read
  back, for every 64-bit value.
\<close>

unbundle bit_operations_syntax

section \<open>Numbers\<close>

definition lower :: "nat \<Rightarrow> nat" where
  "lower b = b OR 0x20"

definition is_digit :: "nat \<Rightarrow> bool" where
  "is_digit b \<longleftrightarrow> 48 \<le> b \<and> b \<le> 57"

definition digit_value :: "nat \<Rightarrow> nat option" where
  "digit_value b =
     (if is_digit b then Some (b - 48)
      else if 97 \<le> lower b \<and> lower b \<le> 122 then Some (lower b - 97 + 10) else None)"

text \<open>The loop of \<open>ParseUint\<close> over the digits, where underscores separate them.\<close>

fun parse_digits :: "nat \<Rightarrow> nat \<Rightarrow> nat list \<Rightarrow> nat option" where
  "parse_digits base n [] = Some n"
| "parse_digits base n (b # bs) =
     (if b = 95 then parse_digits base n bs
      else case digit_value b of
        None \<Rightarrow> None
      | Some d \<Rightarrow> if base \<le> d \<or> 2 ^ 64 \<le> n * base + d then None else parse_digits base (n * base + d) bs)"

text \<open>Underscores stand between digits, or between the base prefix and a digit.\<close>

datatype scanned = AtStart | AfterDigit | AfterUnderscore | AfterOther

fun underscore_scan :: "bool \<Rightarrow> scanned \<Rightarrow> nat list \<Rightarrow> bool" where
  "underscore_scan hex i [] \<longleftrightarrow> i \<noteq> AfterUnderscore"
| "underscore_scan hex i (b # bs) \<longleftrightarrow>
     (if is_digit b \<or> hex \<and> 97 \<le> lower b \<and> lower b \<le> 102 then underscore_scan hex AfterDigit bs
      else if b = 95 then i = AfterDigit \<and> underscore_scan hex AfterUnderscore bs
      else i \<noteq> AfterUnderscore \<and> underscore_scan hex AfterOther bs)"

definition underscoreOK :: "nat list \<Rightarrow> bool" where
  "underscoreOK bs0 \<longleftrightarrow>
     (let bs = (if bs0 \<noteq> [] \<and> (hd bs0 = 45 \<or> hd bs0 = 43) then tl bs0 else bs0)
      in if length bs \<ge> 2 \<and> bs ! 0 = 48 \<and> (lower (bs ! 1) = 98 \<or> lower (bs ! 1) = 111 \<or> lower (bs ! 1) = 120)
         then underscore_scan (lower (bs ! 1) = 120) AfterDigit (drop 2 bs)
         else underscore_scan False AtStart bs)"

definition number_base :: "nat list \<Rightarrow> nat \<times> nat list" where
  "number_base bs =
     (if hd bs \<noteq> 48 then (10, bs)
      else if length bs \<ge> 3 \<and> lower (bs ! 1) = 98 then (2, drop 2 bs)
      else if length bs \<ge> 3 \<and> lower (bs ! 1) = 111 then (8, drop 2 bs)
      else if length bs \<ge> 3 \<and> lower (bs ! 1) = 120 then (16, drop 2 bs)
      else (8, tl bs))"

definition ParseUint :: "nat list \<Rightarrow> nat option" where
  "ParseUint bs =
     (if bs = [] then None
      else let (base, digits) = number_base bs
           in if 95 \<in> set digits \<and> \<not> underscoreOK bs then None else parse_digits base 0 digits)"

definition ParseInt :: "string \<Rightarrow> int option" where
  "ParseInt s =
     (let bs = byte_vals s
      in if bs = [] then None
         else let neg = (hd bs = 45);
                  un = ParseUint (if hd bs = 43 \<or> hd bs = 45 then tl bs else bs)
              in case un of
                   None \<Rightarrow> None
                 | Some n \<Rightarrow>
                     if \<not> neg \<and> 2 ^ 63 \<le> n \<or> neg \<and> 2 ^ 63 < n then None
                     else Some (if neg then - int n else int n))"

section \<open>Durations\<close>

fun leadingInt :: "nat \<Rightarrow> nat list \<Rightarrow> (nat \<times> nat list) option" where
  "leadingInt x [] = Some (x, [])"
| "leadingInt x (b # bs) =
     (if \<not> is_digit b then Some (x, b # bs)
      else if x > 2 ^ 63 div 10 \<or> x * 10 + (b - 48) > 2 ^ 63 then None
      else leadingInt (x * 10 + (b - 48)) bs)"

text \<open>
  \<open>leadingFraction\<close> gives the digits it keeps and their number, of which the scale is the power of ten;
  once a digit would overflow it and the digits after it are passed over.
\<close>

fun leadingFraction :: "bool \<Rightarrow> nat \<Rightarrow> nat \<Rightarrow> nat list \<Rightarrow> nat \<times> nat \<times> nat list" where
  "leadingFraction overflow x k [] = (x, k, [])"
| "leadingFraction overflow x k (b # bs) =
     (if \<not> is_digit b then (x, k, b # bs)
      else if overflow \<or> x > (2 ^ 63 - 1) div 10 \<or> x * 10 + (b - 48) > 2 ^ 63 then leadingFraction True x k bs
      else leadingFraction False (x * 10 + (b - 48)) (Suc k) bs)"

definition unitMap :: "nat list \<Rightarrow> nat option" where
  "unitMap u =
     (if u = [110, 115] then Some 1
      else if u = [117, 115] \<or> u = [0xC2, 0xB5, 115] \<or> u = [0xCE, 0xBC, 115] then Some 1000
      else if u = [109, 115] then Some 1000000
      else if u = [115] then Some 1000000000
      else if u = [109] then Some 60000000000
      else if u = [104] then Some 3600000000000 else None)"

text \<open>\<open>frac f unit k\<close> is \<open>uint64(float64(f) * (float64(unit) / scale))\<close> for the scale \<open>10 ^ k\<close>.\<close>

type_synonym fraction_value = "nat \<Rightarrow> nat \<Rightarrow> nat \<Rightarrow> nat"

definition duration_fraction :: "nat list \<Rightarrow> nat \<times> nat \<times> nat list" where
  "duration_fraction bs =
     (if bs \<noteq> [] \<and> hd bs = 46 then leadingFraction False 0 0 (tl bs) else (0, 0, bs))"

definition duration_unit :: "fraction_value \<Rightarrow> nat \<Rightarrow> nat \<Rightarrow> nat \<Rightarrow> nat list \<Rightarrow> (nat \<times> nat list) option" where
  "duration_unit frac v f k bs =
     (let u = takeWhile (\<lambda>b. b \<noteq> 46 \<and> \<not> is_digit b) bs
      in case unitMap u of
           None \<Rightarrow> None
         | Some unit \<Rightarrow>
             if v > 2 ^ 63 div unit then None
             else let w = (if f > 0 then (v * unit + frac f unit k) mod 2 ^ 64 else v * unit)
                  in if f > 0 \<and> w > 2 ^ 63 then None else Some (w, drop (length u) bs))"

text \<open>One number with its unit, and the rest of the text.\<close>

definition duration_part :: "fraction_value \<Rightarrow> nat list \<Rightarrow> (nat \<times> nat list) option" where
  "duration_part frac bs =
     (if \<not> (hd bs = 46 \<or> is_digit (hd bs)) then None
      else case leadingInt 0 bs of
        None \<Rightarrow> None
      | Some (v, bs1) \<Rightarrow>
          let (f, k, bs2) = duration_fraction bs1;
              pre = (length bs1 \<noteq> length bs);
              post = (bs1 \<noteq> [] \<and> hd bs1 = 46 \<and> length bs2 \<noteq> length (tl bs1))
          in if \<not> pre \<and> \<not> post then None else duration_unit frac v f k bs2)"

lemma leadingInt_suffix: "leadingInt x bs = Some (v, rest) \<Longrightarrow> length rest \<le> length bs"
  by (induction x bs rule: leadingInt.induct) (auto split: if_splits)

lemma leadingFraction_suffix: "leadingFraction ov x k bs = (f, n, rest) \<Longrightarrow> length rest \<le> length bs"
  by (induction ov x k bs rule: leadingFraction.induct) (auto split: if_splits)

lemma duration_unit_shorter: "duration_unit frac v f k bs = Some (w, rest) \<Longrightarrow> length rest < length bs"
  by (cases bs) (auto simp: duration_unit_def unitMap_def Let_def split: option.splits if_splits)

lemma duration_part_shorter: "duration_part frac bs = Some (w, rest) \<Longrightarrow> length rest < length bs"
  by (auto simp: duration_part_def duration_fraction_def Let_def split: option.splits if_splits prod.splits
      dest!: leadingInt_suffix leadingFraction_suffix duration_unit_shorter)

text \<open>The sum of the parts is 64 bits wide.\<close>

function duration_sum :: "fraction_value \<Rightarrow> nat \<Rightarrow> nat list \<Rightarrow> nat option" where
  "duration_sum frac d bs =
     (if bs = [] then Some d
      else case duration_part frac bs of
        None \<Rightarrow> None
      | Some (v, rest) \<Rightarrow>
          let d' = (d + v) mod 2 ^ 64 in if d' > 2 ^ 63 then None else duration_sum frac d' rest)"
  by pat_completeness auto
termination
  by (relation "measure (\<lambda>(_, _, bs). length bs)") (auto dest: duration_part_shorter)

declare duration_sum.simps [simp del]

definition ParseDuration :: "fraction_value \<Rightarrow> string \<Rightarrow> int option" where
  "ParseDuration frac s =
     (let bs = byte_vals s;
          signed = (bs \<noteq> [] \<and> (hd bs = 45 \<or> hd bs = 43));
          neg = (signed \<and> hd bs = 45);
          body = (if signed then tl bs else bs)
      in if body = [48] then Some 0
         else if body = [] then None
         else case duration_sum frac 0 body of
           None \<Rightarrow> None
         | Some d \<Rightarrow>
             if neg then Some (- int d) else if d > 2 ^ 63 - 1 then None else Some (int d))"

text \<open>
  \<open>Duration.String\<close>.  \<open>fmtFrac\<close> writes the lowest \<open>prec\<close> digits of a number before the text so far, without
  trailing zeros, and gives the rest of the number.
\<close>

fun fmtFrac :: "bool \<Rightarrow> nat \<Rightarrow> nat list \<Rightarrow> nat \<Rightarrow> nat list \<times> nat" where
  "fmtFrac printed 0 buf v = (if printed then 46 # buf else buf, v)"
| "fmtFrac printed (Suc prec) buf v =
     (let digit = v mod 10; printed' = (printed \<or> digit \<noteq> 0)
      in fmtFrac printed' prec (if printed' then (48 + digit) # buf else buf) (v div 10))"

definition fmtInt :: "nat list \<Rightarrow> nat \<Rightarrow> nat list" where
  "fmtInt buf v = byte_vals (nat_string v) @ buf"

definition format_subsecond :: "nat \<Rightarrow> nat list" where
  "format_subsecond u =
     (let (prec, unit) = (if u < 1000 then (0, [110, 115]) else if u < 1000000 then (3, [0xC2, 0xB5, 115]) else (6, [109, 115]));
          (buf, v) = fmtFrac False prec unit u
      in fmtInt buf v)"

definition format_seconds :: "nat \<Rightarrow> nat list" where
  "format_seconds u =
     (let (buf, seconds) = fmtFrac False 9 [115] u;
          buf1 = fmtInt buf (seconds mod 60);
          minutes = seconds div 60
      in if minutes = 0 then buf1
         else let buf2 = fmtInt (109 # buf1) (minutes mod 60); hours = minutes div 60
              in if hours = 0 then buf2 else fmtInt (104 # buf2) hours)"

definition duration_String :: "duration \<Rightarrow> string" where
  "duration_String d =
     (let u = nat \<bar>d\<bar>
      in (if d < 0 then ''-'' else [])
         @ of_bytes (if u = 0 then [48, 115] else if u < 1000000000 then format_subsecond u else format_seconds u))"

section \<open>Reading back what was printed\<close>

abbreviation digits_value :: "nat \<Rightarrow> nat list \<Rightarrow> nat" where
  "digits_value \<equiv> foldl (\<lambda>a d. 10 * a + d)"

abbreviation digit_bytes :: "nat list \<Rightarrow> nat list" where
  "digit_bytes \<equiv> map (\<lambda>d. 48 + d)"

lemma byte_vals_nat_string: "byte_vals (nat_string n) = digit_bytes (digits10 n)"
  by (auto simp: byte_vals_def nat_string_def dest: digits10_small)

lemma byte_vals_append [simp]: "byte_vals (s @ t) = byte_vals s @ byte_vals t"
  by (simp add: byte_vals_def)

lemma digits_value_ge: "a \<le> digits_value a ds"
proof (induction ds arbitrary: a)
  case (Cons d ds)
  have "a \<le> 10 * a + d" by simp
  also have "\<dots> \<le> digits_value (10 * a + d) ds" by (rule Cons.IH)
  finally show ?case by simp
qed simp

lemma digits10_hd: "n > 0 \<Longrightarrow> hd (digits10 n) \<noteq> 0"
proof (induction n rule: digits10.induct)
  case (1 n)
  then show ?case by (subst digits10.simps) (simp add: digits10_nonempty)
qed

lemma parse_digits_decimal:
  "\<forall>d\<in>set ds. d < 10 \<Longrightarrow> digits_value a ds < 2 ^ 64 \<Longrightarrow> parse_digits 10 a (digit_bytes ds) = Some (digits_value a ds)"
proof (induction ds arbitrary: a)
  case (Cons d ds)
  have "10 * a + d < 2 ^ 64" using Cons.prems(2) digits_value_ge[of "10 * a + d" ds] by simp
  then show ?case using Cons by (simp add: digit_value_def is_digit_def mult.commute)
qed simp

lemma ParseUint_decimal:
  assumes "n < 2 ^ 64"
  shows "ParseUint (byte_vals (nat_string n)) = Some n"
proof (cases "n = 0")
  case True
  have "byte_vals (nat_string 0) = [48]" unfolding byte_vals_nat_string by (subst digits10.simps) simp
  then show ?thesis using True by (simp add: ParseUint_def number_base_def)
next
  case False
  let ?ds = "digits10 n"
  have "hd (digit_bytes ?ds) \<noteq> 48" using digits10_hd False by (simp add: hd_map digits10_nonempty)
  then have "number_base (digit_bytes ?ds) = (10, digit_bytes ?ds)" by (simp add: number_base_def)
  moreover have "95 \<notin> set (digit_bytes ?ds)" by (auto dest: digits10_small)
  moreover have "parse_digits 10 0 (digit_bytes ?ds) = Some n"
    using parse_digits_decimal[of ?ds 0] digits10_small assms by (simp add: digits10_value)
  ultimately show ?thesis by (simp add: ParseUint_def byte_vals_nat_string digits10_nonempty)
qed

lemma nat_string_bytes:
  "byte_vals (nat_string n) \<noteq> []" "hd (byte_vals (nat_string n)) \<noteq> 43" "hd (byte_vals (nat_string n)) \<noteq> 45"
  "is_digit (hd (byte_vals (nat_string n)))"
proof -
  have "hd (digits10 n) < 10" by (rule digits10_small[OF hd_in_set[OF digits10_nonempty]])
  then show "byte_vals (nat_string n) \<noteq> []" "hd (byte_vals (nat_string n)) \<noteq> 43" "hd (byte_vals (nat_string n)) \<noteq> 45"
    "is_digit (hd (byte_vals (nat_string n)))"
    by (simp_all add: byte_vals_nat_string digits10_nonempty hd_map is_digit_def)
qed

lemma byte_vals_itoa:
  "byte_vals (itoa i) = (if i < 0 then [45] else []) @ byte_vals (nat_string (nat \<bar>i\<bar>))"
  by (simp add: itoa_def byte_vals_def)

lemma ParseInt_itoa:
  assumes "min_int64 \<le> i" and "i \<le> max_int64"
  shows "ParseInt (itoa i) = Some i"
proof -
  have "nat \<bar>i\<bar> \<le> 2 ^ 63" "0 \<le> i \<Longrightarrow> nat \<bar>i\<bar> < 2 ^ 63" using assms by (simp_all add: min_int64_def max_int64_def)
  moreover then have "ParseUint (byte_vals (nat_string (nat \<bar>i\<bar>))) = Some (nat \<bar>i\<bar>)" by (intro ParseUint_decimal) simp
  ultimately show ?thesis
    by (cases "i < 0") (simp_all add: ParseInt_def byte_vals_itoa nat_string_bytes Let_def)
qed

lemma leadingInt_decimal:
  assumes "rest \<noteq> []" and "\<not> is_digit (hd rest)"
  shows "\<forall>d\<in>set ds. d < 10 \<Longrightarrow> digits_value a ds \<le> 2 ^ 63
    \<Longrightarrow> leadingInt a (digit_bytes ds @ rest) = Some (digits_value a ds, rest)"
proof (induction ds arbitrary: a)
  case Nil
  then show ?case using assms by (cases rest) simp_all
next
  case (Cons d ds)
  have "10 * a + d \<le> 2 ^ 63" using Cons.prems(2) digits_value_ge[of "10 * a + d" ds] by simp
  moreover then have "a \<le> 2 ^ 63 div 10" by simp
  ultimately show ?case using Cons by (simp add: is_digit_def mult.commute)
qed

lemma duration_nanoseconds:
  assumes "n \<le> 2 ^ 63"
  shows "duration_sum frac 0 (byte_vals (nat_string n) @ [110, 115]) = Some n"
proof -
  let ?bs = "digit_bytes (digits10 n) @ [110, 115]"
  have "leadingInt 0 ?bs = Some (n, [110, 115])"
    using leadingInt_decimal[of "[110, 115]" "digits10 n" 0] digits10_small assms by (simp add: digits10_value is_digit_def)
  moreover have "is_digit (hd ?bs)" using nat_string_bytes(1,4) by (simp add: byte_vals_nat_string)
  ultimately have "duration_part frac ?bs = Some (n, [])"
    using assms by (simp add: duration_part_def duration_fraction_def duration_unit_def unitMap_def is_digit_def digits10_nonempty)
  then show ?thesis
    unfolding byte_vals_nat_string using assms by (subst duration_sum.simps) (simp add: duration_sum.simps Let_def)
qed

lemma ParseDuration_nanoseconds:
  assumes "min_int64 \<le> d" and "d \<le> max_int64"
  shows "ParseDuration frac (itoa d @ ''ns'') = Some d"
proof -
  let ?ds = "byte_vals (nat_string (nat \<bar>d\<bar>))"
  have range: "nat \<bar>d\<bar> \<le> 2 ^ 63" "0 \<le> d \<Longrightarrow> nat \<bar>d\<bar> < 2 ^ 63" using assms by (simp_all add: min_int64_def max_int64_def)
  have ns: "byte_vals ''ns'' = [110, 115]" by (simp add: byte_vals_def)
  have "?ds @ [110, 115] \<noteq> [48]" using nat_string_bytes(1)[of "nat \<bar>d\<bar>"] by (cases ?ds) auto
  then show ?thesis using range duration_nanoseconds[OF range(1), of frac] nat_string_bytes[of "nat \<bar>d\<bar>"]
    by (cases "d < 0") (simp_all add: ParseDuration_def byte_vals_itoa ns Let_def)
qed

subsection \<open>Durations with units\<close>

text \<open>
  What IEEE arithmetic gives for the fractions that \<open>Duration.String\<close> prints: both factors and their product
  are integers below \<open>2 ^ 53\<close>.
\<close>

definition exact_fraction :: "fraction_value \<Rightarrow> bool" where
  "exact_fraction frac \<longleftrightarrow> (\<forall>p k f. p \<le> 9 \<longrightarrow> k \<le> p \<longrightarrow> f < 10 ^ k \<longrightarrow> frac f (10 ^ p) k = f * 10 ^ (p - k))"

lemma digits_value_bound: "\<forall>d\<in>set ds. d < 10 \<Longrightarrow> digits_value a ds < Suc a * 10 ^ length ds"
proof (induction ds arbitrary: a)
  case (Cons d ds)
  then have "digits_value (10 * a + d) ds < Suc (10 * a + d) * 10 ^ length ds" by simp
  also have "\<dots> \<le> (10 * Suc a) * 10 ^ length ds" using Cons.prems by (intro mult_right_mono) auto
  finally show ?case by (simp add: algebra_simps)
qed simp

lemma leadingFraction_decimal:
  assumes "rest \<noteq> []" and "\<not> is_digit (hd rest)"
  shows "\<forall>d\<in>set ds. d < 10 \<Longrightarrow> digits_value a ds \<le> 2 ^ 63 - 1
    \<Longrightarrow> leadingFraction False a k (digit_bytes ds @ rest) = (digits_value a ds, k + length ds, rest)"
proof (induction ds arbitrary: a k)
  case Nil
  then show ?case using assms by (cases rest) simp_all
next
  case (Cons d ds)
  have "10 * a + d \<le> 2 ^ 63 - 1" using Cons.prems(2) digits_value_ge[of "10 * a + d" ds] by simp
  moreover then have "a \<le> (2 ^ 63 - 1) div 10" by simp
  ultimately show ?case using Cons by (simp add: is_digit_def mult.commute)
qed

text \<open>A number with an optional fraction and its unit.\<close>

definition chunk :: "nat \<Rightarrow> nat list \<Rightarrow> nat list \<Rightarrow> nat list" where
  "chunk n ds u = digit_bytes (digits10 n) @ (if ds = [] then [] else 46 # digit_bytes ds) @ u"

lemma unitMap_Some:
  assumes "unitMap u = Some unit"
  shows "u \<noteq> []" and "\<forall>b\<in>set u. b \<noteq> 46 \<and> \<not> is_digit b" and "0 < unit"
  using assms by (auto simp: unitMap_def is_digit_def split: if_splits)

lemma duration_unit_chunk:
  assumes u: "unitMap u = Some unit" and rest: "rest = [] \<or> is_digit (hd rest)" and le: "v * unit + w \<le> 2 ^ 63"
    and w: "w = (if f > 0 then frac f unit k else 0)"
  shows "duration_unit frac v f k (u @ rest) = Some (v * unit + w, rest)"
proof -
  have t: "takeWhile (\<lambda>b. b \<noteq> 46 \<and> \<not> is_digit b) (u @ rest) = u"
    using unitMap_Some(2)[OF u] rest by (cases rest) auto
  have "v * unit \<le> 2 ^ 63" using le by simp
  then have "v \<le> 2 ^ 63 div unit" using unitMap_Some(3)[OF u] by (simp add: less_eq_div_iff_mult_less_eq)
  moreover have "(v * unit + w) mod 2 ^ 64 = v * unit + w" using le by (intro mod_less) simp
  ultimately show ?thesis using le w unfolding duration_unit_def t by (cases "f > 0") (simp_all add: u Let_def)
qed

lemma digit_bytes_hd: "ds \<noteq> [] \<Longrightarrow> \<forall>d\<in>set ds. d < 10 \<Longrightarrow> is_digit (hd (digit_bytes ds))"
  by (cases ds) (auto simp: is_digit_def)

lemma duration_part_chunk:
  assumes u: "unitMap u = Some unit" and rest: "rest = [] \<or> is_digit (hd rest)" and le: "n * unit + w \<le> 2 ^ 63"
    and ds: "\<forall>d\<in>set ds. d < 10" "length ds \<le> 9"
    and w: "w = (if digits_value 0 ds > 0 then frac (digits_value 0 ds) unit (length ds) else 0)"
  shows "duration_part frac (chunk n ds u @ rest) = Some (n * unit + w, rest)"
proof -
  let ?tail = "(if ds = [] then [] else 46 # digit_bytes ds) @ u @ rest"
  have u': "u \<noteq> []" "\<not> is_digit (hd u)" "hd u \<noteq> 46" using unitMap_Some(1,2)[OF u] by auto
  have small: "\<forall>d\<in>set (digits10 n). d < 10" using digits10_small by auto
  have "n * 1 \<le> n * unit" using unitMap_Some(3)[OF u] by (intro mult_le_mono2) simp
  then have n: "n \<le> 2 ^ 63" using le by linarith
  have "?tail \<noteq> []" "\<not> is_digit (hd ?tail)" using u' by (auto simp: is_digit_def)
  then have int: "leadingInt 0 (chunk n ds u @ rest) = Some (n, ?tail)"
    using leadingInt_decimal[of ?tail "digits10 n" 0] small n by (simp add: chunk_def digits10_value)
  have "digits_value 0 ds < 10 ^ length ds" using digits_value_bound[OF ds(1), of 0] by simp
  also have "\<dots> \<le> 10 ^ 9" using ds(2) by (intro power_increasing) auto
  finally have "digits_value 0 ds \<le> 2 ^ 63 - 1" by simp
  then have "duration_fraction ?tail = (digits_value 0 ds, length ds, u @ rest)"
    using leadingFraction_decimal[of "u @ rest" ds 0 0] u' ds(1) by (auto simp: duration_fraction_def)
  moreover have "is_digit (hd (chunk n ds u @ rest))"
    using digit_bytes_hd[OF digits10_nonempty small] by (simp add: chunk_def digits10_nonempty)
  moreover have "length ?tail \<noteq> length (chunk n ds u @ rest)" by (simp add: chunk_def digits10_nonempty)
  ultimately show ?thesis
    unfolding duration_part_def int using duration_unit_chunk[OF u rest le, of "digits_value 0 ds" frac "length ds"] w by simp
qed

lemma duration_sum_step:
  assumes "duration_part frac bs = Some (v, rest)" and "d + v \<le> 2 ^ 63" and "bs \<noteq> []"
  shows "duration_sum frac d bs = duration_sum frac (d + v) rest"
  using assms by (subst duration_sum.simps) (simp add: Let_def)

lemma duration_sum_Nil [simp]: "duration_sum frac d [] = Some d"
  by (simp add: duration_sum.simps)

lemma chunk_nonempty [simp]: "chunk n ds u \<noteq> []"
  by (simp add: chunk_def digits10_nonempty)

text \<open>The digits of a fraction, in order.\<close>

fun low_digits :: "nat \<Rightarrow> nat \<Rightarrow> nat list" where
  "low_digits 0 v = []"
| "low_digits (Suc n) v = low_digits n (v div 10) @ [v mod 10]"

lemma low_digits_small: "\<forall>d\<in>set (low_digits n v). d < 10"
  by (induction n arbitrary: v) simp_all

lemma length_low_digits [simp]: "length (low_digits n v) = n"
  by (induction n arbitrary: v) simp_all

lemma low_digits_value: "digits_value 0 (low_digits n v) = v mod 10 ^ n"
  by (induction n arbitrary: v) (simp_all add: mod_mult2_eq)

lemma fmtFrac_printed: "fmtFrac True prec buf v = (46 # digit_bytes (low_digits prec v) @ buf, v div 10 ^ prec)"
  by (induction prec arbitrary: buf v) (simp_all add: Let_def div_mult2_eq)

definition fraction_digits :: "nat \<Rightarrow> nat \<Rightarrow> nat list \<Rightarrow> bool" where
  "fraction_digits prec v ds \<longleftrightarrow>
     (\<forall>d\<in>set ds. d < 10) \<and> length ds \<le> prec \<and> digits_value 0 ds * 10 ^ (prec - length ds) = v mod 10 ^ prec"

lemma fraction_digits_shift:
  assumes "fraction_digits prec (v div 10) ds" and "v mod 10 = 0"
  shows "fraction_digits (Suc prec) v ds"
proof -
  have "v mod 10 ^ Suc prec = 10 * (v div 10 mod 10 ^ prec)" using assms(2) mod_mult2_eq[of v 10 "10 ^ prec"] by simp
  moreover have "(10 :: nat) ^ (Suc prec - length ds) = 10 * 10 ^ (prec - length ds)"
    using assms(1) by (simp add: fraction_digits_def Suc_diff_le)
  ultimately show ?thesis using assms(1) unfolding fraction_digits_def by (metis le_SucI mult.left_commute)
qed

lemma fmtFrac_digits:
  "\<exists>ds. fraction_digits prec v ds
    \<and> fmtFrac False prec buf v = ((if ds = [] then [] else 46 # digit_bytes ds) @ buf, v div 10 ^ prec)"
proof (induction prec arbitrary: v)
  case 0
  show ?case by (rule exI[of _ "[]"]) (simp add: fraction_digits_def)
next
  case (Suc prec)
  have div: "v div 10 ^ Suc prec = v div 10 div 10 ^ prec" by (simp add: div_mult2_eq)
  show ?case
  proof (cases "v mod 10 = 0")
    case True
    obtain ds where ds: "fraction_digits prec (v div 10) ds"
      "fmtFrac False prec buf (v div 10) = ((if ds = [] then [] else 46 # digit_bytes ds) @ buf, v div 10 div 10 ^ prec)"
      using Suc.IH[of "v div 10"] by blast
    have "fmtFrac False (Suc prec) buf v = fmtFrac False prec buf (v div 10)" using True by (simp add: Let_def)
    with ds(2) show ?thesis unfolding div using fraction_digits_shift[OF ds(1) True] by metis
  next
    case False
    let ?ds = "low_digits (Suc prec) v"
    have "fmtFrac False (Suc prec) buf v = fmtFrac True (Suc prec) buf v" using False by (simp add: Let_def)
    also have "\<dots> = ((if ?ds = [] then [] else 46 # digit_bytes ?ds) @ buf, v div 10 ^ Suc prec)"
      unfolding fmtFrac_printed by simp
    finally show ?thesis
      using low_digits_small[of "Suc prec" v] low_digits_value[of "Suc prec" v]
      by (intro exI[of _ ?ds] conjI) (simp_all only: fraction_digits_def length_low_digits diff_self_eq_0 power_0 mult_1_right order_refl simp_thms)
  qed
qed

text \<open>The chunk that ends with a unit of \<open>10 ^ prec\<close> nanoseconds is read as what was printed.\<close>

lemma fraction_chunk:
  assumes frac: "exact_fraction frac" and u: "unitMap u = Some (10 ^ prec)" and prec: "prec \<le> 9"
  obtains ds where "fmtFrac False prec u v = ((if ds = [] then [] else 46 # digit_bytes ds) @ u, v div 10 ^ prec)"
    and "\<And>n. n * 10 ^ prec + v mod 10 ^ prec \<le> 2 ^ 63 \<Longrightarrow> duration_part frac (chunk n ds u) = Some (n * 10 ^ prec + v mod 10 ^ prec, [])"
proof -
  obtain ds where f: "fmtFrac False prec u v = ((if ds = [] then [] else 46 # digit_bytes ds) @ u, v div 10 ^ prec)"
    and ds: "\<forall>d\<in>set ds. d < 10" "length ds \<le> prec" "digits_value 0 ds * 10 ^ (prec - length ds) = v mod 10 ^ prec"
    using fmtFrac_digits[of prec v u] unfolding fraction_digits_def by blast
  have "digits_value 0 ds < 10 ^ length ds" using digits_value_bound[OF ds(1), of 0] by simp
  then have "frac (digits_value 0 ds) (10 ^ prec) (length ds) = v mod 10 ^ prec"
    using frac prec ds(2,3) unfolding exact_fraction_def by simp
  moreover have "digits_value 0 ds = 0 \<longleftrightarrow> v mod 10 ^ prec = 0" using ds(3) by (metis mult_is_0 power_not_zero zero_neq_numeral)
  ultimately have "v mod 10 ^ prec = (if digits_value 0 ds > 0 then frac (digits_value 0 ds) (10 ^ prec) (length ds) else 0)"
    by (cases "digits_value 0 ds = 0") simp_all
  with that[OF f] duration_part_chunk[OF u _ _ ds(1), of "[]"] show thesis using prec ds(2) by simp
qed

lemma fmtInt_chunk: "fmtInt ((if ds = [] then [] else 46 # digit_bytes ds) @ u) n = chunk n ds u" "fmtInt (u @ rest) n = chunk n [] u @ rest"
  by (simp_all add: fmtInt_def chunk_def byte_vals_nat_string)

lemma chunk_hd: "is_digit (hd (chunk n ds u @ rest))"
  using digit_bytes_hd[OF digits10_nonempty[of n]] digits10_small by (simp add: chunk_def digits10_nonempty)

lemma format_subsecond_sum:
  assumes frac: "exact_fraction frac" and u: "u < 10 ^ 9"
  shows "duration_sum frac 0 (format_subsecond u) = Some u" and "\<exists>n ds b. format_subsecond u = chunk n ds b"
proof -
  define prec :: nat where "prec = (if u < 1000 then 0 else if u < 1000000 then 3 else 6)"
  define unit :: "nat list" where "unit = (if u < 1000 then [110, 115] else if u < 1000000 then [0xC2, 0xB5, 115] else [109, 115])"
  have "unitMap unit = Some (10 ^ prec)" "prec \<le> 9" by (simp_all add: unit_def prec_def unitMap_def)
  from fraction_chunk[OF frac this, of u] obtain ds where
    f: "fmtFrac False prec unit u = ((if ds = [] then [] else 46 # digit_bytes ds) @ unit, u div 10 ^ prec)"
    and part: "\<And>n. n * 10 ^ prec + u mod 10 ^ prec \<le> 2 ^ 63
      \<Longrightarrow> duration_part frac (chunk n ds unit) = Some (n * 10 ^ prec + u mod 10 ^ prec, [])" by blast
  have eq: "format_subsecond u = chunk (u div 10 ^ prec) ds unit"
    using f fmtInt_chunk(1)[of ds unit] by (auto simp: format_subsecond_def prec_def unit_def)
  have "u \<le> 2 ^ 63" using u by simp
  then have "duration_part frac (format_subsecond u) = Some (u, [])" 
    unfolding eq by (rule part[of "u div 10 ^ prec", unfolded div_mult_mod_eq])
  then show "duration_sum frac 0 (format_subsecond u) = Some u"
    using duration_sum_step[of frac _ u "[]" 0] \<open>u \<le> 2 ^ 63\<close> eq by simp
  show "\<exists>n ds b. format_subsecond u = chunk n ds b" using eq by blast
qed

lemma duration_sum_chunk:
  assumes "unitMap b = Some unit" and "d + n * unit \<le> 2 ^ 63" and "is_digit (hd rest)"
  shows "duration_sum frac d (chunk n [] b @ rest) = duration_sum frac (d + n * unit) rest"
proof -
  have "duration_part frac (chunk n [] b @ rest) = Some (n * unit + 0, rest)"
    by (rule duration_part_chunk[OF assms(1)]) (use assms in auto)
  then show ?thesis using assms(2) by (simp add: duration_sum_step)
qed

lemma format_seconds_sum:
  assumes frac: "exact_fraction frac" and u: "u \<le> 2 ^ 63"
  shows "duration_sum frac 0 (format_seconds u) = Some u" and "\<exists>n ds b rest. format_seconds u = chunk n ds b @ rest"
proof -
  define s where "s = u div 10 ^ 9"
  define m where "m = s div 60"
  define h where "h = m div 60"
  have units: "unitMap [115] = Some (10 ^ 9)" "unitMap [109] = Some 60000000000" "unitMap [104] = Some 3600000000000"
    by (simp_all add: unitMap_def)
  from fraction_chunk[OF frac units(1), of u] obtain ds where
    f: "fmtFrac False 9 [115] u = ((if ds = [] then [] else 46 # digit_bytes ds) @ [115], s)"
    and part: "\<And>n. n * 10 ^ 9 + u mod 10 ^ 9 \<le> 2 ^ 63
      \<Longrightarrow> duration_part frac (chunk n ds [115]) = Some (n * 10 ^ 9 + u mod 10 ^ 9, [])"
    unfolding s_def by blast
  let ?secs = "chunk (s mod 60) ds [115]"
  let ?low = "(s mod 60) * 10 ^ 9 + u mod 10 ^ 9"
  have total: "u = s * 10 ^ 9 + u mod 10 ^ 9" "s = m * 60 + s mod 60" "m = h * 60 + m mod 60"
    by (simp_all add: s_def m_def h_def)
  have low: "duration_sum frac d ?secs = Some (d + ?low)" if "d + ?low \<le> 2 ^ 63" for d
    using duration_sum_step[OF part that] that by simp
  have eq: "format_seconds u = (if m = 0 then ?secs else if h = 0 then chunk (m mod 60) [] [109] @ ?secs
      else chunk h [] [104] @ chunk (m mod 60) [] [109] @ ?secs)"
    using f fmtInt_chunk(1)[of ds "[115]"] fmtInt_chunk(2)[of "[_]"] by (simp add: format_seconds_def m_def h_def Let_def)
  have sum: "u = h * 3600000000000 + (m mod 60) * 60000000000 + ?low"
  proof -
    have "s * 10 ^ 9 = (h * 60 + m mod 60) * 60 * 10 ^ 9 + (s mod 60) * 10 ^ 9"
      using total(2,3) by (metis add_mult_distrib)
    then show ?thesis using total(1) by simp
  qed
  have digit: "is_digit (hd ?secs)" "is_digit (hd (chunk (m mod 60) [] [109] @ ?secs))" using chunk_hd[of _ _ _ "[]"] chunk_hd by auto
  consider "m = 0" "h = 0" | "m \<noteq> 0" "h = 0" | "m \<noteq> 0" "h \<noteq> 0" by (auto simp: h_def)
  then show "duration_sum frac 0 (format_seconds u) = Some u"
  proof cases
    case 1
    then show ?thesis using sum u low[of 0] by (simp add: eq)
  next
    case 2
    then show ?thesis using sum u low duration_sum_chunk[OF units(2) _ digit(1), of 0] by (simp add: eq)
  next
    case 3
    then show ?thesis
      using sum u low duration_sum_chunk[OF units(2) _ digit(1)] duration_sum_chunk[OF units(3) _ digit(2), of 0] by (simp add: eq)
  qed
  show "\<exists>n ds b rest. format_seconds u = chunk n ds b @ rest" unfolding eq by (metis append_Nil2)
qed

subsection \<open>The round trip\<close>

abbreviation bytes_ok :: "nat list \<Rightarrow> bool" where
  "bytes_ok \<equiv> list_all (\<lambda>b. b < 256)"

lemma fmtFrac_bytes: "bytes_ok buf \<Longrightarrow> bytes_ok (fst (fmtFrac printed prec buf v))"
proof (induction printed prec buf v rule: fmtFrac.induct)
  case (2 printed prec buf v)
  have "v mod 10 < 10" by simp
  then have "48 + v mod 10 < 256" by linarith
  then show ?case using 2 by (auto simp: Let_def simp del: fmtFrac.simps(1))
qed simp

lemma fmtInt_bytes: "bytes_ok buf \<Longrightarrow> bytes_ok (fmtInt buf v)"
  using byte_vals_bound by (simp add: fmtInt_def)

lemma format_bytes: "bytes_ok (format_subsecond u)" "bytes_ok (format_seconds u)"
proof -
  have buf: "bytes_ok b" if "fmtFrac False prec u0 v = (b, x)" "bytes_ok u0" for prec u0 v b x
    using fmtFrac_bytes[OF that(2), of False prec v] that(1) by simp
  show "bytes_ok (format_subsecond u)"
    by (auto simp: format_subsecond_def Let_def split: prod.splits intro!: fmtInt_bytes dest!: buf)
  show "bytes_ok (format_seconds u)"
    by (auto simp: format_seconds_def Let_def split: prod.splits intro!: fmtInt_bytes dest!: buf)
qed

lemma formatted_text:
  assumes frac: "exact_fraction frac" and "0 < u" and "u \<le> 2 ^ 63"
  shows "let bs = (if u < 10 ^ 9 then format_subsecond u else format_seconds u)
    in bytes_ok bs \<and> bs \<noteq> [] \<and> bs \<noteq> [48] \<and> is_digit (hd bs) \<and> duration_sum frac 0 bs = Some u"
proof -
  let ?bs = "if u < 10 ^ 9 then format_subsecond u else format_seconds u"
  have sum: "duration_sum frac 0 ?bs = Some u"
    using format_subsecond_sum(1)[OF frac] format_seconds_sum(1)[OF frac] assms(3) by simp
  obtain n ds b rest where c: "?bs = chunk n ds b @ rest"
    using format_subsecond_sum(2)[OF frac] format_seconds_sum(2)[OF frac assms(3)] by (metis append_Nil2)
  have "?bs \<noteq> [48]"
  proof
    assume "?bs = [48]"
    moreover have "duration_sum frac 0 [48] = None"
      by (subst duration_sum.simps)
         (simp add: duration_part_def duration_fraction_def duration_unit_def unitMap_def is_digit_def)
    ultimately show False using sum by simp
  qed
  moreover have "is_digit (hd ?bs)" "?bs \<noteq> []" unfolding c using chunk_hd by simp_all
  ultimately show ?thesis using sum format_bytes by (simp add: Let_def)
qed

lemma ParseDuration_String:
  assumes frac: "exact_fraction frac" and range: "min_int64 \<le> d" "d \<le> max_int64"
  shows "ParseDuration frac (duration_String d) = Some d"
proof (cases "d = 0")
  case True
  have "byte_vals ''0s'' = [48, 115]" by (simp add: byte_vals_def)
  moreover have "duration_sum frac 0 [48, 115] = Some 0"
    by (subst duration_sum.simps)
       (simp add: duration_part_def duration_fraction_def duration_unit_def unitMap_def is_digit_def Let_def)
  ultimately show ?thesis using True by (simp add: ParseDuration_def duration_String_def of_bytes_def byte_vals_def Let_def)
next
  case False
  let ?u = "nat \<bar>d\<bar>"
  let ?bs = "if ?u < 10 ^ 9 then format_subsecond ?u else format_seconds ?u"
  have u: "0 < ?u" "?u \<le> 2 ^ 63" "0 < d \<Longrightarrow> ?u < 2 ^ 63" using range False by (simp_all add: min_int64_def max_int64_def)
  have f: "bytes_ok ?bs" "?bs \<noteq> []" "?bs \<noteq> [48]" "is_digit (hd ?bs)" "duration_sum frac 0 ?bs = Some ?u"
    using formatted_text[OF frac u(1,2)] unfolding Let_def by blast+
  have "byte_vals (duration_String d) = (if d < 0 then [45] else []) @ ?bs"
    using byte_vals_of_bytes[OF f(1)] False by (simp add: duration_String_def Let_def byte_vals_def)
  then show ?thesis
    using f(2-5) u(3) False by (cases "d < 0") (simp_all only: ParseDuration_def Let_def, auto simp: is_digit_def)
qed

end
