(* ===== verification/Perf_Counters.thy ===== *)
theory Perf_Counters
  imports Go_Numbers "HOL-Library.Word" "HOL-Library.Multiset"
begin

text \<open>
  The performance harness (\<open>internal/perftest\<close>): operation counters, the counting wrappers around the clients, the
  pager that serves fixtures page by page, and the fixtures themselves.  An operation is a \<open>uint8\<close>, so it may lie
  outside the table of names; counts are \<open>int64\<close> and wrap around.  A pointer to counters may be nil, which is
  \<open>None\<close> here, and every method returns the counters as it leaves them.
\<close>

section \<open>Operations (counters.go)\<close>

type_synonym Operation = "8 word"

definition DiscoveryRequest :: Operation where "DiscoveryRequest = 0"
definition MetadataList :: Operation where "MetadataList = 1"
definition MetadataPage :: Operation where "MetadataPage = 2"
definition TypedGet :: Operation where "TypedGet = 3"
definition DynamicGet :: Operation where "DynamicGet = 4"
definition TypedList :: Operation where "TypedList = 5"
definition DynamicList :: Operation where "DynamicList = 6"
definition IncidentList :: Operation where "IncidentList = 7"
definition PolicyList :: Operation where "PolicyList = 8"
definition Create :: Operation where "Create = 9"
definition Update :: Operation where "Update = 10"
definition Patch :: Operation where "Patch = 11"
definition StatusWrite :: Operation where "StatusWrite = 12"
definition Delete :: Operation where "Delete = 13"
definition Finalizer :: Operation where "Finalizer = 14"
definition DryRun :: Operation where "DryRun = 15"
definition Retry :: Operation where "Retry = 16"
definition Write :: Operation where "Write = 17"
definition Mismatch :: Operation where "Mismatch = 18"
definition operationCount :: Operation where "operationCount = 19"

definition operationNames :: "string list" where
  "operationNames =
     [''discovery_request'', ''metadata_list'', ''metadata_page'', ''typed_get'', ''dynamic_get'', ''typed_list'',
      ''dynamic_list'', ''incident_list'', ''policy_list'', ''create'', ''update'', ''patch'', ''status_write'', ''delete'',
      ''finalizer'', ''dry_run'', ''retry'', ''write'', ''mismatch'']"

definition Operation_String :: "Operation \<Rightarrow> string" where
  "Operation_String o' =
     (if o' \<ge> operationCount then ''operation_'' @ itoa (uint o') else operationNames ! unat o')"

text \<open>The loops run from zero below a bound.\<close>

definition operations_below :: "Operation \<Rightarrow> Operation list" where
  "operations_below bound = map word_of_nat [0..<unat bound]"

section \<open>Snapshots\<close>

text \<open>The array of an immutable snapshot, with one count for each operation.\<close>

type_synonym Counts = "int list"

definition zero_Counts :: Counts where
  "zero_Counts = replicate (unat operationCount) 0"

definition Snapshot_Value :: "Counts \<Rightarrow> Operation \<Rightarrow> int" where
  "Snapshot_Value s operation = (if operation \<ge> operationCount then 0 else s ! unat operation)"

definition Snapshot_Total :: "Counts \<Rightarrow> int" where
  "Snapshot_Total s = foldl (\<lambda>total operation. wrap64 (total + s ! unat operation)) 0 (operations_below Mismatch)"

definition Snapshot_Delta :: "Counts \<Rightarrow> Counts \<Rightarrow> Counts" where
  "Snapshot_Delta s earlier =
     foldl (\<lambda>delta operation. delta[unat operation := wrap64 (s ! unat operation - earlier ! unat operation)]) zero_Counts
       (operations_below operationCount)"

section \<open>Counters\<close>

type_synonym Counters = "Counts option"

definition Counters_Add :: "Operation \<Rightarrow> int \<Rightarrow> Counters \<Rightarrow> Counters" where
  "Counters_Add operation n c =
     (case c of
        None \<Rightarrow> None
      | Some vs \<Rightarrow>
          if operation \<ge> operationCount then Some vs
          else Some (vs[unat operation := wrap64 (vs ! unat operation + n)]))"

definition Record :: "Operation \<Rightarrow> Counters \<Rightarrow> Counters" where
  "Record operation c = Counters_Add operation 1 c"

definition Counters_Value :: "Counters \<Rightarrow> Operation \<Rightarrow> int" where
  "Counters_Value c operation =
     (case c of None \<Rightarrow> 0 | Some vs \<Rightarrow> if operation \<ge> operationCount then 0 else vs ! unat operation)"

definition Counters_Snapshot :: "Counters \<Rightarrow> Counts" where
  "Counters_Snapshot c =
     (case c of
        None \<Rightarrow> zero_Counts
      | Some vs \<Rightarrow>
          foldl (\<lambda>snapshot operation. snapshot[unat operation := vs ! unat operation]) zero_Counts
            (operations_below operationCount))"

definition Reset :: "Counters \<Rightarrow> Counters" where
  "Reset c =
     map_option (\<lambda>vs. foldl (\<lambda>vs operation. vs[unat operation := 0]) vs (operations_below operationCount)) c"

definition count_problem :: "Counts \<Rightarrow> (Operation \<rightharpoonup> int) \<Rightarrow> Operation \<Rightarrow> string list" where
  "count_problem actual expected operation =
     (let want = (case expected operation of None \<Rightarrow> 0 | Some n \<Rightarrow> n); got = Snapshot_Value actual operation
      in if got \<noteq> want then [Operation_String operation @ ''='' @ itoa got @ '', want '' @ itoa want] else [])"

text \<open>The error, nil for none, and the counters, in which a failed check is counted.\<close>

definition Check :: "(Operation \<rightharpoonup> int) \<Rightarrow> Counters \<Rightarrow> string option \<times> Counters" where
  "Check expected c =
     (let actual = Counters_Snapshot c;
          problems = concat (map (count_problem actual expected) (operations_below Mismatch))
      in if problems = [] then (None, c)
         else (Some (''operation count mismatch: '' @ strings_Join problems ''; ''), Record Mismatch c))"

section \<open>Facts about counters\<close>

lemma unat_of_small [simp]: "n < 256 \<Longrightarrow> unat (word_of_nat n :: Operation) = n"
  by (simp add: unsigned_of_nat take_bit_eq_mod)

lemma unat_count [simp]: "unat operationCount = 19" "unat Mismatch = 18"
  by (simp_all add: operationCount_def Mismatch_def)

lemma below_count:
  "operation < operationCount \<longleftrightarrow> unat operation < 19" "operationCount \<le> operation \<longleftrightarrow> \<not> unat operation < 19"
  by (simp_all add: word_less_nat_alt word_le_nat_alt linorder_not_less)

lemma below_Mismatch: "operation < Mismatch \<Longrightarrow> operation < operationCount"
  by (simp add: word_less_nat_alt)

lemma operations_below_iff [simp]:
  "operation \<in> set (operations_below bound) \<longleftrightarrow> operation < bound"
proof
  have bound: "unat bound < 256" using unsigned_less[of bound] by simp
  assume "operation \<in> set (operations_below bound)"
  then obtain n where n: "n < unat bound" "operation = word_of_nat n" by (auto simp: operations_below_def)
  then show "operation < bound" using bound by (simp add: word_less_nat_alt)
next
  assume "operation < bound"
  then have "unat operation < unat bound" by (simp add: word_less_nat_alt)
  then show "operation \<in> set (operations_below bound)"
    unfolding operations_below_def by (auto intro!: image_eqI[of operation _ "unat operation"])
qed

text \<open>Assigning to every operation in turn assigns the whole array.\<close>

lemma foldl_update:
  "foldl (\<lambda>vs i. vs[i := g i]) vs [0..<n] = map g [0..<min n (length vs)] @ drop n vs"
proof (induction n)
  case (Suc n)
  show ?case
  proof (cases "n < length vs")
    case True
    then have "drop n vs = vs ! n # drop (Suc n) vs" by (simp add: Cons_nth_drop_Suc)
    then show ?thesis using Suc True by (simp add: min_def list_update_append)
  qed (use Suc in \<open>simp add: min_def list_update_beyond\<close>)
qed simp

lemma assign_all:
  "length vs = 19 \<Longrightarrow> foldl (\<lambda>vs operation. vs[unat operation := g (unat operation)]) vs (operations_below operationCount) = map g [0..<19]"
proof -
  assume len: "length vs = 19"
  have "foldl (\<lambda>vs operation. vs[unat operation := g (unat operation)]) vs (operations_below operationCount)
      = foldl (\<lambda>vs i. vs[unat (word_of_nat i :: Operation) := g (unat (word_of_nat i :: Operation))]) vs [0..<19]"
    by (simp add: operations_below_def foldl_map)
  also have "\<dots> = foldl (\<lambda>vs i. vs[i := g i]) vs [0..<19]" by (rule foldl_cong) simp_all
  finally show ?thesis using len by (simp add: foldl_update)
qed

definition counters_ok :: "Counters \<Rightarrow> bool" where
  "counters_ok c \<longleftrightarrow> (case c of None \<Rightarrow> True | Some vs \<Rightarrow> length vs = 19 \<and> list_all (\<lambda>n. wrap64 n = n) vs)"

lemma length_zero_Counts [simp]: "length zero_Counts = 19"
  by (simp add: zero_Counts_def)

lemma Counters_Value_zero: "Counters_Value (Some zero_Counts) operation = 0"
  by (simp add: Counters_Value_def zero_Counts_def below_count)

lemma counters_ok_zero [simp]: "counters_ok (Some zero_Counts)"
  by (simp add: counters_ok_def zero_Counts_def list_all_length wrap64_id min_int64_def max_int64_def)

lemma snapshot_values:
  "length vs = 19 \<Longrightarrow> Counters_Snapshot (Some vs) = vs"
  "Counters_Snapshot None = zero_Counts"
  by (simp_all add: Counters_Snapshot_def assign_all list_eq_iff_nth_eq)

lemma Reset_zero: "length vs = 19 \<Longrightarrow> Reset (Some vs) = Some zero_Counts"
  using assign_all[of vs "\<lambda>_. 0"] by (simp add: Reset_def zero_Counts_def map_replicate_const)

lemma Snapshot_Delta_values:
  "Snapshot_Delta s earlier = map (\<lambda>i. wrap64 (s ! i - earlier ! i)) [0..<19]"
  unfolding Snapshot_Delta_def by (rule assign_all) simp

lemma snapshot_value: "counters_ok c \<Longrightarrow> Snapshot_Value (Counters_Snapshot c) operation = Counters_Value c operation"
  by (cases c) (simp_all add: counters_ok_def snapshot_values Snapshot_Value_def Counters_Value_def zero_Counts_def below_count)

lemma wrap64_idem: "wrap64 (wrap64 i) = wrap64 i"
  by (rule wrap64_id) (rule wrap64_range)+

lemma wrap64_cong:
  assumes "i mod 2 ^ 64 = j mod 2 ^ 64"
  shows "wrap64 i = wrap64 j"
proof -
  have "(i + 2 ^ 63) mod 2 ^ 64 = (j + 2 ^ 63) mod 2 ^ 64" using assms by (rule mod_add_cong) (rule refl)
  then show ?thesis by (simp only: wrap64_def)
qed

lemma wrap64_mod: "wrap64 i mod 2 ^ 64 = i mod 2 ^ 64"
proof -
  have "wrap64 i mod 2 ^ 64 = (i + 2 ^ 63 - 2 ^ 63) mod 2 ^ 64" unfolding wrap64_def by (rule mod_diff_left_eq)
  then show ?thesis by (simp only: add_diff_cancel_right')
qed

lemma wrap64_add: "wrap64 (wrap64 i + j) = wrap64 (i + j)" "wrap64 (i + wrap64 j) = wrap64 (i + j)"
  by (rule wrap64_cong, rule mod_add_cong, simp_all only: wrap64_mod)+

lemma Counters_Value_Add:
  "counters_ok c \<Longrightarrow> Counters_Value (Counters_Add operation n c) operation'
     = (if c \<noteq> None \<and> operation = operation' \<and> operation < operationCount then wrap64 (Counters_Value c operation' + n)
        else Counters_Value c operation')"
  by (cases c) (auto simp: counters_ok_def Counters_Value_def Counters_Add_def below_count nth_list_update dest: unsigned_word_eqI)

lemma counters_ok_Add [simp]: "counters_ok c \<Longrightarrow> counters_ok (Counters_Add operation n c)"
  by (cases c) (auto simp: counters_ok_def Counters_Add_def list_all_iff wrap64_idem dest: set_update_subset_insert[THEN subsetD])

lemma Counters_Value_wrapped: "counters_ok c \<Longrightarrow> wrap64 (Counters_Value c operation) = Counters_Value c operation"
  by (cases c)
     (auto simp: counters_ok_def Counters_Value_def list_all_length below_count wrap64_id min_int64_def max_int64_def)

lemma counters_eqI:
  assumes "counters_ok c" "counters_ok c'" "c = None \<longleftrightarrow> c' = None"
    and "\<And>operation. operation < operationCount \<Longrightarrow> Counters_Value c operation = Counters_Value c' operation"
  shows "c = c'"
proof (cases c)
  case (Some vs)
  then obtain vs' where c': "c' = Some vs'" using assms(3) by auto
  have "vs ! i = vs' ! i" if "i < 19" for i
    using assms(4)[of "word_of_nat i"] that Some c' by (simp add: below_count Counters_Value_def)
  then show ?thesis using assms(1,2) Some c' by (simp add: counters_ok_def list_eq_iff_nth_eq)
qed (use assms(3) in auto)

section \<open>Many additions, in any order\<close>

text \<open>
  What the users of counters rely on: an addition changes the count of its operation only, and wraps around.
  Concurrent workers interleave their atomic additions; every interleaving is one list, and the counts depend only
  on the additions in it.
\<close>

locale operation_counters =
  fixes add :: "'o \<Rightarrow> int \<Rightarrow> 'c \<Rightarrow> 'c"
    and val :: "'c \<Rightarrow> 'o \<Rightarrow> int"
    and inv :: "'c \<Rightarrow> bool"
    and slots :: "'o set"
  assumes val_add: "inv c \<Longrightarrow> operation \<in> slots \<Longrightarrow>
      val (add operation' n c) operation = (if operation' = operation then wrap64 (val c operation + n) else val c operation)"
    and val_wrapped: "inv c \<Longrightarrow> wrap64 (val c operation) = val c operation"
    and inv_add: "inv c \<Longrightarrow> inv (add operation n c)"
begin

definition adds :: "('o \<times> int) list \<Rightarrow> 'c \<Rightarrow> 'c" where
  "adds xs c = fold (\<lambda>(operation, n). add operation n) xs c"

lemma inv_adds: "inv c \<Longrightarrow> inv (adds xs c)"
  by (induction xs arbitrary: c) (auto simp: adds_def inv_add)

lemma val_adds:
  "inv c \<Longrightarrow> operation \<in> slots \<Longrightarrow>
     val (adds xs c) operation = wrap64 (val c operation + (\<Sum>x\<leftarrow>xs. if fst x = operation then snd x else 0))"
proof (induction xs arbitrary: c)
  case (Cons x xs)
  have "val (adds (x # xs) c) operation = val (adds xs (add (fst x) (snd x) c)) operation"
    by (simp add: adds_def case_prod_unfold)
  also have "\<dots> = wrap64 (val (add (fst x) (snd x) c) operation + (\<Sum>x\<leftarrow>xs. if fst x = operation then snd x else 0))"
    using Cons inv_add by blast
  also have "\<dots> = wrap64 (val c operation + (\<Sum>x\<leftarrow>x # xs. if fst x = operation then snd x else 0))"
    using val_add[OF Cons.prems] by (simp add: ac_simps wrap64_add)
  finally show ?case .
qed (simp add: adds_def val_wrapped)

lemma any_order:
  assumes "mset xs = mset ys" "inv c" "operation \<in> slots"
  shows "val (adds xs c) operation = val (adds ys c) operation"
proof -
  have "(\<Sum>x\<leftarrow>xs. f x) = (\<Sum>x\<leftarrow>ys. f x)" for f :: "'o \<times> int \<Rightarrow> int"
    using arg_cong[OF assms(1), of "\<lambda>m. \<Sum>x\<in>#m. f x"] by (simp flip: sum_mset_sum_list)
  then show ?thesis by (simp only: val_adds[OF assms(2,3)])
qed

end

definition counters_in_use :: "Counters \<Rightarrow> bool" where
  "counters_in_use c \<longleftrightarrow> counters_ok c \<and> c \<noteq> None"

interpretation atomic: operation_counters Counters_Add Counters_Value counters_in_use "{operation. operation < operationCount}"
proof unfold_locales
  show "counters_in_use (Counters_Add operation n c)" if "counters_in_use c" for c operation n
    using that by (auto simp: counters_in_use_def) (auto simp: Counters_Add_def split: if_splits)
qed (auto simp: counters_in_use_def Counters_Value_Add Counters_Value_wrapped)

text \<open>Workers that only record.\<close>

definition Record_all :: "Operation list \<Rightarrow> Counters \<Rightarrow> Counters" where
  "Record_all operations c = fold Record operations c"

lemma Record_all_adds: "Record_all operations c = atomic.adds (map (\<lambda>operation. (operation, 1)) operations) c"
  by (simp add: Record_all_def atomic.adds_def fold_map Record_def[abs_def] comp_def)

lemma counters_ok_Record_all [simp]: "counters_ok c \<Longrightarrow> counters_ok (Record_all operations c)"
  by (induction operations arbitrary: c) (simp_all add: Record_all_def Record_def)

lemma Record_all_append: "Record_all (xs @ ys) c = Record_all ys (Record_all xs c)"
  by (simp add: Record_all_def)

lemma Counters_Value_Record_all:
  assumes "counters_ok c" "c \<noteq> None" "operation < operationCount"
  shows "Counters_Value (Record_all operations c) operation
    = wrap64 (Counters_Value c operation + int (count_list operations operation))"
proof -
  have "(\<Sum>x\<leftarrow>map (\<lambda>operation. (operation, 1)) operations. if fst x = operation then snd x else 0) = int (count_list operations operation)"
    by (induction operations) simp_all
  then show ?thesis using atomic.val_adds[of c operation] assms by (simp add: Record_all_adds counters_in_use_def)
qed

text \<open>The interleaving of the additions of several workers does not matter.\<close>

theorem counters_any_order:
  assumes "mset xs = mset ys" "counters_ok c"
  shows "fold (\<lambda>(operation, n). Counters_Add operation n) xs c = fold (\<lambda>(operation, n). Counters_Add operation n) ys c"
proof (cases c)
  case None
  then have "fold (\<lambda>(operation, n). Counters_Add operation n) zs c = None" for zs
    by (induction zs) (auto simp: Counters_Add_def)
  then show ?thesis by simp
next
  case (Some vs)
  then have use: "counters_in_use c" using assms(2) by (simp add: counters_in_use_def)
  have "atomic.adds xs c = atomic.adds ys c"
    using atomic.inv_adds[OF use, of xs] atomic.inv_adds[OF use, of ys] atomic.any_order[OF assms(1) use]
    by (intro counters_eqI) (auto simp: counters_in_use_def)
  then show ?thesis by (simp only: atomic.adds_def)
qed

lemma count_mset_list: "count (mset xs) x = count_list xs x"
  by (induction xs) auto

lemma check_problems:
  assumes "counters_ok c"
  shows "fst (Check expected c) = None \<longleftrightarrow>
    (\<forall>operation < Mismatch. Counters_Value c operation = (case expected operation of None \<Rightarrow> 0 | Some n \<Rightarrow> n))"
proof -
  have "count_problem (Counters_Snapshot c) expected operation = [] \<longleftrightarrow>
      Counters_Value c operation = (case expected operation of None \<Rightarrow> 0 | Some n \<Rightarrow> n)" for operation
    by (simp add: count_problem_def Let_def snapshot_value[OF assms])
  then show ?thesis by (auto simp: Check_def Let_def)
qed

text \<open>
  Workers that record operations on fresh counters, interleaved in any order, are checked exactly: the
  check fails precisely when for some operation other than the bookkeeping of mismatches the expected number,
  zero when it is absent, is not the number of times it was recorded, as a 64-bit number.  A failed check is
  counted as one mismatch and a successful one leaves the counters alone; neither changes another count.
\<close>

theorem check_counts_exactly:
  "let c = Record_all operations (Some zero_Counts); (err, c') = Check expected c
   in (err = None \<longleftrightarrow>
         (\<forall>operation < Mismatch.
            wrap64 (int (count (mset operations) operation)) = (case expected operation of None \<Rightarrow> 0 | Some n \<Rightarrow> n)))
      \<and> c' = Record_all (if err = None then [] else [Mismatch]) c
      \<and> (\<forall>operation < operationCount. Counters_Value c' operation =
            wrap64 (int (count (mset operations) operation) + (if err \<noteq> None \<and> operation = Mismatch then 1 else 0)))"
proof -
  let ?c = "Record_all operations (Some zero_Counts)"
  have vals: "Counters_Value (Record_all ops (Some zero_Counts)) operation = wrap64 (int (count (mset ops) operation))"
    if "operation < operationCount" for ops operation
    using Counters_Value_Record_all[OF counters_ok_zero _ that, of ops] by (simp add: count_mset_list Counters_Value_zero)
  have c': "snd (Check expected ?c) = Record_all (if fst (Check expected ?c) = None then [] else [Mismatch]) ?c"
    by (simp add: Check_def Let_def Record_all_def)
  have "snd (Check expected ?c) = Record_all (operations @ (if fst (Check expected ?c) = None then [] else [Mismatch])) (Some zero_Counts)"
    unfolding c' Record_all_append ..
  then have "Counters_Value (snd (Check expected ?c)) operation =
      wrap64 (int (count (mset operations) operation) + (if fst (Check expected ?c) \<noteq> None \<and> operation = Mismatch then 1 else 0))"
    if "operation < operationCount" for operation
    using vals[OF that] by (simp add: add.commute)
  moreover have "fst (Check expected ?c) = None \<longleftrightarrow> (\<forall>operation < Mismatch.
      wrap64 (int (count (mset operations) operation)) = (case expected operation of None \<Rightarrow> 0 | Some n \<Rightarrow> n))"
    by (simp add: check_problems vals below_Mismatch)
  ultimately show ?thesis using c' unfolding Let_def case_prod_unfold by blast
qed

theorem check_counts_exactly_witness:
  "fst (Check (Map.empty(TypedGet \<mapsto> 2)) (Record_all [TypedGet, TypedGet] (Some zero_Counts))) = None
   \<and> fst (Check (Map.empty(TypedGet \<mapsto> 2)) (Record_all [TypedGet, Write] (Some zero_Counts))) \<noteq> None
   \<and> Counters_Value (snd (Check (Map.empty(TypedGet \<mapsto> 2)) (Record_all [TypedGet, Write] (Some zero_Counts)))) Mismatch = 1"
proof -
  let ?e = "Map.empty(TypedGet \<mapsto> 2)"
  have wrap: "wrap64 0 = 0" "wrap64 1 = 1" "wrap64 2 = 2" by (simp_all add: wrap64_id min_int64_def max_int64_def)
  have ops: "TypedGet \<noteq> Write" "TypedGet < Mismatch" "Write < Mismatch" "Mismatch < operationCount" "TypedGet \<noteq> Mismatch" "Write \<noteq> Mismatch"
    by code_simp+
  note exact = check_counts_exactly[unfolded Let_def case_prod_unfold]
  have two: "fst (Check ?e (Record_all [TypedGet, TypedGet] (Some zero_Counts))) = None"
    using exact[of ?e "[TypedGet, TypedGet]", THEN conjunct1] wrap by simp
  have one: "fst (Check ?e (Record_all [TypedGet, Write] (Some zero_Counts))) \<noteq> None"
    using exact[of ?e "[TypedGet, Write]", THEN conjunct1] wrap ops by auto
  then have "Counters_Value (snd (Check ?e (Record_all [TypedGet, Write] (Some zero_Counts)))) Mismatch = 1"
    using exact[of ?e "[TypedGet, Write]", THEN conjunct2, THEN conjunct2, rule_format, OF ops(4)] wrap ops by simp
  then show ?thesis using one two by simp
qed

end
