(* ===== verification/Perf_Client.thy ===== *)
theory Perf_Client
  imports Perf_Counters
begin

text \<open>
  The counting wrappers of the performance harness (\<open>internal/perftest/client.go\<close>).  A client of
  controller-runtime is a record of its methods: each takes its arguments, of a type that is left open, and the
  state of the cluster, and gives an error, nil for none, and the state after the call.  A wrapper is a client
  of the same interface whose state also holds the counters.  The wrapped client is any record.

  The main fact is transparency: a sequence of calls gives the errors and the cluster state it gives without
  the wrapper, and the counters account for every call.
\<close>

section \<open>The interface of a client\<close>

type_synonym ('a, 's) client_method = "'a \<Rightarrow> 's \<Rightarrow> string option \<times> 's"

datatype ObjectList = DeletionIncidentList | TerminationPolicyList | OtherList

record ('a, 's) Reader =
  rd_Get :: "('a, 's) client_method"
  rd_List :: "ObjectList \<Rightarrow> ('a, 's) client_method"

record ('a, 's) SubResourceClient =
  sub_Get :: "('a, 's) client_method"
  sub_Create :: "('a, 's) client_method"
  sub_Update :: "('a, 's) client_method"
  sub_Patch :: "('a, 's) client_method"
  sub_Apply :: "('a, 's) client_method"

record ('a, 's) Client = "('a, 's) Reader" +
  cl_Apply :: "('a, 's) client_method"
  cl_Create :: "('a, 's) client_method"
  cl_Delete :: "('a, 's) client_method"
  cl_Update :: "('a, 's) client_method"
  cl_Patch :: "('a, 's) client_method"
  cl_DeleteAllOf :: "('a, 's) client_method"
  cl_Status :: "('a, 's) SubResourceClient"
  cl_SubResource :: "string \<Rightarrow> ('a, 's) SubResourceClient"

section \<open>Counting\<close>

text \<open>The calls of \<open>Record\<close> in their order, then the call of the wrapped method.\<close>

definition counted :: "Operation list \<Rightarrow> ('a, 's) client_method \<Rightarrow> ('a, 's \<times> Counters) client_method" where
  "counted operations method args st =
     (let c = Record_all operations (snd st); (err, s) = method args (fst st) in (err, s, c))"

definition listOperation :: "ObjectList \<Rightarrow> Operation" where
  "listOperation l =
     (case l of DeletionIncidentList \<Rightarrow> IncidentList | TerminationPolicyList \<Rightarrow> PolicyList | OtherList \<Rightarrow> TypedList)"

definition NewCountingReader :: "('a, 's) Reader \<Rightarrow> ('a, 's \<times> Counters) Reader" where
  "NewCountingReader delegate =
     \<lparr>rd_Get = counted [TypedGet] (rd_Get delegate),
      rd_List = \<lambda>l. counted [listOperation l] (rd_List delegate l)\<rparr>"

definition recordWrite :: "bool \<Rightarrow> Operation \<Rightarrow> Operation list" where
  "recordWrite status operation = [if status then StatusWrite else operation, Write]"

definition countingSubresource :: "('a, 's) SubResourceClient \<Rightarrow> bool \<Rightarrow> ('a, 's \<times> Counters) SubResourceClient" where
  "countingSubresource delegate status =
     \<lparr>sub_Get = counted [TypedGet] (sub_Get delegate),
      sub_Create = counted (recordWrite status Create) (sub_Create delegate),
      sub_Update = counted (recordWrite status Update) (sub_Update delegate),
      sub_Patch = counted (recordWrite status Patch) (sub_Patch delegate),
      sub_Apply = counted (recordWrite status Patch) (sub_Apply delegate)\<rparr>"

definition NewCountingClient :: "('a, 's) Client \<Rightarrow> ('a, 's \<times> Counters) Client" where
  "NewCountingClient delegate =
     \<lparr>rd_Get = counted [TypedGet] (rd_Get delegate),
      rd_List = \<lambda>l. counted [listOperation l] (rd_List delegate l),
      cl_Apply = counted [Patch, Write] (cl_Apply delegate),
      cl_Create = counted [Create, Write] (cl_Create delegate),
      cl_Delete = counted [Delete, Write] (cl_Delete delegate),
      cl_Update = counted [Update, Write] (cl_Update delegate),
      cl_Patch = counted [Patch, Write] (cl_Patch delegate),
      cl_DeleteAllOf = counted [Delete, Write] (cl_DeleteAllOf delegate),
      cl_Status = countingSubresource (cl_SubResource delegate ''status'') True,
      cl_SubResource = \<lambda>name. countingSubresource (cl_SubResource delegate name) (name = ''status'')\<rparr>"

section \<open>Sequences of calls\<close>

datatype verb = Get | Applying | Creating | Deleting | Updating | Patching | DeletingAllOf

datatype sub_verb = SubGet | SubCreate | SubUpdate | SubPatch | SubApply

datatype 'a call = Call verb 'a | ListCall ObjectList 'a | StatusCall sub_verb 'a | SubCall string sub_verb 'a

definition sub_method :: "('a, 's) SubResourceClient \<Rightarrow> sub_verb \<Rightarrow> ('a, 's) client_method" where
  "sub_method sub v =
     (case v of SubGet \<Rightarrow> sub_Get sub | SubCreate \<Rightarrow> sub_Create sub | SubUpdate \<Rightarrow> sub_Update sub
      | SubPatch \<Rightarrow> sub_Patch sub | SubApply \<Rightarrow> sub_Apply sub)"

definition method_of :: "('a, 's) Client \<Rightarrow> verb \<Rightarrow> ('a, 's) client_method" where
  "method_of cl v =
     (case v of Get \<Rightarrow> rd_Get cl | Applying \<Rightarrow> cl_Apply cl | Creating \<Rightarrow> cl_Create cl | Deleting \<Rightarrow> cl_Delete cl
      | Updating \<Rightarrow> cl_Update cl | Patching \<Rightarrow> cl_Patch cl | DeletingAllOf \<Rightarrow> cl_DeleteAllOf cl)"

fun perform_call :: "('a, 's) Client \<Rightarrow> 'a call \<Rightarrow> 's \<Rightarrow> string option \<times> 's" where
  "perform_call cl (Call v a) = method_of cl v a"
| "perform_call cl (ListCall l a) = rd_List cl l a"
| "perform_call cl (StatusCall v a) = sub_method (cl_Status cl) v a"
| "perform_call cl (SubCall name v a) = sub_method (cl_SubResource cl name) v a"

fun perform_calls :: "('a, 's) Client \<Rightarrow> 'a call list \<Rightarrow> 's \<Rightarrow> string option list \<times> 's" where
  "perform_calls cl [] s = ([], s)"
| "perform_calls cl (call # calls) s =
     (let (err, s1) = perform_call cl call s; (errs, s2) = perform_calls cl calls s1 in (err # errs, s2))"

text \<open>What a caller expects to be counted: a call reads or it writes, and a write may be one of the status.\<close>

fun is_write :: "'a call \<Rightarrow> bool" where
  "is_write (Call v a) \<longleftrightarrow> v \<noteq> Get"
| "is_write (ListCall l a) \<longleftrightarrow> False"
| "is_write (StatusCall v a) \<longleftrightarrow> v \<noteq> SubGet"
| "is_write (SubCall name v a) \<longleftrightarrow> v \<noteq> SubGet"

fun on_status :: "'a call \<Rightarrow> bool" where
  "on_status (StatusCall v a) \<longleftrightarrow> True"
| "on_status (SubCall name v a) \<longleftrightarrow> name = ''status''"
| "on_status call \<longleftrightarrow> False"

text \<open>The operations the wrapper records for each call.\<close>

fun recorded :: "'a call \<Rightarrow> Operation list" where
  "recorded (Call v a) =
     (case v of Get \<Rightarrow> [TypedGet] | Applying \<Rightarrow> [Patch, Write] | Creating \<Rightarrow> [Create, Write] | Deleting \<Rightarrow> [Delete, Write]
      | Updating \<Rightarrow> [Update, Write] | Patching \<Rightarrow> [Patch, Write] | DeletingAllOf \<Rightarrow> [Delete, Write])"
| "recorded (ListCall l a) = [listOperation l]"
| "recorded (StatusCall v a) = (if v = SubGet then [TypedGet] else [StatusWrite, Write])"
| "recorded (SubCall name v a) =
     (case v of SubGet \<Rightarrow> [TypedGet] | SubCreate \<Rightarrow> recordWrite (name = ''status'') Create
      | SubUpdate \<Rightarrow> recordWrite (name = ''status'') Update | _ \<Rightarrow> recordWrite (name = ''status'') Patch)"

lemmas operation_values =
  TypedGet_def TypedList_def IncidentList_def PolicyList_def Create_def Update_def Patch_def StatusWrite_def Delete_def Write_def

lemma recorded_counts:
  "count_list (recorded call) Write = (if is_write call then 1 else 0)"
  "count_list (recorded call) StatusWrite = (if is_write call \<and> on_status call then 1 else 0)"
  "(\<Sum>operation\<leftarrow>[Create, Update, Patch, StatusWrite, Delete]. count_list (recorded call) operation) = (if is_write call then 1 else 0)"
  "(\<Sum>operation\<leftarrow>[TypedGet, TypedList, IncidentList, PolicyList]. count_list (recorded call) operation)
     = (if \<not> is_write call then 1 else 0)"
  by (cases call; auto simp: recordWrite_def listOperation_def operation_values split: verb.splits sub_verb.splits ObjectList.splits)+

text \<open>What holds of the operations recorded for each call holds, summed up, of a sequence of calls.\<close>

lemma recorded_sum:
  assumes "\<And>call. (\<Sum>operation\<leftarrow>ops. count_list (recorded call) operation) = (if P call then 1 else 0)"
  shows "(\<Sum>operation\<leftarrow>ops. count_list (concat (map recorded calls)) operation) = length (filter P calls)"
  by (induction calls) (simp_all add: assms sum_list_addf)

section \<open>Clients whose status writer is the status subresource\<close>

locale status_client =
  fixes cl :: "('a, 's) Client"
  assumes status_subresource: "cl_Status cl = cl_SubResource cl ''status''"
begin

lemma perform_call_status: "perform_call cl (StatusCall v a) = perform_call cl (SubCall ''status'' v a)"
  by (simp add: status_subresource)

lemma perform_call_counting:
  "perform_call (NewCountingClient cl) call (s, c) = (let (err, s') = perform_call cl call s in (err, s', Record_all (recorded call) c))"
  by (cases call)
     (auto simp: NewCountingClient_def countingSubresource_def counted_def method_of_def sub_method_def status_subresource
       recordWrite_def Let_def split: verb.splits sub_verb.splits)

lemma perform_calls_counting:
  "perform_calls (NewCountingClient cl) calls (s, c)
     = (let (errs, s') = perform_calls cl calls s in (errs, s', Record_all (concat (map recorded calls)) c))"
  by (induction calls arbitrary: s c)
     (simp_all add: perform_call_counting Record_all_append case_prod_unfold Let_def, simp add: Record_all_def)

end

text \<open>A counting client is such a client again, so wrappers may be stacked.\<close>

interpretation counting_client: status_client "NewCountingClient delegate" for delegate
  by unfold_locales (simp add: NewCountingClient_def)

text \<open>A counting reader behaves and counts as the reading half of a counting client.\<close>

lemma counting_reader_agrees:
  "NewCountingReader (Reader.truncate delegate) = Reader.truncate (NewCountingClient delegate)"
  by (simp add: NewCountingReader_def NewCountingClient_def Reader.truncate_def)

section \<open>Transparency and accounting\<close>

lemma wrap64_sum_list:
  "wrap64 (\<Sum>x\<leftarrow>xs. wrap64 (int (f x))) = wrap64 (int (\<Sum>x\<leftarrow>xs. f x))"
proof (induction xs)
  case (Cons x xs)
  have "wrap64 (\<Sum>x\<leftarrow>x # xs. wrap64 (int (f x))) = wrap64 (int (f x) + wrap64 (\<Sum>x\<leftarrow>xs. wrap64 (int (f x))))"
    by (simp add: wrap64_add)
  then show ?case unfolding Cons.IH by (simp add: wrap64_add)
qed (simp add: wrap64_idem)

lemma zero_counters_recorded:
  "operation < operationCount \<Longrightarrow>
     Counters_Value (Record_all operations (Some zero_Counts)) operation = wrap64 (int (count_list operations operation))"
  using Counters_Value_Record_all[OF counters_ok_zero] by (simp add: Counters_Value_zero)

lemma counted_sum:
  assumes "\<forall>operation \<in> set ops. operation < operationCount"
    and "\<And>call. (\<Sum>operation\<leftarrow>ops. count_list (recorded call) operation) = (if P call then 1 else 0)"
  shows "wrap64 (\<Sum>operation\<leftarrow>ops. Counters_Value (Record_all (concat (map recorded calls)) (Some zero_Counts)) operation)
    = wrap64 (int (length (filter P calls)))"
proof -
  have "(\<Sum>operation\<leftarrow>ops. Counters_Value (Record_all (concat (map recorded calls)) (Some zero_Counts)) operation)
      = (\<Sum>operation\<leftarrow>ops. wrap64 (int (count_list (concat (map recorded calls)) operation)))"
    using assms(1) by (intro arg_cong[of _ _ sum_list] map_cong refl zero_counters_recorded) simp
  then show ?thesis by (simp only: wrap64_sum_list recorded_sum[OF assms(2)])
qed

lemma write_operations_below:
  "\<forall>operation \<in> set [Create, Update, Patch, StatusWrite, Delete, Write, TypedGet, TypedList, IncidentList, PolicyList].
     operation < operationCount"
  by (simp add: operation_values operationCount_def)

text \<open>
  C40.  The counting client is transparent: every sequence of calls gives the errors and leaves the cluster as it
  would without the wrapper, when the status writer of the wrapped client is its status subresource.  Its counters
  account for every call, as 64-bit numbers: \<open>Write\<close> is the number of writing calls and the sum of the five kinds of
  writes, \<open>StatusWrite\<close> is the number of writes to the status, and the four kinds of reads sum up to the other calls.
\<close>

theorem counting_client_transparent:
  assumes "cl_Status delegate = cl_SubResource delegate ''status''"
  shows "let (errs, s', c') = perform_calls (NewCountingClient delegate) calls (s, Some zero_Counts)
    in (errs, s') = perform_calls delegate calls s
       \<and> Counters_Value c' Write = wrap64 (int (length (filter is_write calls)))
       \<and> Counters_Value c' Write = wrap64 (\<Sum>operation\<leftarrow>[Create, Update, Patch, StatusWrite, Delete]. Counters_Value c' operation)
       \<and> Counters_Value c' StatusWrite = wrap64 (int (length (filter (\<lambda>call. is_write call \<and> on_status call) calls)))
       \<and> wrap64 (\<Sum>operation\<leftarrow>[TypedGet, TypedList, IncidentList, PolicyList]. Counters_Value c' operation)
           = wrap64 (int (length (filter (\<lambda>call. \<not> is_write call) calls)))"
proof -
  define c' where "c' = Record_all (concat (map recorded calls)) (Some zero_Counts)"
  have sums: "wrap64 (\<Sum>operation\<leftarrow>ops. Counters_Value c' operation) = wrap64 (int (length (filter P calls)))"
    if "\<forall>operation \<in> set ops. operation < operationCount"
      "\<And>call. (\<Sum>operation\<leftarrow>ops. count_list (recorded call) operation) = (if P call then 1 else 0)" for ops P
    unfolding c'_def by (rule counted_sum[OF that])
  have single: "Counters_Value c' operation = wrap64 (int (length (filter P calls)))"
    if "operation < operationCount" "\<And>call. count_list (recorded call) operation = (if P call then 1 else 0)" for operation P
    using sums[of "[operation]" P] that Counters_Value_wrapped[of c'] by (simp add: c'_def)
  have w: "Counters_Value c' Write = wrap64 (int (length (filter is_write calls)))"
    "Counters_Value c' StatusWrite = wrap64 (int (length (filter (\<lambda>call. is_write call \<and> on_status call) calls)))"
    using write_operations_below by (auto intro!: single recorded_counts)
  have kinds: "wrap64 (\<Sum>operation\<leftarrow>[Create, Update, Patch, StatusWrite, Delete]. Counters_Value c' operation)
      = wrap64 (int (length (filter is_write calls)))"
    "wrap64 (\<Sum>operation\<leftarrow>[TypedGet, TypedList, IncidentList, PolicyList]. Counters_Value c' operation)
      = wrap64 (int (length (filter (\<lambda>call. \<not> is_write call) calls)))"
    by (rule sums[OF _ recorded_counts(3)] sums[OF _ recorded_counts(4)], use write_operations_below in simp)+
  have "perform_calls (NewCountingClient delegate) calls (s, Some zero_Counts)
      = (fst (perform_calls delegate calls s), snd (perform_calls delegate calls s), c')"
    using status_client.perform_calls_counting[OF status_client.intro[OF assms], of calls s "Some zero_Counts"]
    by (simp add: c'_def case_prod_unfold Let_def)
  then show ?thesis using w kinds by simp
qed

text \<open>A client that logs the text of its arguments and rejects the writes of an empty text.\<close>

definition logging_method :: "(string, string list) client_method" where
  "logging_method a s = (if a = [] then (Some ''empty'', s) else (None, s @ [a]))"

definition logging_subresource :: "(string, string list) SubResourceClient" where
  "logging_subresource = \<lparr>sub_Get = logging_method, sub_Create = logging_method, sub_Update = logging_method,
     sub_Patch = logging_method, sub_Apply = logging_method\<rparr>"

definition logging_client :: "(string, string list) Client" where
  "logging_client = \<lparr>rd_Get = logging_method, rd_List = \<lambda>_. logging_method, cl_Apply = logging_method,
     cl_Create = logging_method, cl_Delete = logging_method, cl_Update = logging_method, cl_Patch = logging_method,
     cl_DeleteAllOf = logging_method, cl_Status = logging_subresource, cl_SubResource = \<lambda>_. logging_subresource\<rparr>"

definition logged_calls :: "string call list" where
  "logged_calls = [Call Get ''a'', StatusCall SubPatch ''b'', Call Creating [], SubCall ''scale'' SubUpdate ''c'',
     ListCall DeletionIncidentList ''d'']"

theorem counting_client_transparent_witness:
  "case perform_calls (NewCountingClient logging_client) logged_calls ([], Some zero_Counts) of
     (errs, s', c') \<Rightarrow> errs = [None, None, Some ''empty'', None, None] \<and> s' = [''a'', ''b'', ''c'', ''d'']
       \<and> Counters_Value c' Write = 3 \<and> Counters_Value c' StatusWrite = 1"
proof -
  have status: "cl_Status logging_client = cl_SubResource logging_client ''status''" by (simp add: logging_client_def)
  have run: "perform_calls logging_client logged_calls [] = ([None, None, Some ''empty'', None, None], [''a'', ''b'', ''c'', ''d''])"
    and writes: "length (filter is_write logged_calls) = 3"
      "length (filter (\<lambda>call. is_write call \<and> on_status call) logged_calls) = 1"
    by (simp_all add: logged_calls_def logging_client_def logging_subresource_def logging_method_def method_of_def sub_method_def)
  have "wrap64 3 = 3" "wrap64 1 = 1" by (simp_all add: wrap64_id min_int64_def max_int64_def)
  then show ?thesis
    using counting_client_transparent[OF status, of logged_calls "[]"] run writes by (simp add: Let_def case_prod_unfold)
qed

end
