(* ===== verification/Perf_Fixtures.thy ===== *)
theory Perf_Fixtures
  imports Perf_Counters
begin

text \<open>
  The pager and the fixtures of the performance harness (\<open>internal/perftest/pagination.go\<close> and
  \<open>fixtures.go\<close>).  A pager serves an immutable list page by page; its continue token is the offset of the next
  page.  Offsets are 64-bit integers, so that the end of a page may wrap around, and slicing with bounds that
  are out of order panics.
\<close>

unbundle bit_operations_syntax

section \<open>Numbers in decimal\<close>

text \<open>\<open>strconv.Atoi\<close>: an optional sign and decimal digits, in the range of \<open>int\<close>; every error is \<open>None\<close>.\<close>

definition Atoi :: "string \<Rightarrow> int option" where
  "Atoi s =
     (let bs = byte_vals s;
          neg = (bs \<noteq> [] \<and> hd bs = 45);
          ds = (if bs \<noteq> [] \<and> (hd bs = 45 \<or> hd bs = 43) then tl bs else bs)
      in if ds = [] \<or> \<not> list_all is_digit ds then None
         else let n = int (foldl (\<lambda>a b. 10 * a + (b - 48)) 0 ds); i = (if neg then - n else n)
              in if min_int64 \<le> i \<and> i \<le> max_int64 then Some i else None)"

text \<open>\<open>strings.CutPrefix\<close>: the rest of the text when it has the prefix.\<close>

definition CutPrefix :: "string \<Rightarrow> string \<Rightarrow> string option" where
  "CutPrefix s prefix = (if has_prefix prefix s then Some (drop (length prefix) s) else None)"

section \<open>The pager (pagination.go)\<close>

definition continuePrefix :: string where
  "continuePrefix = ''offset:''"

record 'a Pager =
  pg_Items :: "'a list"
  pg_PageSize :: int
  pg_ListOperation :: Operation

definition Pager_Validate :: "'a Pager \<Rightarrow> string option" where
  "Pager_Validate p =
     (if pg_PageSize p \<le> 0 then Some ''page size must be positive''
      else if pg_ListOperation p \<ge> operationCount then Some (''invalid list operation '' @ itoa (uint (pg_ListOperation p)))
      else None)"

definition pageOffset :: "(rune \<Rightarrow> bool) \<Rightarrow> string \<Rightarrow> int \<Rightarrow> string + int" where
  "pageOffset is_pr token len =
     (if token = [] then Inr 0
      else case CutPrefix token continuePrefix of
        None \<Rightarrow> Inl (''invalid continue token '' @ quote is_pr token)
      | Some v \<Rightarrow>
          (case Atoi v of
             None \<Rightarrow> Inl (''invalid continue token '' @ quote is_pr token)
           | Some offset \<Rightarrow>
               if offset \<le> 0 \<or> offset \<ge> len then Inl (''invalid continue token '' @ quote is_pr token)
               else Inr offset))"

datatype 'a page = Returned "'a list" string "string option" | PagePanicked

definition page_slice :: "'a Pager \<Rightarrow> int \<Rightarrow> int \<Rightarrow> 'a page" where
  "page_slice p start requestedLimit =
     (let pageSize = (if requestedLimit > 0 \<and> requestedLimit < pg_PageSize p then requestedLimit else pg_PageSize p);
          len = int (length (pg_Items p));
          end' = min (wrap64 (start + pageSize)) len
      in if end' < start then PagePanicked
         else let items = drop (nat start) (take (nat end') (pg_Items p))
              in if end' = len then Returned items [] None else Returned items (continuePrefix @ itoa end') None)"

definition Page :: "(rune \<Rightarrow> bool) \<Rightarrow> 'a Pager \<Rightarrow> string \<Rightarrow> int \<Rightarrow> Counters \<Rightarrow> 'a page \<times> Counters" where
  "Page is_pr p token requestedLimit c =
     (let c' = Record MetadataPage (Record (pg_ListOperation p) c)
      in (case Pager_Validate p of
            Some err \<Rightarrow> Returned [] [] (Some err)
          | None \<Rightarrow>
              (case pageOffset is_pr token (int (length (pg_Items p))) of
                 Inl err \<Rightarrow> Returned [] [] (Some err)
               | Inr start \<Rightarrow> page_slice p start requestedLimit), c'))"

text \<open>A reader that follows the continue tokens to the last page; the fuel bounds the number of pages.\<close>

fun read_pages :: "(rune \<Rightarrow> bool) \<Rightarrow> nat \<Rightarrow> 'a Pager \<Rightarrow> string \<Rightarrow> int \<Rightarrow> Counters \<Rightarrow> ('a list \<times> Counters) option" where
  "read_pages is_pr 0 p token limit c = None"
| "read_pages is_pr (Suc fuel) p token limit c =
     (case Page is_pr p token limit c of
        (Returned items next' None, c') \<Rightarrow>
          if next' = [] then Some (items, c')
          else map_option (\<lambda>(rest, c''). (items @ rest, c'')) (read_pages is_pr fuel p next' limit c')
      | _ \<Rightarrow> None)"

section \<open>Fixtures (fixtures.go)\<close>

record Scale =
  sc_Name :: string
  sc_Policies :: int
  sc_Resources :: int
  sc_Objects :: int
  sc_PageSize :: int

definition Scale_Validate :: "(rune \<Rightarrow> bool) \<Rightarrow> Scale \<Rightarrow> string option" where
  "Scale_Validate is_pr s =
     (if sc_Name s = [] then Some ''scale name is required''
      else if sc_Policies s \<le> 0 \<or> sc_Resources s \<le> 0 \<or> sc_Objects s \<le> 0 \<or> sc_PageSize s \<le> 0
      then Some (''scale '' @ quote is_pr (sc_Name s) @ '' dimensions must be positive'')
      else None)"

text \<open>The days of the proleptic Gregorian calendar before a year, counted from the year 1.\<close>

definition days_before_year :: "int \<Rightarrow> int" where
  "days_before_year y = (let n = y - 1 in 365 * n + n div 4 - n div 100 + n div 400)"

definition FixedNow :: time where
  "FixedNow = (((days_before_year 2026 + 1) * 24 + 3) * 60 + 4) * minute + 5 * second"

text \<open>The verb \<open>%06d\<close>: zeros stand between the sign and the digits, up to six characters.\<close>

definition format_06d :: "int \<Rightarrow> string" where
  "format_06d i =
     (let sign = (if i < 0 then ''-'' else []); digits = nat_string (nat \<bar>i\<bar>)
      in sign @ replicate (6 - length sign - length digits) (CHR ''0'') @ digits)"

definition Name :: "string \<Rightarrow> int \<Rightarrow> string" where
  "Name prefix index = prefix @ ''-'' @ format_06d index"

definition fixture_UID :: "string \<Rightarrow> int \<Rightarrow> string" where
  "fixture_UID prefix index = Name prefix index"

definition ResourceVersion :: "int \<Rightarrow> string" where
  "ResourceVersion index = itoa (wrap64 (index + 1))"

definition SortedStrings :: "string list \<Rightarrow> string list" where
  "SortedStrings values = sort values"

text \<open>The FNV-1a hash of 64 bits.\<close>

definition fnv_step :: "64 word \<Rightarrow> nat \<Rightarrow> 64 word" where
  "fnv_step h b = (h XOR word_of_nat b) * 1099511628211"

definition Checksum :: "string list \<Rightarrow> 64 word" where
  "Checksum parts = foldl (\<lambda>h part. fnv_step (foldl fnv_step h (byte_vals part)) 0) 14695981039346656037 parts"

section \<open>Pages\<close>

lemma Atoi_itoa:
  assumes "0 \<le> i" "i \<le> max_int64"
  shows "Atoi (itoa i) = Some i"
proof -
  let ?ds = "digits10 (nat i)"
  have bs: "byte_vals (itoa i) = digit_bytes ?ds" using assms by (simp add: byte_vals_itoa byte_vals_nat_string)
  have "list_all is_digit (digit_bytes ?ds)" by (auto simp: list_all_iff is_digit_def dest: digits10_small)
  moreover have "foldl (\<lambda>a b. 10 * a + (b - 48)) 0 (digit_bytes ?ds) = nat i"
    using digits10_value[of "nat i"] by (simp add: foldl_map)
  moreover have "hd (digit_bytes ?ds) \<noteq> 45" "hd (digit_bytes ?ds) \<noteq> 43" "digit_bytes ?ds \<noteq> []"
    using nat_string_bytes[of "nat i"] by (simp_all add: byte_vals_nat_string)
  ultimately show ?thesis using assms by (simp add: Atoi_def bs Let_def min_int64_def)
qed

lemma CutPrefix_append [simp]: "CutPrefix (prefix @ s) prefix = Some s"
proof -
  have "has_prefix prefix (prefix @ s)" by (induction prefix) simp_all
  then show ?thesis by (simp add: CutPrefix_def)
qed

text \<open>The token of an offset, and the size of a page under a limit.\<close>

definition page_token :: "nat \<Rightarrow> string" where
  "page_token start = (if start = 0 then [] else continuePrefix @ itoa (int start))"

definition page_size :: "'a Pager \<Rightarrow> int \<Rightarrow> nat" where
  "page_size p limit = nat (if limit > 0 \<and> limit < pg_PageSize p then limit else pg_PageSize p)"

definition page_count :: "nat \<Rightarrow> nat \<Rightarrow> nat" where
  "page_count k n = max 1 ((n + k - 1) div k)"

lemma page_count_last: "0 < k \<Longrightarrow> n \<le> k \<Longrightarrow> page_count k n = 1"
  by (cases "n = 0") (auto simp: page_count_def div_le_mono le_div_geq)

lemma page_count_step:
  assumes "0 < k" "k < n"
  shows "page_count k n = Suc (page_count k (n - k))"
proof -
  have "n + k - 1 = (n - k + k - 1) + k" using assms by simp
  then have "(n + k - 1) div k = Suc ((n - k + k - 1) div k)" using assms(1) by (metis div_add_self2 Suc_eq_plus1 less_not_refl)
  moreover have "1 \<le> (n - k + k - 1) div k" using assms by (simp add: Suc_le_eq div_greater_zero_iff)
  ultimately show ?thesis by (simp add: page_count_def)
qed

lemma pageOffset_token:
  assumes "start = 0 \<or> start < n" "int n \<le> max_int64"
  shows "pageOffset is_pr (page_token start) (int n) = Inr (int start)"
proof (cases "start = 0")
  case False
  have "continuePrefix @ itoa (int start) \<noteq> []" by (simp add: continuePrefix_def)
  then show ?thesis using False assms by (simp add: pageOffset_def page_token_def Atoi_itoa)
qed (simp add: pageOffset_def page_token_def)

definition pager_fits :: "'a Pager \<Rightarrow> bool" where
  "pager_fits p \<longleftrightarrow> Pager_Validate p = None \<and> pg_PageSize p + int (length (pg_Items p)) \<le> max_int64"

lemma page_size_fits:
  assumes "pager_fits p"
  shows "0 < page_size p limit" "int (page_size p limit) + int (length (pg_Items p)) \<le> max_int64"
  using assms by (auto simp: pager_fits_def page_size_def Pager_Validate_def split: if_splits)

lemma page_slice_token:
  assumes "pager_fits p" "start \<le> length (pg_Items p)"
  shows "page_slice p (int start) limit =
    (let rest = drop start (pg_Items p); k = page_size p limit
     in if length rest \<le> k then Returned rest [] None else Returned (take k rest) (page_token (start + k)) None)"
proof -
  let ?n = "length (pg_Items p)" and ?size = "page_size p limit"
  have size: "(if limit > 0 \<and> limit < pg_PageSize p then limit else pg_PageSize p) = int ?size"
    using assms(1) by (auto simp: page_size_def pager_fits_def Pager_Validate_def split: if_splits)
  have wrap: "wrap64 (int start + int ?size) = int start + int ?size"
    using page_size_fits[OF assms(1), of limit] assms(2) by (intro wrap64_id) (simp_all add: min_int64_def)
  show ?thesis
  proof (cases "?n - start \<le> ?size")
    case True
    then have "min (int start + int ?size) (int ?n) = int ?n" using assms(2) by simp
    then show ?thesis using True assms(2) by (simp add: page_slice_def Let_def size wrap)
  next
    case False
    then have "min (int start + int ?size) (int ?n) = int (start + ?size)" by simp
    moreover have "int (start + ?size) \<noteq> int ?n" "\<not> int (start + ?size) < int start" using False by simp_all
    moreover have "page_token (start + ?size) = continuePrefix @ itoa (int (start + ?size))"
      using page_size_fits(1)[OF assms(1), of limit] by (simp add: page_token_def)
    moreover have "drop start (take (start + ?size) (pg_Items p)) = take ?size (drop start (pg_Items p))"
      by (simp add: take_drop add.commute)
    ultimately show ?thesis using False by (simp only: page_slice_def Let_def size wrap length_drop if_False nat_int)
  qed
qed

lemma Page_token:
  assumes "pager_fits p" "start = 0 \<or> start < length (pg_Items p)"
  shows "Page is_pr p (page_token start) limit c =
    (let rest = drop start (pg_Items p); k = page_size p limit
     in if length rest \<le> k then Returned rest [] None else Returned (take k rest) (page_token (start + k)) None,
     Record_all [pg_ListOperation p, MetadataPage] c)"
proof -
  have "Pager_Validate p = None" "int (length (pg_Items p)) \<le> max_int64" "start \<le> length (pg_Items p)"
    using assms by (auto simp: pager_fits_def Pager_Validate_def split: if_splits)
  then show ?thesis
    using pageOffset_token[OF assms(2)] page_slice_token[OF assms(1)] by (simp add: Page_def Record_all_def Let_def)
qed

abbreviation page_operations :: "'a Pager \<Rightarrow> nat \<Rightarrow> Operation list" where
  "page_operations p n \<equiv> concat (replicate n [pg_ListOperation p, MetadataPage])"

lemma read_pages_from:
  assumes "pager_fits p" "start = 0 \<or> start < length (pg_Items p)"
    "page_count (page_size p limit) (length (pg_Items p) - start) \<le> fuel"
  shows "read_pages is_pr fuel p (page_token start) limit c =
    Some (drop start (pg_Items p),
      Record_all (page_operations p (page_count (page_size p limit) (length (pg_Items p) - start))) c)"
  using assms(2,3)
proof (induction fuel arbitrary: start c)
  case 0
  then show ?case by (simp add: page_count_def)
next
  case (Suc fuel)
  let ?n = "length (pg_Items p)" and ?size = "page_size p limit"
  have size: "0 < ?size" by (rule page_size_fits(1)[OF assms(1)])
  show ?case
  proof (cases "?n - start \<le> ?size")
    case True
    then show ?thesis
      using Suc.prems(1) by (simp add: Page_token[OF assms(1)] Let_def page_count_last[OF size])
  next
    case False
    then have count: "page_count ?size (?n - start) = Suc (page_count ?size (?n - (start + ?size)))"
      using page_count_step[OF size, of "?n - start"] by simp
    moreover have "page_token (start + ?size) \<noteq> []" using size by (simp add: page_token_def continuePrefix_def)
    moreover have "take ?size (drop start (pg_Items p)) @ drop (start + ?size) (pg_Items p) = drop start (pg_Items p)"
      by (metis append_take_drop_id drop_drop add.commute)
    moreover from False have "start + ?size < ?n" by linarith
    moreover have "read_pages is_pr fuel p (page_token (start + ?size)) limit (Record_all [pg_ListOperation p, MetadataPage] c)
        = Some (drop (start + ?size) (pg_Items p),
            Record_all (page_operations p (page_count ?size (?n - start))) c)"
      using Suc.prems(2) \<open>start + ?size < ?n\<close> Suc.IH[of "start + ?size"] count by (simp add: Record_all_def)
    ultimately show ?thesis using Suc.prems(1) False by (simp add: Page_token[OF assms(1)] Let_def)
  qed
qed

text \<open>
  Following the continue tokens from the first page, under any limit, gives the items of the fixture
  once each and in their order, after exactly as many pages as the items need (one when there is none), and
  each page is counted once as its list operation and once as a page.  The page size has to be positive, the list
  operation valid, and the page size and the number of items together in the range of \<open>int\<close>.
\<close>

theorem pager_serves_all:
  assumes "Pager_Validate p = None" and "pg_PageSize p + int (length (pg_Items p)) \<le> max_int64"
    and "page_count (page_size p limit) (length (pg_Items p)) \<le> fuel"
  shows "read_pages is_pr fuel p [] limit c =
    Some (pg_Items p, Record_all (concat (replicate (page_count (page_size p limit) (length (pg_Items p)))
      [pg_ListOperation p, MetadataPage])) c)"
  using read_pages_from[of p 0 limit fuel is_pr c] assms by (simp add: pager_fits_def page_token_def)

lemma MetadataList_below: "\<not> operationCount \<le> MetadataList"
  by code_simp

theorem pager_serves_all_witness:
  "read_pages (\<lambda>_. True) 3 \<lparr>pg_Items = [1, 2, 3, 4, 5 :: nat], pg_PageSize = 10, pg_ListOperation = MetadataList\<rparr> [] 2
     (Some zero_Counts)
   = Some ([1, 2, 3, 4, 5], Record_all [MetadataList, MetadataPage, MetadataList, MetadataPage, MetadataList, MetadataPage]
       (Some zero_Counts))"
proof -
  let ?p = "\<lparr>pg_Items = [1, 2, 3, 4, 5 :: nat], pg_PageSize = 10, pg_ListOperation = MetadataList\<rparr>"
  have valid: "Pager_Validate ?p = None" by (simp add: Pager_Validate_def MetadataList_below)
  have count: "page_count (page_size ?p 2) (length (pg_Items ?p)) = 3" by (simp add: page_count_def page_size_def)
  show ?thesis
    using pager_serves_all[OF valid, of 2 3 "\<lambda>_. True" "Some zero_Counts"] count
    by (simp add: max_int64_def numeral_3_eq_3)
qed

text \<open>
  The bound on the page size is needed: after a first page that a limit made short, the end of the next
  page wraps around and the slice panics, although the pager is valid.
\<close>

lemma page_end_overflows:
  "Pager_Validate \<lparr>pg_Items = [x, y], pg_PageSize = max_int64, pg_ListOperation = MetadataList\<rparr> = None"
  "fst (Page is_pr \<lparr>pg_Items = [x, y], pg_PageSize = max_int64, pg_ListOperation = MetadataList\<rparr> (page_token 1) 0 c) = PagePanicked"
proof -
  show valid: "Pager_Validate \<lparr>pg_Items = [x, y], pg_PageSize = max_int64, pg_ListOperation = MetadataList\<rparr> = None"
    by (simp add: Pager_Validate_def MetadataList_below max_int64_def)
  have "pageOffset is_pr (page_token 1) (int 2) = Inr (int 1)" by (rule pageOffset_token) (simp_all add: max_int64_def)
  then show "fst (Page is_pr \<lparr>pg_Items = [x, y], pg_PageSize = max_int64, pg_ListOperation = MetadataList\<rparr> (page_token 1) 0 c) = PagePanicked"
    using valid by (simp add: Page_def page_slice_def Let_def max_int64_def wrap64_def)
qed

section \<open>Names\<close>

text \<open>Numbers of the same number of digits are ordered as their digits are.\<close>

lemma digits_value_less:
  "a < b \<Longrightarrow> length ds = length es \<Longrightarrow> \<forall>d \<in> set ds. d < 10 \<Longrightarrow> digits_value a ds < digits_value b es"
proof (induction ds arbitrary: a b es)
  case (Cons d ds)
  then obtain e es' where es: "es = e # es'" by (cases es) auto
  have "10 * a + d < 10 * b + e" using Cons.prems(1,3) by simp
  then show ?case using Cons es by simp
qed simp

lemma digits_value_lex:
  "ds < es \<Longrightarrow> length ds = length es \<Longrightarrow> \<forall>d \<in> set ds. d < 10 \<Longrightarrow> digits_value a ds < digits_value a es"
proof (induction ds arbitrary: a es)
  case (Cons d ds)
  then obtain e es' where es: "es = e # es'" by (cases es) auto
  show ?case
  proof (cases "d = e")
    case True
    then show ?thesis using Cons es by simp
  next
    case False
    then have "10 * a + d < 10 * a + e" using Cons.prems(1) es by simp
    then show ?thesis using Cons.prems(2,3) es digits_value_less by simp
  qed
qed simp

lemma digits10_length: "n < 10 ^ k \<Longrightarrow> 0 < k \<Longrightarrow> length (digits10 n) \<le> k"
proof (induction n arbitrary: k rule: digits10.induct)
  case (1 n)
  show ?case
  proof (cases "n < 10")
    case True
    then show ?thesis using 1 by (subst digits10.simps) simp
  next
    case False
    then obtain k' where k: "k = Suc k'" "0 < k'" using 1(2,3) by (cases k; cases "k - 1") auto
    then have "length (digits10 (n div 10)) \<le> k'" using 1(1)[OF False, of k'] 1(2) by (simp add: less_mult_imp_div_less mult.commute)
    then show ?thesis using False k by (subst digits10.simps) simp
  qed
qed

lemma digits_value_zeros: "digits_value 0 (replicate k 0 @ ds) = digits_value 0 ds"
  by (induction k) simp_all

definition digits_06 :: "int \<Rightarrow> nat list" where
  "digits_06 i = replicate (6 - length (digits10 (nat i))) 0 @ digits10 (nat i)"

lemma digits_06:
  assumes "0 \<le> i" "i < 1000000"
  shows "length (digits_06 i) = 6" "\<forall>d \<in> set (digits_06 i). d < 10" "digits_value 0 (digits_06 i) = nat i"
    "format_06d i = map (\<lambda>d. char_of (48 + d)) (digits_06 i)"
proof -
  have zero: "CHR ''0'' = char_of (48 :: nat)" by code_simp
  have "length (digits10 (nat i)) \<le> 6" by (rule digits10_length) (use assms in simp_all)
  then show "length (digits_06 i) = 6" by (simp add: digits_06_def)
  show "\<forall>d \<in> set (digits_06 i). d < 10" by (auto simp: digits_06_def dest: digits10_small)
  show "digits_value 0 (digits_06 i) = nat i" by (simp only: digits_06_def digits_value_zeros digits10_value)
  show "format_06d i = map (\<lambda>d. char_of (48 + d)) (digits_06 i)"
    using assms zero by (simp add: format_06d_def digits_06_def nat_string_def Let_def)
qed

lemma digit_chars_less:
  fixes ds es :: "nat list"
  shows "ds < es \<Longrightarrow> \<forall>d \<in> set ds \<union> set es. d < 10 \<Longrightarrow> map (\<lambda>d. char_of (48 + d) :: char) ds < map (\<lambda>d. char_of (48 + d)) es"
proof (induction ds arbitrary: es)
  case Nil
  then show ?case by (cases es) simp_all
next
  case (Cons d ds)
  then obtain e es' where es: "es = e # es'" by (cases es) simp_all
  have "char_of (48 + d) < (char_of (48 + e) :: char)" if "d < e"
    using that Cons.prems(2) es by (simp add: less_char_def)
  then show ?case using Cons es by auto
qed

lemma Name_mono:
  assumes "0 \<le> i" "i < j" "j < 1000000"
  shows "Name prefix i < Name prefix j"
proof -
  have i: "i < 1000000" and j: "0 \<le> j" using assms by auto
  note di = digits_06[OF assms(1) i] and dj = digits_06[OF j assms(3)]
  have "digits_06 i < digits_06 j"
  proof (rule ccontr)
    assume "\<not> digits_06 i < digits_06 j"
    then have "digits_06 j = digits_06 i \<or> digits_06 j < digits_06 i" by auto
    then have "nat j \<le> nat i" using digits_value_lex[of "digits_06 j" "digits_06 i" 0] di(1,3) dj(1-3) by fastforce
    then show False using assms by simp
  qed
  then have "format_06d i < format_06d j" unfolding di(4) dj(4) by (rule digit_chars_less) (use di(2) dj(2) in auto)
  then have "p @ format_06d i < p @ format_06d j" for p by (induction p) simp_all
  then show ?thesis unfolding Name_def append_assoc[symmetric] .
qed

text \<open>
  Sorting the names of fixtures sorts their indexes, for indexes of at most six digits: the
  order of the fixtures is the order in which the program lists and reports them.
\<close>

theorem sorted_names_by_index:
  assumes "\<forall>i \<in> set indexes. 0 \<le> i \<and> i < 1000000"
  shows "SortedStrings (map (Name prefix) indexes) = map (Name prefix) (sort indexes)"
proof -
  have "sorted_wrt (\<lambda>x y. Name prefix x \<le> Name prefix y) (sort indexes)"
  proof (rule sorted_wrt_mono_rel[OF _ sorted_sort])
    fix i j assume "i \<in> set (sort indexes)" "j \<in> set (sort indexes)" "i \<le> j"
    then show "Name prefix i \<le> Name prefix j" using assms Name_mono[of i j prefix] by (cases "i = j") auto
  qed
  then show ?thesis unfolding SortedStrings_def
    by (intro properties_for_sort) (simp_all add: sorted_map)
qed

theorem sorted_names_by_index_witness:
  "SortedStrings (map (Name ''pod'') [10, 2, 9]) = [''pod-000002'', ''pod-000009'', ''pod-000010'']"
proof -
  have "map (Name ''pod'') (sort [10, 2, 9]) = [''pod-000002'', ''pod-000009'', ''pod-000010'']" by code_simp
  then show ?thesis using sorted_names_by_index[of "[10, 2, 9]" "''pod''"] by simp
qed

end
