(* ===== verification/Kube_Types.thy ===== *)
theory Kube_Types
  imports Go_Runtime
begin

text \<open>
  The Kubernetes data the sources handle, as far as they look at it: label selectors, resource
  names, errors of the API machinery, object metadata, and the configuration objects that
  diagnosis inspects.  These types come from the Kubernetes libraries, which are not part of the
  repository: a record here has one field per datum the modelled code reads.  The library
  functions that the code calls on them are fields of \<open>kube_lib\<close>, an argument of every definition
  that uses one.
\<close>

section \<open>Names\<close>

record GroupResource =
  gr_Group :: string
  gr_Resource :: string

record GroupVersionResource =
  gvr_Group :: string
  gvr_Version :: string
  gvr_Resource :: string

text \<open>\<open>GroupResource.WithVersion\<close>, \<open>GroupVersionResource.GroupResource\<close>.\<close>

definition WithVersion :: "GroupResource \<Rightarrow> string \<Rightarrow> GroupVersionResource" where
  "WithVersion gr v = \<lparr>gvr_Group = gr_Group gr, gvr_Version = v, gvr_Resource = gr_Resource gr\<rparr>"

type_synonym labels = "string \<rightharpoonup> string"
type_synonym selector = "labels \<Rightarrow> bool"
type_synonym UID = string

record LabelSelectorRequirement =
  lsr_Key :: string
  lsr_Operator :: string
  lsr_Values :: "string list"

record LabelSelector =
  ls_MatchLabels :: "(string \<times> string) list"
  ls_MatchExpressions :: "LabelSelectorRequirement list"

section \<open>Library functions\<close>

text \<open>
  \<^item> \<open>lib_LabelSelectorAsSelector\<close>: \<open>metav1.LabelSelectorAsSelector\<close>, an error text or the predicate
    \<open>Selector.Matches\<close>;
  \<^item> \<open>lib_Everything\<close>: \<open>labels.Everything()\<close>;
  \<^item> \<open>lib_GroupResourceString\<close>: \<open>schema.GroupResource.String\<close>;
  \<^item> \<open>lib_GroupVersionString\<close>: \<open>schema.GroupVersion.String\<close>, from group and version;
  \<^item> \<open>lib_ParseGroupVersion\<close>: \<open>schema.ParseGroupVersion\<close>, an error text or group and version;
  \<^item> \<open>lib_TimeJSON\<close>: the text \<open>metav1.Time.MarshalJSON\<close> writes;
  \<^item> \<open>lib_IsPrint\<close>, \<open>lib_ToLower\<close>: \<open>strconv.IsPrint\<close> and \<open>unicode.ToLower\<close> above ASCII.
\<close>

record kube_lib =
  lib_LabelSelectorAsSelector :: "LabelSelector \<Rightarrow> string + selector"
  lib_Everything :: selector
  lib_GroupResourceString :: "GroupResource \<Rightarrow> string"
  lib_GroupVersionString :: "string \<Rightarrow> string \<Rightarrow> string"
  lib_ParseGroupVersion :: "string \<Rightarrow> string + string \<times> string"
  lib_TimeJSON :: "time \<Rightarrow> string"
  lib_IsPrint :: "rune \<Rightarrow> bool"
  lib_ToLower :: "rune \<Rightarrow> rune"

section \<open>Errors\<close>

text \<open>
  An error as the code observes it: its text, and the answers of the predicates of
  \<open>k8s.io/apimachinery/pkg/api/errors\<close> and of \<open>errors.Is(_, context.DeadlineExceeded)\<close> on it.
  \<open>ae_Reason\<close> is \<open>ReasonForError\<close> (empty for \<open>StatusReasonUnknown\<close>) and \<open>ae_ClientDelay\<close> is
  \<open>SuggestsClientDelay\<close>.
\<close>

record ApiError =
  ae_Text :: string
  ae_NotFound :: bool
  ae_Gone :: bool
  ae_Conflict :: bool
  ae_TooManyRequests :: bool
  ae_Timeout :: bool
  ae_ServerTimeout :: bool
  ae_InternalError :: bool
  ae_ServiceUnavailable :: bool
  ae_Forbidden :: bool
  ae_MethodNotSupported :: bool
  ae_AlreadyExists :: bool
  ae_RequestEntityTooLarge :: bool
  ae_DeadlineExceeded :: bool
  ae_Reason :: string
  ae_ClientDelay :: "int option"

text \<open>\<open>errors.New\<close>: an error that none of the predicates recognises.\<close>

definition errors_New :: "string \<Rightarrow> ApiError" where
  "errors_New t =
     \<lparr>ae_Text = t, ae_NotFound = False, ae_Gone = False, ae_Conflict = False,
      ae_TooManyRequests = False, ae_Timeout = False, ae_ServerTimeout = False,
      ae_InternalError = False, ae_ServiceUnavailable = False, ae_Forbidden = False,
      ae_MethodNotSupported = False, ae_AlreadyExists = False, ae_RequestEntityTooLarge = False,
      ae_DeadlineExceeded = False, ae_Reason = [], ae_ClientDelay = None\<rparr>"

text \<open>\<open>fmt.Errorf\<close> with one \<open>%w\<close> at the end: the text grows, the wrapped error stays visible.\<close>

definition errorf_wrap :: "string \<Rightarrow> ApiError \<Rightarrow> ApiError" where
  "errorf_wrap prefix e = e\<lparr>ae_Text := prefix @ ae_Text e\<rparr>"

text \<open>An object that is absent: not found or gone.\<close>

definition unavailable :: "ApiError \<Rightarrow> bool" where
  "unavailable e \<longleftrightarrow> ae_NotFound e \<or> ae_Gone e"

section \<open>Object metadata\<close>

record OwnerReference =
  or_APIVersion :: string
  or_Kind :: string
  or_Name :: string
  or_UID :: UID

record ObjectMeta =
  om_Name :: string
  om_UID :: UID
  om_ResourceVersion :: string
  om_Generation :: int
  om_CreationTimestamp :: time
  om_Annotations :: labels
  om_OwnerReferences :: "OwnerReference list"

definition zero_ObjectMeta :: ObjectMeta where
  "zero_ObjectMeta =
     \<lparr>om_Name = [], om_UID = [], om_ResourceVersion = [], om_Generation = 0,
      om_CreationTimestamp = 0, om_Annotations = Map.empty, om_OwnerReferences = []\<rparr>"

record Condition =
  cond_Type :: string
  cond_Status :: string
  cond_ObservedGeneration :: int
  cond_LastTransitionTime :: time
  cond_Reason :: string
  cond_Message :: string

definition ConditionTrue :: string where [go_enum]: "ConditionTrue = ''True''"
definition ConditionFalse :: string where [go_enum]: "ConditionFalse = ''False''"
definition ConditionUnknown :: string where [go_enum]: "ConditionUnknown = ''Unknown''"

section \<open>Objects the code inspects\<close>

text \<open>\<open>corev1.Namespace\<close>: spec finalizers and status conditions (type, status, message).\<close>

record NamespaceCondition =
  nc_Type :: string
  nc_Status :: string
  nc_Message :: string

record Namespace =
  ns_SpecFinalizers :: "string list"
  ns_StatusConditions :: "NamespaceCondition list"

record ServiceReference =
  sref_Namespace :: string
  sref_Name :: string

record WebhookClientConfig =
  wcc_URL :: "string option"
  wcc_Service :: "ServiceReference option"

text \<open>
  \<open>apiextensionsv1.CustomResourceDefinition\<close>.  The conversion has a strategy and an optional
  webhook, whose client configuration is optional too.
\<close>

record CustomResourceConversion =
  crc_Strategy :: string
  crc_Webhook :: "WebhookClientConfig option option"

record CustomResourceDefinition =
  crd_Name :: string
  crd_Finalizers :: "string list"
  crd_Group :: string
  crd_Plural :: string
  crd_Kind :: string
  crd_Versions :: "(string \<times> bool) list"
  crd_Conversion :: "CustomResourceConversion option"

text \<open>
  An object read through the dynamic client.  \<open>obj_AsNamespace\<close> and \<open>obj_AsCRD\<close> are the results of
  \<open>DefaultUnstructuredConverter.FromUnstructured\<close> on its content, \<open>obj_SpecFinalizers\<close> the result
  of \<open>NestedStringSlice(_, "spec", "finalizers")\<close>: an error text, or the list when it is found.
\<close>

record Unstructured =
  obj_Name :: string
  obj_Namespace :: string
  obj_UID :: UID
  obj_ResourceVersion :: string
  obj_Finalizers :: "string list"
  obj_Labels :: labels
  obj_DeletionTimestamp :: "time option"
  obj_DeletionGracePeriodSeconds :: "int option"
  obj_SpecFinalizers :: "string + string list option"
  obj_AsNamespace :: "string + Namespace"
  obj_AsCRD :: "string + CustomResourceDefinition"

text \<open>\<open>metav1.PartialObjectMetadata\<close> and one page of a metadata list.\<close>

record PartialObjectMetadata =
  pom_Name :: string
  pom_Namespace :: string
  pom_UID :: UID
  pom_ResourceVersion :: string
  pom_Finalizers :: "string list"
  pom_Labels :: labels
  pom_DeletionTimestamp :: "time option"

record MetadataPage =
  page_Items :: "PartialObjectMetadata list"
  page_Continue :: string

text \<open>Admission webhooks.\<close>

record RuleWithOperations =
  rule_Operations :: "string list"
  rule_APIGroups :: "string list"
  rule_APIVersions :: "string list"
  rule_Resources :: "string list"
  rule_Scope :: "string option"

record Webhook =
  wh_Name :: string
  wh_Rules :: "RuleWithOperations list"
  wh_FailurePolicy :: "string option"
  wh_MatchPolicy :: "string option"
  wh_NamespaceSelector :: "LabelSelector option"
  wh_ObjectSelector :: "LabelSelector option"
  wh_ClientConfig :: WebhookClientConfig
  wh_MatchConditions :: nat

record WebhookConfiguration =
  whc_Name :: string
  whc_Webhooks :: "Webhook list"

text \<open>API services, services, endpoint slices and workloads.\<close>

record APIServiceCondition =
  asc_Type :: string
  asc_Status :: string
  asc_Message :: string

record APIService =
  apis_Name :: string
  apis_Group :: string
  apis_Version :: string
  apis_Conditions :: "APIServiceCondition list"

record Service =
  svc_Namespace :: string
  svc_Name :: string

record EndpointSlice =
  eps_Namespace :: string
  eps_Labels :: labels
  eps_Ready :: "bool option list"

text \<open>
  A Deployment, StatefulSet or DaemonSet: \<open>wl_Available\<close> is the field its health check compares
  (available replicas, ready replicas, number ready); \<open>wl_DesiredScheduled\<close> is used for a
  DaemonSet only.
\<close>

record Workload =
  wl_Namespace :: string
  wl_Name :: string
  wl_Generation :: int
  wl_ObservedGeneration :: int
  wl_SpecReplicas :: "int option"
  wl_Available :: int
  wl_DesiredScheduled :: int

section \<open>Constants of the Kubernetes API\<close>

definition FinalizerDeleteDependents :: string where
  [go_enum]: "FinalizerDeleteDependents = ''foregroundDeletion''"

definition CustomResourceCleanupFinalizer :: string where
  [go_enum]: "CustomResourceCleanupFinalizer = ''customresourcecleanup.apiextensions.k8s.io''"

definition LabelServiceName :: string where
  [go_enum]: "LabelServiceName = ''kubernetes.io/service-name''"

definition namespacesGR :: GroupResource where
  [go_enum]: "namespacesGR = \<lparr>gr_Group = [], gr_Resource = ''namespaces''\<rparr>"

definition crdsGR :: GroupResource where
  [go_enum]: "crdsGR = \<lparr>gr_Group = ''apiextensions.k8s.io'', gr_Resource = ''customresourcedefinitions''\<rparr>"

lemma errors_New_simps [simp]:
  "ae_Text (errors_New t) = t" "ae_NotFound (errors_New t) = False" "ae_Gone (errors_New t) = False"
  "ae_Conflict (errors_New t) = False"
  by (simp_all add: errors_New_def)

lemma unavailable_errors_New [simp]: "\<not> unavailable (errors_New t)"
  by (simp add: unavailable_def)

lemma unavailable_wrap [simp]: "unavailable (errorf_wrap p e) = unavailable e"
  by (simp add: unavailable_def errorf_wrap_def)

end
