(* ===== verification/Api_Types.thy ===== *)
theory Api_Types
  imports Kube_Types
begin

text \<open>
  The API of the group \<open>safety.exitguard.io/v1alpha1\<close> (\<open>api/v1alpha1\<close>): the string enumerations, the
  records of the three custom resources and their parts, and the JSON text of the parts whose
  encoded size or encoded equality the program looks at.

  A Go enumeration here is a named string type with constants, so every string is a value of it;
  each is a type synonym of \<^typ>\<open>string\<close> with one constant per declared value.  A nil and an empty
  slice are the same list; a pointer is an \<open>option\<close>.
\<close>

section \<open>Enumerations (common_types.go)\<close>

type_synonym RiskLevel = string

definition RiskNone :: RiskLevel where [go_enum]: "RiskNone = ''None''"
definition RiskLow :: RiskLevel where [go_enum]: "RiskLow = ''Low''"
definition RiskMedium :: RiskLevel where [go_enum]: "RiskMedium = ''Medium''"
definition RiskHigh :: RiskLevel where [go_enum]: "RiskHigh = ''High''"
definition RiskCritical :: RiskLevel where [go_enum]: "RiskCritical = ''Critical''"

type_synonym IncidentPhase = string

definition IncidentPhaseActive :: IncidentPhase where [go_enum]: "IncidentPhaseActive = ''Active''"
definition IncidentPhaseDiagnosisFailed :: IncidentPhase where [go_enum]: "IncidentPhaseDiagnosisFailed = ''DiagnosisFailed''"
definition IncidentPhaseResolved :: IncidentPhase where [go_enum]: "IncidentPhaseResolved = ''Resolved''"

type_synonym FindingType = string

definition FindingBlockingFinalizer :: FindingType where [go_enum]: "FindingBlockingFinalizer = ''BlockingFinalizer''"
definition FindingRemainingResource :: FindingType where [go_enum]: "FindingRemainingResource = ''RemainingResource''"
definition FindingUnavailableAPIService :: FindingType where [go_enum]: "FindingUnavailableAPIService = ''UnavailableAPIService''"
definition FindingDiscoveryFailure :: FindingType where [go_enum]: "FindingDiscoveryFailure = ''DiscoveryFailure''"
definition FindingBlockingWebhook :: FindingType where [go_enum]: "FindingBlockingWebhook = ''BlockingWebhook''"
definition FindingMissingFinalizerController :: FindingType where [go_enum]: "FindingMissingFinalizerController = ''MissingFinalizerController''"
definition FindingDeletionGracePeriodExceeded :: FindingType where [go_enum]: "FindingDeletionGracePeriodExceeded = ''DeletionGracePeriodExceeded''"
definition FindingResourceTypeRemoved :: FindingType where [go_enum]: "FindingResourceTypeRemoved = ''ResourceTypeRemoved''"
definition FindingPolicyDisallowsRemediation :: FindingType where [go_enum]: "FindingPolicyDisallowsRemediation = ''PolicyDisallowsRemediation''"
definition FindingUnknown :: FindingType where [go_enum]: "FindingUnknown = ''Unknown''"

type_synonym RemediationActionType = string

definition ActionRemoveResourceFinalizer :: RemediationActionType where [go_enum]: "ActionRemoveResourceFinalizer = ''RemoveResourceFinalizer''"
definition ActionRemoveCRDFinalizer :: RemediationActionType where [go_enum]: "ActionRemoveCRDFinalizer = ''RemoveCRDFinalizer''"
definition ActionForceFinalizeNamespace :: RemediationActionType where [go_enum]: "ActionForceFinalizeNamespace = ''ForceFinalizeNamespace''"

type_synonym ApprovalPhase = string

definition ApprovalPhasePending :: ApprovalPhase where [go_enum]: "ApprovalPhasePending = ''Pending''"
definition ApprovalPhaseRunning :: ApprovalPhase where [go_enum]: "ApprovalPhaseRunning = ''Running''"
definition ApprovalPhaseSucceeded :: ApprovalPhase where [go_enum]: "ApprovalPhaseSucceeded = ''Succeeded''"
definition ApprovalPhaseDryRunSucceeded :: ApprovalPhase where [go_enum]: "ApprovalPhaseDryRunSucceeded = ''DryRunSucceeded''"
definition ApprovalPhaseFailed :: ApprovalPhase where [go_enum]: "ApprovalPhaseFailed = ''Failed''"
definition ApprovalPhaseExpired :: ApprovalPhase where [go_enum]: "ApprovalPhaseExpired = ''Expired''"
definition ApprovalPhaseSuperseded :: ApprovalPhase where [go_enum]: "ApprovalPhaseSuperseded = ''Superseded''"

type_synonym ApprovalResult = string

definition ApprovalResultMutated :: ApprovalResult where [go_enum]: "ApprovalResultMutated = ''Mutated''"
definition ApprovalResultAlreadySatisfied :: ApprovalResult where [go_enum]: "ApprovalResultAlreadySatisfied = ''AlreadySatisfied''"
definition ApprovalResultDryRunValidated :: ApprovalResult where [go_enum]: "ApprovalResultDryRunValidated = ''DryRunValidated''"
definition ApprovalResultRejectedByPolicy :: ApprovalResult where [go_enum]: "ApprovalResultRejectedByPolicy = ''RejectedByPolicy''"
definition ApprovalResultTargetReplaced :: ApprovalResult where [go_enum]: "ApprovalResultTargetReplaced = ''TargetReplaced''"
definition ApprovalResultTargetChanged :: ApprovalResult where [go_enum]: "ApprovalResultTargetChanged = ''TargetChanged''"
definition ApprovalResultAPIError :: ApprovalResult where [go_enum]: "ApprovalResultAPIError = ''APIError''"

section \<open>Records\<close>

record TargetReference =
  tr_APIGroup :: string
  tr_Version :: string
  tr_Resource :: string
  tr_Kind :: string
  tr_Namespace :: string
  tr_Name :: string
  tr_UID :: UID

record ObjectIdentityReference =
  oir_Name :: string
  oir_UID :: UID

record PolicyReference =
  pr_Name :: string
  pr_UID :: UID
  pr_Generation :: int

record ControllerReference =
  cr_APIVersion :: string
  cr_Kind :: string
  cr_Namespace :: string
  cr_Name :: string

record Finding =
  f_ID :: string
  f_Type :: FindingType
  f_Message :: string
  f_ResourceRef :: "TargetReference option"
  f_Finalizer :: string
  f_APIService :: string
  f_Webhook :: string
  f_ControllerRef :: "ControllerReference option"
  f_Count :: "int option"
  f_Truncated :: bool

definition zero_Finding :: Finding where
  "zero_Finding =
     \<lparr>f_ID = [], f_Type = [], f_Message = [], f_ResourceRef = None, f_Finalizer = [],
      f_APIService = [], f_Webhook = [], f_ControllerRef = None, f_Count = None, f_Truncated = False\<rparr>"

record TargetSnapshot =
  ts_ResourceVersion :: string
  ts_MetadataFinalizers :: "string list"
  ts_NamespaceFinalizers :: "string list"

definition zero_TargetSnapshot :: TargetSnapshot where
  "zero_TargetSnapshot =
     \<lparr>ts_ResourceVersion = [], ts_MetadataFinalizers = [], ts_NamespaceFinalizers = []\<rparr>"

record RemediationAction =
  a_ID :: string
  a_Type :: RemediationActionType
  a_Risk :: RiskLevel
  a_Target :: TargetReference
  a_Finalizer :: string
  a_Eligible :: bool
  a_IneligibleReason :: string
  a_PreconditionResourceVersion :: string
  a_Reason :: string

text \<open>TerminationPolicy (terminationpolicy_types.go).\<close>

record TargetRule =
  rl_APIGroups :: "string list"
  rl_Resources :: "string list"
  rl_NamespaceSelector :: "LabelSelector option"
  rl_ObjectSelector :: "LabelSelector option"
  rl_ExcludedNamespaces :: "string list"

record DiagnosisPolicy =
  dp_CheckAPIServices :: bool
  dp_CheckWebhooks :: bool
  dp_MaxNamespaceObjects :: int
  dp_MaxCRDInstances :: int

record FinalizerOwner =
  fo_Finalizer :: string
  fo_ControllerRef :: ControllerReference

record RemediationPolicy =
  rp_MaxRisk :: RiskLevel
  rp_AllowedFinalizers :: "string list"
  rp_AllowNamespaceForce :: bool
  rp_ApprovalTTL :: duration

record RetentionPolicy =
  rt_ResolvedIncidentTTL :: duration

record TerminationPolicySpec =
  sp_Priority :: int
  sp_TargetRules :: "TargetRule list"
  sp_TerminationAge :: duration
  sp_Diagnosis :: DiagnosisPolicy
  sp_FinalizerOwners :: "FinalizerOwner list"
  sp_Remediation :: RemediationPolicy
  sp_Retention :: RetentionPolicy

record TerminationPolicyStatus =
  ps_ObservedGeneration :: int
  ps_Conditions :: "Condition list"
  ps_LastValidatedTime :: "time option"
  ps_ResolvedResourceCount :: int

record TerminationPolicy =
  tp_Meta :: ObjectMeta
  tp_Spec :: TerminationPolicySpec
  tp_Status :: TerminationPolicyStatus

text \<open>DeletionIncident (deletionincident_types.go).\<close>

record DeletionIncidentSpec =
  ds_Target :: TargetReference
  ds_FirstObservedTime :: time

record DeletionIncidentStatus =
  is_Phase :: IncidentPhase
  is_ActivePolicyRef :: "PolicyReference option"
  is_DeletionTimestamp :: "time option"
  is_LastObservedTime :: "time option"
  is_ActionEvidenceTime :: "time option"
  is_ActionEvidenceExpiresTime :: "time option"
  is_ResolvedTime :: "time option"
  is_ResolutionReason :: string
  is_TargetSnapshot :: TargetSnapshot
  is_Findings :: "Finding list"
  is_RecommendedActions :: "RemediationAction list"
  is_Conditions :: "Condition list"

definition zero_DeletionIncidentStatus :: DeletionIncidentStatus where
  "zero_DeletionIncidentStatus =
     \<lparr>is_Phase = [], is_ActivePolicyRef = None, is_DeletionTimestamp = None,
      is_LastObservedTime = None, is_ActionEvidenceTime = None, is_ActionEvidenceExpiresTime = None,
      is_ResolvedTime = None, is_ResolutionReason = [], is_TargetSnapshot = zero_TargetSnapshot,
      is_Findings = [], is_RecommendedActions = [], is_Conditions = []\<rparr>"

record DeletionIncident =
  di_Meta :: ObjectMeta
  di_Spec :: DeletionIncidentSpec
  di_Status :: DeletionIncidentStatus

text \<open>RemediationApproval (remediationapproval_types.go).\<close>

record RemediationApprovalSpec =
  rs_IncidentRef :: ObjectIdentityReference
  rs_ActionID :: string
  rs_DryRun :: bool
  rs_Reason :: string

record RemediationAttempt =
  at_Time :: time
  at_ActionType :: RemediationActionType
  at_DryRun :: bool
  at_ResourceVersionBefore :: string
  at_ResourceVersionAfter :: string
  at_Result :: ApprovalResult
  at_ErrorReason :: string
  at_Message :: string

definition zero_RemediationAttempt :: RemediationAttempt where
  "zero_RemediationAttempt =
     \<lparr>at_Time = 0, at_ActionType = [], at_DryRun = False, at_ResourceVersionBefore = [],
      at_ResourceVersionAfter = [], at_Result = [], at_ErrorReason = [], at_Message = []\<rparr>"

record RemediationApprovalStatus =
  as_Phase :: ApprovalPhase
  as_Result :: ApprovalResult
  as_ObservedGeneration :: int
  as_StartedTime :: "time option"
  as_CompletedTime :: "time option"
  as_Action :: "RemediationAction option"
  as_Attempts :: "RemediationAttempt list"
  as_Conditions :: "Condition list"

record RemediationApproval =
  ra_Meta :: ObjectMeta
  ra_Spec :: RemediationApprovalSpec
  ra_Status :: RemediationApprovalStatus

section \<open>JSON\<close>

text \<open>
  \<open>encoding/json\<close> on the structures above: a field is written in declaration order under the name
  of its tag, a field tagged \<open>omitempty\<close> is left out when it is zero.  Strings are escaped as
  the encoder does by default (HTML characters and the line separators included), an ill-formed byte
  becomes the six characters of \<open>U+FFFD\<close>.
\<close>

datatype json = JStr string | JInt int | JBool bool | JRaw string | JArr "json list"
  | JObj "(string \<times> json) list"

definition json_rune :: "rune \<times> nat list \<Rightarrow> string" where
  "json_rune rb =
     (let r = fst rb
      in if r = runeError \<and> length (snd rb) = 1 then CHR 0x5C # ''ufffd''
         else if r = 0x22 \<or> r = 0x5C then CHR 0x5C # of_bytes [r]
         else if r = 8 then CHR 0x5C # ''b''
         else if r = 12 then CHR 0x5C # ''f''
         else if r = 10 then CHR 0x5C # ''n''
         else if r = 13 then CHR 0x5C # ''r''
         else if r = 9 then CHR 0x5C # ''t''
         else if r < 0x20 \<or> r = 0x3C \<or> r = 0x3E \<or> r = 0x26 \<or> r = 0x2028 \<or> r = 0x2029
           then CHR 0x5C # ''u'' @ hex_digits 4 r
         else of_bytes (snd rb))"

definition json_string :: "string \<Rightarrow> string" where
  "json_string s = ''\"'' @ concat (map json_rune (decode_all (byte_vals s))) @ ''\"''"

fun json_text :: "json \<Rightarrow> string" where
  "json_text (JStr s) = json_string s"
| "json_text (JInt i) = itoa i"
| "json_text (JBool b) = format_bool b"
| "json_text (JRaw s) = s"
| "json_text (JArr xs) = ''['' @ strings_Join (map json_text xs) '','' @ '']''"
| "json_text (JObj fs) =
     ''{'' @ strings_Join (map (\<lambda>f. json_string (fst f) @ '':'' @ json_text (snd f)) fs) '','' @ ''}''"

abbreviation omit_empty :: "string \<Rightarrow> string \<Rightarrow> (string \<times> json) list" where
  "omit_empty k v \<equiv> (if v = [] then [] else [(k, JStr v)])"

definition TargetReference_json :: "TargetReference \<Rightarrow> json" where
  "TargetReference_json t =
     JObj (omit_empty ''apiGroup'' (tr_APIGroup t)
       @ [(''version'', JStr (tr_Version t)), (''resource'', JStr (tr_Resource t)),
          (''kind'', JStr (tr_Kind t))]
       @ omit_empty ''namespace'' (tr_Namespace t)
       @ [(''name'', JStr (tr_Name t)), (''uid'', JStr (tr_UID t))])"

definition ControllerReference_json :: "ControllerReference \<Rightarrow> json" where
  "ControllerReference_json c =
     JObj [(''apiVersion'', JStr (cr_APIVersion c)), (''kind'', JStr (cr_Kind c)),
           (''namespace'', JStr (cr_Namespace c)), (''name'', JStr (cr_Name c))]"

definition Finding_json :: "Finding \<Rightarrow> json" where
  "Finding_json f =
     JObj ([(''id'', JStr (f_ID f)), (''type'', JStr (f_Type f)), (''message'', JStr (f_Message f))]
       @ (case f_ResourceRef f of None \<Rightarrow> [] | Some t \<Rightarrow> [(''resourceRef'', TargetReference_json t)])
       @ omit_empty ''finalizer'' (f_Finalizer f)
       @ omit_empty ''apiService'' (f_APIService f)
       @ omit_empty ''webhook'' (f_Webhook f)
       @ (case f_ControllerRef f of None \<Rightarrow> [] | Some c \<Rightarrow> [(''controllerRef'', ControllerReference_json c)])
       @ (case f_Count f of None \<Rightarrow> [] | Some n \<Rightarrow> [(''count'', JInt n)])
       @ (if f_Truncated f then [(''truncated'', JBool True)] else []))"

definition RemediationAction_json :: "RemediationAction \<Rightarrow> json" where
  "RemediationAction_json a =
     JObj ([(''id'', JStr (a_ID a)), (''type'', JStr (a_Type a)), (''risk'', JStr (a_Risk a)),
            (''target'', TargetReference_json (a_Target a))]
       @ omit_empty ''finalizer'' (a_Finalizer a)
       @ [(''eligible'', JBool (a_Eligible a))]
       @ omit_empty ''ineligibleReason'' (a_IneligibleReason a)
       @ omit_empty ''preconditionResourceVersion'' (a_PreconditionResourceVersion a)
       @ [(''reason'', JStr (a_Reason a))])"

definition RemediationAttempt_json :: "kube_lib \<Rightarrow> RemediationAttempt \<Rightarrow> json" where
  "RemediationAttempt_json L t =
     JObj ([(''time'', JRaw (lib_TimeJSON L (at_Time t))), (''actionType'', JStr (at_ActionType t)),
            (''dryRun'', JBool (at_DryRun t))]
       @ omit_empty ''resourceVersionBefore'' (at_ResourceVersionBefore t)
       @ omit_empty ''resourceVersionAfter'' (at_ResourceVersionAfter t)
       @ [(''result'', JStr (at_Result t))]
       @ omit_empty ''errorReason'' (at_ErrorReason t)
       @ omit_empty ''message'' (at_Message t))"

definition Condition_json :: "kube_lib \<Rightarrow> Condition \<Rightarrow> json" where
  "Condition_json L c =
     JObj ([(''type'', JStr (cond_Type c)), (''status'', JStr (cond_Status c))]
       @ (if cond_ObservedGeneration c = 0 then []
          else [(''observedGeneration'', JInt (cond_ObservedGeneration c))])
       @ [(''lastTransitionTime'', JRaw (lib_TimeJSON L (cond_LastTransitionTime c))),
          (''reason'', JStr (cond_Reason c)), (''message'', JStr (cond_Message c))])"

definition RemediationApprovalStatus_json :: "kube_lib \<Rightarrow> RemediationApprovalStatus \<Rightarrow> json" where
  "RemediationApprovalStatus_json L s =
     JObj (omit_empty ''phase'' (as_Phase s)
       @ omit_empty ''result'' (as_Result s)
       @ (if as_ObservedGeneration s = 0 then []
          else [(''observedGeneration'', JInt (as_ObservedGeneration s))])
       @ (case as_StartedTime s of None \<Rightarrow> [] | Some t \<Rightarrow> [(''startedTime'', JRaw (lib_TimeJSON L t))])
       @ (case as_CompletedTime s of None \<Rightarrow> [] | Some t \<Rightarrow> [(''completedTime'', JRaw (lib_TimeJSON L t))])
       @ (case as_Action s of None \<Rightarrow> [] | Some a \<Rightarrow> [(''action'', RemediationAction_json a)])
       @ (if as_Attempts s = [] then []
          else [(''attempts'', JArr (map (RemediationAttempt_json L) (as_Attempts s)))])
       @ (if as_Conditions s = [] then []
          else [(''conditions'', JArr (map (Condition_json L) (as_Conditions s)))]))"

section \<open>The constants are different\<close>

lemma risk_distinct [simp]:
  "RiskNone \<noteq> RiskLow" "RiskNone \<noteq> RiskMedium" "RiskNone \<noteq> RiskHigh" "RiskNone \<noteq> RiskCritical"
  "RiskLow \<noteq> RiskNone" "RiskLow \<noteq> RiskMedium" "RiskLow \<noteq> RiskHigh" "RiskLow \<noteq> RiskCritical"
  "RiskMedium \<noteq> RiskNone" "RiskMedium \<noteq> RiskLow" "RiskMedium \<noteq> RiskHigh" "RiskMedium \<noteq> RiskCritical"
  "RiskHigh \<noteq> RiskNone" "RiskHigh \<noteq> RiskLow" "RiskHigh \<noteq> RiskMedium" "RiskHigh \<noteq> RiskCritical"
  "RiskCritical \<noteq> RiskNone" "RiskCritical \<noteq> RiskLow" "RiskCritical \<noteq> RiskMedium" "RiskCritical \<noteq> RiskHigh"
  by (simp_all add: go_enum)

lemma action_distinct [simp]:
  "ActionRemoveResourceFinalizer \<noteq> ActionRemoveCRDFinalizer"
  "ActionRemoveCRDFinalizer \<noteq> ActionRemoveResourceFinalizer"
  "ActionRemoveResourceFinalizer \<noteq> ActionForceFinalizeNamespace"
  "ActionForceFinalizeNamespace \<noteq> ActionRemoveResourceFinalizer"
  "ActionRemoveCRDFinalizer \<noteq> ActionForceFinalizeNamespace"
  "ActionForceFinalizeNamespace \<noteq> ActionRemoveCRDFinalizer"
  by (simp_all add: go_enum)

lemma incident_phase_distinct [simp]:
  "IncidentPhaseActive \<noteq> IncidentPhaseDiagnosisFailed" "IncidentPhaseActive \<noteq> IncidentPhaseResolved"
  "IncidentPhaseDiagnosisFailed \<noteq> IncidentPhaseActive" "IncidentPhaseDiagnosisFailed \<noteq> IncidentPhaseResolved"
  "IncidentPhaseResolved \<noteq> IncidentPhaseActive" "IncidentPhaseResolved \<noteq> IncidentPhaseDiagnosisFailed"
  by (simp_all add: go_enum)

end
