(* ===== verification/Discovery.thy ===== *)
theory Discovery
  imports Api_Types "HOL-Library.Product_Lexorder"
begin

text \<open>
  The discovery catalog (\<open>internal/discovery/catalog.go\<close>): served versions of a resource, immutable
  snapshots, the construction of a snapshot from one discovery answer, and the catalog that
  publishes complete snapshots only.  Go maps that are iterated are association lists.
\<close>

section \<open>Versions and resources\<close>

record Version =
  v_Version :: string
  v_Kind :: string
  v_Namespaced :: bool
  v_verbs :: "string list"

definition Version_Verbs :: "Version \<Rightarrow> string list" where
  "Version_Verbs v = v_verbs v"

record Resource =
  res_GroupResource :: GroupResource
  res_PreferredVersion :: Version
  res_alternates :: "Version list"

definition newResourceOwned :: "GroupResource \<Rightarrow> Version \<Rightarrow> Version list \<Rightarrow> Resource" where
  "newResourceOwned gr preferred alternates =
     \<lparr>res_GroupResource = gr, res_PreferredVersion = preferred, res_alternates = alternates\<rparr>"

definition cloneVersion :: "Version \<Rightarrow> Version" where
  "cloneVersion v = v\<lparr>v_verbs := v_verbs v @ []\<rparr>"

definition newResource :: "GroupResource \<Rightarrow> Version \<Rightarrow> Version list \<Rightarrow> Resource" where
  "newResource gr preferred alternates =
     newResourceOwned gr (cloneVersion preferred) (map cloneVersion alternates)"

definition cloneResource :: "Resource \<Rightarrow> Resource" where
  "cloneResource r = newResource (res_GroupResource r) (res_PreferredVersion r) (res_alternates r)"

definition cloneResources :: "Resource list \<Rightarrow> Resource list" where
  "cloneResources rs = map cloneResource rs"

definition AlternateVersions :: "Resource \<Rightarrow> Version list" where
  "AlternateVersions r = res_alternates r"

definition Supports :: "Resource \<Rightarrow> string \<Rightarrow> bool" where
  "Supports r verb \<longleftrightarrow> verb \<in> set (v_verbs (res_PreferredVersion r))"

text \<open>The closure \<open>appendVersion\<close> of \<open>OrderedVersions\<close>.\<close>

definition appendVersion :: "Version list \<Rightarrow> Version \<Rightarrow> Version list" where
  "appendVersion versions candidate =
     (if \<exists>existing \<in> set versions. v_Version existing = v_Version candidate then versions
      else versions @ [candidate])"

definition OrderedVersions :: "Resource \<Rightarrow> string \<Rightarrow> Version list" where
  "OrderedVersions r requested =
     (let requestedFirst =
        (if requested \<noteq> [] then
           (let v1 = (if v_Version (res_PreferredVersion r) = requested
                      then appendVersion [] (res_PreferredVersion r) else [])
            in foldl (\<lambda>vs a. if v_Version a = requested then appendVersion vs a else vs) v1
                 (res_alternates r))
         else [])
      in foldl appendVersion (appendVersion requestedFirst (res_PreferredVersion r)) (res_alternates r))"

definition EligibleForWildcard :: "Resource \<Rightarrow> bool" where
  "EligibleForWildcard r \<longleftrightarrow>
     (let gr = res_GroupResource r
      in gr_Resource gr \<noteq> ''events'' \<and>
         (gr_Group gr \<noteq> ''coordination.k8s.io'' \<or> gr_Resource gr \<noteq> ''leases''))"

section \<open>Snapshots\<close>

record Snapshot =
  sn_resources :: "(GroupResource \<times> Resource) list"
  sn_ordered :: "Resource list"

definition newSnapshot :: "Resource list \<Rightarrow> Snapshot" where
  "newSnapshot rs =
     \<lparr>sn_resources = foldl (\<lambda>m r. AList.update (res_GroupResource (cloneResource r)) (cloneResource r) m) [] rs,
      sn_ordered = cloneResources rs\<rparr>"

definition Snapshot_Resources :: "Snapshot \<Rightarrow> Resource list" where
  "Snapshot_Resources s = cloneResources (sn_ordered s)"

definition Resolve :: "Snapshot \<Rightarrow> GroupResource \<Rightarrow> Resource option" where
  "Resolve s gr = map_of (sn_resources s) gr"

definition Snapshot_Len :: "Snapshot \<Rightarrow> nat" where
  "Snapshot_Len s = length (sn_resources s)"

section \<open>Building a snapshot from discovery\<close>

text \<open>What one discovery call returns: groups and resource lists, entries may be nil.\<close>

record APIGroup =
  ag_Name :: string
  ag_PreferredVersion :: string
  ag_Versions :: "string list"

record APIResource =
  ar_Name :: string
  ar_Kind :: string
  ar_Namespaced :: bool
  ar_Verbs :: "string list"

record APIResourceList =
  arl_GroupVersion :: string
  arl_APIResources :: "APIResource list"

type_synonym ranks = "(string \<times> int) list"

definition group_ranks :: "APIGroup \<Rightarrow> ranks" where
  "group_ranks g =
     fst (foldl (\<lambda>(ranks, nxt) version.
            (case map_of ranks version of
               Some _ \<Rightarrow> (ranks, nxt)
             | None \<Rightarrow> (AList.update version nxt ranks, nxt + 1)))
          (if ag_PreferredVersion g \<noteq> [] then ([(ag_PreferredVersion g, 0)], 1) else ([], 0))
          (ag_Versions g))"

definition discoveryPreferences :: "APIGroup option list \<Rightarrow> (string \<times> ranks) list" where
  "discoveryPreferences groups =
     foldl (\<lambda>prefs group. case group of None \<Rightarrow> prefs | Some g \<Rightarrow> AList.update (ag_Name g) (group_ranks g) prefs)
       [([], [(''v1'', 0)])] groups"

definition unknownRank :: int where
  "unknownRank = max_int64"

definition version_rank :: "ranks \<Rightarrow> Version \<Rightarrow> int" where
  "version_rank preference v =
     (case map_of preference (v_Version v) of None \<Rightarrow> unknownRank | Some r \<Rightarrow> r)"

definition orderVersions :: "Version list \<Rightarrow> ranks \<Rightarrow> Version list" where
  "orderVersions versions preference =
     sort_key (\<lambda>v. (version_rank preference v, v_Version v)) versions"

definition scannable :: "APIResource \<Rightarrow> bool" where
  "scannable ar \<longleftrightarrow>
     \<not> (strings_Contains (ar_Name ar) ''/'' \<or> ''get'' \<notin> set (ar_Verbs ar) \<or> ''list'' \<notin> set (ar_Verbs ar))"

type_synonym version_table = "(GroupResource \<times> Version list) list"

definition add_resource :: "string \<times> string \<Rightarrow> version_table \<Rightarrow> APIResource \<Rightarrow> version_table" where
  "add_resource gv table ar =
     (if \<not> scannable ar then table
      else
        let gr = \<lparr>gr_Group = fst gv, gr_Resource = ar_Name ar\<rparr>;
            version = \<lparr>v_Version = snd gv, v_Kind = ar_Kind ar, v_Namespaced = ar_Namespaced ar,
                       v_verbs = sort (ar_Verbs ar)\<rparr>;
            old = (case map_of table gr of None \<Rightarrow> [] | Some vs \<Rightarrow> vs)
        in AList.update gr (old @ [version]) table)"

fun collect_versions ::
  "kube_lib \<Rightarrow> version_table \<Rightarrow> APIResourceList option list \<Rightarrow> ApiError + version_table" where
  "collect_versions L table [] = Inr table"
| "collect_versions L table (None # resourceLists) = collect_versions L table resourceLists"
| "collect_versions L table (Some l # resourceLists) =
     (case lib_ParseGroupVersion L (arl_GroupVersion l) of
        Inl e \<Rightarrow> Inl (errors_New (''parse discovered groupVersion '' @ quote (lib_IsPrint L) (arl_GroupVersion l)
                   @ '': '' @ e))
      | Inr gv \<Rightarrow> collect_versions L (foldl (add_resource gv) table (arl_APIResources l)) resourceLists)"

definition table_resource :: "(string \<times> ranks) list \<Rightarrow> GroupResource \<times> Version list \<Rightarrow> Resource" where
  "table_resource preferences entry =
     (let ranks = (case map_of preferences (gr_Group (fst entry)) of None \<Rightarrow> [] | Some r \<Rightarrow> r);
          ordered = orderVersions (snd entry) ranks
      in newResourceOwned (fst entry) (hd ordered) (tl ordered))"

definition buildSnapshot ::
  "kube_lib \<Rightarrow> APIGroup option list \<Rightarrow> APIResourceList option list \<Rightarrow> ApiError + Snapshot" where
  "buildSnapshot L groups resourceLists =
     (case collect_versions L [] resourceLists of
        Inl e \<Rightarrow> Inl e
      | Inr table \<Rightarrow>
          Inr (newSnapshot (sort_key (\<lambda>r. lib_GroupResourceString L (res_GroupResource r))
            (map (table_resource (discoveryPreferences groups)) table))))"

section \<open>The catalog\<close>

text \<open>
  \<open>cat_client\<close> says whether the client is set; what it answers is an argument of \<open>Refresh\<close>.
  The counters and the gauge of \<open>metrics.go\<close> are part of the state.
\<close>

record Catalog =
  cat_client :: bool
  cat_interval :: duration
  cat_snapshot :: Snapshot
  cat_lastSuccess :: time
  cat_lastErr :: "ApiError option"
  cat_refreshSuccess :: nat
  cat_refreshError :: nat
  cat_discovered :: int

definition DefaultRefreshInterval :: duration where
  "DefaultRefreshInterval = 5 * minute"

definition NewCatalog :: "bool \<Rightarrow> duration \<Rightarrow> Catalog" where
  "NewCatalog client interval =
     \<lparr>cat_client = client,
      cat_interval = (if interval = 0 then DefaultRefreshInterval else interval),
      cat_snapshot = \<lparr>sn_resources = [], sn_ordered = []\<rparr>, cat_lastSuccess = 0, cat_lastErr = None,
      cat_refreshSuccess = 0, cat_refreshError = 0, cat_discovered = 0\<rparr>"

definition recordError :: "Catalog \<Rightarrow> ApiError \<Rightarrow> Catalog" where
  "recordError c e = c\<lparr>cat_lastErr := Some e\<rparr>"

definition refresh_failed :: "Catalog \<Rightarrow> ApiError \<Rightarrow> Catalog" where
  "refresh_failed c e = (recordError c e)\<lparr>cat_refreshError := Suc (cat_refreshError c)\<rparr>"

type_synonym discovery_answer = "ApiError + APIGroup option list \<times> APIResourceList option list"

definition Refresh :: "kube_lib \<Rightarrow> Catalog \<Rightarrow> discovery_answer \<Rightarrow> time \<Rightarrow> ApiError option \<times> Catalog" where
  "Refresh L c answer now =
     (if \<not> cat_client c then
        let err = errors_New ''discovery client is required'' in (Some err, refresh_failed c err)
      else case answer of
        Inl err \<Rightarrow> (Some (errorf_wrap ''discover API resources: '' err), refresh_failed c err)
      | Inr (groups, resourceLists) \<Rightarrow>
          (case buildSnapshot L groups resourceLists of
             Inl err \<Rightarrow> (Some err, refresh_failed c err)
           | Inr snapshot \<Rightarrow>
               (None, c\<lparr>cat_snapshot := snapshot, cat_lastSuccess := now, cat_lastErr := None,
                        cat_refreshSuccess := Suc (cat_refreshSuccess c),
                        cat_discovered := int (Snapshot_Len snapshot)\<rparr>)))"

definition Catalog_Snapshot :: "Catalog \<Rightarrow> Snapshot" where
  "Catalog_Snapshot c = newSnapshot (cloneResources (sn_ordered (cat_snapshot c)))"

definition LastResult :: "Catalog \<Rightarrow> time \<times> ApiError option" where
  "LastResult c = (cat_lastSuccess c, cat_lastErr c)"

text \<open>
  \<open>Start\<close>: one refresh at once and one per tick until the context is cancelled; the list holds what
  the client answers at each of them, and when.
\<close>

definition Catalog_Start ::
  "kube_lib \<Rightarrow> Catalog \<Rightarrow> (discovery_answer \<times> time) list \<Rightarrow> ApiError option \<times> Catalog" where
  "Catalog_Start L c ticks =
     (if \<not> cat_client c then (Some (errors_New ''discovery client is required''), c)
      else if cat_interval c \<le> 0 then (Some (errors_New ''discovery refresh interval must be positive''), c)
      else (None, foldl (\<lambda>c (answer, now). snd (Refresh L c answer now)) c ticks))"

section \<open>Facts about versions\<close>

lemma cloneVersion_id [simp]: "cloneVersion v = v"
  by (simp add: cloneVersion_def)

lemma cloneResource_id [simp]: "cloneResource r = r"
  by (cases r) (simp add: cloneResource_def newResource_def newResourceOwned_def id_def[symmetric] cong: map_cong)

lemma cloneResources_id [simp]: "cloneResources rs = rs"
  by (simp add: cloneResources_def map_idI)

lemma appendVersion_names:
  "set (map v_Version (appendVersion vs c)) = insert (v_Version c) (set (map v_Version vs))"
  by (auto simp: appendVersion_def intro: rev_image_eqI)

lemma appendVersion_distinct:
  "distinct (map v_Version vs) \<Longrightarrow> distinct (map v_Version (appendVersion vs c))"
  by (auto simp: appendVersion_def)

lemma appendVersion_set: "set (appendVersion vs c) \<subseteq> insert c (set vs)"
  by (auto simp: appendVersion_def)

lemma appendVersion_prefix: "\<exists>ws. appendVersion vs c = vs @ ws"
  by (auto simp: appendVersion_def)

lemma fold_appendVersion:
  assumes "distinct (map v_Version vs)"
  shows "distinct (map v_Version (foldl appendVersion vs cs))"
    and "set (map v_Version (foldl appendVersion vs cs)) = set (map v_Version vs) \<union> set (map v_Version cs)"
    and "set (foldl appendVersion vs cs) \<subseteq> set vs \<union> set cs"
    and "\<exists>ws. foldl appendVersion vs cs = vs @ ws"
proof -
  have "distinct (map v_Version (foldl appendVersion vs cs))
    \<and> set (map v_Version (foldl appendVersion vs cs)) = set (map v_Version vs) \<union> set (map v_Version cs)
    \<and> set (foldl appendVersion vs cs) \<subseteq> set vs \<union> set cs
    \<and> (\<exists>ws. foldl appendVersion vs cs = vs @ ws)"
    using assms
  proof (induction cs arbitrary: vs)
    case (Cons c cs)
    note IH = Cons.IH[OF appendVersion_distinct[OF Cons.prems, of c]]
    show ?case
      using IH appendVersion_names[of vs c] appendVersion_set[of vs c] appendVersion_prefix[of vs c]
      by auto
  qed simp
  then show "distinct (map v_Version (foldl appendVersion vs cs))"
    and "set (map v_Version (foldl appendVersion vs cs)) = set (map v_Version vs) \<union> set (map v_Version cs)"
    and "set (foldl appendVersion vs cs) \<subseteq> set vs \<union> set cs"
    and "\<exists>ws. foldl appendVersion vs cs = vs @ ws" by blast+
qed

text \<open>The part of \<open>OrderedVersions\<close> that puts the requested version first, as a filter.\<close>

lemma requested_fold:
  "foldl (\<lambda>vs a. if v_Version a = q then appendVersion vs a else vs) vs as
     = foldl appendVersion vs (filter (\<lambda>a. v_Version a = q) as)"
  by (induction as arbitrary: vs) auto

definition all_versions :: "Resource \<Rightarrow> Version list" where
  "all_versions r = res_PreferredVersion r # res_alternates r"

lemma OrderedVersions_alt:
  "OrderedVersions r q =
     foldl appendVersion
       (foldl appendVersion [] (if q = [] then [] else filter (\<lambda>v. v_Version v = q) (all_versions r)))
       (all_versions r)"
  by (simp add: OrderedVersions_def all_versions_def requested_fold Let_def)

lemma OrderedVersions_facts:
  shows OrderedVersions_distinct: "distinct (map v_Version (OrderedVersions r q))"
    and OrderedVersions_names: "v_Version ` set (OrderedVersions r q) = v_Version ` set (all_versions r)"
    and OrderedVersions_subset: "set (OrderedVersions r q) \<subseteq> set (all_versions r)"
proof -
  let ?req = "foldl appendVersion [] (if q = [] then [] else filter (\<lambda>v. v_Version v = q) (all_versions r))"
  have req: "distinct (map v_Version ?req)" "set ?req \<subseteq> set (all_versions r)"
    using fold_appendVersion(1,3)[of "[]" "if q = [] then [] else filter (\<lambda>v. v_Version v = q) (all_versions r)"]
    by (auto split: if_splits)
  note fold = fold_appendVersion[OF req(1), of "all_versions r"]
  show "distinct (map v_Version (OrderedVersions r q))" using fold(1) by (simp add: OrderedVersions_alt)
  show "v_Version ` set (OrderedVersions r q) = v_Version ` set (all_versions r)"
    using fold(2) req(2) unfolding OrderedVersions_alt set_map by blast
  show "set (OrderedVersions r q) \<subseteq> set (all_versions r)"
    using fold(3) req(2) unfolding OrderedVersions_alt by blast
qed

lemma OrderedVersions_nonempty: "OrderedVersions r q \<noteq> []"
  using OrderedVersions_names[of r q] by (auto simp: all_versions_def)

lemma OrderedVersions_head:
  "v_Version (hd (OrderedVersions r q)) =
     (if q \<noteq> [] \<and> q \<in> v_Version ` set (all_versions r) then q else v_Version (res_PreferredVersion r))"
proof (cases "q \<noteq> [] \<and> q \<in> v_Version ` set (all_versions r)")
  case True
  define qs where "qs = filter (\<lambda>v. v_Version v = q) (all_versions r)"
  have names: "set (map v_Version (foldl appendVersion [] qs)) = {q}"
    using True fold_appendVersion(2)[of "[]" qs] by (auto simp: qs_def)
  then obtain w ws where w: "foldl appendVersion [] qs = w # ws" "v_Version w = q"
    by (cases "foldl appendVersion [] qs") auto
  obtain us where "OrderedVersions r q = (w # ws) @ us"
    using fold_appendVersion(4)[of "foldl appendVersion [] qs" "all_versions r"]
      fold_appendVersion(1)[of "[]" qs] True w
    unfolding OrderedVersions_alt qs_def[symmetric] by auto
  with w True show ?thesis by simp
next
  case False
  then have none: "(if q = [] then [] else filter (\<lambda>v. v_Version v = q) (all_versions r)) = []"
    by (auto simp: filter_empty_conv)
  have "OrderedVersions r q = foldl appendVersion [] (all_versions r)"
    unfolding OrderedVersions_alt none by simp
  then have "OrderedVersions r q = foldl appendVersion [res_PreferredVersion r] (res_alternates r)"
    by (simp add: all_versions_def appendVersion_def[of "[]"])
  then obtain us where "OrderedVersions r q = res_PreferredVersion r # us"
    using fold_appendVersion(4)[of "[res_PreferredVersion r]" "res_alternates r"] by auto
  with False show ?thesis by auto
qed

section \<open>Well-formed snapshots\<close>

definition wf_snapshot :: "Snapshot \<Rightarrow> bool" where
  "wf_snapshot s \<longleftrightarrow>
     distinct (map res_GroupResource (sn_ordered s)) \<and>
     sn_resources s = map (\<lambda>r. (res_GroupResource r, r)) (sn_ordered s)"

lemma snapshot_table:
  assumes "distinct (map fst al @ map res_GroupResource rs)"
  shows "foldl (\<lambda>m r. AList.update (res_GroupResource r) r m) al rs
    = al @ map (\<lambda>r. (res_GroupResource r, r)) rs"
  using assms
proof (induction rs arbitrary: al)
  case (Cons r rs)
  then have "map_of al (res_GroupResource r) = None" by (auto simp: map_of_eq_None_iff)
  with Cons show ?case by (simp add: update_fresh)
qed simp

lemma newSnapshot_wf: "distinct (map res_GroupResource rs) \<Longrightarrow> wf_snapshot (newSnapshot rs)"
  using snapshot_table[of "[]" rs] by (simp add: wf_snapshot_def newSnapshot_def)

lemma newSnapshot_ordered: "sn_ordered (newSnapshot rs) = rs"
  by (simp add: newSnapshot_def)

lemma Snapshot_Resources_eq: "Snapshot_Resources s = sn_ordered s"
  by (simp add: Snapshot_Resources_def)

lemma Resolve_iff:
  assumes "wf_snapshot s"
  shows "Resolve s gr = Some r \<longleftrightarrow> r \<in> set (Snapshot_Resources s) \<and> res_GroupResource r = gr"
proof -
  have "distinct (map fst (sn_resources s))"
    using assms by (simp add: wf_snapshot_def comp_def)
  then have "Resolve s gr = Some r \<longleftrightarrow> (gr, r) \<in> set (sn_resources s)"
    by (simp add: Resolve_def)
  also have "\<dots> \<longleftrightarrow> r \<in> set (Snapshot_Resources s) \<and> res_GroupResource r = gr"
    using assms by (auto simp: wf_snapshot_def Snapshot_Resources_eq)
  finally show ?thesis .
qed

lemma Snapshot_Len_eq: "wf_snapshot s \<Longrightarrow> Snapshot_Len s = length (Snapshot_Resources s)"
  by (simp add: Snapshot_Len_def Snapshot_Resources_eq wf_snapshot_def)

text \<open>
  The interface the policy engine, the diagnosis and the executor rely on: a list of resources and
  a lookup that agrees with it.
\<close>

locale resource_catalog =
  fixes resources :: "'s \<Rightarrow> Resource list"
    and resolve :: "'s \<Rightarrow> GroupResource \<Rightarrow> Resource option"
    and wf :: "'s \<Rightarrow> bool"
  assumes resolve_iff: "wf s \<Longrightarrow> resolve s gr = Some r \<longleftrightarrow> r \<in> set (resources s) \<and> res_GroupResource r = gr"
begin

lemma resolve_None: "wf s \<Longrightarrow> resolve s gr = None \<longleftrightarrow> (\<forall>r\<in>set (resources s). res_GroupResource r \<noteq> gr)"
  using resolve_iff by (metis option.exhaust option.discI)

lemma resolve_key: "wf s \<Longrightarrow> resolve s gr = Some r \<Longrightarrow> res_GroupResource r = gr"
  by (simp add: resolve_iff)

lemma resolve_unique:
  "wf s \<Longrightarrow> r \<in> set (resources s) \<Longrightarrow> r' \<in> set (resources s) \<Longrightarrow>
   res_GroupResource r = res_GroupResource r' \<Longrightarrow> r = r'"
  by (metis resolve_iff option.inject)

end

interpretation snapshot: resource_catalog Snapshot_Resources Resolve wf_snapshot
  by unfold_locales (rule Resolve_iff)

section \<open>What a discovery answer turns into\<close>

definition scannable_version :: "Version \<Rightarrow> bool" where
  "scannable_version v \<longleftrightarrow> ''get'' \<in> set (v_verbs v) \<and> ''list'' \<in> set (v_verbs v) \<and> sorted (v_verbs v)"

definition wf_table :: "version_table \<Rightarrow> bool" where
  "wf_table t \<longleftrightarrow> distinct (map fst t) \<and>
     list_all (\<lambda>(gr, vs). vs \<noteq> [] \<and> list_all scannable_version vs \<and> \<not> strings_Contains (gr_Resource gr) ''/'') t"

lemma add_resource_wf: "wf_table t \<Longrightarrow> wf_table (add_resource gv t ar)"
proof (cases "scannable ar")
  case True
  assume wf: "wf_table t"
  define gr where "gr = \<lparr>gr_Group = fst gv, gr_Resource = ar_Name ar\<rparr>"
  define v where "v = \<lparr>v_Version = snd gv, v_Kind = ar_Kind ar, v_Namespaced = ar_Namespaced ar,
    v_verbs = sort (ar_Verbs ar)\<rparr>"
  define old where "old = (case map_of t gr of None \<Rightarrow> [] | Some vs \<Rightarrow> vs)"
  have "list_all scannable_version old"
    using wf by (auto simp: old_def wf_table_def list_all_iff split: option.splits dest!: map_of_SomeD)
  moreover have "scannable_version v" using True by (simp add: v_def scannable_version_def scannable_def)
  moreover have "\<not> strings_Contains (gr_Resource gr) ''/''" using True by (simp add: gr_def scannable_def)
  ultimately have "list_all (\<lambda>(gr, vs). vs \<noteq> [] \<and> list_all scannable_version vs
      \<and> \<not> strings_Contains (gr_Resource gr) ''/'') (AList.update gr (old @ [v]) t)"
    using wf set_update_subset[of gr "old @ [v]" t] by (fastforce simp: wf_table_def list_all_iff)
  moreover have "add_resource gv t ar = AList.update gr (old @ [v]) t"
    using True by (simp add: add_resource_def gr_def v_def old_def Let_def)
  ultimately show ?thesis using wf by (simp add: wf_table_def)
qed (simp add: add_resource_def)

lemma add_resources_wf: "wf_table t \<Longrightarrow> wf_table (foldl (add_resource gv) t ars)"
  by (induction ars arbitrary: t) (simp_all add: add_resource_wf)

lemma collect_versions_wf: "wf_table t \<Longrightarrow> collect_versions L t ls = Inr t' \<Longrightarrow> wf_table t'"
  by (induction L t ls rule: collect_versions.induct) (auto simp: add_resources_wf split: sum.splits)

lemma orderVersions_perm: "mset (orderVersions vs p) = mset vs"
  by (simp add: orderVersions_def)

lemma table_resource_versions:
  assumes "snd e \<noteq> []"
  shows "mset (all_versions (table_resource p e)) = mset (snd e)"
proof -
  have "orderVersions (snd e) q \<noteq> []" for q
    using assms orderVersions_perm[of "snd e" q] by (metis mset_zero_iff)
  then show ?thesis
    using orderVersions_perm by (simp add: table_resource_def all_versions_def newResourceOwned_def Let_def)
qed

lemma table_resource_key [simp]: "res_GroupResource (table_resource p e) = fst e"
  by (simp add: table_resource_def newResourceOwned_def Let_def)

text \<open>The preferred version is served and no served version has a smaller rank.\<close>

lemma table_resource_preferred:
  fixes p :: "(string \<times> ranks) list" and e :: "GroupResource \<times> Version list"
  assumes "snd e \<noteq> []" and "v \<in> set (snd e)"
  defines "rk \<equiv> version_rank (case map_of p (gr_Group (fst e)) of None \<Rightarrow> [] | Some r \<Rightarrow> r)"
  shows "(rk (res_PreferredVersion (table_resource p e)), v_Version (res_PreferredVersion (table_resource p e)))
    \<le> (rk v, v_Version v)"
proof -
  define key where "key = (\<lambda>v. (rk v, v_Version v))"
  have pref: "res_PreferredVersion (table_resource p e) = hd (sort_key key (snd e))"
    by (simp add: table_resource_def newResourceOwned_def orderVersions_def key_def rk_def Let_def)
  have "sort_key key (snd e) \<noteq> []" using assms(1) by (metis length_0_conv length_sort)
  then obtain w ws where w: "sort_key key (snd e) = w # ws" by (cases "sort_key key (snd e)") auto
  have "sorted (map key (w # ws))" using sorted_sort_key[of key "snd e"] w by metis
  moreover have "v \<in> set (w # ws)" using assms(2) set_sort[of key "snd e"] w by metis
  ultimately have "key w \<le> key v" by auto
  then show ?thesis using pref w by (simp add: key_def)
qed

lemma buildSnapshot_cases:
  assumes "buildSnapshot L groups ls = Inr s"
  obtains t where "wf_table t" and "collect_versions L [] ls = Inr t"
    and "Snapshot_Resources s = sort_key (\<lambda>r. lib_GroupResourceString L (res_GroupResource r))
       (map (table_resource (discoveryPreferences groups)) t)"
    and "s = newSnapshot (Snapshot_Resources s)"
proof -
  from assms obtain t where t: "collect_versions L [] ls = Inr t"
    and s: "s = newSnapshot (sort_key (\<lambda>r. lib_GroupResourceString L (res_GroupResource r))
       (map (table_resource (discoveryPreferences groups)) t))"
    by (auto simp: buildSnapshot_def split: sum.splits)
  have "wf_table t" using collect_versions_wf[OF _ t] by (simp add: wf_table_def)
  moreover note t
  moreover have "Snapshot_Resources s = sort_key (\<lambda>r. lib_GroupResourceString L (res_GroupResource r))
       (map (table_resource (discoveryPreferences groups)) t)"
    by (simp add: s Snapshot_Resources_eq newSnapshot_ordered)
  moreover have "s = newSnapshot (Snapshot_Resources s)"
    by (simp add: s Snapshot_Resources_eq newSnapshot_ordered)
  ultimately show ?thesis by (rule that)
qed

lemma buildSnapshot_wf:
  assumes "buildSnapshot L groups ls = Inr s"
  shows "wf_snapshot s"
proof -
  from assms obtain t where t: "wf_table t"
    and r: "Snapshot_Resources s = sort_key (\<lambda>r. lib_GroupResourceString L (res_GroupResource r))
       (map (table_resource (discoveryPreferences groups)) t)"
    and s: "s = newSnapshot (Snapshot_Resources s)"
    by (rule buildSnapshot_cases)
  have "distinct (map res_GroupResource (Snapshot_Resources s))"
    using t by (simp add: r wf_table_def comp_def)
  then have "wf_snapshot (newSnapshot (Snapshot_Resources s))" by (rule newSnapshot_wf)
  with s show ?thesis by simp
qed

lemma buildSnapshot_scannable:
  assumes "buildSnapshot L groups ls = Inr s" and "r \<in> set (Snapshot_Resources s)"
  shows "list_all scannable_version (all_versions r)
    \<and> \<not> strings_Contains (gr_Resource (res_GroupResource r)) ''/''"
proof -
  from assms(1) obtain t where t: "wf_table t"
    and rs: "Snapshot_Resources s = sort_key (\<lambda>r. lib_GroupResourceString L (res_GroupResource r))
       (map (table_resource (discoveryPreferences groups)) t)"
    by (rule buildSnapshot_cases)
  then obtain e where e: "e \<in> set t" "r = table_resource (discoveryPreferences groups) e"
    using assms(2) by (auto simp: rs)
  with t have "snd e \<noteq> []" "list_all scannable_version (snd e)" "\<not> strings_Contains (gr_Resource (fst e)) ''/''"
    by (auto simp: wf_table_def list_all_iff)
  moreover have "set (all_versions r) = set (snd e)"
    using table_resource_versions[OF \<open>snd e \<noteq> []\<close>] e(2) by (metis mset_eq_setD)
  ultimately show ?thesis using e by (simp add: list_all_iff)
qed

text \<open>
  What a discovery answer offers: a version of a resource for every resource of a list that is there, whose group
  version parses, that can be read and listed and that is no subresource.
\<close>

definition resource_key :: "string \<times> string \<Rightarrow> APIResource \<Rightarrow> GroupResource" where
  "resource_key gv ar = \<lparr>gr_Group = fst gv, gr_Resource = ar_Name ar\<rparr>"

definition offered_version :: "string \<times> string \<Rightarrow> APIResource \<Rightarrow> Version" where
  "offered_version gv ar = \<lparr>v_Version = snd gv, v_Kind = ar_Kind ar, v_Namespaced = ar_Namespaced ar, v_verbs = sort (ar_Verbs ar)\<rparr>"

definition offers :: "kube_lib \<Rightarrow> APIResourceList option list \<Rightarrow> GroupResource \<Rightarrow> Version \<Rightarrow> bool" where
  "offers L ls gr v \<longleftrightarrow>
     (\<exists>l gv ar. Some l \<in> set ls \<and> lib_ParseGroupVersion L (arl_GroupVersion l) = Inr gv
        \<and> ar \<in> set (arl_APIResources l) \<and> scannable ar \<and> gr = resource_key gv ar \<and> v = offered_version gv ar)"

definition tabled :: "version_table \<Rightarrow> GroupResource \<Rightarrow> Version \<Rightarrow> bool" where
  "tabled t gr v \<longleftrightarrow> (\<exists>vs. map_of t gr = Some vs \<and> v \<in> set vs)"

lemma tabled_add_resource:
  "tabled (add_resource gv t ar) gr v \<longleftrightarrow> tabled t gr v \<or> scannable ar \<and> gr = resource_key gv ar \<and> v = offered_version gv ar"
  by (cases "map_of t (resource_key gv ar)")
    (auto simp: tabled_def add_resource_def resource_key_def offered_version_def update_conv' Let_def)

lemma tabled_add_resources:
  "tabled (foldl (add_resource gv) t ars) gr v
   \<longleftrightarrow> tabled t gr v \<or> (\<exists>ar\<in>set ars. scannable ar \<and> gr = resource_key gv ar \<and> v = offered_version gv ar)"
  by (induction ars arbitrary: t) (auto simp: tabled_add_resource)

lemma offers_Cons:
  "offers L (Some l # ls) gr v \<longleftrightarrow> offers L ls gr v
   \<or> (\<exists>gv. lib_ParseGroupVersion L (arl_GroupVersion l) = Inr gv
        \<and> (\<exists>ar\<in>set (arl_APIResources l). scannable ar \<and> gr = resource_key gv ar \<and> v = offered_version gv ar))"
  unfolding offers_def list.set insert_iff option.inject by blast

lemma tabled_collect:
  "collect_versions L t ls = Inr t' \<Longrightarrow> tabled t' gr v \<longleftrightarrow> tabled t gr v \<or> offers L ls gr v"
proof (induction L t ls rule: collect_versions.induct)
  case (3 L t l ls)
  from "3.prems" obtain gv where gv: "lib_ParseGroupVersion L (arl_GroupVersion l) = Inr gv"
    and rest: "collect_versions L (foldl (add_resource gv) t (arl_APIResources l)) ls = Inr t'"
    by (auto split: sum.splits)
  from "3.IH"[OF gv rest] show ?case unfolding tabled_add_resources offers_Cons using gv by simp blast
qed (auto simp: offers_def)

text \<open>The resources of a snapshot are the entries of the table.\<close>

lemma snapshot_offers:
  assumes "buildSnapshot L groups ls = Inr s"
  shows "(\<exists>r\<in>set (Snapshot_Resources s). res_GroupResource r = gr \<and> v \<in> set (all_versions r)) \<longleftrightarrow> offers L ls gr v"
proof -
  from assms obtain t where t: "wf_table t" "collect_versions L [] ls = Inr t"
    and rs: "Snapshot_Resources s = sort_key (\<lambda>r. lib_GroupResourceString L (res_GroupResource r))
       (map (table_resource (discoveryPreferences groups)) t)"
    by (rule buildSnapshot_cases)
  let ?r = "table_resource (discoveryPreferences groups)"
  have versions: "set (all_versions (?r e)) = set (snd e)" if "e \<in> set t" for e
  proof -
    from that t(1) have "snd e \<noteq> []" by (auto simp: wf_table_def list_all_iff)
    from mset_eq_setD[OF table_resource_versions[OF this]] show ?thesis .
  qed
  have "(\<exists>r\<in>set (Snapshot_Resources s). res_GroupResource r = gr \<and> v \<in> set (all_versions r))
      \<longleftrightarrow> (\<exists>e\<in>set t. res_GroupResource (?r e) = gr \<and> v \<in> set (all_versions (?r e)))"
    by (simp add: rs)
  also have "\<dots> \<longleftrightarrow> (\<exists>e\<in>set t. fst e = gr \<and> v \<in> set (snd e))" using versions by simp
  also have "\<dots> \<longleftrightarrow> (\<exists>vs. (gr, vs) \<in> set t \<and> v \<in> set vs)" by (metis fst_conv prod.collapse snd_conv)
  also have "\<dots> \<longleftrightarrow> tabled t gr v"
    using t(1) by (simp add: tabled_def wf_table_def)
  also have "\<dots> \<longleftrightarrow> offers L ls gr v" using tabled_collect[OF t(2)] by (simp add: tabled_def)
  finally show ?thesis .
qed

text \<open>The preferred version of a group goes before the others of a resource.\<close>

definition version_order :: "APIGroup option list \<Rightarrow> GroupResource \<Rightarrow> Version \<Rightarrow> int \<times> string" where
  "version_order groups gr v =
     (version_rank (case map_of (discoveryPreferences groups) (gr_Group gr) of None \<Rightarrow> [] | Some r \<Rightarrow> r) v, v_Version v)"

lemma buildSnapshot_preferred:
  assumes "buildSnapshot L groups ls = Inr s" and "r \<in> set (Snapshot_Resources s)" and "v \<in> set (all_versions r)"
  shows "version_order groups (res_GroupResource r) (res_PreferredVersion r) \<le> version_order groups (res_GroupResource r) v"
proof -
  from assms(1) obtain t where t: "wf_table t"
    and rs: "Snapshot_Resources s = sort_key (\<lambda>r. lib_GroupResourceString L (res_GroupResource r))
       (map (table_resource (discoveryPreferences groups)) t)"
    by (rule buildSnapshot_cases)
  then obtain e where e: "e \<in> set t" "r = table_resource (discoveryPreferences groups) e"
    using assms(2) by (auto simp: rs)
  with t have ne: "snd e \<noteq> []" by (auto simp: wf_table_def list_all_iff)
  then have "v \<in> set (snd e)" using assms(3) table_resource_versions[OF ne] e(2) by (metis mset_eq_setD)
  from table_resource_preferred[OF ne this, of "discoveryPreferences groups"] show ?thesis
    by (simp add: version_order_def e(2))
qed

section \<open>The catalog as a machine\<close>

lemma Refresh_cases:
  obtains (failed) e e' where "Refresh L c answer now = (Some e, refresh_failed c e')"
  | (published) groups ls s where "cat_client c" "answer = Inr (groups, ls)"
      "buildSnapshot L groups ls = Inr s" "Refresh L c answer now =
        (None, c\<lparr>cat_snapshot := s, cat_lastSuccess := now, cat_lastErr := None,
                 cat_refreshSuccess := Suc (cat_refreshSuccess c), cat_discovered := int (Snapshot_Len s)\<rparr>)"
proof (cases "cat_client c")
  case False
  then show ?thesis using failed by (simp add: Refresh_def Let_def)
next
  case client: True
  show ?thesis
  proof (cases answer)
    case (Inl e)
    with client show ?thesis using failed by (simp add: Refresh_def)
  next
    case (Inr gl)
    then obtain groups ls where gl: "answer = Inr (groups, ls)" by (cases gl) auto
    show ?thesis
    proof (cases "buildSnapshot L groups ls")
      case (Inl e)
      with client gl show ?thesis using failed by (simp add: Refresh_def)
    next
      case (Inr s)
      with client gl show ?thesis using published by (simp add: Refresh_def)
    qed
  qed
qed

lemma refresh_failed_keeps [simp]:
  "cat_snapshot (refresh_failed c e) = cat_snapshot c"
  "cat_lastSuccess (refresh_failed c e) = cat_lastSuccess c"
  "cat_lastErr (refresh_failed c e) = Some e"
  "cat_interval (refresh_failed c e) = cat_interval c"
  "cat_client (refresh_failed c e) = cat_client c"
  by (simp_all add: refresh_failed_def recordError_def)

lemma Refresh_wf: "wf_snapshot (cat_snapshot c) \<Longrightarrow> wf_snapshot (cat_snapshot (snd (Refresh L c answer now)))"
  by (cases rule: Refresh_cases[of L c answer now]) (auto dest: buildSnapshot_wf)

lemma refreshes_wf:
  "wf_snapshot (cat_snapshot c) \<Longrightarrow>
   wf_snapshot (cat_snapshot (foldl (\<lambda>c (answer, now). snd (Refresh L c answer now)) c ticks))"
  by (induction ticks arbitrary: c) (auto simp: Refresh_wf)

lemma Catalog_Start_wf:
  "wf_snapshot (cat_snapshot c) \<Longrightarrow> wf_snapshot (cat_snapshot (snd (Catalog_Start L c ticks)))"
  by (simp add: Catalog_Start_def refreshes_wf)

lemma NewCatalog_wf: "wf_snapshot (cat_snapshot (NewCatalog client interval))"
  by (simp add: NewCatalog_def wf_snapshot_def)

lemma Catalog_Snapshot_eq: "wf_snapshot (cat_snapshot c) \<Longrightarrow> Catalog_Snapshot c = cat_snapshot c"
proof -
  assume wf: "wf_snapshot (cat_snapshot c)"
  then have "wf_snapshot (newSnapshot (sn_ordered (cat_snapshot c)))"
    by (intro newSnapshot_wf) (simp add: wf_snapshot_def)
  with wf show ?thesis
    by (simp add: Catalog_Snapshot_def wf_snapshot_def newSnapshot_ordered)
qed

section \<open>Properties\<close>

text \<open>
  \<open>OrderedVersions\<close> yields each served version exactly once, all of them, and starts with the
  requested version when it is served and with the preferred one otherwise.
\<close>

theorem ordered_versions_spec:
  "distinct (map v_Version (OrderedVersions r q))
   \<and> v_Version ` set (OrderedVersions r q) = v_Version ` set (res_PreferredVersion r # res_alternates r)
   \<and> v_Version (hd (OrderedVersions r q)) =
       (if q \<noteq> [] \<and> q \<in> v_Version ` set (res_PreferredVersion r # res_alternates r)
        then q else v_Version (res_PreferredVersion r))"
  using OrderedVersions_distinct OrderedVersions_names OrderedVersions_head
  unfolding all_versions_def by blast

text \<open>
  C34.  A snapshot built from discovery lists exactly what discovery offers.  A version of a resource is in
  it if and only if some resource list offers it: the list is there, its group version parses, the resource can be
  read and listed and is no subresource.  Every GroupResource is listed once, sorted by its string form,
  under the version that its group prefers; and \<open>Resolve\<close> finds exactly the listed resources.
\<close>

theorem build_snapshot_spec:
  assumes "buildSnapshot L groups resourceLists = Inr s"
  shows "(\<forall>gr v. (\<exists>r\<in>set (Snapshot_Resources s). res_GroupResource r = gr \<and> v \<in> set (res_PreferredVersion r # res_alternates r))
        \<longleftrightarrow> offers L resourceLists gr v)
    \<and> distinct (map res_GroupResource (Snapshot_Resources s))
    \<and> sorted (map (\<lambda>r. lib_GroupResourceString L (res_GroupResource r)) (Snapshot_Resources s))
    \<and> (\<forall>gr r. Resolve s gr = Some r \<longleftrightarrow> r \<in> set (Snapshot_Resources s) \<and> res_GroupResource r = gr)
    \<and> (\<forall>r\<in>set (Snapshot_Resources s). \<forall>v\<in>set (res_PreferredVersion r # res_alternates r).
         version_order groups (res_GroupResource r) (res_PreferredVersion r) \<le> version_order groups (res_GroupResource r) v
         \<and> ''get'' \<in> set (v_verbs v) \<and> ''list'' \<in> set (v_verbs v))
    \<and> (\<forall>r\<in>set (Snapshot_Resources s). \<not> strings_Contains (gr_Resource (res_GroupResource r)) ''/'')"
proof -
  have wf: "wf_snapshot s" using assms by (rule buildSnapshot_wf)
  have sorted: "sorted (map (\<lambda>r. lib_GroupResourceString L (res_GroupResource r)) (Snapshot_Resources s))"
    using assms by (rule buildSnapshot_cases) simp
  have scan: "\<forall>r\<in>set (Snapshot_Resources s). list_all scannable_version (all_versions r)
      \<and> \<not> strings_Contains (gr_Resource (res_GroupResource r)) ''/''"
    using buildSnapshot_scannable[OF assms] by blast
  have offer: "\<forall>gr v. (\<exists>r\<in>set (Snapshot_Resources s). res_GroupResource r = gr \<and> v \<in> set (res_PreferredVersion r # res_alternates r))
      \<longleftrightarrow> offers L resourceLists gr v"
    using snapshot_offers[OF assms] unfolding all_versions_def by blast
  have preferred: "\<forall>r\<in>set (Snapshot_Resources s). \<forall>v\<in>set (res_PreferredVersion r # res_alternates r).
      version_order groups (res_GroupResource r) (res_PreferredVersion r) \<le> version_order groups (res_GroupResource r) v"
    using buildSnapshot_preferred[OF assms] unfolding all_versions_def by blast
  show ?thesis
    using wf sorted scan snapshot.resolve_iff[OF wf] preferred
    by (intro conjI offer)
      (simp_all add: wf_snapshot_def Snapshot_Resources_eq all_versions_def scannable_version_def list_all_iff)
qed

text \<open>
  A refresh that reports an error leaves the published snapshot and the time of the last
  success as they were; one that succeeds publishes a complete, well-formed snapshot at the current
  time and clears the error.
\<close>

theorem refresh_publishes_complete_only:
  "case Refresh L c answer now of
     (Some e, c') \<Rightarrow> cat_snapshot c' = cat_snapshot c \<and> cat_lastSuccess c' = cat_lastSuccess c
                      \<and> cat_lastErr c' \<noteq> None
   | (None, c') \<Rightarrow> wf_snapshot (cat_snapshot c') \<and> LastResult c' = (now, None)
                      \<and> (\<exists>groups ls. answer = Inr (groups, ls) \<and> buildSnapshot L groups ls = Inr (cat_snapshot c'))"
  by (cases rule: Refresh_cases[of L c answer now]) (auto simp: LastResult_def intro: buildSnapshot_wf)

text \<open>
  Whatever the discovery answers have been since the catalog was created, the snapshot it hands
  out is well formed and is the one it published last.
\<close>

theorem catalog_snapshot_invariant:
  "wf_snapshot (Catalog_Snapshot (snd (Catalog_Start L (NewCatalog client interval) ticks)))
   \<and> Catalog_Snapshot (snd (Catalog_Start L (NewCatalog client interval) ticks))
       = cat_snapshot (snd (Catalog_Start L (NewCatalog client interval) ticks))"
  using Catalog_Start_wf[OF NewCatalog_wf] Catalog_Snapshot_eq by metis

end
