(* ===== verification/Samples.thy ===== *)
theory Samples
  imports Discovery
begin

text \<open>
  Concrete values that the witnesses of the development share: an implementation of the library
  functions, a discovery answer, a policy and the snapshot they are resolved against.
\<close>

definition sample_split :: "string \<Rightarrow> string \<times> string" where
  "sample_split s = (takeWhile (\<lambda>c. c \<noteq> CHR ''/'') s, drop 1 (dropWhile (\<lambda>c. c \<noteq> CHR ''/'') s))"

definition sample_lib :: kube_lib where
  "sample_lib =
     \<lparr>lib_LabelSelectorAsSelector = (\<lambda>s. Inr (\<lambda>l. list_all (\<lambda>(k, v). l k = Some v) (ls_MatchLabels s))),
      lib_Everything = (\<lambda>_. True),
      lib_GroupResourceString = (\<lambda>gr. if gr_Group gr = [] then gr_Resource gr
                                      else gr_Resource gr @ ''.'' @ gr_Group gr),
      lib_GroupVersionString = (\<lambda>g v. if g = [] then v else g @ ''/'' @ v),
      lib_ParseGroupVersion = (\<lambda>s. if CHR ''/'' \<in> set s then Inr (sample_split s) else Inr ([], s)),
      lib_TimeJSON = (\<lambda>t. ''\"'' @ itoa t @ ''\"''),
      lib_IsPrint = (\<lambda>_. True),
      lib_ToLower = (\<lambda>r. r)\<rparr>"

lemma sample_lib_simps [simp]:
  "lib_LabelSelectorAsSelector sample_lib s = Inr (\<lambda>l. list_all (\<lambda>(k, v). l k = Some v) (ls_MatchLabels s))"
  "lib_Everything sample_lib = (\<lambda>_. True)"
  by (simp_all add: sample_lib_def)

definition widgetsGR :: GroupResource where
  "widgetsGR = \<lparr>gr_Group = ''example.io'', gr_Resource = ''widgets''\<rparr>"

definition sample_version :: "string \<Rightarrow> string \<Rightarrow> bool \<Rightarrow> Version" where
  "sample_version version kind namespaced =
     \<lparr>v_Version = version, v_Kind = kind, v_Namespaced = namespaced, v_verbs = [''delete'', ''get'', ''list'']\<rparr>"

definition sample_resources :: "Resource list" where
  "sample_resources =
     [newResourceOwned namespacesGR (sample_version ''v1'' ''Namespace'' False) [],
      newResourceOwned widgetsGR (sample_version ''v1'' ''Widget'' True) [sample_version ''v1beta1'' ''Widget'' True]]"

definition sample_snapshot :: Snapshot where
  "sample_snapshot = newSnapshot sample_resources"

lemma sample_snapshot_wf: "wf_snapshot sample_snapshot"
  unfolding sample_snapshot_def
  by (rule newSnapshot_wf) (simp add: sample_resources_def newResourceOwned_def namespacesGR_def widgetsGR_def)

lemma sample_snapshot_resources: "Snapshot_Resources sample_snapshot = sample_resources"
  by (simp add: sample_snapshot_def Snapshot_Resources_eq newSnapshot_ordered)

definition sample_groups :: "APIGroup option list" where
  "sample_groups = [Some \<lparr>ag_Name = ''example.io'', ag_PreferredVersion = ''v1'', ag_Versions = [''v1'', ''v1beta1'']\<rparr>]"

definition sample_resource_lists :: "APIResourceList option list" where
  "sample_resource_lists =
     [Some \<lparr>arl_GroupVersion = ''example.io/v1'',
            arl_APIResources =
              [\<lparr>ar_Name = ''widgets'', ar_Kind = ''Widget'', ar_Namespaced = True, ar_Verbs = [''list'', ''get'']\<rparr>,
               \<lparr>ar_Name = ''widgets/status'', ar_Kind = ''Widget'', ar_Namespaced = True, ar_Verbs = [''get'']\<rparr>]\<rparr>]"

text \<open>A policy that selects widgets and namespaces and allows one finalizer up to high risk.\<close>

definition sample_rule :: TargetRule where
  "sample_rule =
     \<lparr>rl_APIGroups = [''example.io''], rl_Resources = [''widgets''], rl_NamespaceSelector = None,
      rl_ObjectSelector = None, rl_ExcludedNamespaces = [''kube-system'']\<rparr>"

definition sample_spec :: TerminationPolicySpec where
  "sample_spec =
     \<lparr>sp_Priority = 10, sp_TargetRules = [sample_rule], sp_TerminationAge = 5 * minute,
      sp_Diagnosis = \<lparr>dp_CheckAPIServices = True, dp_CheckWebhooks = True, dp_MaxNamespaceObjects = 100,
                      dp_MaxCRDInstances = 100\<rparr>,
      sp_FinalizerOwners = [],
      sp_Remediation = \<lparr>rp_MaxRisk = RiskHigh, rp_AllowedFinalizers = [''example.io/cleanup''],
                        rp_AllowNamespaceForce = False, rp_ApprovalTTL = 10 * minute\<rparr>,
      sp_Retention = \<lparr>rt_ResolvedIncidentTTL = 60 * minute\<rparr>\<rparr>"

definition sample_policy :: TerminationPolicy where
  "sample_policy =
     \<lparr>tp_Meta = zero_ObjectMeta\<lparr>om_Name := ''widgets'', om_UID := ''p-1'', om_Generation := 3\<rparr>,
      tp_Spec = sample_spec,
      tp_Status = \<lparr>ps_ObservedGeneration = 0, ps_Conditions = [], ps_LastValidatedTime = None,
                   ps_ResolvedResourceCount = 0\<rparr>\<rparr>"

text \<open>A discovery answer that builds; the subresource and the duplicate list are left out.\<close>

theorem build_snapshot_spec_witness:
  "\<exists>s. buildSnapshot sample_lib sample_groups (None # sample_resource_lists) = Inr s
       \<and> distinct (map res_GroupResource (Snapshot_Resources s))
       \<and> Snapshot_Len s = 1"
proof -
  define s where "s = projr (buildSnapshot sample_lib sample_groups (None # sample_resource_lists))"
  have ok: "buildSnapshot sample_lib sample_groups (None # sample_resource_lists) = Inr s"
    unfolding s_def by code_simp
  have "Snapshot_Len s = 1" unfolding s_def by code_simp
  with ok build_snapshot_spec[OF ok] show ?thesis by blast
qed

end
