(* ===== verification/Policy.thy ===== *)
theory Policy
  imports Samples
begin

text \<open>
  The policy engine (\<open>internal/policy/engine.go\<close>): compilation of a TerminationPolicy against a
  catalog snapshot, matching of targets, choice of the winning policy, and the eligibility of a
  remediation action.  A pointer to a compiled policy is an option, so that the methods that accept
  a nil receiver do so here.
\<close>

section \<open>Data\<close>

definition maxConditionMessageRunes :: nat where
  "maxConditionMessageRunes = 32768"

definition conditionMessageTruncatedSuffix :: string where
  "conditionMessageTruncatedSuffix = ''... (truncated)''"

definition ConditionReady :: string where [go_enum]: "ConditionReady = ''Ready''"
definition ConditionDiscoveryResolved :: string where
  [go_enum]: "ConditionDiscoveryResolved = ''DiscoveryResolved''"
definition ConditionSelectorsValid :: string where
  [go_enum]: "ConditionSelectorsValid = ''SelectorsValid''"

record Target =
  tg_GroupResource :: GroupResource
  tg_Namespaced :: bool
  tg_Namespace :: string
  tg_Labels :: labels
  tg_NamespaceLabels :: labels

record Settings =
  set_TerminationAge :: duration
  set_Diagnosis :: DiagnosisPolicy
  set_ApprovalTTL :: duration
  set_ResolvedIncidentTTL :: duration
  set_MaxRisk :: RiskLevel
  set_AllowNamespaceForce :: bool

definition zero_Settings :: Settings where
  "zero_Settings =
     \<lparr>set_TerminationAge = 0,
      set_Diagnosis = \<lparr>dp_CheckAPIServices = False, dp_CheckWebhooks = False,
                       dp_MaxNamespaceObjects = 0, dp_MaxCRDInstances = 0\<rparr>,
      set_ApprovalTTL = 0, set_ResolvedIncidentTTL = 0, set_MaxRisk = [],
      set_AllowNamespaceForce = False\<rparr>"

record compiledRule =
  cru_resources :: "(GroupResource \<times> Resource) list"
  cru_namespaceSelector :: selector
  cru_objectSelector :: selector
  cru_excludedNamespaces :: "string set"

record CompiledPolicy =
  cp_name :: string
  cp_uid :: UID
  cp_generation :: int
  cp_priority :: int
  cp_ready :: bool
  cp_rules :: "compiledRule list"
  cp_owners :: "(string \<times> ControllerReference) list"
  cp_allowedFinalizers :: "string set"
  cp_settings :: Settings

section \<open>Helpers\<close>

definition matchesToken :: "string list \<Rightarrow> string \<Rightarrow> bool" where
  "matchesToken tokens v \<longleftrightarrow> ''*'' \<in> set tokens \<or> v \<in> set tokens"

definition withoutWildcard :: "string list \<Rightarrow> string list" where
  "withoutWildcard values = filter (\<lambda>v. v \<noteq> ''*'') values"

definition formatSelection :: "nat \<Rightarrow> string \<Rightarrow> string \<Rightarrow> string" where
  "formatSelection index grp resource =
     ''rule '' @ itoa (int index) @ '': unresolved resource ''
       @ (if grp = [] then ''core'' else grp) @ ''/'' @ resource"

definition truncateConditionMessage :: "string \<Rightarrow> string" where
  "truncateConditionMessage message =
     (let rs = runes_of_string message
      in if length rs \<le> maxConditionMessageRunes then message
         else string_of_runes (take (maxConditionMessageRunes
                - length (runes_of_string conditionMessageTruncatedSuffix)) rs)
              @ conditionMessageTruncatedSuffix)"

definition isProtectiveFinalizer :: "string \<Rightarrow> bool" where
  "isProtectiveFinalizer finalizer \<longleftrightarrow>
     finalizer = FinalizerDeleteDependents \<or>
     finalizer = ''kubernetes.io/pv-protection'' \<or>
     finalizer = ''kubernetes.io/pvc-protection'' \<or>
     finalizer = CustomResourceCleanupFinalizer"

definition validRisk :: "RiskLevel \<Rightarrow> bool" where
  "validRisk risk \<longleftrightarrow> risk \<in> {RiskNone, RiskLow, RiskMedium, RiskHigh, RiskCritical}"

definition riskRank :: "RiskLevel \<Rightarrow> int" where
  "riskRank risk =
     (if risk = RiskNone then 0 else if risk = RiskLow then 1 else if risk = RiskMedium then 2
      else if risk = RiskHigh then 3 else if risk = RiskCritical then 4 else -1)"

definition RiskFor :: "RemediationActionType \<Rightarrow> string \<Rightarrow> RiskLevel" where
  "RiskFor action finalizer =
     (if action = ActionForceFinalizeNamespace then RiskCritical
      else if action = ActionRemoveCRDFinalizer then RiskHigh
      else if action = ActionRemoveResourceFinalizer then
        (if isProtectiveFinalizer finalizer then RiskHigh else RiskMedium)
      else RiskNone)"

section \<open>Compilation\<close>

text \<open>One selector of a rule: the selector to use and the error to report, if any.\<close>

definition compile_selector :: "kube_lib \<Rightarrow> string \<Rightarrow> LabelSelector option \<Rightarrow> selector \<times> string list" where
  "compile_selector L label s =
     (case s of
        None \<Rightarrow> (lib_Everything L, [])
      | Some ls \<Rightarrow>
          (case lib_LabelSelectorAsSelector L ls of
             Inl e \<Rightarrow> (lib_Everything L, [label @ '': '' @ e])
           | Inr sel \<Rightarrow> (sel, [])))"

definition compileRuleSelectors :: "kube_lib \<Rightarrow> TargetRule \<Rightarrow> compiledRule \<times> string list" where
  "compileRuleSelectors L rule =
     (let (nsSel, nsErrs) = compile_selector L ''namespaceSelector'' (rl_NamespaceSelector rule);
          (objSel, objErrs) = compile_selector L ''objectSelector'' (rl_ObjectSelector rule)
      in (\<lparr>cru_resources = [], cru_namespaceSelector = nsSel, cru_objectSelector = objSel,
           cru_excludedNamespaces = set (rl_ExcludedNamespaces rule)\<rparr>, nsErrs @ objErrs))"

definition resolveRule :: "TargetRule \<Rightarrow> Resource list \<Rightarrow> Resource list" where
  "resolveRule rule resources =
     filter (\<lambda>r.
       \<not> (\<not> matchesToken (rl_APIGroups rule) (gr_Group (res_GroupResource r))
          \<or> \<not> matchesToken (rl_Resources rule) (gr_Resource (res_GroupResource r)))
       \<and> \<not> (''*'' \<in> set (rl_Resources rule) \<and> \<not> EligibleForWildcard r)) resources"

definition unresolvedSelections :: "nat \<Rightarrow> TargetRule \<Rightarrow> Snapshot \<Rightarrow> Resource list \<Rightarrow> string list" where
  "unresolvedSelections index rule catalog resources =
     (let exactGroups = withoutWildcard (rl_APIGroups rule);
          exactResources = withoutWildcard (rl_Resources rule);
          groupWildcard = (''*'' \<in> set (rl_APIGroups rule));
          resourceWildcard = (''*'' \<in> set (rl_Resources rule))
      in concat (map (\<lambda>grp. concat (map (\<lambda>resource.
             if Resolve catalog \<lparr>gr_Group = grp, gr_Resource = resource\<rparr> = None
             then [formatSelection index grp resource] else []) exactResources)) exactGroups)
         @ (if groupWildcard then
              concat (map (\<lambda>resource.
                if \<not> (\<exists>c \<in> set resources. gr_Resource (res_GroupResource c) = resource)
                then [formatSelection index ''*'' resource] else []) exactResources)
            else [])
         @ (if resourceWildcard then
              concat (map (\<lambda>grp.
                if \<not> (\<exists>c \<in> set resources. gr_Group (res_GroupResource c) = grp \<and> EligibleForWildcard c)
                then [formatSelection index grp ''*''] else []) exactGroups)
              @ (if groupWildcard \<and> \<not> (\<exists>c \<in> set resources. EligibleForWildcard c)
                 then [formatSelection index ''*'' ''*''] else [])
            else []))"

definition exact_key_errors :: "kube_lib \<Rightarrow> string \<Rightarrow> string list \<Rightarrow> string list" where
  "exact_key_errors L what keys =
     concat (map (\<lambda>k. if k = [] \<or> strings_Contains k ''*''
       then [what @ '' '' @ quote (lib_IsPrint L) k @ '' must be an exact non-empty key''] else []) keys)"

fun rule_shape_errors :: "nat \<Rightarrow> TargetRule list \<Rightarrow> string list" where
  "rule_shape_errors index [] = []"
| "rule_shape_errors index (rule # rules) =
     (if rl_APIGroups rule = [] then [''rule '' @ itoa (int index) @ '' has no API groups''] else [])
     @ (if rl_Resources rule = [] then [''rule '' @ itoa (int index) @ '' has no resources''] else [])
     @ rule_shape_errors (Suc index) rules"

definition validateConfiguration :: "kube_lib \<Rightarrow> TerminationPolicySpec \<Rightarrow> string list" where
  "validateConfiguration L spec =
     sort
      ((if sp_TargetRules spec = [] then [''at least one target rule is required''] else [])
       @ rule_shape_errors 0 (sp_TargetRules spec)
       @ (if sp_TerminationAge spec \<le> 0 then [''terminationAge must be positive''] else [])
       @ (if rp_ApprovalTTL (sp_Remediation spec) \<le> 0 then [''approvalTTL must be positive''] else [])
       @ (if rt_ResolvedIncidentTTL (sp_Retention spec) \<le> 0 then [''resolvedIncidentTTL must be positive''] else [])
       @ (if dp_MaxNamespaceObjects (sp_Diagnosis spec) < 1 \<or> dp_MaxNamespaceObjects (sp_Diagnosis spec) > 100000
          then [''maxNamespaceObjects must be between 1 and 100000''] else [])
       @ (if dp_MaxCRDInstances (sp_Diagnosis spec) < 1 \<or> dp_MaxCRDInstances (sp_Diagnosis spec) > 100000
          then [''maxCRDInstances must be between 1 and 100000''] else [])
       @ (if \<not> validRisk (rp_MaxRisk (sp_Remediation spec))
          then [''unknown maxRisk '' @ quote (lib_IsPrint L) (rp_MaxRisk (sp_Remediation spec))] else [])
       @ exact_key_errors L ''finalizer owner'' (map fo_Finalizer (sp_FinalizerOwners spec))
       @ exact_key_errors L ''allowed finalizer'' (rp_AllowedFinalizers (sp_Remediation spec)))"

definition condition ::
  "string \<Rightarrow> int \<Rightarrow> time \<Rightarrow> bool \<Rightarrow> string \<Rightarrow> string \<Rightarrow> string list \<Rightarrow> Condition" where
  "condition conditionType generation transitionTime valid validReason invalidReason problems =
     \<lparr>cond_Type = conditionType,
      cond_Status = (if valid then ConditionTrue else ConditionFalse),
      cond_ObservedGeneration = generation,
      cond_LastTransitionTime = transitionTime,
      cond_Reason = (if valid then validReason else invalidReason),
      cond_Message = (if valid then validReason
                      else truncateConditionMessage (strings_Join problems ''; ''))\<rparr>"

definition validationStatus ::
  "int \<Rightarrow> time \<Rightarrow> string list \<Rightarrow> string list \<Rightarrow> string list \<Rightarrow> nat \<Rightarrow> TerminationPolicyStatus" where
  "validationStatus generation now selectorErrors resolutionErrors configurationErrors resolved =
     (let selectorCondition = condition ConditionSelectorsValid generation now (selectorErrors = [])
            ''ValidSelectors'' ''InvalidSelectors'' selectorErrors;
          discoveryCondition = condition ConditionDiscoveryResolved generation now (resolutionErrors = [])
            ''ResourcesResolved'' ''ResourcesUnresolved'' resolutionErrors;
          readyErrors = selectorErrors @ resolutionErrors @ configurationErrors;
          readyCondition = condition ConditionReady generation now (readyErrors = [])
            ''Compiled'' ''InvalidPolicy'' readyErrors
      in \<lparr>ps_ObservedGeneration = generation,
          ps_Conditions = [readyCondition, discoveryCondition, selectorCondition],
          ps_LastValidatedTime = Some now,
          ps_ResolvedResourceCount = wrap32 (int resolved)\<rparr>)"

text \<open>What the loop over the target rules accumulates.\<close>

record compile_state =
  cs_rules :: "compiledRule list"
  cs_selectorErrors :: "string list"
  cs_resolutionErrors :: "string list"
  cs_resolved :: "GroupResource set"

definition compile_rule ::
  "kube_lib \<Rightarrow> Snapshot \<Rightarrow> nat \<Rightarrow> TargetRule \<Rightarrow> compile_state \<Rightarrow> compile_state" where
  "compile_rule L catalog index rule st =
     (let (compiled, selectorErrs) = compileRuleSelectors L rule;
          resolved = resolveRule rule (Snapshot_Resources catalog)
      in \<lparr>cs_rules = cs_rules st @
            [compiled\<lparr>cru_resources :=
               foldl (\<lambda>m r. AList.update (res_GroupResource r) r m) (cru_resources compiled) resolved\<rparr>],
          cs_selectorErrors = cs_selectorErrors st
            @ map (\<lambda>e. ''rule '' @ itoa (int index) @ '': '' @ e) selectorErrs,
          cs_resolutionErrors = cs_resolutionErrors st
            @ unresolvedSelections index rule catalog (Snapshot_Resources catalog),
          cs_resolved = cs_resolved st \<union> res_GroupResource ` set resolved\<rparr>)"

fun compile_rules ::
  "kube_lib \<Rightarrow> Snapshot \<Rightarrow> nat \<Rightarrow> TargetRule list \<Rightarrow> compile_state \<Rightarrow> compile_state" where
  "compile_rules L catalog index [] st = st"
| "compile_rules L catalog index (rule # rules) st =
     compile_rules L catalog (Suc index) rules (compile_rule L catalog index rule st)"

definition empty_compile_state :: compile_state where
  "empty_compile_state =
     \<lparr>cs_rules = [], cs_selectorErrors = [], cs_resolutionErrors = [], cs_resolved = {}\<rparr>"

definition empty_policy :: CompiledPolicy where
  "empty_policy =
     \<lparr>cp_name = [], cp_uid = [], cp_generation = 0, cp_priority = 0, cp_ready = False, cp_rules = [],
      cp_owners = [], cp_allowedFinalizers = {}, cp_settings = zero_Settings\<rparr>"

definition spec_settings :: "TerminationPolicySpec \<Rightarrow> Settings" where
  "spec_settings spec =
     \<lparr>set_TerminationAge = sp_TerminationAge spec,
      set_Diagnosis = sp_Diagnosis spec,
      set_ApprovalTTL = rp_ApprovalTTL (sp_Remediation spec),
      set_ResolvedIncidentTTL = rt_ResolvedIncidentTTL (sp_Retention spec),
      set_MaxRisk = rp_MaxRisk (sp_Remediation spec),
      set_AllowNamespaceForce = rp_AllowNamespaceForce (sp_Remediation spec)\<rparr>"

definition Compile ::
  "kube_lib \<Rightarrow> TerminationPolicy option \<Rightarrow> Snapshot \<Rightarrow> time \<Rightarrow> CompiledPolicy \<times> TerminationPolicyStatus" where
  "Compile L source catalog now =
     (case source of
        None \<Rightarrow> (empty_policy, validationStatus 0 now [] [] [''policy is nil''] 0)
      | Some p \<Rightarrow>
          (let spec = tp_Spec p;
               generation = om_Generation (tp_Meta p);
               st = compile_rules L catalog 0 (sp_TargetRules spec) empty_compile_state;
               configurationErrors = validateConfiguration L spec
           in (\<lparr>cp_name = om_Name (tp_Meta p), cp_uid = om_UID (tp_Meta p),
                cp_generation = generation, cp_priority = sp_Priority spec,
                cp_ready = (cs_selectorErrors st = [] \<and> cs_resolutionErrors st = [] \<and> configurationErrors = []),
                cp_rules = cs_rules st,
                cp_owners = foldl (\<lambda>m ow. AList.update (fo_Finalizer ow) (fo_ControllerRef ow) m) []
                  (sp_FinalizerOwners spec),
                cp_allowedFinalizers = set (rp_AllowedFinalizers (sp_Remediation spec)),
                cp_settings = spec_settings spec\<rparr>,
               validationStatus generation now (cs_selectorErrors st) (cs_resolutionErrors st)
                 configurationErrors (card (cs_resolved st)))))"

section \<open>Methods of a compiled policy\<close>

type_synonym policy_ptr = "CompiledPolicy option"

definition Ready :: "policy_ptr \<Rightarrow> bool" where
  "Ready p \<longleftrightarrow> (case p of None \<Rightarrow> False | Some q \<Rightarrow> cp_ready q)"

definition policy_Settings :: "policy_ptr \<Rightarrow> Settings" where
  "policy_Settings p = (case p of None \<Rightarrow> zero_Settings | Some q \<Rightarrow> cp_settings q)"

definition ResolvedGroupResources :: "kube_lib \<Rightarrow> policy_ptr \<Rightarrow> GroupResource list" where
  "ResolvedGroupResources L p =
     (case p of
        None \<Rightarrow> []
      | Some q \<Rightarrow>
          if \<not> cp_ready q then []
          else sort_key (lib_GroupResourceString L)
                 (remdups (concat (map (\<lambda>rule. map fst (cru_resources rule)) (cp_rules q)))))"

definition policy_FinalizerOwner :: "policy_ptr \<Rightarrow> string \<Rightarrow> ControllerReference option" where
  "policy_FinalizerOwner p finalizer =
     (case p of None \<Rightarrow> None | Some q \<Rightarrow> map_of (cp_owners q) finalizer)"

definition owner_key :: "ControllerReference \<Rightarrow> string" where
  "owner_key ow = cr_Kind ow @ ''/'' @ cr_Namespace ow @ ''/'' @ cr_Name ow"

definition FinalizerOwners :: "policy_ptr \<Rightarrow> ControllerReference list" where
  "FinalizerOwners p =
     (case p of None \<Rightarrow> [] | Some q \<Rightarrow> sort_key owner_key (remdups (map snd (cp_owners q))))"

definition FinalizerAllowed :: "policy_ptr \<Rightarrow> string \<Rightarrow> bool" where
  "FinalizerAllowed p finalizer \<longleftrightarrow>
     (case p of None \<Rightarrow> False | Some q \<Rightarrow> finalizer \<in> cp_allowedFinalizers q)"

definition rule_matches :: "compiledRule \<Rightarrow> Target \<Rightarrow> bool" where
  "rule_matches rule target \<longleftrightarrow>
     (case map_of (cru_resources rule) (tg_GroupResource target) of
        None \<Rightarrow> False
      | Some resource \<Rightarrow>
          if v_Namespaced (res_PreferredVersion resource) \<noteq> tg_Namespaced target then False
          else if \<not> cru_objectSelector rule (tg_Labels target) then False
          else if tg_Namespaced target \<and> tg_Namespace target \<in> cru_excludedNamespaces rule then False
          else if tg_Namespaced target \<and> \<not> cru_namespaceSelector rule (tg_NamespaceLabels target) then False
          else True)"

definition Match :: "policy_ptr \<Rightarrow> Target \<Rightarrow> bool" where
  "Match p target \<longleftrightarrow>
     (case p of
        None \<Rightarrow> False
      | Some q \<Rightarrow> cp_ready q \<and> list_ex (\<lambda>rule. rule_matches rule target) (cp_rules q))"

text \<open>One iteration of the loop of \<open>SelectWinning\<close>.\<close>

definition select_step :: "Target \<Rightarrow> policy_ptr \<Rightarrow> policy_ptr \<Rightarrow> policy_ptr" where
  "select_step target winner candidate =
     (case candidate of
        None \<Rightarrow> winner
      | Some c \<Rightarrow>
          if \<not> Match candidate target then winner
          else case winner of
            None \<Rightarrow> candidate
          | Some w \<Rightarrow>
              if cp_priority c > cp_priority w \<or> (cp_priority c = cp_priority w \<and> cp_name c < cp_name w)
              then candidate else winner)"

definition SelectWinning :: "policy_ptr list \<Rightarrow> Target \<Rightarrow> policy_ptr" where
  "SelectWinning policies target = foldl (select_step target) None policies"

definition ActionEligibility :: "policy_ptr \<Rightarrow> RemediationActionType \<Rightarrow> string \<Rightarrow> bool \<times> string" where
  "ActionEligibility p action finalizer =
     (if \<not> Ready p then (False, ''active policy is not ready'')
      else if action = ActionForceFinalizeNamespace \<and> \<not> set_AllowNamespaceForce (policy_Settings p)
        then (False, ''policy does not allow namespace force-finalization'')
      else if (action = ActionRemoveResourceFinalizer \<or> action = ActionRemoveCRDFinalizer)
              \<and> \<not> FinalizerAllowed p finalizer
        then (False, ''finalizer is not in policy allowedFinalizers'')
      else
        let risk = RiskFor action finalizer in
        if risk = RiskNone then (False, ''action type is not supported'')
        else if riskRank risk > riskRank (set_MaxRisk (policy_Settings p))
          then (False, ''action risk '' @ risk @ '' exceeds policy maxRisk '' @ set_MaxRisk (policy_Settings p))
        else (True, []))"

section \<open>Facts about compilation\<close>

lemma Ready_simps [simp]: "Ready None = False" "Ready (Some q) = cp_ready q"
  by (simp_all add: Ready_def)

lemma policy_Settings_simps [simp]:
  "policy_Settings None = zero_Settings" "policy_Settings (Some q) = cp_settings q"
  by (simp_all add: policy_Settings_def)

lemma FinalizerAllowed_simps [simp]:
  "FinalizerAllowed None f = False" "FinalizerAllowed (Some q) f \<longleftrightarrow> f \<in> cp_allowedFinalizers q"
  by (simp_all add: FinalizerAllowed_def)

lemma resolveRule_set:
  "r \<in> set (resolveRule rule rs) \<longleftrightarrow>
     r \<in> set rs \<and> matchesToken (rl_APIGroups rule) (gr_Group (res_GroupResource r))
     \<and> matchesToken (rl_Resources rule) (gr_Resource (res_GroupResource r))
     \<and> (''*'' \<in> set (rl_Resources rule) \<longrightarrow> EligibleForWildcard r)"
  by (auto simp: resolveRule_def)

text \<open>The compiled form of one rule.\<close>

definition compiled_rule :: "kube_lib \<Rightarrow> Snapshot \<Rightarrow> TargetRule \<Rightarrow> compiledRule" where
  "compiled_rule L catalog rule =
     (fst (compileRuleSelectors L rule))\<lparr>cru_resources :=
        foldl (\<lambda>m r. AList.update (res_GroupResource r) r m) [] (resolveRule rule (Snapshot_Resources catalog))\<rparr>"

lemma compileRuleSelectors_resources [simp]: "cru_resources (fst (compileRuleSelectors L rule)) = []"
  by (simp add: compileRuleSelectors_def split: prod.splits)

lemma compile_rule_rules:
  "cs_rules (compile_rule L catalog i rule st) = cs_rules st @ [compiled_rule L catalog rule]"
  using compileRuleSelectors_resources[of L rule]
  by (cases "compileRuleSelectors L rule") (simp add: compile_rule_def compiled_rule_def Let_def)

lemma compile_rules_rules:
  "cs_rules (compile_rules L catalog i rules st) = cs_rules st @ map (compiled_rule L catalog) rules"
  by (induction rules arbitrary: i st) (simp_all add: compile_rule_rules)

lemma compile_rule_errors:
  "cs_selectorErrors (compile_rule L catalog i rule st) = cs_selectorErrors st
     @ map (\<lambda>e. ''rule '' @ itoa (int i) @ '': '' @ e) (snd (compileRuleSelectors L rule))"
  "cs_resolutionErrors (compile_rule L catalog i rule st) = cs_resolutionErrors st
     @ unresolvedSelections i rule catalog (Snapshot_Resources catalog)"
  by (cases "compileRuleSelectors L rule", simp add: compile_rule_def Let_def)+

lemma compile_rules_selector_ok:
  "cs_selectorErrors (compile_rules L catalog i rules st) = [] \<longleftrightarrow>
     cs_selectorErrors st = [] \<and> list_all (\<lambda>rule. snd (compileRuleSelectors L rule) = []) rules"
  by (induction rules arbitrary: i st) (auto simp: compile_rule_errors)

text \<open>Whether a rule leaves a selection unresolved does not depend on its position.\<close>

lemma concat_report: "concat (map (\<lambda>x. if P x then [f x] else []) xs) = [] \<longleftrightarrow> (\<forall>x\<in>set xs. \<not> P x)"
  by auto

lemma concat_report2:
  "concat (map (\<lambda>x. concat (map (\<lambda>y. if P x y then [f x y] else []) ys)) xs) = [] \<longleftrightarrow>
     (\<forall>x\<in>set xs. \<forall>y\<in>set ys. \<not> P x y)"
  by auto

lemma if_Nil: "(if b then xs else []) = [] \<longleftrightarrow> (b \<longrightarrow> xs = [])"
  by simp

lemma unresolved_none_iff:
  "unresolvedSelections i rule c rs = [] \<longleftrightarrow>
     (\<forall>g\<in>set (withoutWildcard (rl_APIGroups rule)). \<forall>r\<in>set (withoutWildcard (rl_Resources rule)).
        Resolve c \<lparr>gr_Group = g, gr_Resource = r\<rparr> \<noteq> None)
     \<and> (''*'' \<in> set (rl_APIGroups rule) \<longrightarrow>
          (\<forall>r\<in>set (withoutWildcard (rl_Resources rule)). \<exists>x\<in>set rs. gr_Resource (res_GroupResource x) = r))
     \<and> (''*'' \<in> set (rl_Resources rule) \<longrightarrow>
          (\<forall>g\<in>set (withoutWildcard (rl_APIGroups rule)).
             \<exists>x\<in>set rs. gr_Group (res_GroupResource x) = g \<and> EligibleForWildcard x)
          \<and> (''*'' \<in> set (rl_APIGroups rule) \<longrightarrow> (\<exists>x\<in>set rs. EligibleForWildcard x)))"
  unfolding unresolvedSelections_def Let_def append_is_Nil_conv if_Nil append_is_Nil_conv concat_report2 concat_report
  by (simp only: not_not not_Cons_self2 list.distinct if_Nil simp_thms) blast

lemma unresolved_index: "unresolvedSelections i rule c rs = [] \<longleftrightarrow> unresolvedSelections j rule c rs = []"
  unfolding unresolved_none_iff ..

lemma compile_rules_resolution_ok:
  "cs_resolutionErrors (compile_rules L catalog i rules st) = [] \<longleftrightarrow>
     cs_resolutionErrors st = []
     \<and> list_all (\<lambda>rule. unresolvedSelections 0 rule catalog (Snapshot_Resources catalog) = []) rules"
proof (induction rules arbitrary: i st)
  case (Cons rule rules)
  then show ?case using unresolved_index[of i rule catalog "Snapshot_Resources catalog" 0]
    by (simp add: compile_rule_errors)
qed simp

lemma Compile_Some_simps [simp]:
  "cp_name (fst (Compile L (Some p) catalog now)) = om_Name (tp_Meta p)"
  "cp_uid (fst (Compile L (Some p) catalog now)) = om_UID (tp_Meta p)"
  "cp_generation (fst (Compile L (Some p) catalog now)) = om_Generation (tp_Meta p)"
  "cp_priority (fst (Compile L (Some p) catalog now)) = sp_Priority (tp_Spec p)"
  "cp_settings (fst (Compile L (Some p) catalog now)) = spec_settings (tp_Spec p)"
  "cp_allowedFinalizers (fst (Compile L (Some p) catalog now)) =
     set (rp_AllowedFinalizers (sp_Remediation (tp_Spec p)))"
  "cp_rules (fst (Compile L (Some p) catalog now)) = map (compiled_rule L catalog) (sp_TargetRules (tp_Spec p))"
  by (simp_all add: Compile_def Let_def compile_rules_rules empty_compile_state_def)

lemma Compile_ready:
  "cp_ready (fst (Compile L (Some p) catalog now)) \<longleftrightarrow>
     list_all (\<lambda>rule. snd (compileRuleSelectors L rule) = []) (sp_TargetRules (tp_Spec p))
     \<and> list_all (\<lambda>rule. unresolvedSelections 0 rule catalog (Snapshot_Resources catalog) = [])
         (sp_TargetRules (tp_Spec p))
     \<and> validateConfiguration L (tp_Spec p) = []"
  by (simp add: Compile_def Let_def compile_rules_selector_ok compile_rules_resolution_ok empty_compile_state_def)

text \<open>The compiled policy does not depend on the time; only the status does.\<close>

lemma Compile_time: "fst (Compile L p catalog t) = fst (Compile L p catalog t')"
  by (simp add: Compile_def Let_def split: option.splits)

lemma fold_update_resources:
  assumes "distinct (map res_GroupResource rs)"
  shows "map_of (foldl (\<lambda>m r. AList.update (res_GroupResource r) r m) [] rs) gr = Some r \<longleftrightarrow>
    r \<in> set rs \<and> res_GroupResource r = gr"
proof -
  have "foldl (\<lambda>m r. AList.update (res_GroupResource r) r m) [] rs = map (\<lambda>r. (res_GroupResource r, r)) rs"
    using snapshot_table[of "[]" rs] assms by simp
  moreover have "distinct (map fst (map (\<lambda>r. (res_GroupResource r, r)) rs))" using assms by (simp add: comp_def)
  ultimately show ?thesis by (auto simp: map_of_eq_Some_iff simp del: map_map)
qed

lemma compiled_rule_lookup:
  assumes "wf_snapshot catalog"
  shows "map_of (cru_resources (compiled_rule L catalog rule)) gr = Some r \<longleftrightarrow>
    Resolve catalog gr = Some r
    \<and> matchesToken (rl_APIGroups rule) (gr_Group gr) \<and> matchesToken (rl_Resources rule) (gr_Resource gr)
    \<and> (''*'' \<in> set (rl_Resources rule) \<longrightarrow> EligibleForWildcard r)"
proof -
  have "distinct (map res_GroupResource (resolveRule rule (Snapshot_Resources catalog)))"
    using assms by (simp add: resolveRule_def wf_snapshot_def Snapshot_Resources_eq distinct_map_filter)
  then show ?thesis
    by (auto simp: compiled_rule_def fold_update_resources resolveRule_set snapshot.resolve_iff[OF assms])
qed

subsection \<open>Validation\<close>

lemma rule_shape_errors_ok:
  "rule_shape_errors i rules = [] \<longleftrightarrow> list_all (\<lambda>r. rl_APIGroups r \<noteq> [] \<and> rl_Resources r \<noteq> []) rules"
  by (induction rules arbitrary: i) auto

lemma exact_key_errors_ok:
  "exact_key_errors L what keys = [] \<longleftrightarrow> list_all (\<lambda>k. k \<noteq> [] \<and> \<not> strings_Contains k ''*'') keys"
  by (induction keys) (auto simp: exact_key_errors_def)

lemma sort_Nil_iff: "sort xs = [] \<longleftrightarrow> xs = []"
  by (metis length_0_conv length_sort)

lemma validateConfiguration_ok:
  "validateConfiguration L spec = [] \<longleftrightarrow>
     sp_TargetRules spec \<noteq> []
     \<and> list_all (\<lambda>r. rl_APIGroups r \<noteq> [] \<and> rl_Resources r \<noteq> []) (sp_TargetRules spec)
     \<and> 0 < sp_TerminationAge spec \<and> 0 < rp_ApprovalTTL (sp_Remediation spec)
     \<and> 0 < rt_ResolvedIncidentTTL (sp_Retention spec)
     \<and> 1 \<le> dp_MaxNamespaceObjects (sp_Diagnosis spec) \<and> dp_MaxNamespaceObjects (sp_Diagnosis spec) \<le> 100000
     \<and> 1 \<le> dp_MaxCRDInstances (sp_Diagnosis spec) \<and> dp_MaxCRDInstances (sp_Diagnosis spec) \<le> 100000
     \<and> validRisk (rp_MaxRisk (sp_Remediation spec))
     \<and> list_all (\<lambda>k. k \<noteq> [] \<and> \<not> strings_Contains k ''*'') (map fo_Finalizer (sp_FinalizerOwners spec))
     \<and> list_all (\<lambda>k. k \<noteq> [] \<and> \<not> strings_Contains k ''*'') (rp_AllowedFinalizers (sp_Remediation spec))"
  unfolding validateConfiguration_def sort_Nil_iff append_is_Nil_conv rule_shape_errors_ok exact_key_errors_ok
  by auto

subsection \<open>Condition messages\<close>

lemma truncateConditionMessage_runes:
  "length (runes_of_string (truncateConditionMessage m)) \<le> maxConditionMessageRunes"
proof (cases "length (runes_of_string m) \<le> maxConditionMessageRunes")
  case True
  then show ?thesis by (simp add: truncateConditionMessage_def)
next
  case False
  let ?n = "length (runes_of_string conditionMessageTruncatedSuffix)"
  have "?n \<le> maxConditionMessageRunes"
    by (simp add: conditionMessageTruncatedSuffix_def maxConditionMessageRunes_def runes_of_string_def
        runes_def byte_vals_def decode_rune_def)
  then show ?thesis using False
    by (simp add: truncateConditionMessage_def Let_def runes_encoded_append runes_take_valid)
qed

section \<open>Facts about matching and winning\<close>

lemma rule_matches_iff:
  "rule_matches rule t \<longleftrightarrow>
     (\<exists>r. map_of (cru_resources rule) (tg_GroupResource t) = Some r
        \<and> v_Namespaced (res_PreferredVersion r) = tg_Namespaced t)
     \<and> cru_objectSelector rule (tg_Labels t)
     \<and> (tg_Namespaced t \<longrightarrow> tg_Namespace t \<notin> cru_excludedNamespaces rule
                            \<and> cru_namespaceSelector rule (tg_NamespaceLabels t))"
  by (auto simp: rule_matches_def split: option.splits)

lemma Match_ready: "Match p t \<Longrightarrow> Ready p"
  by (auto simp: Match_def split: option.splits)

lemma Match_None [simp]: "\<not> Match None t"
  by (simp add: Match_def)

text \<open>The order in which policies win: higher priority first, then the smaller name.\<close>

definition beats :: "CompiledPolicy \<Rightarrow> CompiledPolicy \<Rightarrow> bool" where
  "beats w q \<longleftrightarrow> cp_priority q < cp_priority w \<or> cp_priority q = cp_priority w \<and> cp_name w \<le> cp_name q"

lemma beats_refl: "beats w w"
  by (simp add: beats_def)

lemma beats_trans: "beats a b \<Longrightarrow> beats b c \<Longrightarrow> beats a c"
  by (auto simp: beats_def)

lemma beats_total: "beats a b \<or> beats b a"
  by (auto simp: beats_def)

definition winner_of :: "policy_ptr set \<Rightarrow> Target \<Rightarrow> policy_ptr \<Rightarrow> bool" where
  "winner_of ps t w \<longleftrightarrow>
     (case w of
        None \<Rightarrow> \<forall>p\<in>ps. \<not> Match p t
      | Some v \<Rightarrow> Some v \<in> ps \<and> Match (Some v) t \<and> (\<forall>q. Some q \<in> ps \<longrightarrow> Match (Some q) t \<longrightarrow> beats v q))"

lemma select_step_winner:
  assumes "winner_of ps t w"
  shows "winner_of (insert c ps) t (select_step t w c)"
proof (cases "Match c t")
  case False
  then show ?thesis using assms by (cases c; cases w) (auto simp: winner_of_def select_step_def)
next
  case True
  then obtain d where d: "c = Some d" by (cases c) auto
  show ?thesis
  proof (cases w)
    case None
    then show ?thesis using assms True d by (auto simp: winner_of_def select_step_def beats_refl)
  next
    case (Some v)
    show ?thesis
    proof (cases "cp_priority d > cp_priority v \<or> (cp_priority d = cp_priority v \<and> cp_name d < cp_name v)")
      case True
      then have "beats d v" by (auto simp: beats_def)
      then show ?thesis using assms True \<open>Match c t\<close> d Some
        by (auto simp: winner_of_def select_step_def beats_refl intro: beats_trans)
    next
      case False
      then have "beats v d" by (auto simp: beats_def not_less)
      then show ?thesis using assms False \<open>Match c t\<close> d Some
        by (auto simp: winner_of_def select_step_def)
    qed
  qed
qed

lemma fold_select_winner:
  "winner_of ps t w \<Longrightarrow> winner_of (ps \<union> set cs) t (foldl (select_step t) w cs)"
proof (induction cs arbitrary: ps w)
  case (Cons c cs)
  then show ?case using Cons.IH[OF select_step_winner[OF Cons.prems, of c]] by simp
qed simp

lemma SelectWinning_winner: "winner_of (set ps) t (SelectWinning ps t)"
  using fold_select_winner[of "{}" t None ps] by (simp add: winner_of_def SelectWinning_def)

lemma winner_unique:
  assumes "winner_of ps t w" and "winner_of ps t w'"
    and "\<And>p q. Some p \<in> ps \<Longrightarrow> Some q \<in> ps \<Longrightarrow> cp_name p = cp_name q \<Longrightarrow> p = q"
  shows "w = w'"
proof (cases w)
  case None
  then show ?thesis using assms(1,2) by (cases w') (auto simp: winner_of_def)
next
  case (Some v)
  then obtain v' where v': "w' = Some v'" using assms(1,2) by (cases w') (auto simp: winner_of_def)
  with Some assms(1,2) have "beats v v'" "beats v' v" "Some v \<in> ps" "Some v' \<in> ps"
    by (auto simp: winner_of_def)
  then have "cp_name v = cp_name v'" by (auto simp: beats_def)
  with assms(3) \<open>Some v \<in> ps\<close> \<open>Some v' \<in> ps\<close> Some v' show ?thesis by blast
qed

section \<open>Facts about risk\<close>

lemma RiskFor_rank: "RiskFor a f \<noteq> RiskNone \<Longrightarrow> 2 \<le> riskRank (RiskFor a f)"
  by (auto simp: RiskFor_def riskRank_def split: if_splits)

lemma RiskFor_supported:
  "RiskFor a f \<noteq> RiskNone \<longleftrightarrow>
     a = ActionForceFinalizeNamespace \<or> a = ActionRemoveCRDFinalizer \<or> a = ActionRemoveResourceFinalizer"
  by (auto simp: RiskFor_def split: if_splits)

lemma ActionEligibility_iff:
  "fst (ActionEligibility p a f) \<longleftrightarrow>
     Ready p
     \<and> (a = ActionForceFinalizeNamespace \<and> set_AllowNamespaceForce (policy_Settings p)
        \<or> (a = ActionRemoveResourceFinalizer \<or> a = ActionRemoveCRDFinalizer) \<and> FinalizerAllowed p f)
     \<and> riskRank (RiskFor a f) \<le> riskRank (set_MaxRisk (policy_Settings p))"
  using RiskFor_supported[of a f] by (auto simp: ActionEligibility_def Let_def not_less)

lemma ActionEligibility_reason: "snd (ActionEligibility p a f) = [] \<longleftrightarrow> fst (ActionEligibility p a f)"
  by (simp add: ActionEligibility_def Let_def)

section \<open>What a policy selects\<close>

text \<open>
  The declarative reading of a policy: a rule selects a target when the catalog resolves its resource
  within the rule's groups and resources (a wildcard resource only reaches eligible ones), the scope
  agrees, and the selectors accept the labels; exclusions and the namespace selector concern
  namespaced targets only.
\<close>

definition selector_accepts :: "kube_lib \<Rightarrow> LabelSelector option \<Rightarrow> labels \<Rightarrow> bool" where
  "selector_accepts L s l \<longleftrightarrow>
     (case s of
        None \<Rightarrow> lib_Everything L l
      | Some ls \<Rightarrow> (case lib_LabelSelectorAsSelector L ls of Inl _ \<Rightarrow> False | Inr sel \<Rightarrow> sel l))"

definition rule_selects :: "kube_lib \<Rightarrow> Snapshot \<Rightarrow> TargetRule \<Rightarrow> Target \<Rightarrow> bool" where
  "rule_selects L catalog rule t \<longleftrightarrow>
     (case Resolve catalog (tg_GroupResource t) of
        None \<Rightarrow> False
      | Some r \<Rightarrow>
          matchesToken (rl_APIGroups rule) (gr_Group (tg_GroupResource t))
          \<and> matchesToken (rl_Resources rule) (gr_Resource (tg_GroupResource t))
          \<and> (''*'' \<in> set (rl_Resources rule) \<longrightarrow> EligibleForWildcard r)
          \<and> v_Namespaced (res_PreferredVersion r) = tg_Namespaced t)
     \<and> selector_accepts L (rl_ObjectSelector rule) (tg_Labels t)
     \<and> (tg_Namespaced t \<longrightarrow>
          tg_Namespace t \<notin> set (rl_ExcludedNamespaces rule)
          \<and> selector_accepts L (rl_NamespaceSelector rule) (tg_NamespaceLabels t))"

definition rule_valid :: "kube_lib \<Rightarrow> Snapshot \<Rightarrow> TargetRule \<Rightarrow> bool" where
  "rule_valid L catalog rule \<longleftrightarrow>
     snd (compileRuleSelectors L rule) = []
     \<and> unresolvedSelections 0 rule catalog (Snapshot_Resources catalog) = []"

lemma compile_selector_accepts:
  "snd (compile_selector L label s) = [] \<Longrightarrow> fst (compile_selector L label s) l = selector_accepts L s l"
  by (auto simp: compile_selector_def selector_accepts_def split: option.splits sum.splits)

lemma compiled_rule_selects:
  assumes "wf_snapshot catalog" and "snd (compileRuleSelectors L rule) = []"
  shows "rule_matches (compiled_rule L catalog rule) t \<longleftrightarrow> rule_selects L catalog rule t"
proof -
  have parts: "cru_objectSelector (compiled_rule L catalog rule) = fst (compile_selector L ''objectSelector'' (rl_ObjectSelector rule))"
    "cru_namespaceSelector (compiled_rule L catalog rule) = fst (compile_selector L ''namespaceSelector'' (rl_NamespaceSelector rule))"
    "cru_excludedNamespaces (compiled_rule L catalog rule) = set (rl_ExcludedNamespaces rule)"
    by (simp_all add: compiled_rule_def compileRuleSelectors_def case_prod_beta Let_def)
  have ok: "snd (compile_selector L ''objectSelector'' (rl_ObjectSelector rule)) = []"
    "snd (compile_selector L ''namespaceSelector'' (rl_NamespaceSelector rule)) = []"
    using assms(2) by (simp_all add: compileRuleSelectors_def case_prod_beta Let_def)
  show ?thesis
    unfolding rule_matches_iff rule_selects_def parts compiled_rule_lookup[OF assms(1)]
    by (auto simp: compile_selector_accepts[OF ok(1)] compile_selector_accepts[OF ok(2)] split: option.splits)
qed

section \<open>Properties\<close>

text \<open>
  C11.  The compiled form of a policy matches a target exactly when the policy is valid (every selector
  parses, every selection resolves in the catalog, the configuration is in range) and one of its
  rules, read declaratively, selects the target.
\<close>

theorem match_compiled_iff:
  assumes "wf_snapshot catalog"
  shows "Match (Some (fst (Compile L (Some p) catalog now))) t \<longleftrightarrow>
     list_all (rule_valid L catalog) (sp_TargetRules (tp_Spec p))
     \<and> validateConfiguration L (tp_Spec p) = []
     \<and> list_ex (\<lambda>rule. rule_selects L catalog rule t) (sp_TargetRules (tp_Spec p))"
proof -
  let ?rules = "sp_TargetRules (tp_Spec p)"
  have "list_all (rule_valid L catalog) ?rules \<Longrightarrow>
    list_ex (\<lambda>rule. rule_matches (compiled_rule L catalog rule) t) ?rules
      = list_ex (\<lambda>rule. rule_selects L catalog rule t) ?rules"
    using compiled_rule_selects[OF assms, of L]
    by (intro list_ex_cong) (auto simp: list_all_iff rule_valid_def)
  then show ?thesis
    by (auto simp: Match_def Compile_ready list_ex_iff list_all_iff rule_valid_def)
qed

definition sample_target :: Target where
  "sample_target =
     \<lparr>tg_GroupResource = widgetsGR, tg_Namespaced = True, tg_Namespace = ''default'', tg_Labels = Map.empty,
      tg_NamespaceLabels = Map.empty\<rparr>"

theorem match_compiled_iff_witness:
  "wf_snapshot sample_snapshot
   \<and> Match (Some (fst (Compile sample_lib (Some sample_policy) sample_snapshot 0))) sample_target"
proof
  show "wf_snapshot sample_snapshot" by (rule sample_snapshot_wf)
  have 1: "list_all (rule_valid sample_lib sample_snapshot) (sp_TargetRules (tp_Spec sample_policy))"
    by code_simp
  have 2: "validateConfiguration sample_lib (tp_Spec sample_policy) = []" by code_simp
  have 3: "list_ex (\<lambda>rule. rule_selects sample_lib sample_snapshot rule sample_target) (sp_TargetRules (tp_Spec sample_policy))"
    by code_simp
  show "Match (Some (fst (Compile sample_lib (Some sample_policy) sample_snapshot 0))) sample_target"
    using match_compiled_iff[OF sample_snapshot_wf, of sample_lib sample_policy 0 sample_target] 1 2 3 by blast
qed

text \<open>
  C12.  The winning policy matches the target and beats every other matching policy: a higher priority
  wins, and among equal priorities the smaller name; there is none exactly when no policy matches.
  With names that identify policies, the choice does not depend on the order of the list.
\<close>

theorem select_winning_spec:
  assumes "inj_on cp_name {p. Some p \<in> set ps}"
  shows "(case SelectWinning ps t of
       None \<Rightarrow> \<not> list_ex (\<lambda>p. Match p t) ps
     | Some w \<Rightarrow> Some w \<in> set ps \<and> Match (Some w) t
         \<and> (\<forall>q. Some q \<in> set ps \<and> Match (Some q) t \<and> q \<noteq> w \<longrightarrow>
               cp_priority q < cp_priority w \<or> cp_priority q = cp_priority w \<and> cp_name w < cp_name q))
    \<and> (\<forall>ps'. set ps' = set ps \<longrightarrow> SelectWinning ps' t = SelectWinning ps t)"
proof
  have inj: "Some p \<in> set ps \<Longrightarrow> Some q \<in> set ps \<Longrightarrow> cp_name p = cp_name q \<Longrightarrow> p = q" for p q
    using assms by (auto dest: inj_onD)
  show "case SelectWinning ps t of
       None \<Rightarrow> \<not> list_ex (\<lambda>p. Match p t) ps
     | Some w \<Rightarrow> Some w \<in> set ps \<and> Match (Some w) t
         \<and> (\<forall>q. Some q \<in> set ps \<and> Match (Some q) t \<and> q \<noteq> w \<longrightarrow>
               cp_priority q < cp_priority w \<or> cp_priority q = cp_priority w \<and> cp_name w < cp_name q)"
  proof (cases "SelectWinning ps t")
    case None
    then show ?thesis using SelectWinning_winner[of ps t] by (simp add: winner_of_def list_ex_iff)
  next
    case (Some w)
    have w: "Some w \<in> set ps" "Match (Some w) t" "\<And>q. Some q \<in> set ps \<Longrightarrow> Match (Some q) t \<Longrightarrow> beats w q"
      using SelectWinning_winner[of ps t] Some by (simp_all add: winner_of_def)
    have "cp_priority q < cp_priority w \<or> cp_priority q = cp_priority w \<and> cp_name w < cp_name q"
      if "Some q \<in> set ps" "Match (Some q) t" "q \<noteq> w" for q
      using w(3)[OF that(1,2)] inj[OF that(1) w(1)] that(3) unfolding beats_def
      by (metis order.order_iff_strict)
    then show ?thesis using w(1,2) Some by simp
  qed
  show "\<forall>ps'. set ps' = set ps \<longrightarrow> SelectWinning ps' t = SelectWinning ps t"
    using winner_unique[OF _ SelectWinning_winner inj] SelectWinning_winner by metis
qed

definition sample_compiled :: "string \<Rightarrow> int \<Rightarrow> CompiledPolicy" where
  "sample_compiled name priority =
     (fst (Compile sample_lib (Some sample_policy) sample_snapshot 0))\<lparr>cp_name := name, cp_priority := priority\<rparr>"

theorem select_winning_spec_witness:
  "inj_on cp_name {p. Some p \<in> set [Some (sample_compiled ''a'' 1), None, Some (sample_compiled ''b'' 2)]}
   \<and> SelectWinning [Some (sample_compiled ''b'' 2), Some (sample_compiled ''a'' 1), None] sample_target
     = SelectWinning [Some (sample_compiled ''a'' 1), None, Some (sample_compiled ''b'' 2)] sample_target"
proof -
  let ?ps = "[Some (sample_compiled ''a'' 1), None, Some (sample_compiled ''b'' 2)]"
  have "inj_on cp_name {p. Some p \<in> set ?ps}"
    by (auto simp: inj_on_def sample_compiled_def)
  moreover have "set [Some (sample_compiled ''b'' 2), Some (sample_compiled ''a'' 1), None] = set ?ps" by auto
  ultimately show ?thesis using select_winning_spec[of ?ps sample_target] by blast
qed

text \<open>
  C18.  An action is eligible exactly when the policy is ready, the action is one of the three known
  types, the namespace force or the finalizer is explicitly allowed, and its risk does not exceed
  the policy's maximum; an ineligible action always carries a reason.  In particular a policy whose
  maximal risk is \<open>None\<close>, \<open>Low\<close> or no known level makes no action eligible.
\<close>

theorem action_eligibility_iff:
  "(fst (ActionEligibility p a f) \<longleftrightarrow>
      Ready p
      \<and> (a = ActionForceFinalizeNamespace \<and> set_AllowNamespaceForce (policy_Settings p)
         \<or> (a = ActionRemoveResourceFinalizer \<or> a = ActionRemoveCRDFinalizer) \<and> FinalizerAllowed p f)
      \<and> riskRank (RiskFor a f) \<le> riskRank (set_MaxRisk (policy_Settings p)))
   \<and> (snd (ActionEligibility p a f) = [] \<longleftrightarrow> fst (ActionEligibility p a f))
   \<and> \<not> (fst (ActionEligibility p a f)
         \<and> set_MaxRisk (policy_Settings p) \<notin> {RiskMedium, RiskHigh, RiskCritical})"
proof -
  have "fst (ActionEligibility p a f) \<Longrightarrow> RiskFor a f \<noteq> RiskNone"
    unfolding ActionEligibility_iff RiskFor_supported by blast
  then have "fst (ActionEligibility p a f) \<Longrightarrow> 2 \<le> riskRank (set_MaxRisk (policy_Settings p))"
    using RiskFor_rank[of a f] unfolding ActionEligibility_iff by linarith
  then have "\<not> (fst (ActionEligibility p a f)
       \<and> set_MaxRisk (policy_Settings p) \<notin> {RiskMedium, RiskHigh, RiskCritical})"
    by (auto simp: riskRank_def split: if_splits)
  then show ?thesis using ActionEligibility_iff ActionEligibility_reason by blast
qed

text \<open>
  C19.  The status of a compiled policy: the three conditions appear once each, in a fixed order, with
  the policy's generation; Ready is true exactly when the compiled policy is ready; each condition
  that is true means no problem of its kind; and no message exceeds the API limit in runes.
\<close>

theorem compile_status_spec:
  "case Compile L (Some p) catalog now of (compiled, status) \<Rightarrow>
     map cond_Type (ps_Conditions status) = [ConditionReady, ConditionDiscoveryResolved, ConditionSelectorsValid]
     \<and> (cond_Status (ps_Conditions status ! 0) = ConditionTrue \<longleftrightarrow> cp_ready compiled)
     \<and> (cond_Status (ps_Conditions status ! 1) = ConditionTrue \<longleftrightarrow>
          list_all (\<lambda>rule. unresolvedSelections 0 rule catalog (Snapshot_Resources catalog) = [])
            (sp_TargetRules (tp_Spec p)))
     \<and> (cond_Status (ps_Conditions status ! 2) = ConditionTrue \<longleftrightarrow>
          list_all (\<lambda>rule. snd (compileRuleSelectors L rule) = []) (sp_TargetRules (tp_Spec p)))
     \<and> list_all (\<lambda>c. length (runes_of_string (cond_Message c)) \<le> 32768
                     \<and> cond_ObservedGeneration c = om_Generation (tp_Meta p)
                     \<and> cond_LastTransitionTime c = now) (ps_Conditions status)
     \<and> ps_LastValidatedTime status = Some now"
proof -
  have [simp]: "ConditionFalse \<noteq> ConditionTrue" by (simp add: go_enum)
  have short: "length (runes_of_string ''ValidSelectors'') \<le> 32768"
    "length (runes_of_string ''ResourcesResolved'') \<le> 32768" "length (runes_of_string ''Compiled'') \<le> 32768"
    by code_simp+
  show ?thesis
    using truncateConditionMessage_runes[unfolded maxConditionMessageRunes_def] short
    by (simp add: Compile_def Let_def validationStatus_def condition_def compile_rules_selector_ok
        compile_rules_resolution_ok empty_compile_state_def)
qed

text \<open>A rule with nothing unresolved resolves to at least one resource.\<close>

lemma resolved_rule_nonempty:
  assumes wf: "wf_snapshot catalog"
    and shape: "rl_APIGroups rule \<noteq> []" "rl_Resources rule \<noteq> []"
    and ok: "unresolvedSelections i rule catalog (Snapshot_Resources catalog) = []"
  shows "resolveRule rule (Snapshot_Resources catalog) \<noteq> []"
proof -
  let ?rs = "set (Snapshot_Resources catalog)"
  let ?gs = "set (rl_APIGroups rule)" and ?ns = "set (rl_Resources rule)"
  note cond = ok[unfolded unresolved_none_iff]
  have exact: "set (withoutWildcard xs) = set xs - {''*''}" for xs
    unfolding withoutWildcard_def set_filter by blast
  have "\<exists>x\<in>?rs. matchesToken (rl_APIGroups rule) (gr_Group (res_GroupResource x))
      \<and> matchesToken (rl_Resources rule) (gr_Resource (res_GroupResource x))
      \<and> (''*'' \<in> ?ns \<longrightarrow> EligibleForWildcard x)"
  proof (cases "''*'' \<in> ?ns")
    case True
    obtain g where g: "g \<in> ?gs" using shape(1) by (meson last_in_set)
    have "\<exists>x\<in>?rs. EligibleForWildcard x \<and> (''*'' \<in> ?gs \<or> gr_Group (res_GroupResource x) = g)"
      using cond True g unfolding exact by blast
    then show ?thesis using g True unfolding matchesToken_def by blast
  next
    case False
    obtain r where r: "r \<in> ?ns" using shape(2) by (meson last_in_set)
    obtain g where g: "g \<in> ?gs" using shape(1) by (meson last_in_set)
    show ?thesis
    proof (cases "''*'' \<in> ?gs")
      case True
      have "r \<noteq> ''*''" using r False by blast
      then obtain x where "x \<in> ?rs" "gr_Resource (res_GroupResource x) = r"
        using cond True r unfolding exact by blast
      then show ?thesis using True False r unfolding matchesToken_def by blast
    next
      case notg: False
      have "g \<noteq> ''*''" "r \<noteq> ''*''" using g r False notg by blast+
      then have "Resolve catalog \<lparr>gr_Group = g, gr_Resource = r\<rparr> \<noteq> None"
        using cond g r unfolding exact by blast
      then obtain x where "x \<in> ?rs" "res_GroupResource x = \<lparr>gr_Group = g, gr_Resource = r\<rparr>"
        using snapshot.resolve_iff[OF wf] by blast
      then show ?thesis using g r False unfolding matchesToken_def by force
    qed
  qed
  then obtain x where "x \<in> set (resolveRule rule (Snapshot_Resources catalog))"
    unfolding resolveRule_set by blast
  then show ?thesis by force
qed

text \<open>
  C20.  A policy that compiles to a ready one is within the documented bounds: it has rules, each of
  which resolves at least one resource, positive ages and lifetimes, object budgets between 1 and
  100000, a known risk level, and allowed finalizers that are exact and not empty.
\<close>

theorem ready_policy_bounds:
  assumes "cp_ready (fst (Compile L (Some p) catalog now))" and "wf_snapshot catalog"
  shows "let q = fst (Compile L (Some p) catalog now); s = cp_settings q in
    cp_rules q \<noteq> []
    \<and> list_all (\<lambda>rule. cru_resources rule \<noteq> []) (cp_rules q)
    \<and> 0 < set_TerminationAge s \<and> 0 < set_ApprovalTTL s \<and> 0 < set_ResolvedIncidentTTL s
    \<and> dp_MaxNamespaceObjects (set_Diagnosis s) \<in> {1..100000}
    \<and> dp_MaxCRDInstances (set_Diagnosis s) \<in> {1..100000}
    \<and> validRisk (set_MaxRisk s)
    \<and> (\<forall>f. FinalizerAllowed (Some q) f \<longrightarrow> f \<noteq> [] \<and> \<not> strings_Contains f ''*'')"
proof -
  let ?rules = "sp_TargetRules (tp_Spec p)"
  note ready = assms(1)[unfolded Compile_ready validateConfiguration_ok]
  have "cru_resources (compiled_rule L catalog rule) \<noteq> []" if "rule \<in> set ?rules" for rule
  proof -
    have "resolveRule rule (Snapshot_Resources catalog) \<noteq> []"
      using ready that by (intro resolved_rule_nonempty[OF assms(2), where i = 0]) (auto simp: list_all_iff)
    then obtain r where "r \<in> set (resolveRule rule (Snapshot_Resources catalog))" by (meson last_in_set)
    then have "map_of (cru_resources (compiled_rule L catalog rule)) (res_GroupResource r) = Some r"
      unfolding compiled_rule_lookup[OF assms(2)] resolveRule_set
      by (auto simp: snapshot.resolve_iff[OF assms(2)])
    then show ?thesis by force
  qed
  then have "list_all (\<lambda>rule. cru_resources rule \<noteq> []) (map (compiled_rule L catalog) ?rules)"
    by (simp add: list_all_iff)
  then show ?thesis
    using ready unfolding Let_def Compile_Some_simps FinalizerAllowed_simps spec_settings_def
    by (simp add: list_all_iff)
qed

theorem ready_policy_bounds_witness:
  "cp_ready (fst (Compile sample_lib (Some sample_policy) sample_snapshot 0))
   \<and> cp_rules (fst (Compile sample_lib (Some sample_policy) sample_snapshot 0)) \<noteq> []"
proof -
  have 1: "cp_ready (fst (Compile sample_lib (Some sample_policy) sample_snapshot 0))" by code_simp
  from ready_policy_bounds[OF 1 sample_snapshot_wf] 1 show ?thesis unfolding Let_def by blast
qed

end
