(* ===== verification/World.thy ===== *)
theory World
  imports Policy
begin

text \<open>
  What the controllers see of the cluster.  Every call that leaves the process is an \<open>event\<close> with the
  answer it got, and \<open>env\<close> holds the answering side: a function of the log so far and of the
  arguments, so other writers may change anything between two calls.  The calls below are the
  methods of the clients the executor and the diagnosis use (typed reader, status writer, dynamic
  client, namespace finalizer, metadata lists), the discovery catalog, the clock, the target locks,
  the metrics and the event recorder.
\<close>

section \<open>Requests\<close>

text \<open>One operation of a JSON patch (RFC 6902).\<close>

datatype patch_op = PatchTest string json | PatchRemove string

text \<open>The namespace that \<open>Finalize\<close> gets: name, UID, resource version and spec finalizers.\<close>

record finalize_request =
  fr_Name :: string
  fr_UID :: UID
  fr_ResourceVersion :: string
  fr_Finalizers :: "string list"

section \<open>Events and environments\<close>

text \<open>
  The calls that only the scanner makes: its mutex, the status of discovery, lists and status writes
  of policies and incidents, the objects of the diagnosis snapshot, whether its context is done, and its
  metrics.
\<close>

datatype scan_event =
    ScTryLock bool
  | ScUnlock
  | ScLastResult "time option"
  | ScListPolicies "ApiError + TerminationPolicy list"
  | ScPolicyStatus TerminationPolicy "ApiError option"
  | ScListIncidents "ApiError + DeletionIncident list"
  | ScCreateIncident DeletionIncident "ApiError option"
  | ScPatchIncident DeletionIncident "ApiError + DeletionIncident"
  | ScIncidentStatus DeletionIncident "ApiError + DeletionIncident"
  | ScDeleteIncident string "ApiError option"
  | ScListAPIServices "ApiError + APIService list"
  | ScListWebhooks bool "ApiError + WebhookConfiguration list"
  | ScGetCRD string "ApiError + CustomResourceDefinition"
  | ScGetService string string "ApiError + Service"
  | ScListEndpointSlices string string "ApiError + EndpointSlice list"
  | ScGetWorkload string string string "ApiError + Workload"
  | ScCtxErr bool
  | ScMetric string string int

datatype event =
    EvNow time
  | EvSnapshot Snapshot
  | EvGetApproval string "ApiError + RemediationApproval"
  | EvGetIncident string "ApiError + DeletionIncident"
  | EvGetPolicy string "ApiError + TerminationPolicy"
  | EvDynGet GroupVersionResource string string "ApiError + Unstructured"
  | EvListMeta GroupVersionResource string string nat "ApiError + MetadataPage"
  | EvPatchOwners string "OwnerReference list" "ApiError option"
  | EvStatusUpdate RemediationApproval "ApiError option"
  | EvPatch GroupVersionResource string string "patch_op list" bool "ApiError + Unstructured"
  | EvFinalize finalize_request bool "ApiError + string"
  | EvLock string
  | EvUnlock string
  | EvRemediationCount RemediationActionType RiskLevel ApprovalResult string
  | EvRecord string string string string
  | EvScan scan_event

type_synonym 'a io = "(event, 'a) prog"

text \<open>
  The environment.  \<open>env_ConflictRetries\<close> is how often \<open>retry.RetryOnConflict\<close> repeats a function
  that keeps answering with a conflict (its backoff has a fixed number of steps).
\<close>

record env =
  env_Now :: "event list \<Rightarrow> time"
  env_Snapshot :: "event list \<Rightarrow> Snapshot"
  env_GetApproval :: "event list \<Rightarrow> string \<Rightarrow> ApiError + RemediationApproval"
  env_GetIncident :: "event list \<Rightarrow> string \<Rightarrow> ApiError + DeletionIncident"
  env_GetPolicy :: "event list \<Rightarrow> string \<Rightarrow> ApiError + TerminationPolicy"
  env_DynGet :: "event list \<Rightarrow> GroupVersionResource \<Rightarrow> string \<Rightarrow> string \<Rightarrow> ApiError + Unstructured"
  env_ListMeta :: "event list \<Rightarrow> GroupVersionResource \<Rightarrow> string \<Rightarrow> string \<Rightarrow> nat \<Rightarrow> ApiError + MetadataPage"
  env_PatchOwners :: "event list \<Rightarrow> string \<Rightarrow> OwnerReference list \<Rightarrow> ApiError option"
  env_StatusUpdate :: "event list \<Rightarrow> RemediationApproval \<Rightarrow> ApiError option"
  env_Patch :: "event list \<Rightarrow> GroupVersionResource \<Rightarrow> string \<Rightarrow> string \<Rightarrow> patch_op list \<Rightarrow> bool \<Rightarrow> ApiError + Unstructured"
  env_Finalize :: "event list \<Rightarrow> finalize_request \<Rightarrow> bool \<Rightarrow> ApiError + string"
  env_ConflictRetries :: nat

section \<open>Calls\<close>

definition call_now :: "env \<Rightarrow> time io" where
  "call_now E = invoke (env_Now E) EvNow"

definition call_snapshot :: "env \<Rightarrow> Snapshot io" where
  "call_snapshot E = invoke (env_Snapshot E) EvSnapshot"

definition get_approval :: "env \<Rightarrow> string \<Rightarrow> (ApiError + RemediationApproval) io" where
  "get_approval E name = invoke (\<lambda>log. env_GetApproval E log name) (EvGetApproval name)"

definition get_incident :: "env \<Rightarrow> string \<Rightarrow> (ApiError + DeletionIncident) io" where
  "get_incident E name = invoke (\<lambda>log. env_GetIncident E log name) (EvGetIncident name)"

definition get_policy :: "env \<Rightarrow> string \<Rightarrow> (ApiError + TerminationPolicy) io" where
  "get_policy E name = invoke (\<lambda>log. env_GetPolicy E log name) (EvGetPolicy name)"

definition dyn_get :: "env \<Rightarrow> GroupVersionResource \<Rightarrow> string \<Rightarrow> string \<Rightarrow> (ApiError + Unstructured) io" where
  "dyn_get E gvr ns name = invoke (\<lambda>log. env_DynGet E log gvr ns name) (EvDynGet gvr ns name)"

definition list_meta ::
  "env \<Rightarrow> GroupVersionResource \<Rightarrow> string \<Rightarrow> string \<Rightarrow> nat \<Rightarrow> (ApiError + MetadataPage) io" where
  "list_meta E gvr ns token limit =
     invoke (\<lambda>log. env_ListMeta E log gvr ns token limit) (EvListMeta gvr ns token limit)"

definition patch_owners :: "env \<Rightarrow> string \<Rightarrow> OwnerReference list \<Rightarrow> ApiError option io" where
  "patch_owners E name owners = invoke (\<lambda>log. env_PatchOwners E log name owners) (EvPatchOwners name owners)"

definition status_update :: "env \<Rightarrow> RemediationApproval \<Rightarrow> ApiError option io" where
  "status_update E a = invoke (\<lambda>log. env_StatusUpdate E log a) (EvStatusUpdate a)"

definition dyn_patch ::
  "env \<Rightarrow> GroupVersionResource \<Rightarrow> string \<Rightarrow> string \<Rightarrow> patch_op list \<Rightarrow> bool \<Rightarrow> (ApiError + Unstructured) io" where
  "dyn_patch E gvr ns name patch dry =
     invoke (\<lambda>log. env_Patch E log gvr ns name patch dry) (EvPatch gvr ns name patch dry)"

definition ns_finalize :: "env \<Rightarrow> finalize_request \<Rightarrow> bool \<Rightarrow> (ApiError + string) io" where
  "ns_finalize E req dry = invoke (\<lambda>log. env_Finalize E log req dry) (EvFinalize req dry)"

lemmas call_defs = call_now_def call_snapshot_def get_approval_def get_incident_def get_policy_def
  dyn_get_def list_meta_def patch_owners_def status_update_def dyn_patch_def ns_finalize_def

text \<open>
  \<open>retry.RetryOnConflict\<close>: run the function; while it answers with a conflict and a repetition is
  left, run it again; the last answer counts.
\<close>

fun retry_conflict :: "nat \<Rightarrow> ApiError option io \<Rightarrow> ApiError option io" where
  "retry_conflict 0 fn = fn"
| "retry_conflict (Suc n) fn =
     do { r \<leftarrow> fn;
          case r of
            None \<Rightarrow> State_Monad.return None
          | Some e \<Rightarrow> if ae_Conflict e then retry_conflict n fn else State_Monad.return (Some e) }"

definition RetryOnConflict :: "env \<Rightarrow> ApiError option io \<Rightarrow> ApiError option io" where
  "RetryOnConflict E fn = retry_conflict (env_ConflictRetries E) fn"

section \<open>Kinds of events\<close>

text \<open>A request that may change a target object, dry runs included.\<close>

fun is_mutation :: "event \<Rightarrow> bool" where
  "is_mutation (EvPatch _ _ _ _ _ _) = True"
| "is_mutation (EvFinalize _ _ _) = True"
| "is_mutation _ = False"

text \<open>A request that writes to a RemediationApproval.\<close>

fun is_approval_write :: "event \<Rightarrow> bool" where
  "is_approval_write (EvStatusUpdate _ _) = True"
| "is_approval_write (EvPatchOwners _ _ _) = True"
| "is_approval_write _ = False"

section \<open>Rules for calls\<close>

lemma emits_retry_conflict: "emits P fn \<Longrightarrow> emits P (retry_conflict n fn)"
  by (induction n) (auto intro!: emits_intro)

lemma emits_RetryOnConflict [emits_intro]: "emits P fn \<Longrightarrow> emits P (RetryOnConflict E fn)"
  by (simp add: RetryOnConflict_def emits_retry_conflict)

lemma emits_calls [emits_intro]:
  "(\<And>t. P (EvNow t)) \<Longrightarrow> emits P (call_now E)"
  "(\<And>s. P (EvSnapshot s)) \<Longrightarrow> emits P (call_snapshot E)"
  "(\<And>r. P (EvGetApproval n r)) \<Longrightarrow> emits P (get_approval E n)"
  "(\<And>r. P (EvGetIncident n r)) \<Longrightarrow> emits P (get_incident E n)"
  "(\<And>r. P (EvGetPolicy n r)) \<Longrightarrow> emits P (get_policy E n)"
  "(\<And>r. P (EvDynGet gvr ns n r)) \<Longrightarrow> emits P (dyn_get E gvr ns n)"
  "(\<And>r. P (EvListMeta gvr ns tok lim r)) \<Longrightarrow> emits P (list_meta E gvr ns tok lim)"
  "(\<And>r. P (EvPatchOwners n ows r)) \<Longrightarrow> emits P (patch_owners E n ows)"
  "(\<And>r. P (EvStatusUpdate a r)) \<Longrightarrow> emits P (status_update E a)"
  "(\<And>r. P (EvPatch gvr ns n patch dry r)) \<Longrightarrow> emits P (dyn_patch E gvr ns n patch dry)"
  "(\<And>r. P (EvFinalize req dry r)) \<Longrightarrow> emits P (ns_finalize E req dry)"
  unfolding call_defs by (rule emits_invoke, assumption)+

lemma wp_calls [wp_intro]:
  "(\<And>t. Q t (s @ [EvNow t])) \<Longrightarrow> wp (call_now E) Q s"
  "(\<And>c. Qc c (s @ [EvSnapshot c])) \<Longrightarrow> wp (call_snapshot E) Qc s"
  "(\<And>r. Qa r (s @ [EvGetApproval n r])) \<Longrightarrow> wp (get_approval E n) Qa s"
  "(\<And>r. Qi r (s @ [EvGetIncident n r])) \<Longrightarrow> wp (get_incident E n) Qi s"
  "(\<And>r. Qp r (s @ [EvGetPolicy n r])) \<Longrightarrow> wp (get_policy E n) Qp s"
  "(\<And>r. Qd r (s @ [EvDynGet gvr ns n r])) \<Longrightarrow> wp (dyn_get E gvr ns n) Qd s"
  "(\<And>r. Ql r (s @ [EvListMeta gvr ns tok lim r])) \<Longrightarrow> wp (list_meta E gvr ns tok lim) Ql s"
  "(\<And>r. Qo r (s @ [EvPatchOwners n ows r])) \<Longrightarrow> wp (patch_owners E n ows) Qo s"
  "(\<And>r. Qo r (s @ [EvStatusUpdate a r])) \<Longrightarrow> wp (status_update E a) Qo s"
  "(\<And>r. Qd r (s @ [EvPatch gvr ns n patch dry r])) \<Longrightarrow> wp (dyn_patch E gvr ns n patch dry) Qd s"
  "(\<And>r. Qf r (s @ [EvFinalize req dry r])) \<Longrightarrow> wp (ns_finalize E req dry) Qf s"
  unfolding call_defs by (rule wp_invoke, assumption)+

end
