(* ===== verification/Executor.thy ===== *)
theory Executor
  imports World
begin

text \<open>
  The executor (\<open>internal/executor/executor.go\<close>): one reconciliation of a RemediationApproval as a
  program over the log of its calls.  \<open>Reconcile\<close> is split where the source has its stages: reading the
  request, choosing the action, validating the policy, the section under the target lock with its
  second validation, and the attempt with its bookkeeping.

  A result \<open>Panicked\<close> stands for the dereference of a nil pointer; the programs that return an option
  return \<open>None\<close> for it.
\<close>

section \<open>Data\<close>

definition maxAuditAttempts :: nat where "maxAuditAttempts = 20"
definition retryDelay :: duration where "retryDelay = 5 * second"
definition apiFailureMessage :: string where "apiFailureMessage = ''Kubernetes API request failed''"

text \<open>The clients are the environment; the attempt limit is the reconciler's own field.\<close>

record Reconciler =
  rec_maxAttempts :: int

definition NewReconciler ::
  "bool \<Rightarrow> bool \<Rightarrow> bool \<Rightarrow> bool \<Rightarrow> bool \<Rightarrow> bool \<Rightarrow> int \<Rightarrow> ApiError + Reconciler" where
  "NewReconciler reader writer dynamicClient kubeClient catalog recorder maxAttempts =
     (if \<not> reader \<or> \<not> writer \<or> \<not> dynamicClient \<or> \<not> kubeClient \<or> \<not> catalog \<or> \<not> recorder then
        Inl (errors_New ''executor reader, writer, dynamic client, kubernetes client, catalog, and recorder are required'')
      else if maxAttempts \<le> 0 \<or> maxAttempts > 5 then
        Inl (errors_New ''executor max attempts must be between 1 and 5'')
      else Inr \<lparr>rec_maxAttempts = maxAttempts\<rparr>)"

text \<open>\<open>(ctrl.Result, error)\<close>: \<open>Done d\<close> has the delay \<open>RequeueAfter\<close>, zero for none.\<close>

datatype reconcile_result = Done duration | Failed ApiError | Panicked

record terminalExecutionError =
  te_phase :: ApprovalPhase
  te_result :: ApprovalResult
  te_reason :: string
  te_message :: string

datatype exec_err = TerminalError terminalExecutionError | PlainError ApiError

section \<open>Pure helpers\<close>

definition findAction :: "RemediationAction list \<Rightarrow> string \<Rightarrow> RemediationAction option" where
  "findAction actions ident = find (\<lambda>a. a_ID a = ident) actions"

definition actionEvidenceCurrent :: "DeletionIncidentStatus \<Rightarrow> time \<Rightarrow> bool" where
  "actionEvidenceCurrent status now \<longleftrightarrow>
     (case (is_ActionEvidenceTime status, is_ActionEvidenceExpiresTime status) of
        (Some evidence, Some expires) \<Rightarrow> \<not> expires < evidence \<and> now < expires
      | _ \<Rightarrow> False)"

definition sameTargetIdentity :: "TargetReference \<Rightarrow> TargetReference \<Rightarrow> bool" where
  "sameTargetIdentity left right \<longleftrightarrow>
     tr_UID left = tr_UID right \<and> tr_APIGroup left = tr_APIGroup right
     \<and> tr_Resource left = tr_Resource right \<and> tr_Namespace left = tr_Namespace right
     \<and> tr_Name left = tr_Name right"

definition actionBelongsToIncident :: "RemediationAction option \<Rightarrow> TargetReference \<Rightarrow> bool" where
  "actionBelongsToIncident action incidentTarget \<longleftrightarrow>
     (case action of
        None \<Rightarrow> False
      | Some a \<Rightarrow>
          if sameTargetIdentity (a_Target a) incidentTarget then True
          else tr_APIGroup incidentTarget = [] \<and> tr_Resource incidentTarget = ''namespaces''
            \<and> tr_Namespace incidentTarget = [] \<and> a_Type a = ActionRemoveResourceFinalizer
            \<and> tr_Namespace (a_Target a) = tr_Name incidentTarget
            \<and> tr_UID (a_Target a) \<noteq> [] \<and> tr_Name (a_Target a) \<noteq> [] \<and> tr_Resource (a_Target a) \<noteq> [])"

definition targetKey :: "TargetReference \<Rightarrow> string" where
  "targetKey target =
     strings_Join [tr_APIGroup target, tr_Resource target, tr_Namespace target, tr_Name target, tr_UID target]
       [CHR 0x00]"

definition terminal :: "ApprovalPhase \<Rightarrow> bool" where
  "terminal phase \<longleftrightarrow>
     phase = ApprovalPhaseSucceeded \<or> phase = ApprovalPhaseDryRunSucceeded \<or> phase = ApprovalPhaseFailed
     \<or> phase = ApprovalPhaseExpired \<or> phase = ApprovalPhaseSuperseded"

definition appendBounded :: "RemediationAttempt list \<Rightarrow> RemediationAttempt \<Rightarrow> RemediationAttempt list" where
  "appendBounded attempts attempt =
     (let as = attempts @ [attempt]
      in if length as > maxAuditAttempts then drop (length as - maxAuditAttempts) as else as)"

definition sanitize :: "string \<Rightarrow> nat \<Rightarrow> string" where
  "sanitize value maximum =
     (let v = strings_Map_keep (\<lambda>r. \<not> (r < 0x20 \<and> r \<noteq> 0x20)) value
      in if length v > maximum then take maximum v else v)"

definition errorReason :: "exec_err \<Rightarrow> string" where
  "errorReason err =
     (case err of
        TerminalError t \<Rightarrow> te_reason t
      | PlainError e \<Rightarrow> if ae_Reason e \<noteq> [] then sanitize (ae_Reason e) 128 else ''APIError'')"

definition transient :: "kube_lib \<Rightarrow> exec_err \<Rightarrow> bool" where
  "transient L err \<longleftrightarrow>
     (case err of
        TerminalError _ \<Rightarrow> False
      | PlainError e \<Rightarrow>
          let t = strings_ToLower (lib_ToLower L) (ae_Text e)
          in ae_DeadlineExceeded e \<or> ae_Conflict e \<or> ae_TooManyRequests e \<or> ae_Timeout e
             \<or> ae_ServerTimeout e \<or> ae_InternalError e \<or> ae_ServiceUnavailable e
             \<or> strings_Contains t ''webhook'' \<or> strings_Contains t ''timeout'')"

definition statusesEqual :: "kube_lib \<Rightarrow> RemediationApprovalStatus \<Rightarrow> RemediationApprovalStatus \<Rightarrow> bool" where
  "statusesEqual L left right \<longleftrightarrow>
     json_text (RemediationApprovalStatus_json L left) = json_text (RemediationApprovalStatus_json L right)"

definition finalizerPatch :: "Unstructured \<Rightarrow> nat \<Rightarrow> patch_op list" where
  "finalizerPatch object index =
     [PatchTest ''/metadata/uid'' (JStr (obj_UID object)),
      PatchTest ''/metadata/resourceVersion'' (JStr (obj_ResourceVersion object)),
      PatchTest ''/metadata/finalizers'' (JArr (map JStr (obj_Finalizers object))),
      PatchRemove (''/metadata/finalizers/'' @ itoa (int index))]"

section \<open>Status writes\<close>

text \<open>\<open>Status.mutate\<close> functions read the clock, so they are programs too.\<close>

definition updateStatus ::
  "kube_lib \<Rightarrow> env \<Rightarrow> string \<Rightarrow> (RemediationApprovalStatus \<Rightarrow> int \<Rightarrow> RemediationApprovalStatus io)
     \<Rightarrow> ApiError option io" where
  "updateStatus L E name mutate =
     RetryOnConflict E
       (do { r \<leftarrow> get_approval E name;
             case r of
               Inl err \<Rightarrow> State_Monad.return (Some err)
             | Inr current \<Rightarrow>
                 do { status \<leftarrow> mutate (ra_Status current) (om_Generation (ra_Meta current));
                      if statusesEqual L (ra_Status current) status then State_Monad.return None
                      else status_update E (current\<lparr>ra_Status := status\<rparr>) } })"

definition completed_condition :: "string \<Rightarrow> string \<Rightarrow> string \<Rightarrow> time \<Rightarrow> int \<Rightarrow> Condition" where
  "completed_condition type reason message now generation =
     \<lparr>cond_Type = type, cond_Status = ConditionTrue, cond_ObservedGeneration = generation,
      cond_LastTransitionTime = now, cond_Reason = reason, cond_Message = message\<rparr>"

definition finishByName ::
  "kube_lib \<Rightarrow> env \<Rightarrow> string \<Rightarrow> ApprovalPhase \<Rightarrow> ApprovalResult \<Rightarrow> string \<Rightarrow> string \<Rightarrow> ApiError option io" where
  "finishByName L E name phase result reason message =
     updateStatus L E name (\<lambda>status generation.
       do { now \<leftarrow> call_now E;
            State_Monad.return (status\<lparr>as_Phase := phase, as_Result := result, as_ObservedGeneration := generation,
              as_CompletedTime := Some now,
              as_Conditions := [completed_condition ''Completed'' (sanitize reason 128) (sanitize message 1024)
                                  now generation]\<rparr>) })"

definition finish ::
  "kube_lib \<Rightarrow> env \<Rightarrow> RemediationApproval \<Rightarrow> ApprovalPhase \<Rightarrow> ApprovalResult \<Rightarrow> string \<Rightarrow> string
     \<Rightarrow> reconcile_result io" where
  "finish L E approval phase result reason message =
     do { err \<leftarrow> finishByName L E (om_Name (ra_Meta approval)) phase result reason message;
          case err of
            None \<Rightarrow>
              do { note_event (EvRecord ''Warning'' ''ApprovalRejected'' ''RejectApproval''
                     (sanitize reason 128 @ '': '' @ sanitize message 768));
                   State_Monad.return (Done 0) }
          | Some e \<Rightarrow> State_Monad.return (Failed e) }"

definition recordTerminalAttempt ::
  "kube_lib \<Rightarrow> env \<Rightarrow> string \<Rightarrow> RemediationAttempt \<Rightarrow> ApprovalPhase \<Rightarrow> ApprovalResult \<Rightarrow> ApiError option io" where
  "recordTerminalAttempt L E name attempt phase result =
     updateStatus L E name (\<lambda>status generation.
       State_Monad.return (status\<lparr>as_Phase := phase, as_Result := result, as_ObservedGeneration := generation,
         as_Attempts := appendBounded (as_Attempts status) attempt,
         as_CompletedTime := Some (at_Time attempt),
         as_Conditions := [completed_condition ''Completed'' result ''approval execution completed''
                             (at_Time attempt) generation]\<rparr>))"

definition recordRetryAttempt :: "kube_lib \<Rightarrow> env \<Rightarrow> string \<Rightarrow> RemediationAttempt \<Rightarrow> ApiError option io" where
  "recordRetryAttempt L E name attempt =
     updateStatus L E name (\<lambda>status generation.
       State_Monad.return (status\<lparr>as_Phase := ApprovalPhaseRunning, as_Result := at_Result attempt,
         as_Attempts := appendBounded (as_Attempts status) attempt\<rparr>))"

definition running_status ::
  "RemediationAction \<Rightarrow> time \<Rightarrow> time \<Rightarrow> RemediationApprovalStatus \<Rightarrow> int \<Rightarrow> RemediationApprovalStatus" where
  "running_status action started now status generation =
     status\<lparr>as_Phase := ApprovalPhaseRunning, as_ObservedGeneration := generation,
       as_Action := (case as_Action status of None \<Rightarrow> Some action | Some a \<Rightarrow> Some a),
       as_StartedTime := Some started,
       as_Conditions := [completed_condition ''Running'' ''ExecutionStarted''
                           ''approval execution is in progress'' now generation]\<rparr>"

definition markRunning :: "kube_lib \<Rightarrow> env \<Rightarrow> RemediationApproval \<Rightarrow> RemediationAction \<Rightarrow> ApiError option io" where
  "markRunning L E approval action =
     updateStatus L E (om_Name (ra_Meta approval)) (\<lambda>status generation.
       do { started \<leftarrow> (case as_StartedTime status of
                           None \<Rightarrow> call_now E
                         | Some t \<Rightarrow> State_Monad.return t);
            now \<leftarrow> call_now E;
            State_Monad.return (running_status action started now status generation) })"

definition ensureOwnerReference :: "kube_lib \<Rightarrow> env \<Rightarrow> string \<Rightarrow> DeletionIncident \<Rightarrow> ApiError option io" where
  "ensureOwnerReference L E name incident =
     RetryOnConflict E
       (do { r \<leftarrow> get_approval E name;
             case r of
               Inl err \<Rightarrow> State_Monad.return (Some err)
             | Inr current \<Rightarrow>
                 if list_ex (\<lambda>ow. or_UID ow = om_UID (di_Meta incident)) (om_OwnerReferences (ra_Meta current))
                 then State_Monad.return None
                 else patch_owners E (om_Name (ra_Meta current))
                   (om_OwnerReferences (ra_Meta current)
                    @ [\<lparr>or_APIVersion = lib_GroupVersionString L ''safety.exitguard.io'' ''v1alpha1'',
                         or_Kind = ''DeletionIncident'', or_Name = om_Name (di_Meta incident),
                         or_UID = om_UID (di_Meta incident)\<rparr>]) })"

section \<open>Reading the target\<close>

text \<open>The object or nil, the GroupVersionResource used, and the error or nil.\<close>

type_synonym get_answer = "Unstructured option \<times> GroupVersionResource \<times> ApiError option"

fun get_versions ::
  "env \<Rightarrow> TargetReference \<Rightarrow> GroupResource \<Rightarrow> ApiError option \<Rightarrow> Version list \<Rightarrow> get_answer io" where
  "get_versions E target gr lastUnavailable [] =
     State_Monad.return (None, WithVersion gr (tr_Version target), lastUnavailable)"
| "get_versions E target gr lastUnavailable (version # versions) =
     do { r \<leftarrow> dyn_get E (WithVersion gr (v_Version version)) (tr_Namespace target) (tr_Name target);
          case r of
            Inr current \<Rightarrow> State_Monad.return (Some current, WithVersion gr (v_Version version), None)
          | Inl err \<Rightarrow>
              if \<not> ae_NotFound err \<and> \<not> ae_Gone err
              then State_Monad.return (None, WithVersion gr (v_Version version), Some err)
              else get_versions E target gr (Some err) versions }"

definition getCurrent :: "env \<Rightarrow> TargetReference \<Rightarrow> get_answer io" where
  "getCurrent E target =
     (let gr = \<lparr>gr_Group = tr_APIGroup target, gr_Resource = tr_Resource target\<rparr>
      in do { snapshot \<leftarrow> call_snapshot E;
              case Resolve snapshot gr of
                None \<Rightarrow>
                  (let gvr = WithVersion gr (tr_Version target)
                   in do { r \<leftarrow> dyn_get E gvr (tr_Namespace target) (tr_Name target);
                           case r of
                             Inl err \<Rightarrow> State_Monad.return (None, gvr, Some err)
                           | Inr current \<Rightarrow> State_Monad.return (Some current, gvr, None) })
              | Some resource \<Rightarrow>
                  get_versions E target gr None (OrderedVersions resource (tr_Version target)) })"

text \<open>The answer of \<open>verifySatisfied\<close>: attempt, result, satisfied, error.\<close>

type_synonym verify_answer = "RemediationAttempt \<times> ApprovalResult \<times> bool \<times> ApiError option"

definition attempt_before :: "Unstructured \<Rightarrow> RemediationAttempt" where
  "attempt_before current = zero_RemediationAttempt\<lparr>at_ResourceVersionBefore := obj_ResourceVersion current\<rparr>"

definition verify_object :: "RemediationAction \<Rightarrow> Unstructured \<Rightarrow> verify_answer" where
  "verify_object action current =
     (let attempt = attempt_before current
      in if obj_UID current \<noteq> tr_UID (a_Target action)
         then (attempt, ApprovalResultTargetReplaced, False, None)
         else if a_Type action = ActionRemoveResourceFinalizer \<or> a_Type action = ActionRemoveCRDFinalizer
         then (attempt, ApprovalResultAlreadySatisfied, a_Finalizer action \<notin> set (obj_Finalizers current), None)
         else if a_Type action = ActionForceFinalizeNamespace
         then (case obj_SpecFinalizers current of
                 Inl t \<Rightarrow> (attempt, [], False, Some (errors_New t))
               | Inr fs \<Rightarrow> (attempt, ApprovalResultAlreadySatisfied, fs = None \<or> fs = Some [], None))
         else (attempt, ApprovalResultRejectedByPolicy, False, None))"

definition verifySatisfied :: "env \<Rightarrow> RemediationAction \<Rightarrow> bool \<Rightarrow> verify_answer option io" where
  "verifySatisfied E action dryRun =
     (if dryRun then State_Monad.return (Some (zero_RemediationAttempt, ApprovalResultTargetChanged, False, None))
      else do { (current, _, err) \<leftarrow> getCurrent E (a_Target action);
                case err of
                  Some e \<Rightarrow>
                    if ae_NotFound e \<or> ae_Gone e
                    then State_Monad.return (Some (zero_RemediationAttempt, ApprovalResultAlreadySatisfied, True, None))
                    else State_Monad.return (Some (zero_RemediationAttempt, [], False, Some e))
                | None \<Rightarrow> State_Monad.return (map_option (verify_object action) current) })"

section \<open>The mutation\<close>

definition policy_target ::
  "Resource \<Rightarrow> TargetReference \<Rightarrow> Unstructured \<Rightarrow> labels \<Rightarrow> Target" where
  "policy_target resource incidentTarget object namespaceLabels =
     \<lparr>tg_GroupResource = \<lparr>gr_Group = tr_APIGroup incidentTarget, gr_Resource = tr_Resource incidentTarget\<rparr>,
      tg_Namespaced = v_Namespaced (res_PreferredVersion resource),
      tg_Namespace = tr_Namespace incidentTarget, tg_Labels = obj_Labels object,
      tg_NamespaceLabels = namespaceLabels\<rparr>"

text \<open>The end of \<open>currentPolicyMatches\<close>: the labels of the namespace, and the match itself.\<close>

definition match_with_namespace ::
  "env \<Rightarrow> policy_ptr \<Rightarrow> Resource \<Rightarrow> TargetReference \<Rightarrow> Unstructured \<Rightarrow> (ApiError + bool) io" where
  "match_with_namespace E policy resource incidentTarget object =
     (if v_Namespaced (res_PreferredVersion resource) then
        do { r \<leftarrow> dyn_get E \<lparr>gvr_Group = [], gvr_Version = ''v1'', gvr_Resource = ''namespaces''\<rparr> []
                    (tr_Namespace incidentTarget);
             case r of
               Inl err \<Rightarrow> State_Monad.return (Inl (errorf_wrap ''get target namespace: '' err))
             | Inr namespace \<Rightarrow>
                 State_Monad.return (Inr (Match policy (policy_target resource incidentTarget object (obj_Labels namespace)))) }
      else State_Monad.return (Inr (Match policy (policy_target resource incidentTarget object Map.empty))))"

text \<open>What \<open>currentPolicyMatches\<close> does with the answer of reading an incident target of its own.\<close>

definition match_incident_object ::
  "env \<Rightarrow> policy_ptr \<Rightarrow> Resource \<Rightarrow> TargetReference \<Rightarrow> get_answer \<Rightarrow> (ApiError + bool) option io" where
  "match_incident_object E policy resource it answer =
     (case answer of
        (_, _, Some e) \<Rightarrow>
          if ae_NotFound e \<or> ae_Gone e then State_Monad.return (Some (Inr False))
          else State_Monad.return (Some (Inl (errorf_wrap ''get incident target: '' e)))
      | (None, _, None) \<Rightarrow> State_Monad.return None
      | (Some object, _, None) \<Rightarrow>
          if obj_UID object \<noteq> tr_UID it then State_Monad.return (Some (Inr False))
          else do { m \<leftarrow> match_with_namespace E policy resource it object; State_Monad.return (Some m) })"

definition currentPolicyMatches ::
  "env \<Rightarrow> Unstructured \<Rightarrow> RemediationAction \<Rightarrow> TargetReference option \<Rightarrow> policy_ptr \<Rightarrow> (ApiError + bool) option io" where
  "currentPolicyMatches E current action incidentTarget policy =
     (case (policy, incidentTarget) of
        (Some _, Some it) \<Rightarrow>
          do { snapshot \<leftarrow> call_snapshot E;
               case Resolve snapshot \<lparr>gr_Group = tr_APIGroup it, gr_Resource = tr_Resource it\<rparr> of
                 None \<Rightarrow> State_Monad.return (Some (Inr False))
               | Some resource \<Rightarrow>
                   if sameTargetIdentity (a_Target action) it then
                     do { m \<leftarrow> match_with_namespace E policy resource it current;
                          State_Monad.return (Some m) }
                   else
                     do { answer \<leftarrow> getCurrent E it;
                          match_incident_object E policy resource it answer } }
      | _ \<Rightarrow> State_Monad.return (Some (Inl (errors_New ''compiled policy and incident target are required''))))"

type_synonym exec_answer = "RemediationAttempt \<times> ApprovalResult \<times> exec_err option"

definition rejected :: "ApprovalPhase \<Rightarrow> ApprovalResult \<Rightarrow> string \<Rightarrow> string \<Rightarrow> exec_err" where
  "rejected phase result reason message =
     TerminalError \<lparr>te_phase = phase, te_result = result, te_reason = reason, te_message = message\<rparr>"

definition target_changed :: "RemediationAttempt \<Rightarrow> exec_answer" where
  "target_changed attempt =
     (attempt, ApprovalResultTargetChanged,
      Some (rejected ApprovalPhaseSuperseded ApprovalResultTargetChanged ''TargetChanged'' ''target resourceVersion changed''))"

definition mutated :: "bool \<Rightarrow> ApprovalResult" where
  "mutated dryRun = (if dryRun then ApprovalResultDryRunValidated else ApprovalResultMutated)"

definition remove_finalizer ::
  "env \<Rightarrow> RemediationAction \<Rightarrow> Unstructured \<Rightarrow> GroupVersionResource \<Rightarrow> bool \<Rightarrow> exec_answer io" where
  "remove_finalizer E action current gvr dryRun =
     (let attempt = attempt_before current
      in if a_Type action = ActionRemoveCRDFinalizer
            \<and> (tr_APIGroup (a_Target action) \<noteq> ''apiextensions.k8s.io''
               \<or> tr_Resource (a_Target action) \<noteq> ''customresourcedefinitions'')
         then State_Monad.return (attempt, [],
                Some (rejected ApprovalPhaseFailed ApprovalResultRejectedByPolicy ''InvalidAction''
                        ''CRD finalizer action target is invalid''))
         else case slices_Index (obj_Finalizers current) (a_Finalizer action) of
           None \<Rightarrow> State_Monad.return (attempt, ApprovalResultAlreadySatisfied, None)
         | Some index \<Rightarrow>
             if obj_ResourceVersion current \<noteq> a_PreconditionResourceVersion action
             then State_Monad.return (target_changed attempt)
             else do { r \<leftarrow> dyn_patch E gvr (tr_Namespace (a_Target action)) (tr_Name (a_Target action))
                              (finalizerPatch current index) dryRun;
                       case r of
                         Inl err \<Rightarrow> State_Monad.return (attempt, [], Some (PlainError err))
                       | Inr updated \<Rightarrow>
                           State_Monad.return (attempt\<lparr>at_ResourceVersionAfter := obj_ResourceVersion updated\<rparr>,
                             mutated dryRun, None) })"

definition force_finalize :: "env \<Rightarrow> RemediationAction \<Rightarrow> Unstructured \<Rightarrow> bool \<Rightarrow> exec_answer io" where
  "force_finalize E action current dryRun =
     (let attempt = attempt_before current
      in if tr_APIGroup (a_Target action) \<noteq> [] \<or> tr_Resource (a_Target action) \<noteq> ''namespaces''
            \<or> tr_Namespace (a_Target action) \<noteq> []
         then State_Monad.return (attempt, [],
                Some (rejected ApprovalPhaseFailed ApprovalResultRejectedByPolicy ''InvalidAction''
                        ''namespace finalize target is invalid''))
         else case obj_SpecFinalizers current of
           Inl t \<Rightarrow> State_Monad.return (attempt, [], Some (PlainError (errors_New t)))
         | Inr fs \<Rightarrow>
             if fs = None \<or> fs = Some [] then State_Monad.return (attempt, ApprovalResultAlreadySatisfied, None)
             else if obj_ResourceVersion current \<noteq> a_PreconditionResourceVersion action
             then State_Monad.return (target_changed attempt)
             else do { r \<leftarrow> ns_finalize E \<lparr>fr_Name = obj_Name current, fr_UID = obj_UID current,
                                 fr_ResourceVersion = obj_ResourceVersion current, fr_Finalizers = []\<rparr> dryRun;
                       case r of
                         Inl err \<Rightarrow> State_Monad.return (attempt, [], Some (PlainError err))
                       | Inr version \<Rightarrow>
                           State_Monad.return (attempt\<lparr>at_ResourceVersionAfter := version\<rparr>, mutated dryRun, None) })"

text \<open>The switch over the action type.\<close>

definition perform ::
  "env \<Rightarrow> RemediationAction \<Rightarrow> Unstructured \<Rightarrow> GroupVersionResource \<Rightarrow> bool \<Rightarrow> exec_answer io" where
  "perform E action current gvr dryRun =
     (if a_Type action = ActionRemoveResourceFinalizer \<or> a_Type action = ActionRemoveCRDFinalizer
      then remove_finalizer E action current gvr dryRun
      else if a_Type action = ActionForceFinalizeNamespace then force_finalize E action current dryRun
      else State_Monad.return (attempt_before current, [],
             Some (rejected ApprovalPhaseFailed ApprovalResultRejectedByPolicy ''UnsupportedAction''
                     ''action type is not supported'')))"

text \<open>\<open>execute\<close> from the answer of the policy check on, and from the answer of reading the target on.\<close>

definition execute_matched ::
  "env \<Rightarrow> RemediationAction \<Rightarrow> Unstructured \<Rightarrow> GroupVersionResource \<Rightarrow> bool \<Rightarrow> (ApiError + bool) option
     \<Rightarrow> exec_answer option io" where
  "execute_matched E action current gvr dryRun matches =
     (case matches of
        None \<Rightarrow> State_Monad.return None
      | Some (Inl e) \<Rightarrow> State_Monad.return (Some (attempt_before current, [], Some (PlainError e)))
      | Some (Inr b) \<Rightarrow>
          if \<not> b then
            State_Monad.return (Some (attempt_before current, ApprovalResultRejectedByPolicy,
              Some (rejected ApprovalPhaseSuperseded ApprovalResultRejectedByPolicy
                      ''PolicyNoLongerMatches'' ''current policy no longer selects target'')))
          else do { answer \<leftarrow> perform E action current gvr dryRun; State_Monad.return (Some answer) })"

definition execute_read ::
  "env \<Rightarrow> RemediationAction \<Rightarrow> TargetReference \<Rightarrow> policy_ptr \<Rightarrow> bool \<Rightarrow> get_answer \<Rightarrow> exec_answer option io" where
  "execute_read E action incidentTarget policy dryRun answer =
     (case answer of
        (_, _, Some e) \<Rightarrow>
          if ae_NotFound e \<or> ae_Gone e
          then State_Monad.return (Some (zero_RemediationAttempt, ApprovalResultAlreadySatisfied, None))
          else State_Monad.return (Some (zero_RemediationAttempt, [], Some (PlainError e)))
      | (None, _, None) \<Rightarrow> State_Monad.return None
      | (Some current, gvr, None) \<Rightarrow>
          if obj_UID current \<noteq> tr_UID (a_Target action) then
            State_Monad.return (Some (attempt_before current, ApprovalResultTargetReplaced,
              Some (rejected ApprovalPhaseSuperseded ApprovalResultTargetReplaced ''TargetReplaced''
                      ''target UID changed'')))
          else do { matches \<leftarrow> currentPolicyMatches E current action (Some incidentTarget) policy;
                    execute_matched E action current gvr dryRun matches })"

definition execute ::
  "env \<Rightarrow> RemediationAction \<Rightarrow> TargetReference \<Rightarrow> policy_ptr \<Rightarrow> bool \<Rightarrow> exec_answer option io" where
  "execute E action incidentTarget policy dryRun =
     do { answer \<leftarrow> getCurrent E (a_Target action);
          execute_read E action incidentTarget policy dryRun answer }"

section \<open>Reconciliation\<close>

text \<open>A stage ends the reconciliation with a result or hands data to the next one.\<close>

definition and_then :: "(reconcile_result + 'a) io \<Rightarrow> ('a \<Rightarrow> reconcile_result io) \<Rightarrow> reconcile_result io" where
  "and_then m f = do { r \<leftarrow> m; case r of Inl stop \<Rightarrow> State_Monad.return stop | Inr x \<Rightarrow> f x }"

definition stop_with :: "reconcile_result io \<Rightarrow> (reconcile_result + 'a) io" where
  "stop_with m = do { r \<leftarrow> m; State_Monad.return (Inl r) }"

text \<open>\<open>client.IgnoreNotFound\<close>.\<close>

definition ignore_not_found :: "ApiError \<Rightarrow> reconcile_result" where
  "ignore_not_found e = (if ae_NotFound e then Done 0 else Failed e)"

definition load_request ::
  "kube_lib \<Rightarrow> env \<Rightarrow> string \<Rightarrow> (reconcile_result + RemediationApproval \<times> DeletionIncident) io" where
  "load_request L E request =
     do { r \<leftarrow> get_approval E request;
          case r of
            Inl err \<Rightarrow> State_Monad.return (Inl (ignore_not_found err))
          | Inr approval \<Rightarrow>
              if terminal (as_Phase (ra_Status approval)) then State_Monad.return (Inl (Done 0))
              else
                do { i \<leftarrow> get_incident E (oir_Name (rs_IncidentRef (ra_Spec approval)));
                     case i of
                       Inl err \<Rightarrow>
                         if ae_NotFound err then
                           stop_with (finish L E approval ApprovalPhaseSuperseded ApprovalResultTargetChanged
                             ''IncidentNotFound'' ''referenced incident no longer exists'')
                         else State_Monad.return (Inl (Failed err))
                     | Inr incident \<Rightarrow>
                         if om_UID (di_Meta incident) \<noteq> oir_UID (rs_IncidentRef (ra_Spec approval)) then
                           stop_with (finish L E approval ApprovalPhaseSuperseded ApprovalResultTargetChanged
                             ''IncidentReplaced'' ''referenced incident UID does not match'')
                         else
                           do { o1 \<leftarrow> ensureOwnerReference L E (om_Name (ra_Meta approval)) incident;
                                case o1 of
                                  Some err \<Rightarrow> State_Monad.return (Inl (Failed err))
                                | None \<Rightarrow> State_Monad.return (Inr (approval, incident)) } } }"

definition choose_action ::
  "kube_lib \<Rightarrow> env \<Rightarrow> RemediationApproval \<Rightarrow> DeletionIncident \<Rightarrow> (reconcile_result + RemediationAction \<times> bool) io" where
  "choose_action L E approval incident =
     (let currentAction = findAction (is_RecommendedActions (di_Status incident)) (rs_ActionID (ra_Spec approval));
          snapshot = as_Action (ra_Status approval);
          chosen = (case snapshot of None \<Rightarrow> currentAction | Some a \<Rightarrow> Some a);
          changed = (snapshot \<noteq> None \<and> currentAction \<noteq> snapshot);
          inactive = (is_Phase (di_Status incident) \<noteq> IncidentPhaseActive \<or> is_ActivePolicyRef (di_Status incident) = None)
      in case chosen of
        None \<Rightarrow>
          stop_with (finish L E approval ApprovalPhaseSuperseded ApprovalResultTargetChanged
            ''ActionChanged'' ''approved action is not current'')
      | Some action \<Rightarrow>
          if a_ID action \<noteq> rs_ActionID (ra_Spec approval) then
            stop_with (finish L E approval ApprovalPhaseSuperseded ApprovalResultTargetChanged
              ''ActionChanged'' ''approved action is not current'')
          else if \<not> actionBelongsToIncident (Some action) (ds_Target (di_Spec incident)) then
            stop_with (finish L E approval ApprovalPhaseSuperseded ApprovalResultTargetChanged
              ''ActionTargetChanged'' ''approved action is not bound to the incident target'')
          else if inactive \<and> (as_Phase (ra_Status approval) \<noteq> ApprovalPhaseRunning \<or> snapshot = None) then
            stop_with (finish L E approval ApprovalPhaseSuperseded ApprovalResultTargetChanged
              ''IncidentInactive'' ''incident is not active'')
          else if changed \<or> inactive then State_Monad.return (Inr (action, True))
          else
            do { now \<leftarrow> call_now E;
                 if \<not> actionEvidenceCurrent (di_Status incident) now then
                   stop_with (finish L E approval ApprovalPhaseSuperseded ApprovalResultTargetChanged
                     ''EvidenceExpired'' ''the diagnosis evidence backing the approved action is stale'')
                 else State_Monad.return (Inr (action, False)) })"

text \<open>
  Reading and compiling the policy of a reference, as both validations do; they differ in their
  messages only.  The result is the ready policy and the instant the approval expires.
\<close>

definition load_policy ::
  "kube_lib \<Rightarrow> env \<Rightarrow> RemediationApproval \<Rightarrow> PolicyReference \<Rightarrow> string \<Rightarrow> string \<Rightarrow> string
     \<Rightarrow> (reconcile_result + policy_ptr \<times> time) io" where
  "load_policy L E approval policyRef changedMessage notReadyMessage expiredMessage =
     do { r \<leftarrow> get_policy E (pr_Name policyRef);
          case r of
            Inl err \<Rightarrow>
              if ae_NotFound err then
                stop_with (finish L E approval ApprovalPhaseFailed ApprovalResultRejectedByPolicy
                  ''PolicyNotFound'' ''active policy no longer exists'')
              else State_Monad.return (Inl (Failed err))
          | Inr source \<Rightarrow>
              if om_UID (tp_Meta source) \<noteq> pr_UID policyRef \<or> om_Generation (tp_Meta source) \<noteq> pr_Generation policyRef then
                stop_with (finish L E approval ApprovalPhaseSuperseded ApprovalResultRejectedByPolicy
                  ''PolicyChanged'' changedMessage)
              else
                do { snapshot \<leftarrow> call_snapshot E;
                     compiledAt \<leftarrow> call_now E;
                     let policy = Some (fst (Compile L (Some source) snapshot compiledAt));
                         expires = om_CreationTimestamp (ra_Meta approval) + set_ApprovalTTL (policy_Settings policy)
                     in if \<not> Ready policy then State_Monad.return (Inl (Failed (errors_New notReadyMessage)))
                        else do { now \<leftarrow> call_now E;
                                  if \<not> now < expires then
                                    stop_with (finish L E approval ApprovalPhaseExpired ApprovalResultRejectedByPolicy
                                      ''ApprovalExpired'' expiredMessage)
                                  else State_Monad.return (Inr (policy, expires)) } } }"

definition validate_policy ::
  "kube_lib \<Rightarrow> env \<Rightarrow> RemediationApproval \<Rightarrow> DeletionIncident \<Rightarrow> RemediationAction \<Rightarrow> bool
     \<Rightarrow> (reconcile_result + PolicyReference option \<times> time) io" where
  "validate_policy L E approval incident action replay =
     (if replay then State_Monad.return (Inr (None, 0))
      else case is_ActivePolicyRef (di_Status incident) of
        None \<Rightarrow> State_Monad.return (Inl Panicked)
      | Some policyRef \<Rightarrow>
          do { r \<leftarrow> load_policy L E approval policyRef ''active policy revision changed''
                      ''current policy cannot be safely compiled'' ''approval TTL elapsed'';
               case r of
                 Inl stop \<Rightarrow> State_Monad.return (Inl stop)
               | Inr (policy, expires) \<Rightarrow>
                   if \<not> a_Eligible action then
                     stop_with (finish L E approval ApprovalPhaseFailed ApprovalResultRejectedByPolicy
                       ''ActionIneligible'' ''action is not eligible'')
                   else
                     (let (eligible, reason) = ActionEligibility policy (a_Type action) (a_Finalizer action)
                      in if \<not> eligible then
                           stop_with (finish L E approval ApprovalPhaseFailed ApprovalResultRejectedByPolicy
                             ''RejectedByPolicy'' reason)
                         else if RiskFor (a_Type action) (a_Finalizer action) \<noteq> a_Risk action then
                           stop_with (finish L E approval ApprovalPhaseSuperseded ApprovalResultRejectedByPolicy
                             ''RiskChanged'' ''action risk does not match operator classification'')
                         else State_Monad.return (Inr (Some policyRef, expires))) })"

text \<open>Verification of an action that an earlier run recorded but whose incident has changed since.\<close>

definition stamp_attempt :: "time \<Rightarrow> RemediationAction \<Rightarrow> bool \<Rightarrow> RemediationAttempt \<Rightarrow> RemediationAttempt" where
  "stamp_attempt now action dryRun attempt =
     attempt\<lparr>at_Time := now, at_ActionType := a_Type action, at_DryRun := dryRun\<rparr>"

definition replay_section ::
  "kube_lib \<Rightarrow> env \<Rightarrow> RemediationApproval \<Rightarrow> DeletionIncident \<Rightarrow> RemediationAction
     \<Rightarrow> ApiError + DeletionIncident \<Rightarrow> reconcile_result io" where
  "replay_section L E approval incident action locked =
     (if as_Phase (ra_Status approval) \<noteq> ApprovalPhaseRunning \<or> as_Action (ra_Status approval) \<noteq> Some action then
        finish L E approval ApprovalPhaseSuperseded ApprovalResultTargetChanged
          ''ReplayStateChanged'' ''durable action snapshot is unavailable''
      else if (case locked of Inl _ \<Rightarrow> False | Inr i \<Rightarrow> om_UID (di_Meta i) \<noteq> om_UID (di_Meta incident)) then
        finish L E approval ApprovalPhaseSuperseded ApprovalResultTargetChanged
          ''IncidentReplaced'' ''referenced incident changed during replay''
      else
        do { v \<leftarrow> verifySatisfied E action (rs_DryRun (ra_Spec approval));
             case v of
               None \<Rightarrow> State_Monad.return Panicked
             | Some (attempt, outcome, satisfied, err) \<Rightarrow>
                 do { now \<leftarrow> call_now E;
                      case err of
                        Some e \<Rightarrow> State_Monad.return (Failed e)
                      | None \<Rightarrow>
                          if \<not> satisfied then
                            finish L E approval ApprovalPhaseSuperseded outcome ''ReplayNotSatisfied''
                              ''incident changed and the approved action is not already satisfied''
                          else
                            do { e \<leftarrow> recordTerminalAttempt L E (om_Name (ra_Meta approval))
                                   ((stamp_attempt now action (rs_DryRun (ra_Spec approval)) attempt)\<lparr>at_Result := outcome\<rparr>)
                                   ApprovalPhaseSucceeded outcome;
                                 case e of
                                   Some err \<Rightarrow> State_Monad.return (Failed err)
                                 | None \<Rightarrow>
                                     do { note_event (EvRemediationCount (a_Type action) (a_Risk action) outcome
                                            (format_bool (rs_DryRun (ra_Spec approval))));
                                          State_Monad.return (Done 0) } } } })"

text \<open>The attempt limit and the Running record, the end of the second validation.\<close>

definition begin_attempt ::
  "kube_lib \<Rightarrow> env \<Rightarrow> Reconciler \<Rightarrow> RemediationApproval \<Rightarrow> RemediationAction \<Rightarrow> TargetReference \<Rightarrow> policy_ptr \<Rightarrow> time
     \<Rightarrow> (reconcile_result + RemediationAction \<times> TargetReference \<times> policy_ptr \<times> time) io" where
  "begin_attempt L E r approval action incidentTarget policy expires =
     (if int (length (as_Attempts (ra_Status approval))) \<ge> rec_maxAttempts r then
        stop_with (finish L E approval ApprovalPhaseFailed ApprovalResultAPIError
          ''AttemptsExhausted'' ''maximum remediation attempts exhausted'')
      else
        do { e \<leftarrow> markRunning L E approval action;
             case e of
               Some err \<Rightarrow> State_Monad.return (Inl (Failed err))
             | None \<Rightarrow> State_Monad.return (Inr (action, incidentTarget, policy, expires)) })"

text \<open>The second validation, under the lock.\<close>

definition revalidate ::
  "kube_lib \<Rightarrow> env \<Rightarrow> Reconciler \<Rightarrow> RemediationApproval \<Rightarrow> DeletionIncident \<Rightarrow> RemediationAction
     \<Rightarrow> PolicyReference option \<Rightarrow> time \<Rightarrow> ApiError + DeletionIncident
     \<Rightarrow> (reconcile_result + RemediationAction \<times> TargetReference \<times> policy_ptr \<times> time) io" where
  "revalidate L E r approval incident action policyRef expires locked =
     do { now \<leftarrow> call_now E;
          if \<not> now < expires then
            stop_with (finish L E approval ApprovalPhaseExpired ApprovalResultRejectedByPolicy
              ''ApprovalExpired'' ''approval TTL elapsed while waiting for target lock'')
          else case locked of
            Inl _ \<Rightarrow>
              stop_with (finish L E approval ApprovalPhaseSuperseded ApprovalResultTargetChanged
                ''IncidentChanged'' ''incident changed while waiting for target lock'')
          | Inr li \<Rightarrow>
              if om_UID (di_Meta li) \<noteq> om_UID (di_Meta incident) \<or> is_Phase (di_Status li) \<noteq> IncidentPhaseActive
                 \<or> is_ActivePolicyRef (di_Status li) \<noteq> policyRef then
                stop_with (finish L E approval ApprovalPhaseSuperseded ApprovalResultTargetChanged
                  ''IncidentChanged'' ''incident changed while waiting for target lock'')
              else
                do { now \<leftarrow> call_now E;
                     if \<not> actionEvidenceCurrent (di_Status li) now then
                       stop_with (finish L E approval ApprovalPhaseSuperseded ApprovalResultTargetChanged
                         ''EvidenceExpired'' ''diagnosis evidence expired while waiting for the target lock'')
                     else if findAction (is_RecommendedActions (di_Status li)) (rs_ActionID (ra_Spec approval)) \<noteq> Some action then
                       stop_with (finish L E approval ApprovalPhaseSuperseded ApprovalResultTargetChanged
                         ''ActionChanged'' ''incident action changed while waiting for target lock'')
                     else case policyRef of
                       None \<Rightarrow> State_Monad.return (Inl Panicked)
                     | Some ref \<Rightarrow>
                         do { p \<leftarrow> load_policy L E approval ref
                                ''active policy revision changed while waiting for target lock''
                                ''current policy cannot be safely compiled after target lock''
                                ''approval TTL elapsed during final validation'';
                              case p of
                                Inl stop \<Rightarrow> State_Monad.return (Inl stop)
                              | Inr (policy, expires) \<Rightarrow>
                                  begin_attempt L E r approval action (ds_Target (di_Spec li)) policy expires } } }"

text \<open>The delay before the next attempt, at least \<open>retryDelay\<close> and at most what remains.\<close>

definition requeue_delay :: "ApiError \<Rightarrow> duration \<Rightarrow> duration" where
  "requeue_delay e remaining =
     (let delay = (case ae_ClientDelay e of
                     None \<Rightarrow> retryDelay
                   | Some seconds \<Rightarrow>
                       (let suggested = wrap64 (seconds * second)
                        in if suggested > retryDelay then suggested else retryDelay))
      in if remaining < delay then remaining else delay)"

definition finish_result :: "ApiError option \<Rightarrow> reconcile_result" where
  "finish_result e = (case e of None \<Rightarrow> Done 0 | Some err \<Rightarrow> Failed err)"

definition after_failure ::
  "kube_lib \<Rightarrow> env \<Rightarrow> Reconciler \<Rightarrow> RemediationApproval \<Rightarrow> ApiError \<Rightarrow> time \<Rightarrow> reconcile_result io" where
  "after_failure L E r approval err expires =
     (if \<not> transient L (PlainError err)
         \<or> int (length (as_Attempts (ra_Status approval))) + 1 \<ge> rec_maxAttempts r then
        do { e \<leftarrow> finishByName L E (om_Name (ra_Meta approval)) ApprovalPhaseFailed ApprovalResultAPIError
                    (errorReason (PlainError err)) ''remediation failed'';
             State_Monad.return (finish_result e) }
      else
        do { now \<leftarrow> call_now E;
             let remaining = time_sub expires now
             in if remaining \<le> 0 then
                  do { e \<leftarrow> finishByName L E (om_Name (ra_Meta approval)) ApprovalPhaseExpired ApprovalResultAPIError
                              ''ApprovalExpired'' ''approval expired after a failed attempt'';
                       State_Monad.return (finish_result e) }
                else State_Monad.return (Done (requeue_delay err remaining)) })"

text \<open>The bookkeeping after \<open>execute\<close> has returned.\<close>

definition settle_attempt ::
  "kube_lib \<Rightarrow> env \<Rightarrow> Reconciler \<Rightarrow> RemediationApproval \<Rightarrow> RemediationAction \<Rightarrow> time \<Rightarrow> exec_answer
     \<Rightarrow> reconcile_result io" where
  "settle_attempt L E r approval action expires answer =
     (let name = om_Name (ra_Meta approval);
          dryRun = rs_DryRun (ra_Spec approval);
          count = (\<lambda>result. note_event (EvRemediationCount (a_Type action) (a_Risk action) result (format_bool dryRun)));
          (attempt0, outcome, err) = answer
      in do { now \<leftarrow> call_now E;
              let attempt = stamp_attempt now action dryRun attempt0
              in case err of
                None \<Rightarrow>
                  do { e \<leftarrow> recordTerminalAttempt L E name (attempt\<lparr>at_Result := outcome\<rparr>)
                         (if dryRun then ApprovalPhaseDryRunSucceeded else ApprovalPhaseSucceeded) outcome;
                       case e of
                         Some err \<Rightarrow> State_Monad.return (Failed err)
                       | None \<Rightarrow>
                           do { count outcome;
                                note_event (EvRecord ''Normal'' ''RemediationCompleted'' ''ExecuteRemediation''
                                  (a_Type action @ '' completed with '' @ outcome));
                                State_Monad.return (Done 0) } }
              | Some (TerminalError t) \<Rightarrow>
                  do { e \<leftarrow> recordTerminalAttempt L E name
                         (attempt\<lparr>at_Result := te_result t, at_ErrorReason := te_reason t,
                                  at_Message := sanitize (te_message t) 1024\<rparr>)
                         (te_phase t) (te_result t);
                       case e of
                         Some err \<Rightarrow> State_Monad.return (Failed err)
                       | None \<Rightarrow>
                           do { count (te_result t);
                                note_event (EvRecord ''Warning'' ''RemediationRejected'' ''ExecuteRemediation''
                                  (a_Type action @ '' ended with '' @ te_result t));
                                State_Monad.return (Done 0) } }
              | Some (PlainError err) \<Rightarrow>
                  do { e \<leftarrow> recordRetryAttempt L E name
                         (attempt\<lparr>at_Result := ApprovalResultAPIError,
                                  at_ErrorReason := errorReason (PlainError err),
                                  at_Message := apiFailureMessage\<rparr>);
                       case e of
                         Some statusErr \<Rightarrow> State_Monad.return (Failed statusErr)
                       | None \<Rightarrow>
                           do { count ApprovalResultAPIError;
                                after_failure L E r approval err expires } } })"

definition attempt_section ::
  "kube_lib \<Rightarrow> env \<Rightarrow> Reconciler \<Rightarrow> RemediationApproval \<Rightarrow> RemediationAction \<Rightarrow> TargetReference
     \<Rightarrow> policy_ptr \<Rightarrow> time \<Rightarrow> reconcile_result io" where
  "attempt_section L E r approval action incidentTarget policy expires =
     do { x \<leftarrow> execute E action incidentTarget policy (rs_DryRun (ra_Spec approval));
          case x of
            None \<Rightarrow> State_Monad.return Panicked
          | Some answer \<Rightarrow> settle_attempt L E r approval action expires answer }"

definition locked_section ::
  "kube_lib \<Rightarrow> env \<Rightarrow> Reconciler \<Rightarrow> string \<Rightarrow> DeletionIncident \<Rightarrow> RemediationAction \<Rightarrow> bool
     \<Rightarrow> PolicyReference option \<Rightarrow> time \<Rightarrow> reconcile_result io" where
  "locked_section L E r request incident action replay policyRef expires =
     do { a \<leftarrow> get_approval E request;
          case a of
            Inl err \<Rightarrow> State_Monad.return (ignore_not_found err)
          | Inr approval \<Rightarrow>
              if terminal (as_Phase (ra_Status approval)) then State_Monad.return (Done 0)
              else
                do { locked \<leftarrow> get_incident E (oir_Name (rs_IncidentRef (ra_Spec approval)));
                     if (case locked of Inl e \<Rightarrow> \<not> ae_NotFound e | Inr _ \<Rightarrow> False) then
                       State_Monad.return (Failed (projl locked))
                     else if replay then replay_section L E approval incident action locked
                     else
                       and_then (revalidate L E r approval incident action policyRef expires locked)
                         (\<lambda>(lockedAction, incidentTarget, policy, expires).
                            attempt_section L E r approval lockedAction incidentTarget policy expires) } }"

text \<open>\<open>unlock\<close> is deferred: it runs when the function returns.\<close>

definition with_lock :: "string \<Rightarrow> 'a io \<Rightarrow> 'a io" where
  "with_lock key body =
     do { note_event (EvLock key); r \<leftarrow> body; note_event (EvUnlock key); State_Monad.return r }"

definition Reconcile :: "kube_lib \<Rightarrow> env \<Rightarrow> Reconciler \<Rightarrow> string \<Rightarrow> reconcile_result io" where
  "Reconcile L E r request =
     and_then (load_request L E request) (\<lambda>(approval, incident).
     and_then (choose_action L E approval incident) (\<lambda>(action, replay).
     and_then (validate_policy L E approval incident action replay) (\<lambda>(policyRef, expires).
       with_lock (targetKey (a_Target action))
         (locked_section L E r request incident action replay policyRef expires))))"

section \<open>What the stages do\<close>

text \<open>
  Events other than mutations and lock operations.  Everything but \<open>perform\<close> and the lock itself
  emits such events only.
\<close>

definition quiet :: "event \<Rightarrow> bool" where
  "quiet e \<longleftrightarrow> \<not> is_mutation e \<and> (\<forall>k. e \<noteq> EvLock k \<and> e \<noteq> EvUnlock k)"

lemma quiet_simps [simp]:
  "quiet (EvNow t)" "quiet (EvSnapshot c)" "quiet (EvGetApproval n ra)" "quiet (EvGetIncident n ri)"
  "quiet (EvGetPolicy n rp)" "quiet (EvDynGet g ns n ro)" "quiet (EvListMeta g ns tok lim rm)"
  "quiet (EvPatchOwners n ows e)" "quiet (EvStatusUpdate a e)" "quiet (EvRemediationCount x1 x2 x3 x4)"
  "quiet (EvRecord y1 y2 y3 y4)" "\<not> quiet (EvPatch g ns n ops dry ro)" "\<not> quiet (EvFinalize req dry rf)"
  "\<not> quiet (EvLock k)" "\<not> quiet (EvUnlock k)"
  by (simp_all add: quiet_def)

lemma quiet_not_mutation: "quiet e \<Longrightarrow> \<not> is_mutation e"
  by (simp add: quiet_def)

lemma emits_updateStatus [emits_intro]:
  "(\<And>st g. emits quiet (mutate st g)) \<Longrightarrow> emits quiet (updateStatus L E name mutate)"
  unfolding updateStatus_def by (intro emits_intro) auto

lemma emits_status_writers [emits_intro]:
  "emits quiet (finishByName L E name phase result reason message)"
  "emits quiet (finish L E approval phase result reason message)"
  "emits quiet (recordTerminalAttempt L E name attempt phase result)"
  "emits quiet (recordRetryAttempt L E name attempt)"
  "emits quiet (markRunning L E approval action)"
  "emits quiet (ensureOwnerReference L E name incident)"
  unfolding finish_def finishByName_def recordTerminalAttempt_def recordRetryAttempt_def markRunning_def
    ensureOwnerReference_def
  by ((intro emits_intro; simp)+)

lemma wp_status_writers [wp_intro]:
  "(\<And>a es. list_all quiet es \<Longrightarrow> Q a (s @ es)) \<Longrightarrow> wp (finishByName L E name phase result reason message) Q s"
  "(\<And>a es. list_all quiet es \<Longrightarrow> Q a (s @ es)) \<Longrightarrow> wp (recordTerminalAttempt L E name attempt phase result) Q s"
  "(\<And>a es. list_all quiet es \<Longrightarrow> Q a (s @ es)) \<Longrightarrow> wp (recordRetryAttempt L E name attempt) Q s"
  "(\<And>a es. list_all quiet es \<Longrightarrow> Q a (s @ es)) \<Longrightarrow> wp (ensureOwnerReference L E name incident) Q s"
  by (rule wp_emits[OF emits_status_writers(1)], blast) (rule wp_emits[OF emits_status_writers(3)], blast,
      rule wp_emits[OF emits_status_writers(4)], blast, rule wp_emits[OF emits_status_writers(6)], blast)

lemma wp_finish [wp_intro]:
  assumes "\<And>a es. list_all quiet es \<Longrightarrow> a = Done 0 \<or> (\<exists>e. a = Failed e) \<Longrightarrow> Q a (s @ es)"
  shows "wp (finish L E approval phase result reason message) Q s"
  unfolding finish_def by (intro wp_intro) (auto intro!: assms)

lemma wp_stop_with [wp_intro]: "wp m (\<lambda>r. Q (Inl r)) s \<Longrightarrow> wp (stop_with m) Q s"
  unfolding stop_with_def by (rule wp_bind, erule wp_mono) (rule wp_return)

lemma wp_and_then:
  "wp m (\<lambda>r s'. case r of Inl x \<Rightarrow> Q x s' | Inr y \<Rightarrow> wp (f y) Q s') s \<Longrightarrow> wp (and_then m f) Q s"
  unfolding and_then_def
  by (rule wp_bind, erule wp_mono) (auto split: sum.splits intro!: wp_intro)

subsection \<open>Reading the target\<close>

lemma emits_get_versions: "emits quiet (get_versions E target gr e versions)"
  by (induction versions arbitrary: e) (auto intro!: emits_intro)

lemma emits_getCurrent [emits_intro]: "emits quiet (getCurrent E target)"
  unfolding getCurrent_def by (intro emits_intro emits_get_versions) auto

text \<open>The object was read from the API at the returned GroupVersionResource, or there is an error.\<close>

definition target_gr :: "TargetReference \<Rightarrow> GroupResource" where
  "target_gr t = \<lparr>gr_Group = tr_APIGroup t, gr_Resource = tr_Resource t\<rparr>"

definition read_ok :: "TargetReference \<Rightarrow> get_answer \<Rightarrow> event set \<Rightarrow> bool" where
  "read_ok t x evs \<longleftrightarrow>
     (case x of
        (None, gvr, err) \<Rightarrow> err \<noteq> None
      | (Some cur, gvr, err) \<Rightarrow>
          err = None \<and> EvDynGet gvr (tr_Namespace t) (tr_Name t) (Inr cur) \<in> evs
          \<and> (\<exists>v. gvr = WithVersion (target_gr t) v))"

lemma get_versions_ok:
  assumes "e \<noteq> None \<or> versions \<noteq> []"
  shows "wp (get_versions E t (target_gr t) e versions)
    (\<lambda>x s'. \<exists>es. s' = s @ es \<and> list_all quiet es \<and> read_ok t x (set es)) s"
  using assms
proof (induction versions arbitrary: e s)
  case Nil
  then show ?case by (auto intro!: wp_intro simp: read_ok_def)
next
  case (Cons v vs)
  have step: "wp (get_versions E t (target_gr t) (Some e') vs)
      (\<lambda>x s'. \<exists>es. s' = s @ es \<and> list_all quiet es \<and> read_ok t x (set es)) (s @ [EvDynGet g ns n r])"
    for e' g ns n r
    by (rule wp_mono[OF Cons.IH]) (auto simp: read_ok_def split: prod.splits option.splits)
  show ?case
    unfolding get_versions.simps by (intro wp_intro step) (auto simp: read_ok_def)
qed

lemma getCurrent_ok:
  "wp (getCurrent E t) (\<lambda>x s'. \<exists>es. s' = s @ es \<and> list_all quiet es \<and> read_ok t x (set es)) s"
proof -
  have versions: "wp (get_versions E t (target_gr t) None (OrderedVersions resource (tr_Version t)))
      (\<lambda>x s'. \<exists>es. s' = s @ es \<and> list_all quiet es \<and> read_ok t x (set es)) (s @ [EvSnapshot c])"
    for resource c
    by (rule wp_mono[OF get_versions_ok])
      (auto simp: OrderedVersions_nonempty read_ok_def split: prod.splits option.splits)
  show ?thesis
    unfolding getCurrent_def target_gr_def[symmetric] Let_def
    by (intro wp_intro versions) (auto simp: read_ok_def)
qed

subsection \<open>The policy still selects the incident target\<close>

text \<open>
  The object the labels come from is the action's target itself, or, when the incident is about
  another object, that object as it was read, with the UID of the incident's target.
\<close>

definition still_selected ::
  "policy_ptr \<Rightarrow> RemediationAction \<Rightarrow> TargetReference \<Rightarrow> Unstructured \<Rightarrow> event set \<Rightarrow> bool" where
  "still_selected policy action it current evs \<longleftrightarrow>
     (\<exists>snapshot resource object namespaceLabels.
        EvSnapshot snapshot \<in> evs \<and> Resolve snapshot (target_gr it) = Some resource
        \<and> Match policy (policy_target resource it object namespaceLabels)
        \<and> (if sameTargetIdentity (a_Target action) it then object = current
           else obj_UID object = tr_UID it
                \<and> (\<exists>gvr. EvDynGet gvr (tr_Namespace it) (tr_Name it) (Inr object) \<in> evs))
        \<and> (v_Namespaced (res_PreferredVersion resource) \<longrightarrow>
             (\<exists>gvr namespace. EvDynGet gvr [] (tr_Namespace it) (Inr namespace) \<in> evs
                \<and> namespaceLabels = obj_Labels namespace)))"

lemma still_selected_mono:
  "still_selected policy action it current evs \<Longrightarrow> evs \<subseteq> evs' \<Longrightarrow> still_selected policy action it current evs'"
  unfolding still_selected_def by (elim exE, intro exI) (auto split: if_splits)

lemma match_with_namespace_ok:
  "wp (match_with_namespace E policy resource it object)
     (\<lambda>x s'. \<exists>es. s' = s @ es \<and> list_all quiet es
        \<and> (x = Inr True \<longrightarrow> (\<exists>nl. Match policy (policy_target resource it object nl)
             \<and> (v_Namespaced (res_PreferredVersion resource) \<longrightarrow>
                  (\<exists>gvr namespace. EvDynGet gvr [] (tr_Namespace it) (Inr namespace) \<in> set es
                     \<and> nl = obj_Labels namespace))))) s"
  unfolding match_with_namespace_def by (intro wp_intro) auto

lemma currentPolicyMatches_ok:
  "wp (currentPolicyMatches E current action (Some it) policy)
     (\<lambda>x s'. \<exists>es. s' = s @ es \<and> list_all quiet es \<and> x \<noteq> None
        \<and> (x = Some (Inr True) \<longrightarrow> still_selected policy action it current (set es))) s"
    (is "wp _ ?Q s")
proof (cases policy)
  case None
  then show ?thesis by (auto simp: currentPolicyMatches_def intro!: wp_intro)
next
  case (Some p)
  have direct: "wp (match_with_namespace E policy resource it object)
      (\<lambda>m. wp (State_Monad.return (Some m)) ?Q) (s @ es)"
    if "list_all quiet es" "EvSnapshot c \<in> set es" "Resolve c (target_gr it) = Some resource"
      "if sameTargetIdentity (a_Target action) it then object = current
       else obj_UID object = tr_UID it \<and> (\<exists>gvr. EvDynGet gvr (tr_Namespace it) (tr_Name it) (Inr object) \<in> set es)"
    for resource object es c
    using that
    by (intro wp_mono[OF match_with_namespace_ok] wp_return)
      (fastforce simp: still_selected_def split: if_splits)
  have read: "wp (getCurrent E it) (\<lambda>a. wp (match_incident_object E policy resource it a) ?Q) (s @ [EvSnapshot c])"
    if "Resolve c (target_gr it) = Some resource" "\<not> sameTargetIdentity (a_Target action) it" for c resource
  proof (rule wp_mono[OF getCurrent_ok], elim exE conjE)
    fix a s' es
    assume es: "s' = (s @ [EvSnapshot c]) @ es" "list_all quiet es" "read_ok it a (set es)"
    show "wp (match_incident_object E policy resource it a) ?Q s'"
      unfolding match_incident_object_def using es that
      by (intro wp_intro; (clarsimp simp: read_ok_def)?)
        (auto intro!: direct[of "EvSnapshot c # es" c, simplified])
  qed
  show ?thesis
    unfolding currentPolicyMatches_def Some prod.case option.case target_gr_def[symmetric]
    unfolding Some[symmetric]
    by (intro wp_intro read; (simp; fail)?) (auto intro!: direct[of "[EvSnapshot _]", simplified])
qed

subsection \<open>At most one mutation\<close>

text \<open>
  A log without mutation, or with exactly one, whose past satisfies a condition.  The condition may
  speak of everything the run logged before the mutation.
\<close>

abbreviation no_mutation :: "event list \<Rightarrow> bool" where
  "no_mutation es \<equiv> list_all (\<lambda>e. \<not> is_mutation e) es"

definition one_mutation :: "(event list \<Rightarrow> event \<Rightarrow> bool) \<Rightarrow> event list \<Rightarrow> bool" where
  "one_mutation A es \<longleftrightarrow>
     no_mutation es \<or>
     (\<exists>pre ev post. es = pre @ ev # post \<and> no_mutation pre \<and> no_mutation post \<and> is_mutation ev \<and> A pre ev)"

lemma quiet_no_mutation: "list_all quiet es \<Longrightarrow> no_mutation es"
  by (auto simp: list_all_iff quiet_def)

lemma one_mutation_none: "no_mutation es \<Longrightarrow> one_mutation A es"
  by (simp add: one_mutation_def)

lemma one_mutation_prefix:
  assumes "one_mutation A es" and "no_mutation es0" and "\<And>pre ev. A pre ev \<Longrightarrow> B (es0 @ pre) ev"
  shows "one_mutation B (es0 @ es)"
proof (cases "no_mutation es")
  case False
  then obtain pre ev post where "es = pre @ ev # post" "no_mutation pre" "no_mutation post" "is_mutation ev" "A pre ev"
    using assms(1) by (auto simp: one_mutation_def)
  then show ?thesis
    unfolding one_mutation_def using assms(2,3)
    by (intro disjI2 exI[where x = "es0 @ pre"] exI[where x = ev] exI[where x = post]) simp
qed (simp add: one_mutation_def assms(2))

lemma one_mutation_suffix:
  assumes "one_mutation A es" and "no_mutation es1"
  shows "one_mutation A (es @ es1)"
proof (cases "no_mutation es")
  case False
  then obtain pre ev post where "es = pre @ ev # post" "no_mutation pre" "no_mutation post" "is_mutation ev" "A pre ev"
    using assms(1) by (auto simp: one_mutation_def)
  then show ?thesis
    unfolding one_mutation_def using assms(2)
    by (intro disjI2 exI[where x = pre] exI[where x = ev] exI[where x = "post @ es1"]) simp
qed (simp add: one_mutation_def assms(2))

lemma one_mutation_at:
  assumes "one_mutation A (pre @ ev # post)" and "is_mutation ev"
  shows "A pre ev"
proof -
  obtain pre' ev' post' where *: "pre @ ev # post = pre' @ ev' # post'" "no_mutation pre'" "no_mutation post'"
      "is_mutation ev'" "A pre' ev'"
    using assms by (auto simp: one_mutation_def)
  then have "pre = pre' \<and> ev = ev'"
    using assms(2) by (auto simp: append_eq_append_conv2 append_eq_Cons_conv Cons_eq_append_conv list_all_iff)
  then show ?thesis using *(5) by simp
qed

lemma one_mutation_count: "one_mutation A es \<Longrightarrow> length (filter is_mutation es) \<le> 1"
  by (auto simp: one_mutation_def list_all_iff filter_False)

subsection \<open>The request that is sent\<close>

text \<open>
  The request an action stands for, given the object it was checked against: the patch that removes
  the approved finalizer, or the finalization of the namespace, on the object with the approved
  identity and resource version, and with the dry-run flag of the approval.
\<close>

definition request_for ::
  "RemediationAction \<Rightarrow> Unstructured \<Rightarrow> GroupVersionResource \<Rightarrow> bool \<Rightarrow> event \<Rightarrow> bool" where
  "request_for action current gvr dryRun ev \<longleftrightarrow>
     obj_ResourceVersion current = a_PreconditionResourceVersion action
     \<and> (case ev of
          EvPatch g ns n ops dry _ \<Rightarrow>
            (a_Type action = ActionRemoveResourceFinalizer
             \<or> a_Type action = ActionRemoveCRDFinalizer \<and> target_gr (a_Target action) = crdsGR)
            \<and> g = gvr \<and> ns = tr_Namespace (a_Target action) \<and> n = tr_Name (a_Target action) \<and> dry = dryRun
            \<and> (\<exists>index. slices_Index (obj_Finalizers current) (a_Finalizer action) = Some index
                 \<and> ops = finalizerPatch current index)
        | EvFinalize req dry _ \<Rightarrow>
            a_Type action = ActionForceFinalizeNamespace
            \<and> target_gr (a_Target action) = namespacesGR \<and> tr_Namespace (a_Target action) = [] \<and> dry = dryRun
            \<and> req = \<lparr>fr_Name = obj_Name current, fr_UID = obj_UID current,
                      fr_ResourceVersion = obj_ResourceVersion current, fr_Finalizers = []\<rparr>
            \<and> obj_SpecFinalizers current \<noteq> Inr None \<and> obj_SpecFinalizers current \<noteq> Inr (Some [])
        | _ \<Rightarrow> False)"

lemma one_mutation_single: "is_mutation ev \<Longrightarrow> A [] ev \<Longrightarrow> one_mutation A [ev]"
  unfolding one_mutation_def by (intro disjI2 exI[where x = "[]"] exI[where x = ev]) simp

lemma perform_ok:
  "wp (perform E action current gvr dryRun)
     (\<lambda>_ s'. \<exists>es. s' = s @ es
        \<and> one_mutation (\<lambda>pre ev. request_for action current gvr dryRun ev) es) s"
proof -
  have none: "one_mutation A []" for A by (simp add: one_mutation_none)
  show ?thesis
    unfolding perform_def remove_finalizer_def force_finalize_def Let_def
    by (intro wp_intro)
      (auto intro!: one_mutation_single none
        simp: request_for_def target_gr_def crdsGR_def namespacesGR_def)
qed

text \<open>What is known when the mutation is sent, as far as \<open>execute\<close> establishes it.\<close>

definition fresh_target ::
  "RemediationAction \<Rightarrow> TargetReference \<Rightarrow> policy_ptr \<Rightarrow> bool \<Rightarrow> event set \<Rightarrow> event \<Rightarrow> bool" where
  "fresh_target action it policy dryRun evs ev \<longleftrightarrow>
     (\<exists>current gvr v.
        EvDynGet gvr (tr_Namespace (a_Target action)) (tr_Name (a_Target action)) (Inr current) \<in> evs
        \<and> gvr = WithVersion (target_gr (a_Target action)) v
        \<and> obj_UID current = tr_UID (a_Target action)
        \<and> still_selected policy action it current evs
        \<and> request_for action current gvr dryRun ev)"

lemma fresh_target_mono:
  "fresh_target action it policy dryRun evs ev \<Longrightarrow> evs \<subseteq> evs' \<Longrightarrow> fresh_target action it policy dryRun evs' ev"
  unfolding fresh_target_def by (blast intro: still_selected_mono)

lemma execute_matched_ok:
  assumes "list_all quiet es" "read_ok (a_Target action) (Some current, gvr, None) (set es)"
    "obj_UID current = tr_UID (a_Target action)" "m \<noteq> None"
    "m = Some (Inr True) \<Longrightarrow> still_selected policy action it current (set es)"
  shows "wp (execute_matched E action current gvr dryRun m)
     (\<lambda>x s'. \<exists>es. s' = s @ es \<and> x \<noteq> None
        \<and> one_mutation (\<lambda>pre. fresh_target action it policy dryRun (set pre)) es) (s @ es)"
    (is "wp _ ?Q _")
proof -
  have none: "one_mutation A es" for A using assms(1) by (intro one_mutation_none quiet_no_mutation)
  have "wp (perform E action current gvr dryRun) (\<lambda>a. wp (State_Monad.return (Some a)) ?Q) (s @ es)"
    if sel: "still_selected policy action it current (set es)"
  proof (intro wp_mono[OF perform_ok] wp_return, elim exE conjE)
    fix a s' es'
    assume "s' = (s @ es) @ es'" and m: "one_mutation (\<lambda>pre. request_for action current gvr dryRun) es'"
    moreover have "one_mutation (\<lambda>pre. fresh_target action it policy dryRun (set pre)) (es @ es')"
    proof (rule one_mutation_prefix[OF m quiet_no_mutation[OF assms(1)]])
      fix pre ev assume "request_for action current gvr dryRun ev"
      then have "fresh_target action it policy dryRun (set es) ev"
        using assms(2,3) sel by (auto simp: fresh_target_def read_ok_def)
      then show "fresh_target action it policy dryRun (set (es @ pre)) ev"
        by (rule fresh_target_mono) simp
    qed
    ultimately show "\<exists>es. s' = s @ es \<and> Some a \<noteq> None
        \<and> one_mutation (\<lambda>pre. fresh_target action it policy dryRun (set pre)) es"
      by (intro exI[where x = "es @ es'"]) simp
  qed
  then show ?thesis
    unfolding execute_matched_def using assms(4,5) none by (intro wp_intro) auto
qed

lemma execute_ok:
  "wp (execute E action it policy dryRun)
     (\<lambda>x s'. \<exists>es. s' = s @ es \<and> x \<noteq> None
        \<and> one_mutation (\<lambda>pre. fresh_target action it policy dryRun (set pre)) es) s"
    (is "wp _ ?Q s")
  unfolding execute_def
proof (rule wp_bind, rule wp_mono[OF getCurrent_ok], elim exE conjE)
  fix x s' es
  assume s': "s' = s @ es" and es: "list_all quiet es" and r: "read_ok (a_Target action) x (set es)"
  have none: "one_mutation A es" for A using es by (intro one_mutation_none quiet_no_mutation)
  have matched: "wp (currentPolicyMatches E current action (Some it) policy)
      (\<lambda>m. wp (execute_matched E action current gvr dryRun m) ?Q) (s @ es)"
    if "read_ok (a_Target action) (Some current, gvr, None) (set es)" "obj_UID current = tr_UID (a_Target action)"
    for current gvr
  proof (rule wp_mono[OF currentPolicyMatches_ok], elim exE conjE)
    fix m :: "(ApiError + bool) option" and s'' es'
    assume m: "s'' = (s @ es) @ es'" "list_all quiet es'" "m \<noteq> None"
      "m = Some (Inr True) \<longrightarrow> still_selected policy action it current (set es')"
    have "list_all quiet (es @ es')" using es m(2) by simp
    moreover have "read_ok (a_Target action) (Some current, gvr, None) (set (es @ es'))"
      using that(1) by (auto simp: read_ok_def)
    moreover have "still_selected policy action it current (set (es @ es'))" if "m = Some (Inr True)"
      using m(4) that by (auto intro: still_selected_mono)
    ultimately show "wp (execute_matched E action current gvr dryRun m) ?Q s''"
      using execute_matched_ok[where es = "es @ es'" and s = s] that(2) m(1,3) by simp
  qed
  show "wp (execute_read E action it policy dryRun x) ?Q s'"
    unfolding execute_read_def s' using r none by (intro wp_intro matched) (auto simp: read_ok_def)
qed

subsection \<open>The validations\<close>

text \<open>A policy read at the referenced revision, ready, with the approval's lifetime not over.\<close>

definition policy_loaded ::
  "kube_lib \<Rightarrow> event set \<Rightarrow> RemediationApproval \<Rightarrow> PolicyReference \<Rightarrow> policy_ptr \<Rightarrow> bool" where
  "policy_loaded L evs a ref p \<longleftrightarrow>
     (\<exists>source snapshot t now.
        EvGetPolicy (pr_Name ref) (Inr source) \<in> evs \<and> om_UID (tp_Meta source) = pr_UID ref
        \<and> om_Generation (tp_Meta source) = pr_Generation ref
        \<and> EvSnapshot snapshot \<in> evs \<and> p = Some (fst (Compile L (Some source) snapshot t)) \<and> Ready p
        \<and> EvNow now \<in> evs \<and> now < om_CreationTimestamp (ra_Meta a) + set_ApprovalTTL (policy_Settings p))"

lemma policy_loaded_mono: "policy_loaded L evs a ref p \<Longrightarrow> evs \<subseteq> evs' \<Longrightarrow> policy_loaded L evs' a ref p"
  unfolding policy_loaded_def by blast

lemma load_policy_ok:
  "wp (load_policy L E a ref m1 m2 m3)
     (\<lambda>x s'. \<exists>es. s' = s @ es \<and> list_all quiet es \<and> x \<noteq> Inl Panicked
        \<and> (case x of Inl _ \<Rightarrow> True
           | Inr (p, expires) \<Rightarrow> policy_loaded L (set es) a ref p
               \<and> expires = om_CreationTimestamp (ra_Meta a) + set_ApprovalTTL (policy_Settings p))) s"
  unfolding load_policy_def policy_loaded_def Let_def
  by (intro wp_intro) auto

text \<open>The first validation: what is known before the lock is taken.\<close>

definition requested :: "string \<Rightarrow> event set \<Rightarrow> RemediationApproval \<Rightarrow> DeletionIncident \<Rightarrow> bool" where
  "requested request evs a i \<longleftrightarrow>
     EvGetApproval request (Inr a) \<in> evs \<and> \<not> terminal (as_Phase (ra_Status a))
     \<and> EvGetIncident (oir_Name (rs_IncidentRef (ra_Spec a))) (Inr i) \<in> evs
     \<and> om_UID (di_Meta i) = oir_UID (rs_IncidentRef (ra_Spec a))"

definition permitted ::
  "kube_lib \<Rightarrow> event set \<Rightarrow> RemediationApproval \<Rightarrow> DeletionIncident \<Rightarrow> RemediationAction \<Rightarrow> PolicyReference option \<Rightarrow> bool" where
  "permitted L evs a i act ref \<longleftrightarrow>
     (\<exists>p policyRef. ref = Some policyRef \<and> is_ActivePolicyRef (di_Status i) = ref
        \<and> policy_loaded L evs a policyRef p \<and> a_Eligible act
        \<and> fst (ActionEligibility p (a_Type act) (a_Finalizer act))
        \<and> RiskFor (a_Type act) (a_Finalizer act) = a_Risk act)"

definition admitted ::
  "kube_lib \<Rightarrow> string \<Rightarrow> event set \<Rightarrow> DeletionIncident \<Rightarrow> RemediationAction \<Rightarrow> bool \<Rightarrow> PolicyReference option \<Rightarrow> bool" where
  "admitted L request evs i act replay ref \<longleftrightarrow>
     (\<exists>a. requested request evs a i \<and> a_ID act = rs_ActionID (ra_Spec a)
        \<and> actionBelongsToIncident (Some act) (ds_Target (di_Spec i))
        \<and> (\<not> replay \<longrightarrow> permitted L evs a i act ref))"

lemma requested_mono: "requested request evs a i \<Longrightarrow> evs \<subseteq> evs' \<Longrightarrow> requested request evs' a i"
  unfolding requested_def by blast

lemma permitted_mono: "permitted L evs a i act ref \<Longrightarrow> evs \<subseteq> evs' \<Longrightarrow> permitted L evs' a i act ref"
  unfolding permitted_def by (blast intro: policy_loaded_mono)

lemma load_request_ok:
  "wp (load_request L E request)
     (\<lambda>x s'. \<exists>es. s' = s @ es \<and> list_all quiet es \<and> x \<noteq> Inl Panicked
        \<and> (case x of Inl _ \<Rightarrow> True | Inr (a, i) \<Rightarrow> requested request (set es) a i)) s"
  unfolding load_request_def ignore_not_found_def requested_def
  by (intro wp_intro) auto

lemma choose_action_ok:
  "wp (choose_action L E a i)
     (\<lambda>x s'. \<exists>es. s' = s @ es \<and> list_all quiet es \<and> x \<noteq> Inl Panicked
        \<and> (case x of Inl _ \<Rightarrow> True
           | Inr (act, replay) \<Rightarrow> a_ID act = rs_ActionID (ra_Spec a)
               \<and> actionBelongsToIncident (Some act) (ds_Target (di_Spec i))
               \<and> (\<not> replay \<longrightarrow> is_ActivePolicyRef (di_Status i) \<noteq> None))) s"
  unfolding choose_action_def Let_def
  by (intro wp_intro) auto

lemma validate_policy_ok:
  assumes "\<not> replay \<Longrightarrow> is_ActivePolicyRef (di_Status i) \<noteq> None"
  shows "wp (validate_policy L E a i act replay)
     (\<lambda>x s'. \<exists>es. s' = s @ es \<and> list_all quiet es \<and> x \<noteq> Inl Panicked
        \<and> (case x of Inl _ \<Rightarrow> True
           | Inr (ref, expires) \<Rightarrow> \<not> replay \<longrightarrow> permitted L (set es) a i act ref)) s"
proof (cases replay)
  case True
  then show ?thesis by (auto simp: validate_policy_def intro!: wp_intro)
next
  case False
  then obtain policyRef where ref: "is_ActivePolicyRef (di_Status i) = Some policyRef" using assms by auto
  show ?thesis
    unfolding validate_policy_def ref option.case if_not_P[OF False]
  proof (rule wp_bind, rule wp_mono[OF load_policy_ok], elim exE conjE, goal_cases)
    case (1 x s' es)
    then show ?case by (intro wp_intro) (auto simp: permitted_def ref split: sum.splits prod.splits, metis fst_conv)
  qed
qed

subsection \<open>The Running record\<close>

text \<open>
  A repeated function is described by what every run of it establishes when it answers without error.
\<close>

lemma retry_conflict_ok:
  assumes step: "\<And>s. wp fn (\<lambda>x s'. \<exists>es. s' = s @ es \<and> list_all quiet es \<and> (x = None \<longrightarrow> P (set es))) s"
    and mono: "\<And>A B. P A \<Longrightarrow> A \<subseteq> B \<Longrightarrow> P B"
  shows "wp (retry_conflict n fn) (\<lambda>x s'. \<exists>es. s' = s @ es \<and> list_all quiet es \<and> (x = None \<longrightarrow> P (set es))) s"
proof (induction n arbitrary: s)
  case 0
  then show ?case using step by simp
next
  case (Suc n)
  let ?Q = "\<lambda>s0 x s'. \<exists>es. s' = s0 @ es \<and> list_all quiet es \<and> (x = None \<longrightarrow> P (set es))"
  have again: "wp (retry_conflict n fn) (?Q s) (s @ es)" if "list_all quiet es" for es
    by (rule wp_mono[OF Suc.IH]) (use that mono in \<open>force intro: mono\<close>)
  show ?case
    unfolding retry_conflict.simps
    by (rule wp_bind, rule wp_mono[OF step], elim exE conjE) (intro wp_intro, auto intro!: again)
qed

definition recorded_running :: "kube_lib \<Rightarrow> string \<Rightarrow> RemediationAction \<Rightarrow> event set \<Rightarrow> bool" where
  "recorded_running L name act evs \<longleftrightarrow>
     (\<exists>cur st. EvGetApproval name (Inr cur) \<in> evs \<and> as_Phase st = ApprovalPhaseRunning
        \<and> as_Action st = (case as_Action (ra_Status cur) of None \<Rightarrow> Some act | Some a \<Rightarrow> Some a)
        \<and> as_StartedTime st \<noteq> None \<and> as_Attempts st = as_Attempts (ra_Status cur)
        \<and> (EvStatusUpdate (cur\<lparr>ra_Status := st\<rparr>) None \<in> evs \<or> statusesEqual L (ra_Status cur) st))"

lemma recorded_running_mono: "recorded_running L name act evs \<Longrightarrow> evs \<subseteq> evs' \<Longrightarrow> recorded_running L name act evs'"
  unfolding recorded_running_def by blast

lemma recorded_runningI:
  assumes "EvGetApproval name (Inr cur) \<in> evs"
    and "EvStatusUpdate (cur\<lparr>ra_Status := running_status act started now (ra_Status cur) g\<rparr>) None \<in> evs
       \<or> statusesEqual L (ra_Status cur) (running_status act started now (ra_Status cur) g)"
  shows "recorded_running L name act evs"
  unfolding recorded_running_def
  by (intro exI[where x = cur] exI[where x = "running_status act started now (ra_Status cur) g"])
    (use assms in \<open>simp add: running_status_def\<close>)

lemma markRunning_ok:
  "wp (markRunning L E a act)
     (\<lambda>x s'. \<exists>es. s' = s @ es \<and> list_all quiet es
        \<and> (x = None \<longrightarrow> recorded_running L (om_Name (ra_Meta a)) act (set es))) s"
  unfolding markRunning_def updateStatus_def RetryOnConflict_def
proof (rule retry_conflict_ok)
  show "recorded_running L (om_Name (ra_Meta a)) act A \<Longrightarrow> A \<subseteq> B \<Longrightarrow> recorded_running L (om_Name (ra_Meta a)) act B"
    for A B by (rule recorded_running_mono)
qed (intro wp_intro; auto intro: recorded_runningI)

subsection \<open>Under the lock\<close>

text \<open>The second validation: what is known, from reads under the lock, when the attempt starts.\<close>

definition cleared ::
  "kube_lib \<Rightarrow> Reconciler \<Rightarrow> event set \<Rightarrow> RemediationApproval \<Rightarrow> DeletionIncident \<Rightarrow> RemediationAction
     \<Rightarrow> PolicyReference \<Rightarrow> policy_ptr \<Rightarrow> bool" where
  "cleared L r evs a li act ref p \<longleftrightarrow>
     is_Phase (di_Status li) = IncidentPhaseActive \<and> is_ActivePolicyRef (di_Status li) = Some ref
     \<and> (\<exists>t. EvNow t \<in> evs \<and> actionEvidenceCurrent (di_Status li) t)
     \<and> findAction (is_RecommendedActions (di_Status li)) (rs_ActionID (ra_Spec a)) = Some act
     \<and> policy_loaded L evs a ref p
     \<and> int (length (as_Attempts (ra_Status a))) < rec_maxAttempts r
     \<and> recorded_running L (om_Name (ra_Meta a)) act evs"

lemma cleared_mono: "cleared L r evs a li act ref p \<Longrightarrow> evs \<subseteq> evs' \<Longrightarrow> cleared L r evs' a li act ref p"
  unfolding cleared_def by (blast intro: policy_loaded_mono recorded_running_mono)

text \<open>The last stage of the second validation: the attempt limit and the Running record.\<close>

lemma begin_attempt_ok:
  assumes "list_all quiet es" "policy_loaded L (set es) a ref p"
  shows "wp (begin_attempt L E r a act it p expires)
     (\<lambda>x s'. \<exists>es'. s' = s @ es @ es' \<and> list_all quiet (es @ es') \<and> x \<noteq> Inl Panicked
        \<and> (case x of Inl _ \<Rightarrow> True
           | Inr y \<Rightarrow> y = (act, it, p, expires)
               \<and> policy_loaded L (set (es @ es')) a ref p
               \<and> int (length (as_Attempts (ra_Status a))) < rec_maxAttempts r
               \<and> recorded_running L (om_Name (ra_Meta a)) act (set (es @ es')))) (s @ es)"
    (is "wp _ ?Q _")
proof -
  have run: "wp (markRunning L E a act) (\<lambda>e. wp (case e of
         Some err \<Rightarrow> State_Monad.return (Inl (Failed err))
       | None \<Rightarrow> State_Monad.return (Inr (act, it, p, expires))) ?Q) (s @ es)"
    if "int (length (as_Attempts (ra_Status a))) < rec_maxAttempts r"
  proof (rule wp_mono[OF markRunning_ok], elim exE conjE, goal_cases)
    case (1 x s' es')
    then show ?case using assms that
      by (intro wp_intro; clarsimp) (auto intro: policy_loaded_mono recorded_running_mono)
  qed
  show ?thesis
    unfolding begin_attempt_def using assms by (intro wp_intro run) auto
qed

lemma revalidate_ok:
  "wp (revalidate L E r a i act (Some ref) expires locked)
     (\<lambda>x s'. \<exists>es. s' = s @ es \<and> list_all quiet es \<and> x \<noteq> Inl Panicked
        \<and> (case x of Inl _ \<Rightarrow> True
           | Inr (act', it, p, _) \<Rightarrow>
               \<exists>li. locked = Inr li \<and> om_UID (di_Meta li) = om_UID (di_Meta i) \<and> act' = act
                 \<and> it = ds_Target (di_Spec li) \<and> cleared L r (set es) a li act ref p)) s"
    (is "wp _ ?Q s")
proof -
  have start: "wp (begin_attempt L E r a act (ds_Target (di_Spec li)) p expires') ?Q (s @ es)"
    if "list_all quiet es" "policy_loaded L (set es) a ref p" "locked = Inr li"
      "om_UID (di_Meta li) = om_UID (di_Meta i)" "is_Phase (di_Status li) = IncidentPhaseActive"
      "is_ActivePolicyRef (di_Status li) = Some ref" "EvNow t \<in> set es" "actionEvidenceCurrent (di_Status li) t"
      "findAction (is_RecommendedActions (di_Status li)) (rs_ActionID (ra_Spec a)) = Some act"
    for li es p expires' t
    by (rule wp_mono[OF begin_attempt_ok[OF that(1,2)]])
      (use that in \<open>fastforce simp: cleared_def split: sum.splits\<close>)
  have load: "wp (load_policy L E a ref m1 m2 m3) (\<lambda>x. wp (case x of
        Inl stop \<Rightarrow> State_Monad.return (Inl stop)
      | Inr (policy, expires) \<Rightarrow> begin_attempt L E r a act (ds_Target (di_Spec li)) policy expires) ?Q)
      ((s @ [EvNow t0]) @ [EvNow t])"
    if "locked = Inr li" "om_UID (di_Meta li) = om_UID (di_Meta i)" "is_Phase (di_Status li) = IncidentPhaseActive"
      "is_ActivePolicyRef (di_Status li) = Some ref" "actionEvidenceCurrent (di_Status li) t"
      "findAction (is_RecommendedActions (di_Status li)) (rs_ActionID (ra_Spec a)) = Some act"
    for m1 m2 m3 li t0 t
  proof (rule wp_mono[OF load_policy_ok], elim exE conjE, goal_cases)
    case (1 x s' es)
    have "wp (begin_attempt L E r a act (ds_Target (di_Spec li)) p expires') ?Q s'"
      if "policy_loaded L (set es) a ref p" for p expires'
      using start[of "EvNow t0 # EvNow t # es" p li t expires'] 1 \<open>locked = Inr li\<close> that
        \<open>actionEvidenceCurrent (di_Status li) t\<close>
        policy_loaded_mono[of L "set es" a ref p "set (EvNow t0 # EvNow t # es)"]
        \<open>om_UID (di_Meta li) = om_UID (di_Meta i)\<close> \<open>is_Phase (di_Status li) = IncidentPhaseActive\<close>
        \<open>is_ActivePolicyRef (di_Status li) = Some ref\<close>
        \<open>findAction (is_RecommendedActions (di_Status li)) (rs_ActionID (ra_Spec a)) = Some act\<close>
      by auto
    then show ?case using 1 by (intro wp_intro) auto
  qed
  show ?thesis
    unfolding revalidate_def option.case
    by (intro wp_intro load) auto
qed

subsection \<open>The attempt\<close>

lemma emits_after_failure [emits_intro]: "emits quiet (after_failure L E r a err expires)"
  unfolding after_failure_def by (intro emits_intro) auto

lemma after_failure_result:
  "wp (after_failure L E r a err expires) (\<lambda>x s'. \<exists>es. s' = s @ es \<and> list_all quiet es \<and> x \<noteq> Panicked) s"
  unfolding after_failure_def finish_result_def Let_def by (intro wp_intro) (auto split: option.splits)

lemma wp_case_exec_err:
  "(\<And>t. x = TerminalError t \<Longrightarrow> wp (m t) Q s) \<Longrightarrow> (\<And>e. x = PlainError e \<Longrightarrow> wp (n e) Q s) \<Longrightarrow>
   wp (case x of TerminalError t \<Rightarrow> m t | PlainError e \<Rightarrow> n e) Q s"
  by (cases x) auto

lemma settle_attempt_ok:
  "wp (settle_attempt L E r a act expires answer)
     (\<lambda>x s'. \<exists>es. s' = s @ es \<and> list_all quiet es \<and> x \<noteq> Panicked) s"
    (is "wp _ ?Q s")
proof -
  have retry: "wp (after_failure L E r a err expires) ?Q (((s @ [e1]) @ es) @ [e2])"
    if "list_all quiet es" "quiet e1" "quiet e2" for err es e1 e2
    by (rule wp_mono[OF after_failure_result]) (use that in auto)
  show ?thesis
    unfolding settle_attempt_def Let_def by (intro wp_intro wp_case_exec_err retry) auto
qed

lemma attempt_section_ok:
  "wp (attempt_section L E r a act it p expires)
     (\<lambda>x s'. \<exists>es. s' = s @ es \<and> x \<noteq> Panicked
        \<and> one_mutation (\<lambda>pre. fresh_target act it p (rs_DryRun (ra_Spec a)) (set pre)) es) s"
    (is "wp _ ?Q s")
  unfolding attempt_section_def
proof (rule wp_bind, rule wp_mono[OF execute_ok], elim exE conjE, goal_cases)
  case (1 x s' es)
  have "wp (settle_attempt L E r a act expires answer) ?Q s'" for answer
    by (rule wp_mono[OF settle_attempt_ok])
      (use 1 in \<open>auto intro!: one_mutation_suffix quiet_no_mutation\<close>)
  then show ?case using 1 by (intro wp_intro) auto
qed

lemma emits_verifySatisfied [emits_intro]: "emits quiet (verifySatisfied E act dryRun)"
  unfolding verifySatisfied_def by (intro emits_intro; simp)

lemma verifySatisfied_ok:
  "wp (verifySatisfied E act dryRun) (\<lambda>x s'. \<exists>es. s' = s @ es \<and> list_all quiet es \<and> x \<noteq> None) s"
proof (cases dryRun)
  case False
  show ?thesis
    unfolding verifySatisfied_def if_not_P[OF False]
    by (rule wp_bind, rule wp_mono[OF getCurrent_ok], elim exE conjE, intro wp_intro)
      (auto simp: read_ok_def split: option.splits)
qed (auto simp: verifySatisfied_def intro!: wp_intro)

lemma replay_section_ok:
  "wp (replay_section L E a i act locked) (\<lambda>x s'. \<exists>es. s' = s @ es \<and> list_all quiet es \<and> x \<noteq> Panicked) s"
    (is "wp _ ?Q s")
proof -
  have verify: "wp (verifySatisfied E act dryRun) (\<lambda>v. wp (case v of
         None \<Rightarrow> State_Monad.return Panicked
       | Some (attempt, outcome, satisfied, err) \<Rightarrow> rest attempt outcome satisfied err) ?Q) s"
    if "\<And>attempt outcome satisfied err es. list_all quiet es \<Longrightarrow> wp (rest attempt outcome satisfied err) ?Q (s @ es)"
    for rest dryRun
    by (rule wp_mono[OF verifySatisfied_ok], elim exE conjE, intro wp_intro) (auto intro!: that)
  show ?thesis
    unfolding replay_section_def by (intro wp_intro verify) auto
qed

definition under_lock ::
  "kube_lib \<Rightarrow> Reconciler \<Rightarrow> string \<Rightarrow> DeletionIncident \<Rightarrow> RemediationAction \<Rightarrow> PolicyReference option
     \<Rightarrow> event set \<Rightarrow> event \<Rightarrow> bool" where
  "under_lock L r request i act ref evs ev \<longleftrightarrow>
     (\<exists>a li policyRef p.
        ref = Some policyRef
        \<and> EvGetApproval request (Inr a) \<in> evs \<and> \<not> terminal (as_Phase (ra_Status a))
        \<and> EvGetIncident (oir_Name (rs_IncidentRef (ra_Spec a))) (Inr li) \<in> evs
        \<and> om_UID (di_Meta li) = om_UID (di_Meta i)
        \<and> cleared L r evs a li act policyRef p
        \<and> fresh_target act (ds_Target (di_Spec li)) p (rs_DryRun (ra_Spec a)) evs ev)"

lemma attempt_after_revalidate:
  assumes pre: "list_all quiet before" "EvGetApproval request (Inr a) \<in> set before" "\<not> terminal (as_Phase (ra_Status a))"
    "EvGetIncident (oir_Name (rs_IncidentRef (ra_Spec a))) locked \<in> set before"
  shows "wp (and_then (revalidate L E r a i act (Some ref) expires locked)
       (\<lambda>(act', it, p, expires). attempt_section L E r a act' it p expires))
     (\<lambda>x s'. \<exists>es. s' = s @ es \<and> x \<noteq> Panicked
        \<and> one_mutation (\<lambda>pre. under_lock L r request i act (Some ref) (set pre)) es) (s @ before)"
    (is "wp _ ?Q _")
proof (rule wp_and_then, rule wp_mono[OF revalidate_ok], elim exE conjE, goal_cases)
  case (1 x s' es)
  have quiet: "no_mutation (before @ es)" using 1(2) pre(1) by (intro quiet_no_mutation) simp
  have "wp (attempt_section L E r a act (ds_Target (di_Spec li)) p expires') ?Q s'"
    if li: "locked = Inr li" "om_UID (di_Meta li) = om_UID (di_Meta i)" "cleared L r (set es) a li act ref p"
    for li p expires'
  proof (rule wp_mono[OF attempt_section_ok], elim exE conjE)
    fix y s'' es'
    assume y: "s'' = s' @ es'" "y \<noteq> Panicked"
      "one_mutation (\<lambda>pre. fresh_target act (ds_Target (di_Spec li)) p (rs_DryRun (ra_Spec a)) (set pre)) es'"
    have "one_mutation (\<lambda>pre. under_lock L r request i act (Some ref) (set pre)) ((before @ es) @ es')"
    proof (rule one_mutation_prefix[OF y(3) quiet])
      fix pre ev
      assume "fresh_target act (ds_Target (di_Spec li)) p (rs_DryRun (ra_Spec a)) (set pre) ev"
      then have "fresh_target act (ds_Target (di_Spec li)) p (rs_DryRun (ra_Spec a)) (set ((before @ es) @ pre)) ev"
        by (rule fresh_target_mono) auto
      moreover have "cleared L r (set ((before @ es) @ pre)) a li act ref p" by (rule cleared_mono[OF li(3)]) auto
      ultimately show "under_lock L r request i act (Some ref) (set ((before @ es) @ pre)) ev"
        unfolding under_lock_def using pre li(1,2) by (intro exI conjI) auto
    qed
    then show "?Q y s''" using y 1(1) by (intro exI[where x = "(before @ es) @ es'"]) simp
  qed
  moreover have "one_mutation A (before @ es)" for A by (rule one_mutation_none[OF quiet])
  ultimately show ?case using 1 by (auto split: sum.splits)
qed

lemma locked_section_ok:
  assumes "\<not> replay \<Longrightarrow> ref \<noteq> None"
  shows "wp (locked_section L E r request i act replay ref expires)
     (\<lambda>x s'. \<exists>es. s' = s @ es \<and> x \<noteq> Panicked
        \<and> one_mutation (\<lambda>pre ev. \<not> replay \<and> under_lock L r request i act ref (set pre) ev) es) s"
    (is "wp _ ?Q s")
proof (cases replay)
  case True
  have replay: "wp (replay_section L E a i act locked) ?Q ((s @ [e1]) @ [e2])"
    if "quiet e1" "quiet e2" for a locked e1 e2
    by (rule wp_mono[OF replay_section_ok], elim exE conjE)
      (use that in \<open>auto intro!: one_mutation_none quiet_no_mutation simp: quiet_not_mutation\<close>)
  show ?thesis
    unfolding locked_section_def if_P[OF True]
    by (intro wp_intro replay) (auto intro!: one_mutation_none simp: ignore_not_found_def)
next
  case False
  then obtain policyRef where ref: "ref = Some policyRef" using assms by auto
  have attempt: "wp (and_then (revalidate L E r a i act (Some policyRef) expires locked)
       (\<lambda>(act', it, p, expires). attempt_section L E r a act' it p expires)) ?Q
      ((s @ [EvGetApproval request answer]) @ [EvGetIncident (oir_Name (rs_IncidentRef (ra_Spec a))) locked])"
    if "\<not> terminal (as_Phase (ra_Status a))" "answer = Inr a" for a answer locked
    using attempt_after_revalidate[where s = s and a = a and request = request and locked = locked
        and before = "[EvGetApproval request (Inr a), EvGetIncident (oir_Name (rs_IncidentRef (ra_Spec a))) locked]"]
      that False ref by simp
  show ?thesis
    unfolding locked_section_def if_not_P[OF False] unfolding ref
    by (intro wp_intro attempt[unfolded ref]) (auto intro!: one_mutation_none simp: ignore_not_found_def)
qed

subsection \<open>The whole reconciliation\<close>

text \<open>
  What the log of a run says before a mutation: the first validation, the lock of the target, and the
  second validation, with nothing that unlocks in between.
\<close>

definition warranted :: "kube_lib \<Rightarrow> Reconciler \<Rightarrow> string \<Rightarrow> event list \<Rightarrow> event \<Rightarrow> bool" where
  "warranted L r request pre ev \<longleftrightarrow>
     (\<exists>first second i act ref.
        pre = first @ EvLock (targetKey (a_Target act)) # second
        \<and> list_all quiet first
        \<and> admitted L request (set first) i act False ref
        \<and> under_lock L r request i act ref (set second) ev)"

text \<open>
  From each point of the reconciliation on: what the log says so far is enough for a run that never
  dereferences nil and whose only mutation, if any, is warranted.
\<close>

abbreviation warranted_run :: "kube_lib \<Rightarrow> Reconciler \<Rightarrow> string \<Rightarrow> event list \<Rightarrow> reconcile_result \<Rightarrow> event list \<Rightarrow> bool" where
  "warranted_run L r request s x s' \<equiv> (\<exists>es. s' = s @ es \<and> x \<noteq> Panicked \<and> one_mutation (warranted L r request) es)"

lemma warranted_stop: "list_all quiet es \<Longrightarrow> x \<noteq> Panicked \<Longrightarrow> warranted_run L r request s x (s @ es)"
  by (auto intro!: one_mutation_none quiet_no_mutation)

lemma with_lock_ok:
  assumes quiet: "list_all quiet es" and adm: "admitted L request (set es) i act replay ref"
  shows "wp (with_lock (targetKey (a_Target act)) (locked_section L E r request i act replay ref expires))
    (warranted_run L r request s) (s @ es)"
  unfolding with_lock_def
proof (intro wp_intro, rule wp_mono[OF locked_section_ok], goal_cases)
  case 1
  then show ?case using adm by (auto simp: admitted_def permitted_def)
next
  case (2 x s')
  let ?lock = "EvLock (targetKey (a_Target act))"
  obtain es' where es': "s' = ((s @ es) @ [?lock]) @ es'" "x \<noteq> Panicked"
      "one_mutation (\<lambda>pre ev. \<not> replay \<and> under_lock L r request i act ref (set pre) ev) es'" using 2 by auto
  have "one_mutation (warranted L r request) ((es @ [?lock]) @ es')"
  proof (rule one_mutation_prefix[OF es'(3)])
    show "no_mutation (es @ [?lock])" using quiet_no_mutation[OF quiet] by simp
    fix pre ev assume "\<not> replay \<and> under_lock L r request i act ref (set pre) ev"
    then show "warranted L r request ((es @ [?lock]) @ pre) ev"
      unfolding warranted_def using quiet adm by (intro exI[where x = es] exI[where x = pre]) auto
  qed
  then have "one_mutation (warranted L r request) (((es @ [?lock]) @ es') @ [EvUnlock k])" for k
    by (rule one_mutation_suffix) simp
  then show ?case using es' by (intro wp_intro) auto
qed

lemma validated_ok:
  assumes quiet: "list_all quiet es" and req: "requested request (set es) a i" "a_ID act = rs_ActionID (ra_Spec a)"
    "actionBelongsToIncident (Some act) (ds_Target (di_Spec i))"
    "\<not> replay \<longrightarrow> is_ActivePolicyRef (di_Status i) \<noteq> None"
  shows "wp (and_then (validate_policy L E a i act replay) (\<lambda>(ref, expires).
       with_lock (targetKey (a_Target act)) (locked_section L E r request i act replay ref expires)))
    (warranted_run L r request s) (s @ es)"
proof (rule wp_and_then, rule wp_mono[OF validate_policy_ok], goal_cases)
  case 1
  then show ?case using req(4) by simp
next
  case (2 x s')
  then obtain es' where es': "s' = s @ (es @ es')" "list_all quiet (es @ es')" "x \<noteq> Inl Panicked"
      "case x of Inl _ \<Rightarrow> True | Inr (ref, expires) \<Rightarrow> \<not> replay \<longrightarrow> permitted L (set es') a i act ref"
    using quiet by auto
  have "admitted L request (set (es @ es')) i act replay ref" if "x = Inr (ref, expires)" for ref expires
    unfolding admitted_def using req(1-3) es'(4) that
    by (auto intro!: exI[where x = a] intro: requested_mono permitted_mono)
  then show ?case
    unfolding es'(1) using es'(2,3) warranted_stop[OF es'(2)]
    by (auto split: sum.splits intro!: with_lock_ok)
qed

lemma chosen_ok:
  assumes quiet: "list_all quiet es" and req: "requested request (set es) a i"
  shows "wp (and_then (choose_action L E a i) (\<lambda>(act, replay).
       and_then (validate_policy L E a i act replay) (\<lambda>(ref, expires).
       with_lock (targetKey (a_Target act)) (locked_section L E r request i act replay ref expires))))
    (warranted_run L r request s) (s @ es)"
proof (rule wp_and_then, rule wp_mono[OF choose_action_ok], elim exE conjE, goal_cases)
  case (1 x s' es')
  then have es': "s' = s @ (es @ es')" "list_all quiet (es @ es')" using quiet by simp_all
  have "requested request (set (es @ es')) a i" by (rule requested_mono[OF req]) auto
  then show ?case
    unfolding es'(1) using es'(2) 1(3,4) warranted_stop[OF es'(2)]
    by (auto split: sum.splits intro!: validated_ok)
qed

lemma Reconcile_ok: "wp (Reconcile L E r request) (warranted_run L r request s) s"
  unfolding Reconcile_def
proof (rule wp_and_then, rule wp_mono[OF load_request_ok], elim exE conjE, goal_cases)
  case (1 x s' es)
  then show ?case
    using warranted_stop[OF 1(2)] by (auto split: sum.splits intro!: chosen_ok)
qed

end
