(* ===== verification/Executor_Safety.thy ===== *)
theory Executor_Safety
  imports Executor
begin

text \<open>
  The properties of the executor: what must have happened before a mutation is sent, how many are
  sent, what the patch does to the object, which statuses are written, and how retries are bounded;
  with a concrete environment whose run the witnesses evaluate.
\<close>

section \<open>A concrete run\<close>

definition sample_reference :: TargetReference where
  "sample_reference =
     \<lparr>tr_APIGroup = ''example.io'', tr_Version = ''v1'', tr_Resource = ''widgets'', tr_Kind = ''Widget'',
      tr_Namespace = ''default'', tr_Name = ''w'', tr_UID = ''u-1''\<rparr>"

definition sample_action :: RemediationAction where
  "sample_action =
     \<lparr>a_ID = ''act-1'', a_Type = ActionRemoveResourceFinalizer, a_Risk = RiskMedium, a_Target = sample_reference,
      a_Finalizer = ''example.io/cleanup'', a_Eligible = True, a_IneligibleReason = [],
      a_PreconditionResourceVersion = ''7'', a_Reason = ''stuck''\<rparr>"

definition sample_incident :: DeletionIncident where
  "sample_incident =
     \<lparr>di_Meta = zero_ObjectMeta\<lparr>om_Name := ''inc'', om_UID := ''i-1''\<rparr>,
      di_Spec = \<lparr>ds_Target = sample_reference, ds_FirstObservedTime = 0\<rparr>,
      di_Status = zero_DeletionIncidentStatus\<lparr>is_Phase := IncidentPhaseActive,
        is_ActivePolicyRef := Some \<lparr>pr_Name = ''widgets'', pr_UID = ''p-1'', pr_Generation = 3\<rparr>,
        is_ActionEvidenceTime := Some 0, is_ActionEvidenceExpiresTime := Some minute,
        is_RecommendedActions := [sample_action]\<rparr>\<rparr>"

definition sample_approval :: RemediationApproval where
  "sample_approval =
     \<lparr>ra_Meta = zero_ObjectMeta\<lparr>om_Name := ''ok'', om_UID := ''a-1'', om_Generation := 1,
        om_OwnerReferences := [\<lparr>or_APIVersion = ''safety.exitguard.io/v1alpha1'', or_Kind = ''DeletionIncident'',
          or_Name = ''inc'', or_UID = ''i-1''\<rparr>]\<rparr>,
      ra_Spec = \<lparr>rs_IncidentRef = \<lparr>oir_Name = ''inc'', oir_UID = ''i-1''\<rparr>, rs_ActionID = ''act-1'',
        rs_DryRun = False, rs_Reason = ''approved''\<rparr>,
      ra_Status = \<lparr>as_Phase = ApprovalPhasePending, as_Result = [], as_ObservedGeneration = 0, as_StartedTime = None,
        as_CompletedTime = None, as_Action = None, as_Attempts = [], as_Conditions = []\<rparr>\<rparr>"

definition sample_object :: Unstructured where
  "sample_object =
     \<lparr>obj_Name = ''w'', obj_Namespace = ''default'', obj_UID = ''u-1'', obj_ResourceVersion = ''7'',
      obj_Finalizers = [''keep'', ''example.io/cleanup''], obj_Labels = Map.empty,
      obj_DeletionTimestamp = Some 0, obj_DeletionGracePeriodSeconds = None,
      obj_SpecFinalizers = Inr None, obj_AsNamespace = Inl ''not a namespace'', obj_AsCRD = Inl ''not a CRD''\<rparr>"

definition sample_env :: env where
  "sample_env =
     \<lparr>env_Now = (\<lambda>log. if length log < 60 then second * int (length log) else 0), env_Snapshot = (\<lambda>_. sample_snapshot),
      env_GetApproval = (\<lambda>_ _. Inr sample_approval), env_GetIncident = (\<lambda>_ _. Inr sample_incident),
      env_GetPolicy = (\<lambda>_ _. Inr sample_policy), env_DynGet = (\<lambda>_ _ _ _. Inr sample_object),
      env_ListMeta = (\<lambda>_ _ _ _ _. Inr \<lparr>page_Items = [], page_Continue = []\<rparr>),
      env_PatchOwners = (\<lambda>_ _ _. None), env_StatusUpdate = (\<lambda>_ _. None),
      env_Patch = (\<lambda>_ _ _ _ _ _. Inr (sample_object\<lparr>obj_ResourceVersion := ''8'', obj_Finalizers := [''keep'']\<rparr>)),
      env_Finalize = (\<lambda>_ _ _. Inr ''8''), env_ConflictRetries = 3\<rparr>"

abbreviation sample_run :: "reconcile_result io" where
  "sample_run \<equiv> Reconcile sample_lib sample_env \<lparr>rec_maxAttempts = 3\<rparr> ''ok''"

section \<open>The patch\<close>

text \<open>
  RFC 6902 on the part of an object that the patches of the executor speak about: a \<open>test\<close> compares
  the value at its path, \<open>remove\<close> deletes the array element at its index; an operation that fails
  makes the whole patch fail.
\<close>

definition value_at :: "Unstructured \<Rightarrow> string \<Rightarrow> json option" where
  "value_at object path =
     (if path = ''/metadata/uid'' then Some (JStr (obj_UID object))
      else if path = ''/metadata/resourceVersion'' then Some (JStr (obj_ResourceVersion object))
      else if path = ''/metadata/finalizers'' then Some (JArr (map JStr (obj_Finalizers object)))
      else None)"

fun apply_op :: "patch_op \<Rightarrow> Unstructured \<Rightarrow> Unstructured option" where
  "apply_op (PatchTest path v) object = (if value_at object path = Some v then Some object else None)"
| "apply_op (PatchRemove path) object =
     (case find (\<lambda>i. path = ''/metadata/finalizers/'' @ itoa (int i)) [0..<length (obj_Finalizers object)] of
        None \<Rightarrow> None
      | Some i \<Rightarrow> Some (object\<lparr>obj_Finalizers := take i (obj_Finalizers object) @ drop (Suc i) (obj_Finalizers object)\<rparr>))"

fun apply_patch :: "patch_op list \<Rightarrow> Unstructured \<Rightarrow> Unstructured option" where
  "apply_patch [] object = Some object"
| "apply_patch (p # ps) object = Option.bind (apply_op p object) (apply_patch ps)"

lemma find_nat: "find (\<lambda>i. n = i) [0..<m] = (if n < m then Some n else None)"
proof (cases "n < m")
  case True
  then have "\<exists>i<length [0..<m]. n = [0..<m] ! i \<and> n = [0..<m] ! i \<and> (\<forall>j<i. n \<noteq> [0..<m] ! j)"
    by (intro exI[where x = n]) simp
  then show ?thesis using True by (simp only: find_Some_iff if_True)
qed (simp add: find_None_iff)

lemma find_index_path:
  "find (\<lambda>i. itoa (int n) = itoa (int i)) [0..<m] = (if n < m then Some n else None)"
proof -
  have "(\<lambda>i. itoa (int n) = itoa (int i)) = (\<lambda>i. n = i)" by (auto simp: fun_eq_iff dest: itoa_inj)
  then show ?thesis by (simp only: find_nat)
qed

lemma slices_Index_remove1:
  "slices_Index xs x = Some i \<Longrightarrow> take i xs @ drop (Suc i) xs = remove1 x xs"
  by (induction xs arbitrary: i) (auto split: if_splits)

lemma map_JStr_inj: "map JStr xs = map JStr ys \<longleftrightarrow> xs = ys"
  by (simp add: inj_map_eq_map inj_def)

text \<open>
  C35.  The patch built from an object and the position of a finalizer applies to an object exactly when
  that object has the same UID, the same resource version and the same finalizers; its effect is to
  remove the first occurrence of that finalizer and nothing else.
\<close>

theorem finalizer_patch_effect:
  assumes "slices_Index (obj_Finalizers current) finalizer = Some index"
  shows "apply_patch (finalizerPatch current index) object =
    (if obj_UID object = obj_UID current \<and> obj_ResourceVersion object = obj_ResourceVersion current
        \<and> obj_Finalizers object = obj_Finalizers current
     then Some (object\<lparr>obj_Finalizers := remove1 finalizer (obj_Finalizers object)\<rparr>) else None)"
proof -
  have idx: "index < length (obj_Finalizers current)"
    "take index (obj_Finalizers current) @ drop (Suc index) (obj_Finalizers current)
       = remove1 finalizer (obj_Finalizers current)"
    using assms by (auto simp: slices_Index_remove1 dest: slices_Index_Some)
  show ?thesis
    using idx by (auto simp: finalizerPatch_def value_at_def map_JStr_inj find_index_path)
qed

theorem finalizer_patch_effect_witness:
  "slices_Index (obj_Finalizers sample_object) ''example.io/cleanup'' = Some 1
   \<and> apply_patch (finalizerPatch sample_object 1) sample_object = Some (sample_object\<lparr>obj_Finalizers := [''keep'']\<rparr>)"
proof -
  have i: "slices_Index (obj_Finalizers sample_object) ''example.io/cleanup'' = Some 1"
    by (simp add: sample_object_def)
  show ?thesis using finalizer_patch_effect[OF i, of sample_object] i by (simp add: sample_object_def)
qed

section \<open>Helpers of the executor\<close>

definition no_NUL :: "TargetReference \<Rightarrow> bool" where
  "no_NUL t \<longleftrightarrow> list_all (\<lambda>x. CHR 0x00 \<notin> set x) [tr_APIGroup t, tr_Resource t, tr_Namespace t, tr_Name t, tr_UID t]"

text \<open>
  C38.  Lock keys identify targets: two references whose parts contain no NUL byte, as names in the
  Kubernetes API never do, have the same key exactly when they agree on group, resource, namespace,
  name and UID.
\<close>

theorem target_key_identity:
  assumes "no_NUL t" and "no_NUL u"
  shows "targetKey t = targetKey u \<longleftrightarrow> sameTargetIdentity t u"
proof -
  have "targetKey t = targetKey u \<longleftrightarrow>
     [tr_APIGroup t, tr_Resource t, tr_Namespace t, tr_Name t, tr_UID t]
       = [tr_APIGroup u, tr_Resource u, tr_Namespace u, tr_Name u, tr_UID u]"
    (is "_ \<longleftrightarrow> ?ts = ?us")
  proof
    assume "targetKey t = targetKey u"
    then show "?ts = ?us"
      unfolding targetKey_def by (rule strings_Join_inj) (use assms in \<open>simp_all add: no_NUL_def\<close>)
  qed (simp add: targetKey_def)
  then show ?thesis by (auto simp: sameTargetIdentity_def)
qed

theorem target_key_identity_witness:
  "no_NUL sample_reference \<and> targetKey sample_reference \<noteq> targetKey (sample_reference\<lparr>tr_UID := ''u-2''\<rparr>)"
proof -
  have n: "no_NUL sample_reference" "no_NUL (sample_reference\<lparr>tr_UID := ''u-2''\<rparr>)" by code_simp+
  show ?thesis using target_key_identity[OF n] n(1) by (simp add: sameTargetIdentity_def sample_reference_def)
qed

text \<open>
  The audit trail keeps the newest attempts: at most twenty, ending with the one just made, and
  what precedes it is the end of the old trail.
\<close>

theorem append_bounded_spec:
  "length (appendBounded attempts attempt) = min 20 (Suc (length attempts))
   \<and> (\<exists>kept dropped. appendBounded attempts attempt = kept @ [attempt] \<and> attempts = dropped @ kept)"
proof (cases "length attempts < 20")
  case True
  then show ?thesis by (simp add: appendBounded_def maxAuditAttempts_def)
next
  case False
  then have "appendBounded attempts attempt = drop (length attempts - 19) attempts @ [attempt]"
    by (simp add: appendBounded_def maxAuditAttempts_def)
  moreover have "attempts = take (length attempts - 19) attempts @ drop (length attempts - 19) attempts" by simp
  ultimately show ?thesis using False
    by (intro conjI exI[where x = "drop (length attempts - 19) attempts"]
        exI[where x = "take (length attempts - 19) attempts"]) simp_all
qed

lemma encode_rune_small: "b \<in> set (encode_rune r) \<Longrightarrow> b < 0x20 \<Longrightarrow> r < 0x20"
  by (auto simp: encode_rune_def runeError_def split: if_splits)

text \<open>
  A sanitized text has at most the given number of bytes and no control character; it is the
  text of the remaining runes, in their order, cut at the limit, and sanitizing the text of the
  remaining runes gives the same.
\<close>

theorem sanitize_spec:
  "length (sanitize v n) \<le> n
   \<and> list_all (\<lambda>c. 0x20 \<le> (of_char c :: nat)) (sanitize v n)
   \<and> sanitize v n = take n (string_of_runes (filter (\<lambda>r. 0x20 \<le> r) (runes_of_string v)))
   \<and> sanitize (string_of_runes (filter (\<lambda>r. 0x20 \<le> r) (runes_of_string v))) n = sanitize v n"
proof (intro conjI)
  show "length (sanitize v n) \<le> n" by (simp add: sanitize_def Let_def)
  let ?kept = "strings_Map_keep (\<lambda>r. \<not> (r < 0x20 \<and> r \<noteq> 0x20)) v"
  have "0x20 \<le> (of_char c :: nat)" if c: "c \<in> set ?kept" for c
  proof (rule ccontr)
    assume small: "\<not> 0x20 \<le> (of_char c :: nat)"
    obtain r b where rb: "r \<in> set (runes_of_string v)" "\<not> (r < 0x20 \<and> r \<noteq> 0x20)" "b \<in> set (encode_rune r)" "c = char_of b"
      using c by (auto simp: strings_Map_keep_def string_of_runes_def of_bytes_def)
    have "b < 256" using encode_rune_bound[of r] rb(3) by (simp add: list_all_iff)
    then have "b < 0x20" using small rb(4) by simp
    then have "r < 0x20" using encode_rune_small rb(3) by blast
    then show False using rb(2) by simp
  qed
  then show "list_all (\<lambda>c. 0x20 \<le> (of_char c :: nat)) (sanitize v n)"
    by (auto simp: sanitize_def Let_def list_all_iff dest: in_set_takeD)
  have keep: "(\<lambda>r. \<not> (r < 0x20 \<and> r \<noteq> 0x20)) = (\<lambda>r::rune. 0x20 \<le> r)" by (auto simp: fun_eq_iff)
  show "sanitize v n = take n (string_of_runes (filter (\<lambda>r. 0x20 \<le> r) (runes_of_string v)))" for v
    unfolding sanitize_def strings_Map_keep_def keep Let_def by simp
  then show "sanitize (string_of_runes (filter (\<lambda>r. 0x20 \<le> r) (runes_of_string v))) n = sanitize v n"
    by (simp add: runes_of_string_of_runes runes_filter_valid)
qed

section \<open>Mutations\<close>

text \<open>
  C1.  Every mutation a reconciliation sends, dry runs included, is warranted by what the same run has
  read before, in this order: the approval is not terminal and its incident has the referenced UID;
  the action is the approved one, belongs to the incident target, is marked eligible and carries the
  risk of its type; the referenced policy, at the recorded UID and generation, is ready, allows the
  action, and the approval has not outlived the policy's TTL; then the lock of the action's target is
  taken; under it the approval is read again and is not terminal, the incident has the same UID, is
  active under the same policy reference, has evidence that is not expired, and still recommends
  exactly this action; the policy is read, compiled and timed again; attempts are left; the approval
  is recorded as running with an action snapshot; the target has the approved UID and resource
  version, the policy still selects the incident target; and the request sent is the one that the
  action stands for, with the dry-run flag of the approval.
\<close>

theorem mutation_warranted:
  assumes "added (Reconcile L E r request) log = pre @ ev # post" and "is_mutation ev"
  shows "warranted L r request pre ev"
proof -
  have "one_mutation (warranted L r request) (added (Reconcile L E r request) log)"
    by (rule added_wp, rule wp_mono[OF Reconcile_ok]) blast
  then show ?thesis using assms by (simp add: one_mutation_at)
qed

text \<open>
  C3.  A reconciliation sends at most one mutation, whatever the API answers and however often status
  writes are repeated, and it never dereferences a nil pointer.
\<close>

theorem reconcile_single_mutation:
  "length (filter is_mutation (added (Reconcile L E r request) log)) \<le> 1
   \<and> fst (run_state (Reconcile L E r request) log) \<noteq> Panicked"
proof
  have "one_mutation (warranted L r request) (added (Reconcile L E r request) log)"
    by (rule added_wp, rule wp_mono[OF Reconcile_ok]) blast
  then show "length (filter is_mutation (added (Reconcile L E r request) log)) \<le> 1" by (rule one_mutation_count)
  show "fst (run_state (Reconcile L E r request) log) \<noteq> Panicked"
    using Reconcile_ok[of L E r request log] by (auto simp: wp_def)
qed

text \<open>
  A terminal approval is left alone: one read, no write, no mutation, no requeue.
\<close>

theorem terminal_approval_untouched:
  assumes "env_GetApproval E log request = Inr a" and "terminal (as_Phase (ra_Status a))"
  shows "run_state (Reconcile L E r request) log = (Done 0, log @ [EvGetApproval request (Inr a)])"
  using assms by (simp add: Reconcile_def and_then_def load_request_def get_approval_def)

theorem terminal_approval_untouched_witness:
  "terminal ApprovalPhaseExpired
   \<and> run_state (Reconcile sample_lib
        (sample_env\<lparr>env_GetApproval := (\<lambda>_ _. Inr (sample_approval\<lparr>ra_Status := (ra_Status sample_approval)\<lparr>as_Phase := ApprovalPhaseExpired\<rparr>\<rparr>))\<rparr>)
        \<lparr>rec_maxAttempts = 3\<rparr> ''ok'') []
      = (Done 0, [EvGetApproval ''ok'' (Inr (sample_approval\<lparr>ra_Status := (ra_Status sample_approval)\<lparr>as_Phase := ApprovalPhaseExpired\<rparr>\<rparr>))])"
proof -
  have t: "terminal ApprovalPhaseExpired" by (simp add: terminal_def)
  show ?thesis by (rule conjI[OF t], subst terminal_approval_untouched) (simp_all add: t)
qed
section \<open>An approved action is carried out\<close>

text \<open>
  The rules above quantify over all answers; here the answers are known, so \<open>wp\<close> is computed
  exactly.
\<close>

lemma wp_exact:
  "wp (State_Monad.return x) Q s = Q x s"
  "wp (State_Monad.bind m f) R s = wp m (\<lambda>x. wp (f x) R) s"
  "wp (note_event e) Qu s = Qu () (s @ [e])"
  "wp (call_now E) Qt s = Qt (env_Now E s) (s @ [EvNow (env_Now E s)])"
  "wp (call_snapshot E) Qc s = Qc (env_Snapshot E s) (s @ [EvSnapshot (env_Snapshot E s)])"
  "wp (get_approval E n) Qa s = Qa (env_GetApproval E s n) (s @ [EvGetApproval n (env_GetApproval E s n)])"
  "wp (get_incident E n) Qi s = Qi (env_GetIncident E s n) (s @ [EvGetIncident n (env_GetIncident E s n)])"
  "wp (get_policy E n) Qp s = Qp (env_GetPolicy E s n) (s @ [EvGetPolicy n (env_GetPolicy E s n)])"
  "wp (dyn_get E g ns n) Qd s = Qd (env_DynGet E s g ns n) (s @ [EvDynGet g ns n (env_DynGet E s g ns n)])"
  "wp (status_update E a) Qe s = Qe (env_StatusUpdate E s a) (s @ [EvStatusUpdate a (env_StatusUpdate E s a)])"
  "wp (dyn_patch E g ns n ops dry) Qd s
     = Qd (env_Patch E s g ns n ops dry) (s @ [EvPatch g ns n ops dry (env_Patch E s g ns n ops dry)])"
  by (simp_all add: wp_def call_defs split: prod.splits)

text \<open>
  The API server as the store of one approval.  A successful update of its status is what later reads return, with
  the times cut to the second, as they are written in JSON, and with a new resource version.
\<close>

definition stored_time :: "time \<Rightarrow> time" where
  "stored_time t = t div second * second"

definition stored_status :: "RemediationApprovalStatus \<Rightarrow> RemediationApprovalStatus" where
  "stored_status st = st\<lparr>as_StartedTime := map_option stored_time (as_StartedTime st),
     as_CompletedTime := map_option stored_time (as_CompletedTime st),
     as_Attempts := map (\<lambda>t. t\<lparr>at_Time := stored_time (at_Time t)\<rparr>) (as_Attempts st),
     as_Conditions := map (\<lambda>c. c\<lparr>cond_LastTransitionTime := stored_time (cond_LastTransitionTime c)\<rparr>) (as_Conditions st)\<rparr>"

fun serve :: "(string \<Rightarrow> string) \<Rightarrow> string \<Rightarrow> RemediationApproval \<Rightarrow> event \<Rightarrow> RemediationApproval" where
  "serve bump name a (EvStatusUpdate b None) =
     (if om_Name (ra_Meta b) = name
      then a\<lparr>ra_Meta := (ra_Meta a)\<lparr>om_ResourceVersion := bump (om_ResourceVersion (ra_Meta a))\<rparr>, ra_Status := stored_status (ra_Status b)\<rparr>
      else a)"
| "serve bump name a _ = a"

text \<open>Calls after which the target is as it was: all but a patch that was applied.\<close>

fun unapplied :: "event \<Rightarrow> bool" where
  "unapplied (EvPatch _ _ _ _ dry (Inr _)) = dry"
| "unapplied _ = True"

text \<open>
  A cluster in which nobody else interferes while a reconciliation makes its calls, of which there are fewer than
  \<open>run_calls\<close>: from the log at its start on, the server stores the approval, the incident, the policy and the
  catalog stay as they are, status updates succeed and the clock stays before \<open>deadline\<close>.
\<close>

definition run_calls :: nat where "run_calls = 64"

definition steady ::
  "env \<Rightarrow> event list \<Rightarrow> (string \<Rightarrow> string) \<Rightarrow> string \<Rightarrow> RemediationApproval \<Rightarrow> DeletionIncident \<Rightarrow> PolicyReference
     \<Rightarrow> TerminationPolicy \<Rightarrow> Snapshot \<Rightarrow> time \<Rightarrow> bool" where
  "steady E log bump request a i ref source snapshot deadline \<longleftrightarrow>
     (\<forall>es. length es \<le> run_calls \<longrightarrow>
        env_GetApproval E (log @ es) request = Inr (foldl (serve bump request) a es)
        \<and> env_GetIncident E (log @ es) (oir_Name (rs_IncidentRef (ra_Spec a))) = Inr i
        \<and> env_GetPolicy E (log @ es) (pr_Name ref) = Inr source
        \<and> env_Snapshot E (log @ es) = snapshot
        \<and> env_Now E (log @ es) < deadline
        \<and> (\<forall>x. env_StatusUpdate E (log @ es) x = None))"

abbreviation target_version :: "RemediationAction \<Rightarrow> Resource \<Rightarrow> GroupVersionResource" where
  "target_version act resource \<equiv>
     WithVersion (target_gr (a_Target act)) (v_Version (hd (OrderedVersions resource (tr_Version (a_Target act)))))"

text \<open>As long as no patch was applied, the target is read as \<open>object\<close>, and the server accepts the patch.\<close>

definition steady_target ::
  "env \<Rightarrow> event list \<Rightarrow> RemediationAction \<Rightarrow> Resource \<Rightarrow> Unstructured \<Rightarrow> Unstructured \<Rightarrow> nat \<Rightarrow> bool \<Rightarrow> Unstructured \<Rightarrow> bool" where
  "steady_target E log act resource object namespace index dry updated \<longleftrightarrow>
     (\<forall>es. list_all unapplied es \<longrightarrow>
        env_DynGet E (log @ es) (target_version act resource) (tr_Namespace (a_Target act)) (tr_Name (a_Target act)) = Inr object
        \<and> env_DynGet E (log @ es) \<lparr>gvr_Group = [], gvr_Version = ''v1'', gvr_Resource = ''namespaces''\<rparr> [] (tr_Namespace (a_Target act))
            = Inr namespace
        \<and> env_Patch E (log @ es) (target_version act resource) (tr_Namespace (a_Target act)) (tr_Name (a_Target act))
            (finalizerPatch object index) dry = Inr updated)"

text \<open>A fresh approval of an action its incident recommends.\<close>

definition fresh_approval :: "string \<Rightarrow> RemediationApproval \<Rightarrow> DeletionIncident \<Rightarrow> RemediationAction \<Rightarrow> bool" where
  "fresh_approval request a i act \<longleftrightarrow>
     om_Name (ra_Meta a) = request \<and> as_Phase (ra_Status a) \<in> {[], ApprovalPhasePending} \<and> as_Action (ra_Status a) = None
     \<and> as_Attempts (ra_Status a) = []
     \<and> om_UID (di_Meta i) = oir_UID (rs_IncidentRef (ra_Spec a))
     \<and> list_ex (\<lambda>ow. or_UID ow = oir_UID (rs_IncidentRef (ra_Spec a))) (om_OwnerReferences (ra_Meta a))
     \<and> findAction (is_RecommendedActions (di_Status i)) (rs_ActionID (ra_Spec a)) = Some act
     \<and> ds_Target (di_Spec i) = a_Target act
     \<and> is_Phase (di_Status i) = IncidentPhaseActive"

lemma fresh_not_terminal: "fresh_approval request a i act \<Longrightarrow> \<not> terminal (as_Phase (ra_Status a))"
  by (auto simp: fresh_approval_def terminal_def go_enum)

definition valid_until :: "RemediationApproval \<Rightarrow> DeletionIncident \<Rightarrow> CompiledPolicy \<Rightarrow> time \<Rightarrow> bool" where
  "valid_until a i q deadline \<longleftrightarrow>
     deadline \<le> om_CreationTimestamp (ra_Meta a) + set_ApprovalTTL (cp_settings q)
     \<and> (case (is_ActionEvidenceTime (di_Status i), is_ActionEvidenceExpiresTime (di_Status i)) of
          (Some evidence, Some expires) \<Rightarrow> evidence \<le> expires \<and> deadline \<le> expires
        | _ \<Rightarrow> False)"

text \<open>A point of the run: the calls so far, at most \<open>n\<close>, have left \<open>b\<close> with the server and the target as it was.\<close>

definition reached :: "(string \<Rightarrow> string) \<Rightarrow> string \<Rightarrow> RemediationApproval \<Rightarrow> nat \<Rightarrow> event list \<Rightarrow> RemediationApproval \<Rightarrow> bool" where
  "reached bump request a n es b \<longleftrightarrow> foldl (serve bump request) a es = b \<and> list_all unapplied es \<and> length es \<le> n"

lemma steadyD:
  assumes "steady E log bump request a i ref source snapshot deadline" and "length es \<le> run_calls"
  shows "env_GetApproval E (log @ es) request = Inr (foldl (serve bump request) a es)"
    and "env_GetIncident E (log @ es) (oir_Name (rs_IncidentRef (ra_Spec a))) = Inr i"
    and "env_GetPolicy E (log @ es) (pr_Name ref) = Inr source" and "env_Snapshot E (log @ es) = snapshot"
    and "env_Now E (log @ es) < deadline" and "env_StatusUpdate E (log @ es) x = None"
  using assms unfolding steady_def by blast+

lemma wp_retry_known:
  assumes "wp fn (\<lambda>x s'. x = None \<and> Q None s') s"
  shows "wp (RetryOnConflict E fn) Q s"
proof (cases "env_ConflictRetries E")
  case 0
  then show ?thesis using assms by (auto simp: RetryOnConflict_def elim: wp_mono)
next
  case (Suc n)
  then show ?thesis
    using assms by (auto simp: RetryOnConflict_def intro!: wp_bind elim!: wp_mono simp: wp_exact)
qed

subsection \<open>Statuses of different phases\<close>

text \<open>The JSON of a status begins with its phase, so two statuses of different phases are never taken for equal.\<close>

lemma json_object_Cons:
  "\<exists>rest. json_text (JObj ((k, v) # fs)) = CHR ''{'' # json_string k @ CHR '':'' # json_text v @ rest"
  by (cases fs) auto

lemma status_text_phase:
  assumes "as_Phase st \<noteq> []"
  shows "\<exists>rest. json_text (RemediationApprovalStatus_json L st) = CHR ''{'' # json_string ''phase'' @ CHR '':'' # json_string (as_Phase st) @ rest"
proof -
  obtain fs where "RemediationApprovalStatus_json L st = JObj ((''phase'', JStr (as_Phase st)) # fs)"
    unfolding RemediationApprovalStatus_json_def if_not_P[OF assms] append_Cons by blast
  then show ?thesis using json_object_Cons[of "''phase''" "JStr (as_Phase st)" fs] by (simp only: json_text.simps(1))
qed

definition plain :: "string \<Rightarrow> bool" where
  "plain s \<longleftrightarrow> list_all (\<lambda>c. 0x40 < (of_char c :: nat) \<and> (of_char c :: nat) < 0x7F \<and> of_char c \<noteq> (0x5C :: nat)) s"

lemma json_string_plain: "plain s \<Longrightarrow> json_string s = CHR 0x22 # s @ [CHR 0x22]"
proof -
  assume "plain s"
  then have "concat (map json_rune (decode_all (byte_vals s))) = s"
    by (induction s) (simp_all add: plain_def byte_vals_def decode_rune_def json_rune_def runeError_def of_bytes_def Let_def)
  then show ?thesis by (simp add: json_string_def)
qed

lemma plain_texts:
  "plain ''phase''" "plain ''result''" "plain ''observedGeneration''" "plain ''startedTime''" "plain ''completedTime''" "plain ''action''"
  "plain ''attempts''" "plain ''conditions''" "plain ''Pending''" "plain ''Running''" "plain ''Succeeded''"
  "plain ''DryRunSucceeded''"
  by (simp_all add: plain_def)

lemmas phase_names = ApprovalPhasePending_def ApprovalPhaseRunning_def ApprovalPhaseSucceeded_def ApprovalPhaseDryRunSucceeded_def

lemmas key_texts = plain_texts[THEN json_string_plain]

lemma object_text_key:
  assumes "\<forall>k\<in>fst ` set fs. \<exists>c rest. json_string k = CHR 0x22 # c # rest \<and> c \<noteq> CHR ''p''"
  shows "json_text (JObj fs) \<noteq> CHR ''{'' # CHR 0x22 # CHR ''p'' # rest"
proof (cases fs)
  case (Cons f fs')
  obtain k v where f: "f = (k, v)" by (cases f)
  with Cons assms obtain c r where "json_string k = CHR 0x22 # c # r" "c \<noteq> CHR ''p''" by auto
  then show ?thesis using json_object_Cons[of k v fs'] Cons f by auto
qed simp

lemma status_text_no_phase:
  assumes "as_Phase st = []"
  shows "\<nexists>rest. json_text (RemediationApprovalStatus_json L st) = CHR ''{'' # CHR 0x22 # CHR ''p'' # rest"
  unfolding RemediationApprovalStatus_json_def not_ex
  by (intro allI object_text_key) (use assms in \<open>auto simp: key_texts split: if_splits option.splits\<close>)

lemma phases_differ:
  "as_Phase st \<in> {[], ApprovalPhasePending} \<Longrightarrow> as_Phase st' = ApprovalPhaseRunning \<Longrightarrow> \<not> statusesEqual L st st'"
  "as_Phase st = ApprovalPhaseRunning \<Longrightarrow> as_Phase st' \<in> {ApprovalPhaseSucceeded, ApprovalPhaseDryRunSucceeded} \<Longrightarrow> \<not> statusesEqual L st st'"
proof -
  have ne: "ApprovalPhasePending \<noteq> []" "ApprovalPhaseRunning \<noteq> []" "ApprovalPhaseSucceeded \<noteq> []" "ApprovalPhaseDryRunSucceeded \<noteq> []"
    by (simp_all add: go_enum)
  show "\<not> statusesEqual L st st'" if "as_Phase st \<in> {[], ApprovalPhasePending}" "as_Phase st' = ApprovalPhaseRunning"
    using that status_text_phase[of st L] status_text_phase[of st' L] status_text_no_phase[of st L] ne
    by (auto simp: statusesEqual_def key_texts phase_names)
  show "\<not> statusesEqual L st st'"
    if "as_Phase st = ApprovalPhaseRunning" "as_Phase st' \<in> {ApprovalPhaseSucceeded, ApprovalPhaseDryRunSucceeded}"
    using that status_text_phase[of st L] status_text_phase[of st' L] ne by (auto simp: statusesEqual_def key_texts phase_names)
qed

subsection \<open>The stages\<close>

text \<open>The stages, one by one: each reaches the next with the values it was given.\<close>

lemma steady_load_request:
  assumes st: "steady E log bump request a i ref source snapshot deadline" and fresh: "fresh_approval request a i act"
    and es: "reached bump request a n es a" "n + 3 \<le> run_calls"
    and Q: "\<And>es'. reached bump request a (n + 3) es' a \<Longrightarrow> Q (Inr (a, i)) (log @ es')"
  shows "wp (load_request L E request) Q (log @ es)"
proof -
  have owner: "wp (ensureOwnerReference L E request i) R (log @ es')"
    if "reached bump request a (n + 2) es' a" "\<And>es''. reached bump request a (n + 3) es'' a \<Longrightarrow> R None (log @ es'')" for R es'
    unfolding ensureOwnerReference_def
    by (rule wp_retry_known) (use fresh es(2) that in \<open>simp add: wp_exact steadyD[OF st] reached_def fresh_approval_def\<close>)
  show ?thesis
    unfolding load_request_def using fresh fresh_not_terminal[OF fresh] es
    by (simp add: wp_exact steadyD[OF st] reached_def fresh_approval_def)
      (intro owner, simp add: reached_def, simp add: wp_exact Q)
qed

lemma steady_evidence:
  assumes "steady E log bump request a i ref source snapshot deadline" and "valid_until a i q deadline" and "length es \<le> run_calls"
  shows "actionEvidenceCurrent (di_Status i) (env_Now E (log @ es))"
proof -
  have "env_Now E (log @ es) < deadline" by (rule steadyD(5)[OF assms(1,3)])
  then show ?thesis using assms(2)
    by (auto simp: valid_until_def actionEvidenceCurrent_def split: option.splits)
qed

lemma steady_choose_action:
  assumes st: "steady E log bump request a i ref source snapshot deadline" and fresh: "fresh_approval request a i act"
    and ref: "is_ActivePolicyRef (di_Status i) = Some ref" and valid: "valid_until a i q deadline"
    and es: "reached bump request a n es a" "n + 1 \<le> run_calls"
    and Q: "\<And>es'. reached bump request a (n + 1) es' a \<Longrightarrow> Q (Inr (act, False)) (log @ es')"
  shows "wp (choose_action L E a i) Q (log @ es)"
proof -
  have "a_ID act = rs_ActionID (ra_Spec a)"
    using fresh by (auto simp: fresh_approval_def findAction_def dest: find_Some_mem)
  then show ?thesis
    unfolding choose_action_def using fresh ref es steady_evidence[OF st valid]
    by (simp add: wp_exact fresh_approval_def actionBelongsToIncident_def sameTargetIdentity_def reached_def Q)
qed

definition current_policy ::
  "kube_lib \<Rightarrow> PolicyReference \<Rightarrow> TerminationPolicy \<Rightarrow> Snapshot \<Rightarrow> CompiledPolicy \<Rightarrow> bool" where
  "current_policy L ref source snapshot q \<longleftrightarrow>
     om_UID (tp_Meta source) = pr_UID ref \<and> om_Generation (tp_Meta source) = pr_Generation ref
     \<and> q = fst (Compile L (Some source) snapshot 0) \<and> cp_ready q"

lemma steady_load_policy:
  assumes st: "steady E log bump request a i ref source snapshot deadline" and policy: "current_policy L ref source snapshot q"
    and valid: "valid_until a i q deadline" and es: "reached bump request a n es a" "n + 4 \<le> run_calls"
    and Q: "\<And>es'. reached bump request a (n + 4) es' a \<Longrightarrow>
      Q (Inr (Some q, om_CreationTimestamp (ra_Meta a) + set_ApprovalTTL (cp_settings q))) (log @ es')"
  shows "wp (load_policy L E a ref m1 m2 m3) Q (log @ es)"
proof -
  have q: "fst (Compile L (Some source) snapshot t) = q" for t
    using policy Compile_time[of L "Some source" snapshot t 0] by (simp add: current_policy_def)
  have "env_Now E (log @ es') < om_CreationTimestamp (ra_Meta a) + set_ApprovalTTL (cp_settings q)" if "length es' \<le> run_calls" for es'
    using steadyD(5)[OF st that] valid by (auto simp: valid_until_def intro: less_le_trans)
  then show ?thesis
    unfolding load_policy_def Let_def using policy es
    by (simp add: wp_exact steadyD[OF st] current_policy_def q reached_def Q)
qed

lemma steady_validate_policy:
  assumes st: "steady E log bump request a i ref source snapshot deadline" and policy: "current_policy L ref source snapshot q"
    and valid: "valid_until a i q deadline" and ref: "is_ActivePolicyRef (di_Status i) = Some ref" and "a_Eligible act"
    and "fst (ActionEligibility (Some q) (a_Type act) (a_Finalizer act))"
    and "RiskFor (a_Type act) (a_Finalizer act) = a_Risk act"
    and es: "reached bump request a n es a" "n + 4 \<le> run_calls"
    and Q: "\<And>es'. reached bump request a (n + 4) es' a \<Longrightarrow>
      Q (Inr (Some ref, om_CreationTimestamp (ra_Meta a) + set_ApprovalTTL (cp_settings q))) (log @ es')"
  shows "wp (validate_policy L E a i act False) Q (log @ es)"
  unfolding validate_policy_def ref if_False option.case
  by (rule wp_bind, rule steady_load_policy[OF st policy valid es])
    (use assms(5-7) Q in \<open>simp add: wp_exact case_prod_beta\<close>)

text \<open>The approval once the run has recorded that it is running.\<close>

definition running_approval :: "RemediationApproval \<Rightarrow> RemediationAction \<Rightarrow> RemediationApproval \<Rightarrow> bool" where
  "running_approval a act b \<longleftrightarrow>
     om_Name (ra_Meta b) = om_Name (ra_Meta a) \<and> ra_Spec b = ra_Spec a
     \<and> as_Phase (ra_Status b) = ApprovalPhaseRunning \<and> as_Action (ra_Status b) = Some act"

lemma steady_markRunning:
  assumes st: "steady E log bump request a i ref source snapshot deadline" and fresh: "fresh_approval request a i act"
    and es: "reached bump request a n es a" "n + 4 \<le> run_calls"
    and Q: "\<And>es' b. reached bump request a (n + 4) es' b \<Longrightarrow> running_approval a act b \<Longrightarrow> Q None (log @ es')"
  shows "wp (markRunning L E a act) Q (log @ es)"
proof -
  have changed: "\<not> statusesEqual L (ra_Status a) (running_status act started now (ra_Status a) g)" for started now g
    using fresh by (intro phases_differ) (auto simp: fresh_approval_def running_status_def)
  have name: "om_Name (ra_Meta a) = request" and none: "as_Action (ra_Status a) = None" using fresh by (simp_all add: fresh_approval_def)
  have running: "running_approval a act (a\<lparr>ra_Meta := (ra_Meta a)\<lparr>om_ResourceVersion := v\<rparr>,
      ra_Status := stored_status (running_status act started now (ra_Status a) g)\<rparr>)" for v started now g
    by (simp add: running_approval_def running_status_def stored_status_def none)
  have "wp (State_Monad.bind (get_approval E request) (\<lambda>r. case r of Inl err \<Rightarrow> State_Monad.return (Some err)
      | Inr current \<Rightarrow> do { status \<leftarrow> (do { started \<leftarrow> (case as_StartedTime (ra_Status current) of
            None \<Rightarrow> call_now E | Some t \<Rightarrow> State_Monad.return t); now \<leftarrow> call_now E;
            State_Monad.return (running_status act started now (ra_Status current) (om_Generation (ra_Meta current))) });
          if statusesEqual L (ra_Status current) status then State_Monad.return None
          else status_update E (current\<lparr>ra_Status := status\<rparr>) })) (\<lambda>x s'. x = None \<and> Q None s') (log @ es)"
    using es
    by (cases "as_StartedTime (ra_Status a)")
      (auto simp: wp_exact steadyD[OF st] reached_def changed name running intro!: Q)
  then show ?thesis unfolding markRunning_def updateStatus_def name by (rule wp_retry_known)
qed

lemma steady_revalidate:
  assumes st: "steady E log bump request a i ref source snapshot deadline" and fresh: "fresh_approval request a i act"
    and policy: "current_policy L ref source snapshot q" and valid: "valid_until a i q deadline"
    and ref: "is_ActivePolicyRef (di_Status i) = Some ref" and limit: "0 < rec_maxAttempts r"
    and expires: "expires = om_CreationTimestamp (ra_Meta a) + set_ApprovalTTL (cp_settings q)"
    and es: "reached bump request a n es a" "n + 10 \<le> run_calls"
    and Q: "\<And>es' b. reached bump request a (n + 10) es' b \<Longrightarrow> running_approval a act b \<Longrightarrow>
      Q (Inr (act, a_Target act, Some q, expires)) (log @ es')"
  shows "wp (revalidate L E r a i act (Some ref) expires (Inr i)) Q (log @ es)"
proof -
  have time: "env_Now E (log @ es') < om_CreationTimestamp (ra_Meta a) + set_ApprovalTTL (cp_settings q)" if "length es' \<le> run_calls" for es'
    using steadyD(5)[OF st that] valid by (auto simp: valid_until_def intro: less_le_trans)
  have start: "wp (begin_attempt L E r a act (a_Target act) (Some q) expires) Q (log @ es')" if "reached bump request a (n + 6) es' a" for es'
  proof -
    have "wp (markRunning L E a act) (\<lambda>x. wp (case x of None \<Rightarrow> State_Monad.return (Inr (act, a_Target act, Some q, expires))
        | Some err \<Rightarrow> State_Monad.return (Inl (Failed err))) Q) (log @ es')"
      by (rule steady_markRunning[OF st fresh that]) (use es(2) Q in \<open>simp_all add: wp_exact add.assoc\<close>)
    then show ?thesis
      unfolding begin_attempt_def using fresh limit by (simp add: wp_exact fresh_approval_def)
  qed
  have evidence: "length es' \<le> run_calls \<Longrightarrow> actionEvidenceCurrent (di_Status i) (env_Now E (log @ es'))" for es'
    by (rule steady_evidence[OF st valid])
  show ?thesis
    unfolding revalidate_def using fresh ref time evidence es
    by (simp add: wp_exact fresh_approval_def expires reached_def)
      (rule steady_load_policy[OF st policy valid, where n = "n + 2"], simp_all add: reached_def start[unfolded expires])
qed

text \<open>The target is read, still selected by the policy, and patched.\<close>

lemma steady_execute:
  assumes st: "steady E log bump request a i ref source snapshot deadline"
    and target: "steady_target E log act resource object namespace index dry updated"
    and res: "Resolve snapshot (target_gr (a_Target act)) = Some resource"
    and uid: "obj_UID object = tr_UID (a_Target act)"
    and sel: "Match (Some q) (policy_target resource (a_Target act) object
        (if v_Namespaced (res_PreferredVersion resource) then obj_Labels namespace else Map.empty))"
    and type: "a_Type act = ActionRemoveResourceFinalizer"
    and idx: "slices_Index (obj_Finalizers object) (a_Finalizer act) = Some index"
    and version: "obj_ResourceVersion object = a_PreconditionResourceVersion act"
    and es: "reached bump request a n es b" "n + 5 \<le> run_calls"
    and Q: "\<And>es' attempt. foldl (serve bump request) a es' = b \<Longrightarrow> length es' \<le> n + 5
        \<Longrightarrow> EvPatch (target_version act resource) (tr_Namespace (a_Target act)) (tr_Name (a_Target act)) (finalizerPatch object index) dry
              (Inr updated) \<in> set es'
        \<Longrightarrow> Q (Some (attempt, mutated dry, None)) (log @ es')"
  shows "wp (execute E act (a_Target act) (Some q) dry) Q (log @ es)"
proof -
  let ?gvr = "target_version act resource"
  obtain v vs where vs: "OrderedVersions resource (tr_Version (a_Target act)) = v # vs"
    using OrderedVersions_nonempty[of resource "tr_Version (a_Target act)"] by (cases "OrderedVersions resource (tr_Version (a_Target act))") auto
  note t = target[unfolded steady_target_def, rule_format]
  have read: "wp (getCurrent E (a_Target act)) R (log @ es)"
    if "\<And>es'. reached bump request a (n + 2) es' b \<Longrightarrow> R (Some object, ?gvr, None) (log @ es')" for R
    unfolding getCurrent_def Let_def target_gr_def[symmetric]
    using es res that t[of "es @ _"] by (simp add: wp_exact steadyD[OF st] vs reached_def)
  have selected: "wp (currentPolicyMatches E object act (Some (a_Target act)) (Some q)) R (log @ es')"
    if "reached bump request a (n + 2) es' b" "\<And>es''. reached bump request a (n + 4) es'' b \<Longrightarrow> R (Some (Inr True)) (log @ es'')" for R es'
    unfolding currentPolicyMatches_def target_gr_def[symmetric] match_with_namespace_def
    using es(2) res sel that t[of "es' @ _"]
    by (cases "v_Namespaced (res_PreferredVersion resource)")
      (simp_all add: wp_exact steadyD[OF st] sameTargetIdentity_def reached_def)
  have patch: "wp (perform E act object ?gvr dry) R (log @ es')"
    if "reached bump request a (n + 4) es' b"
      "\<And>attempt. R (attempt, mutated dry, None) (log @ es' @ [EvPatch ?gvr (tr_Namespace (a_Target act)) (tr_Name (a_Target act))
          (finalizerPatch object index) dry (Inr updated)])" for R es'
    unfolding perform_def remove_finalizer_def Let_def
    using t[of es'] type idx version that by (simp add: wp_exact reached_def)
  have final: "wp (State_Monad.bind (perform E act object ?gvr dry) (\<lambda>answer. State_Monad.return (Some answer))) Q (log @ es')"
    if "reached bump request a (n + 4) es' b" for es'
    by (rule wp_bind, rule patch[OF that]) (use that in \<open>auto simp: wp_exact reached_def intro!: Q\<close>)
  have "wp (execute_read E act (a_Target act) (Some q) dry (Some object, ?gvr, None)) Q (log @ es')"
    if "reached bump request a (n + 2) es' b" for es'
    unfolding execute_read_def execute_matched_def prod.case option.case if_not_P[OF not_not[THEN iffD2, OF uid]]
    by (rule wp_bind, rule selected[OF that]) (simp add: final)
  then show ?thesis unfolding execute_def by (intro wp_bind read)
qed

text \<open>What the record of a success says.\<close>

definition succeeded :: "RemediationAction \<Rightarrow> bool \<Rightarrow> RemediationApprovalStatus \<Rightarrow> bool" where
  "succeeded act dry st \<longleftrightarrow>
     as_Phase st = (if dry then ApprovalPhaseDryRunSucceeded else ApprovalPhaseSucceeded)
     \<and> as_Result st = mutated dry \<and> as_CompletedTime st \<noteq> None \<and> as_Attempts st \<noteq> [] \<and> as_Action st = Some act"

lemma steady_settle:
  assumes st: "steady E log bump request a i ref source snapshot deadline" and name: "om_Name (ra_Meta a) = request"
    and b: "foldl (serve bump request) a es = b" "running_approval a act b" "length es + 5 \<le> run_calls"
    and Q: "\<And>es' c. EvStatusUpdate c None \<in> set es' \<Longrightarrow> om_Name (ra_Meta c) = request \<Longrightarrow> succeeded act (rs_DryRun (ra_Spec a)) (ra_Status c)
      \<Longrightarrow> set es \<subseteq> set es' \<Longrightarrow> Q (Done 0) (log @ es')"
  shows "wp (settle_attempt L E r a act expires (attempt, mutated (rs_DryRun (ra_Spec a)), None)) Q (log @ es)"
proof -
  let ?dry = "rs_DryRun (ra_Spec a)"
  let ?phase = "if ?dry then ApprovalPhaseDryRunSucceeded else ApprovalPhaseSucceeded"
  define final where "final t = ra_Status b\<lparr>as_Phase := ?phase, as_Result := mutated ?dry, as_ObservedGeneration := om_Generation (ra_Meta b),
      as_Attempts := appendBounded (as_Attempts (ra_Status b)) t, as_CompletedTime := Some (at_Time t),
      as_Conditions := [completed_condition ''Completed'' (mutated ?dry) ''approval execution completed'' (at_Time t) (om_Generation (ra_Meta b))]\<rparr>"
    for t
  have ok: "succeeded act ?dry (final t)" for t
    using b(2) by (simp add: succeeded_def final_def running_approval_def appendBounded_def maxAuditAttempts_def Let_def)
  have changed: "\<not> statusesEqual L (ra_Status b) (final t)" for t
    using b(2) by (intro phases_differ) (simp_all add: running_approval_def final_def)
  have bn: "om_Name (ra_Meta b) = request" using b(2) name by (simp add: running_approval_def)
  have rec: "wp (recordTerminalAttempt L E request t ?phase (mutated ?dry)) R (log @ es')"
    if "foldl (serve bump request) a es' = b" "length es' < run_calls"
      "\<And>ev. R None (log @ es' @ [ev, EvStatusUpdate (b\<lparr>ra_Status := final t\<rparr>) None])" for R es' t
    unfolding recordTerminalAttempt_def updateStatus_def
    by (rule wp_retry_known) (use that changed[of t] in \<open>simp add: wp_exact steadyD[OF st] final_def\<close>)
  show ?thesis
    unfolding settle_attempt_def Let_def name wp_exact prod.case option.case append_assoc
    by (rule rec) (use b(1,3) bn ok in \<open>auto simp: wp_exact intro!: Q\<close>)
qed

text \<open>What must hold of the action, the policy and the target for the action to be carried out.\<close>

definition executable_action ::
  "RemediationAction \<Rightarrow> CompiledPolicy \<Rightarrow> Snapshot \<Rightarrow> Resource \<Rightarrow> Unstructured \<Rightarrow> Unstructured \<Rightarrow> bool" where
  "executable_action act q snapshot resource object namespace \<longleftrightarrow>
     a_Type act = ActionRemoveResourceFinalizer \<and> a_Eligible act
     \<and> fst (ActionEligibility (Some q) (a_Type act) (a_Finalizer act))
     \<and> RiskFor (a_Type act) (a_Finalizer act) = a_Risk act
     \<and> Resolve snapshot (target_gr (a_Target act)) = Some resource
     \<and> obj_UID object = tr_UID (a_Target act)
     \<and> obj_ResourceVersion object = a_PreconditionResourceVersion act
     \<and> Match (Some q) (policy_target resource (a_Target act) object
          (if v_Namespaced (res_PreferredVersion resource) then obj_Labels namespace else Map.empty))"

text \<open>The work under the lock, and the whole run.\<close>

definition carried_out ::
  "string \<Rightarrow> RemediationApproval \<Rightarrow> RemediationAction \<Rightarrow> event \<Rightarrow> reconcile_result \<Rightarrow> event list \<Rightarrow> bool" where
  "carried_out request a act ev x es \<longleftrightarrow>
     x = Done 0 \<and> ev \<in> set es
     \<and> (\<exists>c. EvStatusUpdate c None \<in> set es \<and> om_Name (ra_Meta c) = request \<and> succeeded act (rs_DryRun (ra_Spec a)) (ra_Status c))"

lemma steady_locked_section:
  assumes st: "steady E log bump request a i ref source snapshot deadline"
    and target: "steady_target E log act resource object namespace index (rs_DryRun (ra_Spec a)) updated"
    and fresh: "fresh_approval request a i act" "is_ActivePolicyRef (di_Status i) = Some ref"
    and policy: "current_policy L ref source snapshot q" "valid_until a i q deadline"
    and action: "executable_action act q snapshot resource object namespace"
      "slices_Index (obj_Finalizers object) (a_Finalizer act) = Some index"
    and limit: "0 < rec_maxAttempts r" and expires: "expires = om_CreationTimestamp (ra_Meta a) + set_ApprovalTTL (cp_settings q)"
    and ev: "ev = EvPatch (target_version act resource) (tr_Namespace (a_Target act)) (tr_Name (a_Target act)) (finalizerPatch object index)
      (rs_DryRun (ra_Spec a)) (Inr updated)"
    and es: "reached bump request a 9 es a"
  shows "wp (locked_section L E r request i act False (Some ref) expires) (\<lambda>x s'. \<exists>es. s' = log @ es \<and> carried_out request a act ev x es) (log @ es)"
proof -
  let ?dry = "rs_DryRun (ra_Spec a)" and ?G = "\<lambda>x s'. \<exists>es. s' = log @ es \<and> carried_out request a act ev x es"
  note act = action(1)[unfolded executable_action_def]
  have settle: "wp (settle_attempt L E r a act expires (attempt, mutated ?dry, None)) ?G (log @ es)"
    if "foldl (serve bump request) a es = b" "running_approval a act b" "length es \<le> 26" "ev \<in> set es" for es b attempt
    by (rule steady_settle[OF st _ that(1,2)])
      (use fresh(1) that(3,4) in \<open>auto simp: fresh_approval_def carried_out_def run_calls_def\<close>)
  have attempt: "wp (attempt_section L E r a act (a_Target act) (Some q) expires) ?G (log @ es)"
    if "reached bump request a (11 + 10) es b" "running_approval a act b" for es b
    unfolding attempt_section_def
    by (rule wp_bind, rule steady_execute[OF st target _ _ _ _ action(2) _ that(1)])
      (use act settle[OF _ that(2)] in \<open>simp_all add: run_calls_def ev\<close>)
  have revalidated: "wp (and_then (revalidate L E r a i act (Some ref) expires (Inr i))
      (\<lambda>(act', it, policy, e). attempt_section L E r a act' it policy e)) ?G (log @ es)"
    if "reached bump request a 11 es a" for es
    by (rule wp_and_then, rule steady_revalidate[OF st fresh(1) policy fresh(2) limit expires that])
      (use attempt in \<open>simp_all add: run_calls_def\<close>)
  have "wp (and_then (revalidate L E r a i act (Some ref) expires (Inr i)) (\<lambda>(act', it, policy, e). attempt_section L E r a act' it policy e)) ?G
      (log @ es @ [EvGetApproval request (Inr a), EvGetIncident (oir_Name (rs_IncidentRef (ra_Spec a))) (Inr i)])"
    by (rule revalidated) (use es in \<open>simp add: reached_def\<close>)
  then show ?thesis
    unfolding locked_section_def using es fresh_not_terminal[OF fresh(1)]
    by (simp add: wp_exact steadyD[OF st] reached_def run_calls_def)
qed

lemma approved_action_run:
  assumes steady: "steady E log bump request a i ref source snapshot deadline"
      "steady_target E log act resource object namespace index (rs_DryRun (ra_Spec a)) updated"
    and fresh: "fresh_approval request a i act" "is_ActivePolicyRef (di_Status i) = Some ref"
    and policy: "current_policy L ref source snapshot q" "valid_until a i q deadline"
    and action: "executable_action act q snapshot resource object namespace"
      "slices_Index (obj_Finalizers object) (a_Finalizer act) = Some index"
    and limit: "0 < rec_maxAttempts r"
  shows "carried_out request a act (EvPatch (target_version act resource) (tr_Namespace (a_Target act)) (tr_Name (a_Target act))
      (finalizerPatch object index) (rs_DryRun (ra_Spec a)) (Inr updated))
    (fst (run_state (Reconcile L E r request) log)) (added (Reconcile L E r request) log)"
proof -
  let ?ev = "EvPatch (target_version act resource) (tr_Namespace (a_Target act)) (tr_Name (a_Target act)) (finalizerPatch object index)
    (rs_DryRun (ra_Spec a)) (Inr updated)"
  let ?G = "\<lambda>x s'. \<exists>es. s' = log @ es \<and> carried_out request a act ?ev x es"
  have act: "a_Eligible act" "fst (ActionEligibility (Some q) (a_Type act) (a_Finalizer act))"
    "RiskFor (a_Type act) (a_Finalizer act) = a_Risk act"
    using action(1) unfolding executable_action_def by blast+
  have unlock: "?G x s' \<Longrightarrow> ?G x (s' @ [e])" for x s' e
    unfolding carried_out_def by fastforce
  have locked: "wp (with_lock key (locked_section L E r request i act False (Some ref)
      (om_CreationTimestamp (ra_Meta a) + set_ApprovalTTL (cp_settings q)))) ?G (log @ es)"
    if "reached bump request a (3 + 1 + 4) es a" for es key
  proof -
    have "reached bump request a 9 (es @ [EvLock key]) a" using that by (simp add: reached_def)
    from steady_locked_section[OF steady fresh policy action limit refl refl this] show ?thesis
      unfolding with_lock_def wp_exact append_assoc by (rule wp_mono) (rule unlock)
  qed
  have validated: "wp (and_then (validate_policy L E a i act False) (\<lambda>(policyRef, expires).
      with_lock key (locked_section L E r request i act False policyRef expires))) ?G (log @ es)"
    if "reached bump request a (3 + 1) es a" for es key
    by (rule wp_and_then, rule steady_validate_policy[OF steady(1) policy fresh(2) act that])
      (simp_all add: run_calls_def locked)
  have chosen: "wp (and_then (choose_action L E a i) (\<lambda>(action, replay).
      and_then (validate_policy L E a i action replay) (\<lambda>(policyRef, expires).
        with_lock (targetKey (a_Target action)) (locked_section L E r request i action replay policyRef expires)))) ?G (log @ es)"
    if "reached bump request a (0 + 3) es a" for es
    by (rule wp_and_then, rule steady_choose_action[OF steady(1) fresh policy(2) that])
      (use validated in \<open>simp_all add: run_calls_def\<close>)
  have "wp (Reconcile L E r request) ?G (log @ [])"
    unfolding Reconcile_def
    by (rule wp_and_then, rule steady_load_request[OF steady(1) fresh(1), where n = 0])
      (use chosen in \<open>simp_all add: run_calls_def reached_def\<close>)
  then show ?thesis by (auto simp: wp_def added_def)
qed


definition sample_resource :: Resource where
  "sample_resource = newResourceOwned widgetsGR (sample_version ''v1'' ''Widget'' True) [sample_version ''v1beta1'' ''Widget'' True]"

definition sample_ref :: PolicyReference where
  "sample_ref = \<lparr>pr_Name = ''widgets'', pr_UID = ''p-1'', pr_Generation = 3\<rparr>"

abbreviation sample_q :: CompiledPolicy where
  "sample_q \<equiv> fst (Compile sample_lib (Some sample_policy) sample_snapshot 0)"

text \<open>
  The sample cluster with a server that stores: reads return the approval as last written, the target as
  last patched, and the clock advances with every call.
\<close>

abbreviation patched_object :: Unstructured where
  "patched_object \<equiv> sample_object\<lparr>obj_ResourceVersion := ''8'', obj_Finalizers := [''keep'']\<rparr>"

definition next_version :: "string \<Rightarrow> string" where
  "next_version v = v @ ''0''"

definition storing_env :: env where
  "storing_env = sample_env\<lparr>env_Now := \<lambda>log. second div 10 * int (length log),
     env_GetApproval := \<lambda>log _. Inr (foldl (serve next_version ''ok'') sample_approval log),
     env_DynGet := \<lambda>log _ _ _. Inr (if list_all unapplied log then sample_object else patched_object)\<rparr>"

abbreviation storing_run :: "reconcile_result io" where
  "storing_run \<equiv> Reconcile sample_lib storing_env \<lparr>rec_maxAttempts = 3\<rparr> ''ok''"

lemma storing_run_facts:
  "steady storing_env [] next_version ''ok'' sample_approval sample_incident sample_ref sample_policy sample_snapshot minute"
  "steady_target storing_env [] sample_action sample_resource sample_object sample_object 1 (rs_DryRun (ra_Spec sample_approval)) patched_object"
  "fresh_approval ''ok'' sample_approval sample_incident sample_action"
  "is_ActivePolicyRef (di_Status sample_incident) = Some sample_ref"
  "current_policy sample_lib sample_ref sample_policy sample_snapshot sample_q"
  "valid_until sample_approval sample_incident sample_q minute"
  "executable_action sample_action sample_q sample_snapshot sample_resource sample_object sample_object"
  "slices_Index (obj_Finalizers sample_object) (a_Finalizer sample_action) = Some 1"
proof -
  show "steady storing_env [] next_version ''ok'' sample_approval sample_incident sample_ref sample_policy sample_snapshot minute"
    by (auto simp: steady_def storing_env_def sample_env_def minute_def second_def run_calls_def)
  show "steady_target storing_env [] sample_action sample_resource sample_object sample_object 1 (rs_DryRun (ra_Spec sample_approval))
      patched_object"
    by (simp add: steady_target_def storing_env_def sample_env_def)
  show "fresh_approval ''ok'' sample_approval sample_incident sample_action" by code_simp
  show "is_ActivePolicyRef (di_Status sample_incident) = Some sample_ref" by code_simp
  have "cp_ready sample_q" by code_simp
  then show "current_policy sample_lib sample_ref sample_policy sample_snapshot sample_q"
    by (simp add: current_policy_def sample_ref_def sample_policy_def)
  show "valid_until sample_approval sample_incident sample_q minute" by code_simp
  show "executable_action sample_action sample_q sample_snapshot sample_resource sample_object sample_object" by code_simp
  show "slices_Index (obj_Finalizers sample_object) (a_Finalizer sample_action) = Some 1" by code_simp
qed

lemma sent_patch: "\<exists>g ns n ops dry ans. EvPatch g ns n ops dry ans \<in> set (added storing_run [])"
  using approved_action_run[OF storing_run_facts, of "\<lparr>rec_maxAttempts = 3\<rparr>"]
  by (simp only: Reconciler.simps zero_less_numeral True_implies_equals carried_out_def) blast


text \<open>The run of the storing sample sends a mutation, so the safety theorem applies to it.\<close>

theorem mutation_warranted_witness:
  "\<exists>pre ev post. added storing_run [] = pre @ ev # post \<and> is_mutation ev
     \<and> warranted sample_lib \<lparr>rec_maxAttempts = 3\<rparr> ''ok'' pre ev"
proof -
  have "EvPatch g ns n ops dry ans \<in> set es \<Longrightarrow> \<exists>pre ev post. es = pre @ ev # post \<and> is_mutation ev" for g ns n ops dry ans es
    by (metis split_list is_mutation.simps(1))
  then obtain pre ev post where *: "added storing_run [] = pre @ ev # post" "is_mutation ev"
    using sent_patch by blast
  then show ?thesis using mutation_warranted[OF *] by blast
qed

section \<open>Status writes and retries\<close>

text \<open>
  A write to the status of an approval moves it to Running or to a terminal phase, and a terminal
  phase comes with the time of completion and the one condition that reports it.
\<close>

fun good_write :: "event \<Rightarrow> bool" where
  "good_write (EvStatusUpdate a _) \<longleftrightarrow>
     as_Phase (ra_Status a) = ApprovalPhaseRunning
     \<or> terminal (as_Phase (ra_Status a)) \<and> as_CompletedTime (ra_Status a) \<noteq> None
        \<and> map cond_Type (as_Conditions (ra_Status a)) = [''Completed'']"
| "good_write _ = True"

definition good_status :: "RemediationApprovalStatus \<Rightarrow> bool" where
  "good_status st \<longleftrightarrow> as_Phase st = ApprovalPhaseRunning
     \<or> terminal (as_Phase st) \<and> as_CompletedTime st \<noteq> None \<and> map cond_Type (as_Conditions st) = [''Completed'']"

text \<open>A program whose result is known to satisfy a predicate.\<close>

lemma emits_bind_yields:
  assumes "emits P m" and "\<And>s. wp m (\<lambda>x _. R x) s" and "\<And>x. R x \<Longrightarrow> emits P (f x)"
  shows "emits P (State_Monad.bind m f)"
proof (rule emitsI)
  fix log
  obtain a log' where r: "run_state m log = (a, log')" by (cases "run_state m log")
  have "R a" using assms(2)[of log] r by (simp add: wp_def)
  obtain es where es: "log' = log @ es" "list_all P es" using assms(1) r by (auto elim: emitsD[where log = log])
  obtain es' where "snd (run_state (f a) log') = log' @ es'" "list_all P es'"
    using assms(3)[OF \<open>R a\<close>] by (auto elim: emitsD[where log = log'])
  then show "\<exists>es. snd (run_state (State_Monad.bind m f) log) = log @ es \<and> list_all P es"
    using es r by (intro exI[where x = "es @ es'"]) simp
qed

lemma good_updateStatus:
  assumes "\<And>st g. emits good_write (mutate st g)" and "\<And>st g s. wp (mutate st g) (\<lambda>x _. good_status x) s"
  shows "emits good_write (updateStatus L E name mutate)"
  unfolding updateStatus_def
  by (intro emits_intro emits_bind_yields[where R = good_status] assms) (auto simp: good_status_def)

lemma good_writers [emits_intro]:
  "terminal phase \<Longrightarrow> emits good_write (finishByName L E name phase result reason message)"
  "terminal phase \<Longrightarrow> emits good_write (recordTerminalAttempt L E name attempt phase result)"
  "emits good_write (recordRetryAttempt L E name attempt)"
  "emits good_write (markRunning L E a act)"
  unfolding finishByName_def recordTerminalAttempt_def recordRetryAttempt_def markRunning_def
  by (intro good_updateStatus emits_intro wp_intro;
      simp add: good_status_def completed_condition_def running_status_def)+

lemma good_finish [emits_intro]:
  "terminal phase \<Longrightarrow> emits good_write (finish L E a phase result reason message)"
  "emits good_write (ensureOwnerReference L E name i)"
  unfolding finish_def ensureOwnerReference_def by (intro emits_intro; simp)+

lemma terminal_phases [simp]:
  "terminal ApprovalPhaseSucceeded" "terminal ApprovalPhaseDryRunSucceeded" "terminal ApprovalPhaseFailed"
  "terminal ApprovalPhaseExpired" "terminal ApprovalPhaseSuperseded"
  by (simp_all add: terminal_def)

lemma emits_stop_with [emits_intro]: "emits P m \<Longrightarrow> emits P (stop_with m)"
  unfolding stop_with_def by (intro emits_intro)

lemma emits_and_then [emits_intro]: "emits P m \<Longrightarrow> (\<And>y. emits P (f y)) \<Longrightarrow> emits P (and_then m f)"
  unfolding and_then_def by (intro emits_intro)

lemma emits_case_exec_err:
  "(\<And>t. x = TerminalError t \<Longrightarrow> emits P (m t)) \<Longrightarrow> (\<And>e. x = PlainError e \<Longrightarrow> emits P (n e)) \<Longrightarrow>
   emits P (case x of TerminalError t \<Rightarrow> m t | PlainError e \<Rightarrow> n e)"
  by (cases x) auto

lemma good_reads [emits_intro]:
  "emits good_write (getCurrent E t)"
  "emits good_write (perform E act object gvr dry)"
  "emits good_write (match_with_namespace E p resource it object)"
proof -
  have "emits good_write (get_versions E t gr e vs)" for gr e vs
    by (induction vs arbitrary: e) (auto intro!: emits_intro)
  then show "emits good_write (getCurrent E t)" unfolding getCurrent_def by (intro emits_intro) auto
  show "emits good_write (perform E act object gvr dry)"
    unfolding perform_def remove_finalizer_def force_finalize_def by (intro emits_intro) auto
  show "emits good_write (match_with_namespace E p resource it object)"
    unfolding match_with_namespace_def by (intro emits_intro) auto
qed

lemma good_execute [emits_intro]: "emits good_write (execute E act it p dry)"
  unfolding execute_def execute_read_def execute_matched_def currentPolicyMatches_def match_incident_object_def
  by (intro emits_intro) auto

definition terminal_answer :: "exec_answer option \<Rightarrow> bool" where
  "terminal_answer x \<longleftrightarrow> (\<forall>a out t. x = Some (a, out, Some (TerminalError t)) \<longrightarrow> terminal (te_phase t))"

lemma wp_forall: "(\<And>x s'. Q x s') \<Longrightarrow> wp m Q s"
  by (simp add: wp_def)

lemma execute_terminal: "wp (execute E act it p dry) (\<lambda>x _. terminal_answer x) s"
proof -
  have perform: "wp (perform E act object gvr dry) (\<lambda>x _. terminal_answer (Some x)) s'" for object gvr s'
    unfolding perform_def remove_finalizer_def force_finalize_def Let_def
    by (intro wp_intro) (auto simp: terminal_answer_def rejected_def target_changed_def)
  have matched: "wp (execute_matched E act object gvr dry m) (\<lambda>x _. terminal_answer x) s'" for object gvr m s'
    unfolding execute_matched_def
    by (intro wp_intro wp_mono[OF perform]) (auto simp: terminal_answer_def rejected_def)
  have read: "wp (execute_read E act it p dry x) (\<lambda>x _. terminal_answer x) s'" for x s'
    unfolding execute_read_def
    by (intro wp_intro wp_forall[of "\<lambda>m. wp (execute_matched E act _ _ dry m) _"] matched)
      (auto simp: terminal_answer_def rejected_def)
  show ?thesis unfolding execute_def by (intro wp_bind wp_forall read)
qed

lemma good_settle:
  assumes "terminal_answer (Some x)"
  shows "emits good_write (settle_attempt L E r a act expires x)"
proof -
  have "emits good_write (after_failure L E r a err expires)" for err
    unfolding after_failure_def by (intro emits_intro) auto
  then show ?thesis
    unfolding settle_attempt_def Let_def using assms
    by (intro emits_intro emits_case_exec_err) (auto simp: terminal_answer_def)
qed

lemma good_attempt [emits_intro]: "emits good_write (attempt_section L E r a act it p expires)"
  unfolding attempt_section_def
  by (rule emits_bind_yields[OF good_execute execute_terminal]) (intro emits_intro good_settle, auto)

lemma good_replay [emits_intro]: "emits good_write (replay_section L E a i act locked)"
proof -
  have "emits good_write (verifySatisfied E act dry)" for dry
    unfolding verifySatisfied_def by (intro emits_intro)
  then show ?thesis unfolding replay_section_def by (intro emits_intro) auto
qed

lemma good_load_policy [emits_intro]: "emits good_write (load_policy L E a ref m1 m2 m3)"
  unfolding load_policy_def Let_def by (intro emits_intro) auto

text \<open>
  C36.  Every status a reconciliation writes is Running or a terminal phase with its completion time and
  its condition; an approval is never put back to Pending or to an unknown phase.
\<close>

theorem status_writes_complete:
  "list_all good_write (added (Reconcile L E r request) log)"
proof (rule added_emits)
  have "emits good_write (load_request L E request)" "emits good_write (choose_action L E a i)"
    "emits good_write (validate_policy L E a i act replay)" "emits good_write (revalidate L E r a i act ref expires locked)"
    for a i act replay ref expires locked
    unfolding load_request_def choose_action_def validate_policy_def revalidate_def begin_attempt_def Let_def
    by (intro emits_intro; simp)+
  then show "emits good_write (Reconcile L E r request)"
    unfolding Reconcile_def with_lock_def locked_section_def by (intro emits_intro) auto
qed

text \<open>
  C37.  A failed attempt is retried only when the error is transient and attempts are left; the delay is
  positive, at least the default delay or what the server asks for unless the approval expires
  first, and the retry never lies after the expiry of the approval.
\<close>

theorem retry_bounded:
  assumes "fst (run_state (after_failure L E r a err expires) log) = Done d" and "d \<noteq> 0"
  shows "transient L (PlainError err) \<and> int (length (as_Attempts (ra_Status a))) + 1 < rec_maxAttempts r
    \<and> 0 < d \<and> env_Now E log + d \<le> expires
    \<and> (retryDelay \<le> d \<or> env_Now E log + d = expires \<or> d = max_int64)"
proof -
  let ?P = "\<lambda>d. transient L (PlainError err) \<and> int (length (as_Attempts (ra_Status a))) + 1 < rec_maxAttempts r
         \<and> 0 < time_sub expires (env_Now E log) \<and> d = requeue_delay err (time_sub expires (env_Now E log))"
  have fin: "wp (do { e \<leftarrow> finishByName L E name phase result reason message; State_Monad.return (finish_result e) })
      (\<lambda>x _. \<forall>d. x = Done d \<longrightarrow> d \<noteq> 0 \<longrightarrow> ?P d) s" for name phase result reason message s
    by (intro wp_intro) (auto simp: finish_result_def split: option.splits)
  have "wp (after_failure L E r a err expires) (\<lambda>x _. \<forall>d. x = Done d \<longrightarrow> d \<noteq> 0 \<longrightarrow> ?P d) log"
    unfolding after_failure_def Let_def
    by (intro wp_if fin, rule wp_bind, subst wp_exact(4), intro wp_if fin wp_return) auto
  then have d: "transient L (PlainError err)" "int (length (as_Attempts (ra_Status a))) + 1 < rec_maxAttempts r"
    "0 < time_sub expires (env_Now E log)" "d = requeue_delay err (time_sub expires (env_Now E log))"
    using assms by (auto simp: wp_def)
  have pos: "0 < retryDelay" by (simp add: retryDelay_def second_def)
  have "env_Now E log < expires" using d(3) by (simp add: time_sub_pos)
  then have rem: "time_sub expires (env_Now E log) \<le> expires - env_Now E log"
    "time_sub expires (env_Now E log) = expires - env_Now E log \<or> time_sub expires (env_Now E log) = max_int64"
    using time_sub_le[of "env_Now E log" expires] by (auto simp: time_sub_def max_int64_def min_int64_def)
  have "0 < d \<and> d \<le> time_sub expires (env_Now E log) \<and> (retryDelay \<le> d \<or> d = time_sub expires (env_Now E log))"
    using pos d(3) unfolding d(4) requeue_delay_def Let_def by (auto split: option.splits)
  then show ?thesis using d(1,2) rem by linarith
qed

theorem retry_bounded_witness:
  "fst (run_state (after_failure sample_lib sample_env \<lparr>rec_maxAttempts = 3\<rparr> sample_approval
      ((errors_New ''busy'')\<lparr>ae_Timeout := True\<rparr>) minute) []) = Done retryDelay
   \<and> env_Now sample_env [] + retryDelay \<le> minute"
proof -
  have run: "fst (run_state (after_failure sample_lib sample_env \<lparr>rec_maxAttempts = 3\<rparr> sample_approval
      ((errors_New ''busy'')\<lparr>ae_Timeout := True\<rparr>) minute) []) = Done retryDelay"
    by (simp add: after_failure_def transient_def sample_approval_def call_now_def sample_env_def time_sub_def
        minute_def second_def max_int64_def min_int64_def requeue_delay_def errors_New_def retryDelay_def Let_def)
  have "retryDelay \<noteq> 0" by (simp add: retryDelay_def second_def)
  then show ?thesis using retry_bounded[OF run] run by blast
qed

end
