(* ===== verification/Api_Schema.thy ===== *)
theory Api_Schema
  imports Api_Types
begin

text \<open>
  The structural schema of the custom resources: what the validation markers in \<open>api/v1alpha1\<close> (and, for
  conditions, the generated definitions in \<open>config/crd/bases\<close>) demand of an object that the API server stores.
  A status that does not satisfy it is rejected as a whole, so these predicates are the type of what the
  controllers may write.

  Lengths are counted in runes.  A field that is left out of the JSON text when it is empty may be empty.
\<close>

named_theorems schema \<open>the predicates of the schema\<close>

text \<open>An optional field, absent or valid.\<close>

fun optional :: "('a \<Rightarrow> bool) \<Rightarrow> 'a option \<Rightarrow> bool" where
  "optional P None = True"
| "optional P (Some x) = P x"

definition max_length :: "nat \<Rightarrow> string \<Rightarrow> bool" where
  "max_length n s \<longleftrightarrow> length (runes_of_string s) \<le> n"

section \<open>Enumerations\<close>

definition valid_RiskLevel :: "RiskLevel \<Rightarrow> bool" where
  [schema]: "valid_RiskLevel s \<longleftrightarrow> s \<in> {RiskNone, RiskLow, RiskMedium, RiskHigh, RiskCritical}"

definition valid_IncidentPhase :: "IncidentPhase \<Rightarrow> bool" where
  [schema]: "valid_IncidentPhase s \<longleftrightarrow> s \<in> {IncidentPhaseActive, IncidentPhaseDiagnosisFailed, IncidentPhaseResolved}"

definition valid_FindingType :: "FindingType \<Rightarrow> bool" where
  [schema]: "valid_FindingType s \<longleftrightarrow>
     s \<in> {FindingBlockingFinalizer, FindingRemainingResource, FindingUnavailableAPIService, FindingDiscoveryFailure,
          FindingBlockingWebhook, FindingMissingFinalizerController, FindingDeletionGracePeriodExceeded,
          FindingResourceTypeRemoved, FindingPolicyDisallowsRemediation, FindingUnknown}"

definition valid_RemediationActionType :: "RemediationActionType \<Rightarrow> bool" where
  [schema]: "valid_RemediationActionType s \<longleftrightarrow>
     s \<in> {ActionRemoveResourceFinalizer, ActionRemoveCRDFinalizer, ActionForceFinalizeNamespace}"

definition valid_ApprovalPhase :: "ApprovalPhase \<Rightarrow> bool" where
  [schema]: "valid_ApprovalPhase s \<longleftrightarrow>
     s \<in> {ApprovalPhasePending, ApprovalPhaseRunning, ApprovalPhaseSucceeded, ApprovalPhaseDryRunSucceeded,
          ApprovalPhaseFailed, ApprovalPhaseExpired, ApprovalPhaseSuperseded}"

definition valid_ApprovalResult :: "ApprovalResult \<Rightarrow> bool" where
  [schema]: "valid_ApprovalResult s \<longleftrightarrow>
     s \<in> {ApprovalResultMutated, ApprovalResultAlreadySatisfied, ApprovalResultDryRunValidated,
          ApprovalResultRejectedByPolicy, ApprovalResultTargetReplaced, ApprovalResultTargetChanged, ApprovalResultAPIError}"

section \<open>References, findings and actions\<close>

definition valid_TargetReference :: "TargetReference \<Rightarrow> bool" where
  "valid_TargetReference t \<longleftrightarrow>
     tr_Version t \<noteq> [] \<and> tr_Resource t \<noteq> [] \<and> tr_Kind t \<noteq> [] \<and> tr_Name t \<noteq> [] \<and> tr_UID t \<noteq> []"

definition valid_ControllerReference :: "ControllerReference \<Rightarrow> bool" where
  "valid_ControllerReference r \<longleftrightarrow>
     cr_APIVersion r = ''apps/v1'' \<and> cr_Kind r \<in> {''Deployment'', ''StatefulSet'', ''DaemonSet''}
     \<and> cr_Namespace r \<noteq> [] \<and> cr_Name r \<noteq> []"

definition valid_Finding :: "Finding \<Rightarrow> bool" where
  "valid_Finding f \<longleftrightarrow>
     f_ID f \<noteq> [] \<and> valid_FindingType (f_Type f) \<and> max_length 1024 (f_Message f)
     \<and> optional valid_TargetReference (f_ResourceRef f) \<and> optional valid_ControllerReference (f_ControllerRef f)
     \<and> optional (\<lambda>n. 0 \<le> n) (f_Count f)"

definition valid_RemediationAction :: "RemediationAction \<Rightarrow> bool" where
  "valid_RemediationAction a \<longleftrightarrow>
     a_ID a \<noteq> [] \<and> valid_RemediationActionType (a_Type a) \<and> valid_RiskLevel (a_Risk a) \<and> valid_TargetReference (a_Target a)
     \<and> max_length 512 (a_IneligibleReason a) \<and> max_length 1024 (a_Reason a)"

definition valid_TargetSnapshot :: "TargetSnapshot \<Rightarrow> bool" where
  "valid_TargetSnapshot s \<longleftrightarrow> distinct (ts_MetadataFinalizers s) \<and> distinct (ts_NamespaceFinalizers s)"

section \<open>Conditions\<close>

definition alpha :: "char \<Rightarrow> bool" where
  "alpha c \<longleftrightarrow> (let b = (of_char c :: nat) in 65 \<le> b \<and> b \<le> 90 \<or> 97 \<le> b \<and> b \<le> 122)"

definition digit :: "char \<Rightarrow> bool" where
  "digit c \<longleftrightarrow> (let b = (of_char c :: nat) in 48 \<le> b \<and> b \<le> 57)"

definition lower_alnum :: "char \<Rightarrow> bool" where
  "lower_alnum c \<longleftrightarrow> digit c \<or> alpha c \<and> 97 \<le> (of_char c :: nat)"

text \<open>\<^verbatim>\<open>^[A-Za-z]([A-Za-z0-9_,:]*[A-Za-z0-9_])?$\<close>\<close>

definition condition_reason :: "string \<Rightarrow> bool" where
  "condition_reason s \<longleftrightarrow>
     s \<noteq> [] \<and> alpha (hd s) \<and> list_all (\<lambda>c. alpha c \<or> digit c \<or> c \<in> set ''_,:'') s
     \<and> (alpha (last s) \<or> digit (last s) \<or> last s = CHR ''_'') \<and> max_length 1024 s"

fun split_at :: "char \<Rightarrow> string \<Rightarrow> string list" where
  "split_at c [] = [[]]"
| "split_at c (x # xs) =
     (if x = c then [] # split_at c xs
      else case split_at c xs of [] \<Rightarrow> [[x]] | part # parts \<Rightarrow> (x # part) # parts)"

definition dns_label :: "string \<Rightarrow> bool" where
  "dns_label s \<longleftrightarrow>
     s \<noteq> [] \<and> lower_alnum (hd s) \<and> lower_alnum (last s) \<and> list_all (\<lambda>c. lower_alnum c \<or> c = CHR ''-'') s"

definition qualified_part :: "string \<Rightarrow> bool" where
  "qualified_part s \<longleftrightarrow>
     s \<noteq> [] \<and> (alpha (hd s) \<or> digit (hd s)) \<and> (alpha (last s) \<or> digit (last s))
     \<and> list_all (\<lambda>c. alpha c \<or> digit c \<or> c \<in> set ''-_.'') s"

text \<open>A name, or a DNS domain, a slash and a name.\<close>

definition condition_type :: "string \<Rightarrow> bool" where
  "condition_type s \<longleftrightarrow>
     max_length 316 s
     \<and> (case split_at (CHR ''/'') s of
          [name] \<Rightarrow> qualified_part name
        | [domain, name] \<Rightarrow> list_all dns_label (split_at (CHR ''.'') domain) \<and> qualified_part name
        | _ \<Rightarrow> False)"

definition valid_Condition :: "Condition \<Rightarrow> bool" where
  "valid_Condition c \<longleftrightarrow>
     condition_type (cond_Type c) \<and> cond_Status c \<in> {ConditionTrue, ConditionFalse, ConditionUnknown}
     \<and> 0 \<le> cond_ObservedGeneration c \<and> condition_reason (cond_Reason c) \<and> max_length 32768 (cond_Message c)"

definition valid_conditions :: "Condition list \<Rightarrow> bool" where
  "valid_conditions cs \<longleftrightarrow> list_all valid_Condition cs \<and> distinct (map cond_Type cs)"

section \<open>Statuses\<close>

definition valid_DeletionIncidentStatus :: "DeletionIncidentStatus \<Rightarrow> bool" where
  "valid_DeletionIncidentStatus st \<longleftrightarrow>
     (is_Phase st = [] \<or> valid_IncidentPhase (is_Phase st)) \<and> max_length 512 (is_ResolutionReason st)
     \<and> valid_TargetSnapshot (is_TargetSnapshot st)
     \<and> length (is_Findings st) \<le> 513 \<and> list_all valid_Finding (is_Findings st) \<and> distinct (map f_ID (is_Findings st))
     \<and> length (is_RecommendedActions st) \<le> 256 \<and> list_all valid_RemediationAction (is_RecommendedActions st)
     \<and> distinct (map a_ID (is_RecommendedActions st)) \<and> valid_conditions (is_Conditions st)"

definition valid_RemediationAttempt :: "RemediationAttempt \<Rightarrow> bool" where
  "valid_RemediationAttempt a \<longleftrightarrow>
     valid_RemediationActionType (at_ActionType a) \<and> valid_ApprovalResult (at_Result a)
     \<and> max_length 128 (at_ErrorReason a) \<and> max_length 1024 (at_Message a)"

definition valid_RemediationApprovalStatus :: "RemediationApprovalStatus \<Rightarrow> bool" where
  "valid_RemediationApprovalStatus st \<longleftrightarrow>
     (as_Phase st = [] \<or> valid_ApprovalPhase (as_Phase st)) \<and> (as_Result st = [] \<or> valid_ApprovalResult (as_Result st))
     \<and> optional valid_RemediationAction (as_Action st)
     \<and> length (as_Attempts st) \<le> 20 \<and> list_all valid_RemediationAttempt (as_Attempts st) \<and> valid_conditions (as_Conditions st)"

definition valid_TerminationPolicyStatus :: "TerminationPolicyStatus \<Rightarrow> bool" where
  "valid_TerminationPolicyStatus st \<longleftrightarrow> valid_conditions (ps_Conditions st) \<and> 0 \<le> ps_ResolvedResourceCount st"

section \<open>Texts\<close>

lemma decode_all_count: "length (decode_all bs) \<le> length bs"
proof (induction bs rule: decode_all.induct)
  case (2 b bs)
  then show ?case by (fastforce simp: Let_def split: prod.splits)
qed simp

lemma runes_le_bytes: "length (runes_of_string s) \<le> length s"
  using decode_all_count[of "byte_vals s"] by (simp add: runes_of_string_def runes_def byte_vals_def)

lemma max_length_bytes: "length s \<le> n \<Longrightarrow> max_length n s"
  using runes_le_bytes[of s] by (simp add: max_length_def)

lemma max_length_Nil [simp]: "max_length n []"
  by (rule max_length_bytes) simp

definition printable :: "string \<Rightarrow> bool" where
  "printable s \<longleftrightarrow> list_all (\<lambda>c. 0x20 \<le> (of_char c :: nat) \<and> (of_char c :: nat) < 0x7F) s"

lemma encode_ascii: "r < 0x80 \<Longrightarrow> encode_rune r = [r]"
  by (simp add: encode_rune_def valid_rune_def)

lemma printable_runes: "printable s \<Longrightarrow> s = string_of_runes (map of_char s)"
  by (induction s) (simp_all add: printable_def string_of_runes_def of_bytes_def encode_ascii)

lemma runes_printable: "printable s \<Longrightarrow> runes_of_string s = map of_char s"
proof -
  assume s: "printable s"
  then have "list_all valid_rune (map of_char s)"
    by (induction s) (auto simp: printable_def valid_rune_def)
  then have "runes_of_string (string_of_runes (map of_char s)) = map of_char s" by (rule runes_of_string_of_runes)
  then show ?thesis using printable_runes[OF s] by simp
qed

lemma condition_reason_printable: "condition_reason s \<Longrightarrow> printable s"
proof -
  have "0x20 \<le> (of_char c :: nat) \<and> (of_char c :: nat) < 0x7F" if "alpha c \<or> digit c \<or> c \<in> set ''_,:''" for c
    using that by (auto simp: alpha_def digit_def Let_def)
  then show "condition_reason s \<Longrightarrow> printable s"
    unfolding condition_reason_def printable_def list_all_iff by blast
qed

text \<open>Quoting printable ASCII at most doubles it.\<close>

lemma decode_printable: "printable s \<Longrightarrow> decode_all (byte_vals s) = map (\<lambda>c. (of_char c, [of_char c])) s"
  by (induction s) (simp_all add: printable_def byte_vals_def decode_rune_def)

lemma quote_printable: "printable s \<Longrightarrow> length (quote isPrint s) \<le> 2 * length s + 2"
proof -
  assume s: "printable s"
  have "length (quote_rune isPrint (of_char c, [of_char c])) \<le> 2" if "c \<in> set s" for c
  proof -
    have r: "0x20 \<le> (of_char c :: nat)" "(of_char c :: nat) < 0x7F" using that s by (simp_all add: printable_def list_all_iff)
    then have "is_print isPrint (of_char c)" "encode_rune (of_char c) = [of_char c]" "of_char c \<noteq> runeError"
      by (simp_all add: is_print_def encode_ascii runeError_def)
    then show ?thesis by (simp add: quote_rune_def of_bytes_def Let_def)
  qed
  then have "length (concat (map (quote_rune isPrint) (map (\<lambda>c. (of_char c, [of_char c])) s))) \<le> 2 * length s"
    by (induction s) fastforce+
  then show ?thesis by (simp add: quote_def decode_printable[OF s])
qed

end
