(* ===== verification/Typed_Programs.thy ===== *)
theory Typed_Programs
  imports EG_Prelude
begin

text \<open>
  A typing judgement for programs over the log: \<open>gives P R m\<close> says that from every log the program appends
  only events that satisfy \<open>P\<close> and returns a value that satisfies \<open>R\<close>.  The rules follow the structure of
  programs, so that what one step returns is known where the next one uses it.
\<close>

named_theorems gives_intro \<open>rules that derive the result type of a program along its structure\<close>

definition gives :: "('e \<Rightarrow> bool) \<Rightarrow> ('a \<Rightarrow> bool) \<Rightarrow> ('e, 'a) prog \<Rightarrow> bool" where
  "gives P R m \<longleftrightarrow> ensures P (\<lambda>x _. R x) m"

lemma gives_mono: "gives P R m \<Longrightarrow> (\<And>x. R x \<Longrightarrow> S x) \<Longrightarrow> gives P S m"
  unfolding gives_def by (erule ensures_mono)

lemma gives_emits: "emits P m \<Longrightarrow> gives P (\<lambda>_. True) m"
  unfolding gives_def by (rule ensures_emits)

lemma emits_gives: "gives P R m \<Longrightarrow> emits P m"
  unfolding gives_def by (rule emits_ensures)

lemma gives_wp: "emits P m \<Longrightarrow> (\<And>s. wp m (\<lambda>x _. R x) s) \<Longrightarrow> gives P R m"
  unfolding gives_def ensures_def emits_def wp_def by blast

lemma gives_ensures: "emits P m \<Longrightarrow> ensures Q A m \<Longrightarrow> (\<And>x evs. A x evs \<Longrightarrow> R x) \<Longrightarrow> gives P R m"
  by (rule gives_wp) (auto simp: ensures_def wp_def)

lemma gives_result: "gives P R m \<Longrightarrow> R (fst (run_state m s))"
  unfolding gives_def ensures_def wp_def by blast

lemma gives_return [gives_intro]: "R x \<Longrightarrow> gives P R (State_Monad.return x)"
  unfolding gives_def by (rule ensures_return)

lemma gives_bind: "gives P R m \<Longrightarrow> (\<And>x. R x \<Longrightarrow> gives P S (f x)) \<Longrightarrow> gives P S (State_Monad.bind m f)"
  unfolding gives_def by (rule ensures_bind)

text \<open>A step whose result does not matter.\<close>

lemma gives_seq: "emits P m \<Longrightarrow> (\<And>x. gives P S (f x)) \<Longrightarrow> gives P S (State_Monad.bind m f)"
  by (rule gives_bind[OF gives_emits])

lemma gives_invoke: "(\<And>r. P (g r)) \<Longrightarrow> (\<And>log. R (f log)) \<Longrightarrow> gives P R (invoke f g)"
  by (simp add: gives_def ensures_def wp_def)

lemma gives_if [gives_intro]:
  "(b \<Longrightarrow> gives P R m) \<Longrightarrow> (\<not> b \<Longrightarrow> gives P R n) \<Longrightarrow> gives P R (if b then m else n)"
  by simp

lemma gives_case_option [gives_intro]:
  "(x = None \<Longrightarrow> gives P R m) \<Longrightarrow> (\<And>a. x = Some a \<Longrightarrow> gives P R (n a)) \<Longrightarrow>
   gives P R (case x of None \<Rightarrow> m | Some a \<Rightarrow> n a)"
  by (cases x) auto

lemma gives_case_sum [gives_intro]:
  "(\<And>a. x = Inl a \<Longrightarrow> gives P R (m a)) \<Longrightarrow> (\<And>b. x = Inr b \<Longrightarrow> gives P R (n b)) \<Longrightarrow>
   gives P R (case x of Inl a \<Rightarrow> m a | Inr b \<Rightarrow> n b)"
  by (cases x) auto

lemma gives_case_prod [gives_intro]:
  "(\<And>a b. x = (a, b) \<Longrightarrow> gives P R (m a b)) \<Longrightarrow> gives P R (case x of (a, b) \<Rightarrow> m a b)"
  by (cases x) auto

lemma gives_case_list [gives_intro]:
  "(xs = [] \<Longrightarrow> gives P R m) \<Longrightarrow> (\<And>y ys. xs = y # ys \<Longrightarrow> gives P R (n y ys)) \<Longrightarrow>
   gives P R (case xs of [] \<Rightarrow> m | y # ys \<Rightarrow> n y ys)"
  by (cases xs) auto

lemma gives_let [gives_intro]: "(\<And>y. y = x \<Longrightarrow> gives P R (m y)) \<Longrightarrow> gives P R (let y = x in m y)"
  by simp

end
