(* ===== verification/Executor_Schema.thy ===== *)
theory Executor_Schema
  imports Executor_Safety Api_Schema Typed_Programs
begin

text \<open>
  The executor writes only statuses that the schema of RemediationApproval admits, as long as the API server
  keeps its side: the approvals and incidents it returns satisfy their schemas, and the reason of an
  error it answers with is a reason that a condition may have.  Without the last assumption a
  status may be written that the server rejects.
\<close>

section \<open>Texts\<close>

lemma sanitize_printable: "printable s \<Longrightarrow> length s \<le> n \<Longrightarrow> sanitize s n = s"
proof -
  assume s: "printable s" "length s \<le> n"
  have "filter (\<lambda>r::rune. \<not> (r < 0x20 \<and> r \<noteq> 0x20)) (map of_char s) = map of_char s"
    using s(1) by (auto simp: printable_def list_all_iff filter_id_conv)
  then show ?thesis
    using s printable_runes[OF s(1)] by (simp add: sanitize_def strings_Map_keep_def runes_printable)
qed

lemma sanitize_length: "length (sanitize v n) \<le> n"
  by (simp add: sanitize_def Let_def)

text \<open>A reason that fits both into a condition and into an attempt.\<close>

definition short_reason :: "string \<Rightarrow> bool" where
  "short_reason s \<longleftrightarrow> condition_reason s \<and> length s \<le> 128"

lemma sanitize_reason: "short_reason s \<Longrightarrow> sanitize s 128 = s"
  by (simp add: short_reason_def sanitize_printable condition_reason_printable)

lemma short_reasons:
  "short_reason ''IncidentNotFound''" "short_reason ''IncidentReplaced''" "short_reason ''ActionChanged''"
  "short_reason ''ActionTargetChanged''" "short_reason ''IncidentInactive''" "short_reason ''EvidenceExpired''"
  "short_reason ''PolicyNotFound''" "short_reason ''PolicyChanged''" "short_reason ''ApprovalExpired''"
  "short_reason ''ActionIneligible''" "short_reason ''RejectedByPolicy''" "short_reason ''RiskChanged''"
  "short_reason ''ReplayStateChanged''" "short_reason ''ReplayNotSatisfied''" "short_reason ''AttemptsExhausted''"
  "short_reason ''IncidentChanged''" "short_reason ''APIError''" "short_reason ''ExecutionStarted''"
  "short_reason ''TargetChanged''" "short_reason ''TargetReplaced''" "short_reason ''InvalidAction''"
  "short_reason ''UnsupportedAction''" "short_reason ''PolicyNoLongerMatches''"
  by code_simp+

lemma valid_results:
  "valid_ApprovalResult ApprovalResultMutated" "valid_ApprovalResult ApprovalResultAlreadySatisfied"
  "valid_ApprovalResult ApprovalResultDryRunValidated" "valid_ApprovalResult ApprovalResultRejectedByPolicy"
  "valid_ApprovalResult ApprovalResultTargetReplaced" "valid_ApprovalResult ApprovalResultTargetChanged"
  "valid_ApprovalResult ApprovalResultAPIError"
  by (simp_all add: valid_ApprovalResult_def)

lemma valid_phases:
  "valid_ApprovalPhase ApprovalPhaseRunning" "valid_ApprovalPhase ApprovalPhaseSucceeded"
  "valid_ApprovalPhase ApprovalPhaseDryRunSucceeded" "valid_ApprovalPhase ApprovalPhaseFailed"
  "valid_ApprovalPhase ApprovalPhaseExpired" "valid_ApprovalPhase ApprovalPhaseSuperseded"
  by (simp_all add: valid_ApprovalPhase_def)

lemma result_reason: "valid_ApprovalResult result \<Longrightarrow> short_reason result"
proof -
  have "short_reason ApprovalResultMutated" "short_reason ApprovalResultAlreadySatisfied"
    "short_reason ApprovalResultDryRunValidated" "short_reason ApprovalResultRejectedByPolicy"
    "short_reason ApprovalResultTargetReplaced" "short_reason ApprovalResultTargetChanged" "short_reason ApprovalResultAPIError"
    by code_simp+
  then show "valid_ApprovalResult result \<Longrightarrow> short_reason result" unfolding valid_ApprovalResult_def by auto
qed

section \<open>Statuses\<close>

lemma valid_completed:
  assumes "type = ''Completed'' \<or> type = ''Running''" and "short_reason reason" and "length message \<le> 1024" and "0 \<le> generation"
  shows "valid_conditions [completed_condition type reason message now generation]"
proof -
  have "condition_type ''Completed''" "condition_type ''Running''" by code_simp+
  then show ?thesis
    using assms by (auto simp: valid_conditions_def valid_Condition_def completed_condition_def short_reason_def max_length_bytes)
qed

lemma valid_finished:
  assumes "valid_RemediationApprovalStatus st" and "valid_ApprovalPhase phase" and "valid_ApprovalResult result"
    and "valid_conditions cs"
  shows "valid_RemediationApprovalStatus (st\<lparr>as_Phase := phase, as_Result := result, as_ObservedGeneration := g,
    as_CompletedTime := t, as_Conditions := cs\<rparr>)"
  using assms by (simp add: valid_RemediationApprovalStatus_def)

lemma valid_append:
  assumes "list_all valid_RemediationAttempt as" and "valid_RemediationAttempt a"
  shows "length (appendBounded as a) \<le> 20 \<and> list_all valid_RemediationAttempt (appendBounded as a)"
  using assms by (auto simp: appendBounded_def maxAuditAttempts_def list_all_iff Let_def dest: in_set_dropD)

lemma valid_recorded:
  assumes "valid_RemediationApprovalStatus st" and "valid_ApprovalPhase phase" and "valid_ApprovalResult result"
    and "valid_RemediationAttempt attempt" and "valid_conditions cs"
  shows "valid_RemediationApprovalStatus (st\<lparr>as_Phase := phase, as_Result := result, as_ObservedGeneration := g,
    as_Attempts := appendBounded (as_Attempts st) attempt, as_CompletedTime := t, as_Conditions := cs\<rparr>)"
  using assms by (simp add: valid_RemediationApprovalStatus_def valid_append)

lemma valid_retried:
  assumes "valid_RemediationApprovalStatus st" and "valid_RemediationAttempt attempt"
  shows "valid_RemediationApprovalStatus (st\<lparr>as_Phase := ApprovalPhaseRunning, as_Result := at_Result attempt,
    as_Attempts := appendBounded (as_Attempts st) attempt\<rparr>)"
  using assms by (simp add: valid_RemediationApprovalStatus_def valid_append valid_RemediationAttempt_def valid_phases)

lemma valid_running:
  assumes "valid_RemediationApprovalStatus st" and "valid_RemediationAction action" and "0 \<le> g"
  shows "valid_RemediationApprovalStatus (running_status action started now st g)"
proof -
  have "valid_conditions [completed_condition ''Running'' ''ExecutionStarted'' ''approval execution is in progress'' now g]"
    using assms(3) by (intro valid_completed short_reasons) simp_all
  then show ?thesis
    using assms by (cases "as_Action st") (simp_all add: valid_RemediationApprovalStatus_def running_status_def valid_phases)
qed

section \<open>The contract of the API server\<close>

definition reason_ok :: "ApiError \<Rightarrow> bool" where
  "reason_ok e \<longleftrightarrow> ae_Reason e = [] \<or> short_reason (ae_Reason e)"

definition stored_approval :: "RemediationApproval \<Rightarrow> bool" where
  "stored_approval a \<longleftrightarrow> valid_RemediationApprovalStatus (ra_Status a) \<and> 0 \<le> om_Generation (ra_Meta a)"

definition stored_incident :: "DeletionIncident \<Rightarrow> bool" where
  "stored_incident i \<longleftrightarrow> valid_DeletionIncidentStatus (di_Status i)"

text \<open>
  What is read has been stored, hence validated; the errors about target objects carry a reason that
  is empty or has the form of the reasons of \<open>k8s.io/apimachinery\<close>, a short word.
\<close>

definition validating_server :: "env \<Rightarrow> bool" where
  "validating_server E \<longleftrightarrow>
     (\<forall>log n. pred_sum (\<lambda>_. True) stored_approval (env_GetApproval E log n))
     \<and> (\<forall>log n. pred_sum (\<lambda>_. True) stored_incident (env_GetIncident E log n))
     \<and> (\<forall>log gvr ns n. pred_sum reason_ok (\<lambda>_. True) (env_DynGet E log gvr ns n))
     \<and> (\<forall>log gvr ns n ops dry. pred_sum reason_ok (\<lambda>_. True) (env_Patch E log gvr ns n ops dry))
     \<and> (\<forall>log req dry. pred_sum reason_ok (\<lambda>_. True) (env_Finalize E log req dry))"

fun valid_write :: "event \<Rightarrow> bool" where
  "valid_write (EvStatusUpdate a _) \<longleftrightarrow> valid_RemediationApprovalStatus (ra_Status a)"
| "valid_write _ = True"

lemma gives_answers [gives_intro]:
  assumes "validating_server E"
  shows "gives valid_write (pred_sum (\<lambda>_. True) stored_approval) (get_approval E n)"
    "gives valid_write (pred_sum (\<lambda>_. True) stored_incident) (get_incident E n)"
    "gives valid_write (pred_sum reason_ok (\<lambda>_. True)) (dyn_get E gvr ns n)"
    "gives valid_write (pred_sum reason_ok (\<lambda>_. True)) (dyn_patch E gvr ns n ops dry)"
    "gives valid_write (pred_sum reason_ok (\<lambda>_. True)) (ns_finalize E req dry)"
  using assms unfolding call_defs validating_server_def by (auto intro!: gives_invoke)

section \<open>The writers\<close>

lemma valid_updateStatus:
  assumes E: "validating_server E"
    and m: "\<And>st g. valid_RemediationApprovalStatus st \<Longrightarrow> 0 \<le> g \<Longrightarrow> gives valid_write valid_RemediationApprovalStatus (mutate st g)"
  shows "emits valid_write (updateStatus L E name mutate)"
proof -
  have "emits valid_write (State_Monad.bind (mutate (ra_Status a) (om_Generation (ra_Meta a))) (\<lambda>st.
      if statusesEqual L (ra_Status a) st then State_Monad.return None else status_update E (a\<lparr>ra_Status := st\<rparr>)))"
    if "stored_approval a" for a
    using that m[of "ra_Status a" "om_Generation (ra_Meta a)"]
    by (intro emits_gives[OF gives_bind[where S = "\<lambda>_. True"]] gives_emits emits_intro) (auto simp: stored_approval_def)
  then show ?thesis
    unfolding updateStatus_def
    by (intro emits_RetryOnConflict emits_gives[OF gives_bind[OF gives_answers(1)[OF E], where S = "\<lambda>_. True"]]
        gives_emits emits_case_sum emits_return) auto
qed

lemma valid_writers:
  assumes E: "validating_server E"
  shows "valid_ApprovalPhase phase \<Longrightarrow> valid_ApprovalResult result \<Longrightarrow> short_reason reason \<Longrightarrow>
      emits valid_write (finishByName L E name phase result reason message)"
    "valid_ApprovalPhase phase \<Longrightarrow> valid_ApprovalResult result \<Longrightarrow> valid_RemediationAttempt attempt \<Longrightarrow>
      emits valid_write (recordTerminalAttempt L E name attempt phase result)"
    "valid_RemediationAttempt attempt \<Longrightarrow> emits valid_write (recordRetryAttempt L E name attempt)"
    "valid_RemediationAction action \<Longrightarrow> emits valid_write (markRunning L E a action)"
proof -
  note seq = gives_seq[OF emits_calls(1)[where P = valid_write and E = E]]
  show "valid_ApprovalPhase phase \<Longrightarrow> valid_ApprovalResult result \<Longrightarrow> short_reason reason \<Longrightarrow>
      emits valid_write (finishByName L E name phase result reason message)"
    unfolding finishByName_def
    by (intro valid_updateStatus[OF E] seq gives_return valid_finished valid_completed)
      (simp_all add: sanitize_reason sanitize_length)
  show "valid_ApprovalPhase phase \<Longrightarrow> valid_ApprovalResult result \<Longrightarrow> valid_RemediationAttempt attempt \<Longrightarrow>
      emits valid_write (recordTerminalAttempt L E name attempt phase result)"
    unfolding recordTerminalAttempt_def
    by (intro valid_updateStatus[OF E] gives_return valid_recorded valid_completed result_reason) simp_all
  show "valid_RemediationAttempt attempt \<Longrightarrow> emits valid_write (recordRetryAttempt L E name attempt)"
    unfolding recordRetryAttempt_def by (intro valid_updateStatus[OF E] gives_return valid_retried)
  show "valid_RemediationAction action \<Longrightarrow> emits valid_write (markRunning L E a action)"
    unfolding markRunning_def
    by (intro valid_updateStatus[OF E] gives_seq[OF emits_case_option] seq gives_return valid_running emits_intro) simp_all
qed

lemma valid_finish:
  assumes "validating_server E" and "valid_ApprovalPhase phase" and "valid_ApprovalResult result" and "short_reason reason"
  shows "emits valid_write (finish L E a phase result reason message)"
  unfolding finish_def by (intro emits_intro valid_writers assms) simp_all

lemma valid_owner [emits_intro]: "emits valid_write (ensureOwnerReference L E name i)"
  unfolding ensureOwnerReference_def by (intro emits_intro; simp)

lemmas finishing = valid_finish valid_phases valid_results short_reasons emits_stop_with

section \<open>The attempt\<close>

definition clean_attempt :: "RemediationAttempt \<Rightarrow> bool" where
  "clean_attempt a \<longleftrightarrow> at_ErrorReason a = [] \<and> at_Message a = []"

lemma clean_attempts [simp]:
  "clean_attempt zero_RemediationAttempt" "clean_attempt (attempt_before object)"
  "clean_attempt (a\<lparr>at_ResourceVersionAfter := v\<rparr>) = clean_attempt a"
  by (simp_all add: clean_attempt_def zero_RemediationAttempt_def attempt_before_def)

definition terminal_error_ok :: "terminalExecutionError \<Rightarrow> bool" where
  "terminal_error_ok t \<longleftrightarrow> valid_ApprovalPhase (te_phase t) \<and> valid_ApprovalResult (te_result t) \<and> length (te_reason t) \<le> 128"

text \<open>What \<open>execute\<close> may answer.\<close>

fun answer_ok :: "exec_answer \<Rightarrow> bool" where
  "answer_ok (a, outcome, None) \<longleftrightarrow> clean_attempt a \<and> valid_ApprovalResult outcome"
| "answer_ok (a, outcome, Some (TerminalError t)) \<longleftrightarrow> clean_attempt a \<and> terminal_error_ok t"
| "answer_ok (a, outcome, Some (PlainError e)) \<longleftrightarrow> clean_attempt a \<and> reason_ok e"

lemma rejected_ok:
  "clean_attempt a \<Longrightarrow> valid_ApprovalPhase phase \<Longrightarrow> valid_ApprovalResult result \<Longrightarrow> short_reason reason \<Longrightarrow>
   answer_ok (a, outcome, Some (rejected phase result reason message))"
  "clean_attempt a \<Longrightarrow> answer_ok (target_changed a)"
  by (simp_all add: rejected_def target_changed_def terminal_error_ok_def short_reason_def valid_phases valid_results)

lemma reason_ok_simps [simp]: "reason_ok (errors_New t)" "reason_ok (errorf_wrap p e) = reason_ok e"
  by (simp_all add: reason_ok_def errors_New_def errorf_wrap_def)

lemmas answering = gives_intro rejected_ok valid_phases valid_results short_reasons

lemma gives_perform:
  assumes E: "validating_server E"
  shows "gives valid_write answer_ok (perform E action object gvr dry)"
proof -
  have "valid_ApprovalResult (mutated dry)" by (simp add: mutated_def valid_results)
  then have "gives valid_write answer_ok (remove_finalizer E action object gvr dry)"
    "gives valid_write answer_ok (force_finalize E action object dry)"
    unfolding remove_finalizer_def force_finalize_def Let_def
    by (intro answering gives_bind[OF gives_answers(4)[OF E]] gives_bind[OF gives_answers(5)[OF E]];
        simp add: valid_results)+
  then show ?thesis unfolding perform_def by (intro answering) simp_all
qed

text \<open>An answer of \<open>getCurrent\<close>: an object, or an error with a usable reason.\<close>

definition got_ok :: "get_answer \<Rightarrow> bool" where
  "got_ok x \<longleftrightarrow> (case x of (_, _, err) \<Rightarrow> pred_option reason_ok err)"

lemma gives_getCurrent:
  assumes E: "validating_server E"
  shows "gives valid_write got_ok (getCurrent E target)"
proof -
  have "pred_option reason_ok e \<Longrightarrow> gives valid_write got_ok (get_versions E target gr e vs)" for gr e vs
    by (induction vs arbitrary: e)
      (auto simp: got_ok_def intro!: gives_intro gives_bind[OF gives_answers(3)[OF E]])
  then show ?thesis
    unfolding getCurrent_def Let_def
    by (intro gives_intro gives_seq[OF emits_calls(2)] gives_bind[OF gives_answers(3)[OF E]]) (auto simp: got_ok_def)
qed

lemma gives_matches:
  assumes E: "validating_server E"
  shows "gives valid_write (pred_option (pred_sum reason_ok (\<lambda>_. True))) (currentPolicyMatches E object action it p)"
proof -
  have ns: "gives valid_write (pred_sum reason_ok (\<lambda>_. True)) (match_with_namespace E p resource t object)" for resource t object
    unfolding match_with_namespace_def by (intro gives_intro gives_bind[OF gives_answers(3)[OF E]]) auto
  have own: "gives valid_write (pred_option (pred_sum reason_ok (\<lambda>_. True))) (match_incident_object E p resource t x)"
    if "got_ok x" for resource t x
    unfolding match_incident_object_def using that
    by (intro gives_intro gives_bind[OF ns]) (auto simp: got_ok_def)
  show ?thesis
    unfolding currentPolicyMatches_def
    by (intro gives_intro gives_seq[OF emits_calls(2)] gives_bind[OF ns] gives_bind[OF gives_getCurrent[OF E]] own) auto
qed

lemma gives_execute:
  assumes E: "validating_server E"
  shows "gives valid_write (pred_option answer_ok) (execute E action it p dry)"
proof -
  have matched: "gives valid_write (pred_option answer_ok) (execute_matched E action object gvr dry m)"
    if "pred_option (pred_sum reason_ok (\<lambda>_. True)) m" for object gvr m
    unfolding execute_matched_def using that
    by (intro gives_intro gives_bind[OF gives_perform[OF E]]) (auto intro!: rejected_ok valid_phases valid_results short_reasons)
  have "gives valid_write (pred_option answer_ok) (execute_read E action it p dry x)" if "got_ok x" for x
    unfolding execute_read_def using that
    by (intro gives_intro gives_bind[OF gives_matches[OF E]] matched)
      (auto simp: got_ok_def valid_results intro!: rejected_ok valid_phases valid_results short_reasons)
  then show ?thesis unfolding execute_def by (intro gives_bind[OF gives_getCurrent[OF E]])
qed

section \<open>The stages\<close>

text \<open>What a stage hands on when it does not end the reconciliation.\<close>

abbreviation hands :: "('a \<Rightarrow> bool) \<Rightarrow> (reconcile_result + 'a) io \<Rightarrow> bool" where
  "hands R m \<equiv> gives valid_write (pred_sum (\<lambda>_. True) R) m"

lemma gives_and_then:
  assumes "hands R m" and "\<And>x. R x \<Longrightarrow> emits valid_write (f x)"
  shows "emits valid_write (and_then m f)"
  unfolding and_then_def
  by (rule emits_gives[OF gives_bind[OF assms(1), where S = "\<lambda>_. True"]], intro gives_emits emits_intro assms(2)) auto

lemma hands_stop: "emits valid_write m \<Longrightarrow> hands R (stop_with m)"
  unfolding stop_with_def by (intro gives_seq gives_return) auto

lemmas stages = gives_intro hands_stop valid_finish valid_phases valid_results short_reasons

lemma hands_load_request:
  assumes E: "validating_server E"
  shows "hands (\<lambda>(a, i). stored_approval a \<and> stored_incident i) (load_request L E request)"
  unfolding load_request_def
  by (intro stages E gives_bind[OF gives_answers(1)[OF E]] gives_bind[OF gives_answers(2)[OF E]] gives_seq[OF valid_owner]) auto

lemma found_valid:
  assumes "stored_incident i" and "findAction (is_RecommendedActions (di_Status i)) ident = Some a"
  shows "valid_RemediationAction a"
  using assms by (auto simp: stored_incident_def valid_DeletionIncidentStatus_def findAction_def find_Some_iff list_all_length)

lemma hands_choose_action:
  assumes E: "validating_server E" and "stored_approval a" and "stored_incident i"
  shows "hands (\<lambda>(action, _). valid_RemediationAction action) (choose_action L E a i)"
proof -
  have "valid_RemediationAction action"
    if "(case as_Action (ra_Status a) of None \<Rightarrow> findAction (is_RecommendedActions (di_Status i)) ident | Some x \<Rightarrow> Some x) = Some action"
    for action ident
    using that assms(2,3)
    by (auto simp: stored_approval_def valid_RemediationApprovalStatus_def split: option.splits intro: found_valid)
  then show ?thesis
    unfolding choose_action_def Let_def
    by (intro stages E gives_seq[OF emits_calls(1)]) auto
qed

lemma hands_load_policy:
  assumes E: "validating_server E"
  shows "hands (\<lambda>_. True) (load_policy L E a ref m1 m2 m3)"
  unfolding load_policy_def Let_def
  by (intro stages E gives_seq[OF emits_calls(5)] gives_seq[OF emits_calls(2)] gives_seq[OF emits_calls(1)]) auto

lemma hands_validate_policy:
  assumes E: "validating_server E"
  shows "hands (\<lambda>_. True) (validate_policy L E a i action replay)"
  unfolding validate_policy_def
  by (intro stages E gives_bind[OF hands_load_policy[OF E]]) auto

lemma hands_revalidate:
  assumes E: "validating_server E" and "valid_RemediationAction action"
  shows "hands (\<lambda>(action, _). valid_RemediationAction action) (revalidate L E r a i action ref expires locked)"
proof -
  have "hands (\<lambda>(action, _). valid_RemediationAction action) (begin_attempt L E r a action it p e)" for it p e
    unfolding begin_attempt_def using assms(2)
    by (intro stages E gives_seq[OF valid_writers(4)[OF E]]) auto
  then show ?thesis
    unfolding revalidate_def
    by (intro stages E gives_bind[OF hands_load_policy[OF E]] gives_seq[OF emits_calls(1)]) auto
qed

section \<open>Bookkeeping\<close>

lemma errorReason_short: "reason_ok e \<Longrightarrow> short_reason (errorReason (PlainError e))"
  by (auto simp: errorReason_def reason_ok_def sanitize_reason short_reasons)

lemma valid_stamped:
  assumes "clean_attempt a" and "valid_RemediationAction action" and "valid_ApprovalResult result"
  shows "valid_RemediationAttempt ((stamp_attempt now action dry a)\<lparr>at_Result := result\<rparr>)"
    "length reason \<le> 128 \<Longrightarrow> length message \<le> 1024 \<Longrightarrow>
     valid_RemediationAttempt ((stamp_attempt now action dry a)\<lparr>at_Result := result, at_ErrorReason := reason, at_Message := message\<rparr>)"
  using assms
  by (simp_all add: valid_RemediationAttempt_def stamp_attempt_def clean_attempt_def valid_RemediationAction_def max_length_bytes)

lemma valid_after_failure:
  assumes E: "validating_server E" and "reason_ok err"
  shows "emits valid_write (after_failure L E r a err expires)"
  unfolding after_failure_def
  by (intro emits_intro valid_writers[OF E] errorReason_short assms(2) valid_phases valid_results short_reasons) simp_all

lemma valid_settle:
  assumes E: "validating_server E" and "valid_RemediationAction action" and "answer_ok (a0, outcome, err)"
  shows "emits valid_write (settle_attempt L E r a action expires (a0, outcome, err))"
proof (cases err)
  case None
  then have "valid_RemediationAttempt ((stamp_attempt now action dry a0)\<lparr>at_Result := outcome\<rparr>)" for now dry
    using assms by (intro valid_stamped) simp_all
  then show ?thesis
    unfolding settle_attempt_def Let_def None using assms(3)
    by (simp only: prod.case option.case) (intro emits_intro valid_writers[OF E], auto simp: None valid_phases)
next
  case (Some x)
  show ?thesis
  proof (cases x)
    case (TerminalError t)
    then have "valid_RemediationAttempt ((stamp_attempt now action dry a0)\<lparr>at_Result := te_result t, at_ErrorReason := te_reason t,
        at_Message := sanitize (te_message t) 1024\<rparr>)" for now dry
      using assms Some by (intro valid_stamped) (simp_all add: terminal_error_ok_def sanitize_length)
    then show ?thesis
      unfolding settle_attempt_def Let_def Some TerminalError using assms(3)
      by (simp only: prod.case option.case exec_err.case)
        (intro emits_intro valid_writers[OF E], auto simp: Some TerminalError terminal_error_ok_def)
  next
    case (PlainError e)
    then have e: "reason_ok e" "clean_attempt a0" using assms(3) Some by simp_all
    then have "valid_RemediationAttempt ((stamp_attempt now action dry a0)\<lparr>at_Result := ApprovalResultAPIError,
        at_ErrorReason := errorReason (PlainError e), at_Message := apiFailureMessage\<rparr>)" for now dry
      using errorReason_short[OF e(1)] assms(2)
      by (intro valid_stamped) (simp_all add: short_reason_def apiFailureMessage_def valid_results)
    then show ?thesis
      unfolding settle_attempt_def Let_def Some PlainError
      by (simp only: prod.case option.case exec_err.case)
        (intro emits_intro valid_writers[OF E] valid_after_failure[OF E e(1)], auto)
  qed
qed

lemma valid_attempt:
  assumes E: "validating_server E" and "valid_RemediationAction action"
  shows "emits valid_write (attempt_section L E r a action it p expires)"
  unfolding attempt_section_def
  by (rule emits_gives[OF gives_bind[OF gives_execute[OF E], where S = "\<lambda>_. True"]], rule gives_emits)
    (auto intro!: emits_intro valid_settle assms split: option.splits)

text \<open>An answer of \<open>verifySatisfied\<close> without an error.\<close>

definition verified_ok :: "verify_answer \<Rightarrow> bool" where
  "verified_ok x \<longleftrightarrow>
     (case x of (a, outcome, satisfied, err) \<Rightarrow> clean_attempt a \<and> (err = None \<longrightarrow> valid_ApprovalResult outcome))"

lemma verified_object: "verified_ok (verify_object action object)"
  by (auto simp: verify_object_def verified_ok_def Let_def valid_results split: sum.splits)

lemma verified_const:
  "clean_attempt a \<Longrightarrow> valid_ApprovalResult outcome \<Longrightarrow> verified_ok (a, outcome, satisfied, err)"
  "clean_attempt a \<Longrightarrow> verified_ok (a, outcome, satisfied, Some e)"
  by (simp_all add: verified_ok_def)

lemma gives_verify:
  assumes E: "validating_server E"
  shows "gives valid_write (pred_option verified_ok) (verifySatisfied E action dry)"
  unfolding verifySatisfied_def
  by (intro gives_intro gives_bind[OF gives_getCurrent[OF E]])
    (auto simp: verified_object option.pred_map o_def option.pred_True verified_const valid_results split: option.splits)

lemma valid_replay:
  assumes E: "validating_server E" and "valid_RemediationAction action"
  shows "emits valid_write (replay_section L E a i action locked)"
proof -
  have "emits valid_write (case v of
        None \<Rightarrow> State_Monad.return Panicked
      | Some (attempt, outcome, satisfied, err) \<Rightarrow>
          do { now \<leftarrow> call_now E;
               case err of
                 Some e \<Rightarrow> State_Monad.return (Failed e)
               | None \<Rightarrow>
                   if \<not> satisfied then
                     finish L E a ApprovalPhaseSuperseded outcome ''ReplayNotSatisfied''
                       ''incident changed and the approved action is not already satisfied''
                   else
                     do { e \<leftarrow> recordTerminalAttempt L E (om_Name (ra_Meta a))
                            ((stamp_attempt now action (rs_DryRun (ra_Spec a)) attempt)\<lparr>at_Result := outcome\<rparr>)
                            ApprovalPhaseSucceeded outcome;
                          case e of
                            Some err \<Rightarrow> State_Monad.return (Failed err)
                          | None \<Rightarrow>
                              do { note_event (EvRemediationCount (a_Type action) (a_Risk action) outcome
                                     (format_bool (rs_DryRun (ra_Spec a))));
                                   State_Monad.return (Done 0) } } })" if "pred_option verified_ok v" for v
    using that
    by (intro emits_intro valid_finish E valid_writers[OF E] valid_stamped assms(2) valid_phases short_reasons)
      (auto simp: verified_ok_def)
  then show ?thesis
    unfolding replay_section_def
    by (intro emits_if valid_finish E valid_phases valid_results short_reasons
        emits_gives[OF gives_bind[OF gives_verify[OF E], where S = "\<lambda>_. True"]] gives_emits)
qed

section \<open>The reconciliation\<close>

text \<open>
  C15.  Every status a reconciliation writes is one that the API server's schema admits, whatever the run
  goes through: known phases and results, at most twenty attempts whose texts fit, a valid action snapshot,
  and conditions with a well-formed type and reason and no type twice.  It holds as long as the server
  returns only approvals and incidents it has validated, and errors whose reasons are
  empty or short words.
\<close>

theorem approval_status_valid:
  assumes "validating_server E"
  shows "list_all valid_write (added (Reconcile L E r request) log)"
proof (rule added_emits)
  note E = assms
  have locked: "emits valid_write (locked_section L E r request i action replay ref expires)"
    if a: "valid_RemediationAction action" for i action replay ref expires
    unfolding locked_section_def
    by (intro emits_intro valid_replay[OF E a] gives_and_then[OF hands_revalidate[OF E a]])
      (auto intro!: valid_attempt[OF E])
  show "emits valid_write (Reconcile L E r request)"
    unfolding Reconcile_def with_lock_def
    by (rule gives_and_then[OF hands_load_request[OF E]], clarify,
        rule gives_and_then[OF hands_choose_action[OF E]], assumption, assumption, clarify,
        rule gives_and_then[OF hands_validate_policy[OF E]], clarify)
      (intro emits_intro locked, auto)
qed

lemma sample_server: "validating_server sample_env"
proof -
  have "stored_approval sample_approval" "stored_incident sample_incident" by code_simp+
  then show ?thesis by (simp add: validating_server_def sample_env_def)
qed

text \<open>The run of the sample writes the status twice: Running before the patch, and the outcome after it.\<close>

theorem approval_status_valid_witness:
  "validating_server sample_env \<and> list_all valid_write (added sample_run [])"
  using approval_status_valid[OF sample_server, where request = "''ok''"] sample_server by blast

section \<open>A reason that the schema rejects\<close>

text \<open>
  The reason of an API error is whatever the server answers with; an admission webhook that denies a
  patch may set it to a sentence.  Written as the reason of a condition it does not match the pattern
  of the schema, and every status update that should record the failure is invalid.
\<close>

fun invalid_write :: "event \<Rightarrow> bool" where
  "invalid_write (EvStatusUpdate a _) \<longleftrightarrow> \<not> valid_RemediationApprovalStatus (ra_Status a)"
| "invalid_write _ = True"

lemma emits_invalid_finish:
  assumes "\<not> condition_reason (sanitize reason 128)"
  shows "emits invalid_write (finishByName L E name phase result reason message)"
proof -
  have "gives invalid_write (\<lambda>st. \<not> valid_RemediationApprovalStatus st) (State_Monad.bind (call_now E) (\<lambda>now.
      State_Monad.return (status\<lparr>as_Phase := phase, as_Result := result,
        as_ObservedGeneration := generation, as_CompletedTime := Some now,
        as_Conditions := [completed_condition ''Completed'' (sanitize reason 128) (sanitize message 1024) now generation]\<rparr>)))"
    for status generation
    using assms
    by (intro gives_seq[OF emits_calls(1)] gives_return)
      (simp_all add: valid_RemediationApprovalStatus_def valid_conditions_def valid_Condition_def completed_condition_def)
  note mutate = emits_gives[OF gives_bind[OF this, where S = "\<lambda>_. True"]]
  show ?thesis
    unfolding finishByName_def updateStatus_def
    by (intro emits_RetryOnConflict emits_bind[OF emits_calls(3)] emits_case_sum emits_return mutate gives_emits)
      (auto intro!: emits_intro)
qed

theorem denied_reason_invalid:
  assumes "printable (ae_Reason err)" and "0 < length (ae_Reason err)" and "length (ae_Reason err) \<le> 128"
    and "\<not> condition_reason (ae_Reason err)" and "\<not> transient L (PlainError err)"
  shows "list_all invalid_write (added (after_failure L E r a err expires) log)"
proof (rule added_emits)
  have "errorReason (PlainError err) = ae_Reason err" "sanitize (ae_Reason err) 128 = ae_Reason err"
    using assms(1-3) by (auto simp: errorReason_def sanitize_printable)
  then have "emits invalid_write (finishByName L E name phase result (errorReason (PlainError err)) message)"
    for name phase result message
    using assms(4) by (intro emits_invalid_finish) simp
  then show "emits invalid_write (after_failure L E r a err expires)"
    unfolding after_failure_def using assms(5) by (simp add: emits_bind emits_return)
qed

theorem denied_reason_invalid_witness:
  "\<not> condition_reason ''not on Fridays''
   \<and> list_all invalid_write (added (after_failure sample_lib sample_env \<lparr>rec_maxAttempts = 3\<rparr> sample_approval
        ((errors_New ''denied'')\<lparr>ae_Reason := ''not on Fridays''\<rparr>) minute) [])"
proof -
  have r: "printable ''not on Fridays''" "\<not> condition_reason ''not on Fridays''" by code_simp+
  have "printable ''denied''" by code_simp
  then have l: "strings_ToLower (lib_ToLower sample_lib) ''denied'' = ''denied''"
    unfolding strings_ToLower_def using printable_runes[of "''denied''", symmetric] by (simp add: runes_printable)
  have t: "\<not> transient sample_lib (PlainError ((errors_New ''denied'')\<lparr>ae_Reason := ''not on Fridays''\<rparr>))"
    by (simp add: transient_def errors_New_def l)
  show ?thesis
    by (intro conjI r denied_reason_invalid t) (simp_all add: errors_New_def r)
qed

end
