(* ===== verification/Keyed_Locks.thy ===== *)
theory Keyed_Locks
  imports EG_Prelude
begin

text \<open>
  The per-target locks of the executor (\<open>keyedLocks\<close> in \<open>internal/executor/executor.go\<close>): a map from
  keys to reference-counted mutexes.  Many reconciliations run \<open>lock\<close> and the function it returns
  concurrently; \<open>locks.mu\<close> makes the parts under it atomic, so a thread goes through four steps:
  find or create the entry and count itself, take the entry's mutex, give it back, and uncount
  itself, deleting the entry when it was the last user.

  An entry is a pointer in the source.  Here it is an address, and the mutex and the counter of an
  entry live in functions of the address, so that an entry deleted under one thread and created
  again by another is a different one.
\<close>

section \<open>Invariants of transition systems\<close>

locale transition_system =
  fixes start :: 's
    and step :: "'s \<Rightarrow> 's \<Rightarrow> bool"
    and inv :: "'s \<Rightarrow> bool"
  assumes inv_start: "inv start"
    and inv_step: "inv s \<Longrightarrow> step s s' \<Longrightarrow> inv s'"
begin

lemma inv_reachable: "step\<^sup>*\<^sup>* start s \<Longrightarrow> inv s"
  by (induction rule: rtranclp_induct) (auto intro: inv_start inv_step)

end

section \<open>State\<close>

type_synonym thread = nat
type_synonym entry = nat

datatype pc = Idle | Waiting string entry | Holding string entry | Released string entry

record keyedLocks =
  kl_entries :: "(string \<times> entry) list"
  kl_users :: "entry \<Rightarrow> int"
  kl_owner :: "entry \<Rightarrow> thread option"
  kl_next :: entry
  kl_pc :: "thread \<Rightarrow> pc"

definition newKeyedLocks :: keyedLocks where
  "newKeyedLocks =
     \<lparr>kl_entries = [], kl_users = (\<lambda>_. 0), kl_owner = (\<lambda>_. None), kl_next = 0, kl_pc = (\<lambda>_. Idle)\<rparr>"

definition locks_size :: "keyedLocks \<Rightarrow> nat" where
  "locks_size l = length (kl_entries l)"

section \<open>Steps\<close>

text \<open>\<open>lock\<close> under \<open>locks.mu\<close>: find the entry or create one, count the user.\<close>

definition lock_enter :: "thread \<Rightarrow> string \<Rightarrow> keyedLocks \<Rightarrow> keyedLocks" where
  "lock_enter t key l =
     (case map_of (kl_entries l) key of
        Some e \<Rightarrow>
          l\<lparr>kl_users := (kl_users l)(e := kl_users l e + 1), kl_pc := (kl_pc l)(t := Waiting key e)\<rparr>
      | None \<Rightarrow>
          (let e = kl_next l
           in l\<lparr>kl_entries := AList.update key e (kl_entries l), kl_next := Suc e,
                kl_users := (kl_users l)(e := 1), kl_owner := (kl_owner l)(e := None),
                kl_pc := (kl_pc l)(t := Waiting key e)\<rparr>))"

text \<open>\<open>entry.mu.Lock()\<close>.\<close>

definition lock_acquire :: "thread \<Rightarrow> string \<Rightarrow> entry \<Rightarrow> keyedLocks \<Rightarrow> keyedLocks" where
  "lock_acquire t key e l =
     l\<lparr>kl_owner := (kl_owner l)(e := Some t), kl_pc := (kl_pc l)(t := Holding key e)\<rparr>"

text \<open>\<open>entry.mu.Unlock()\<close>, the first statement of the returned function.\<close>

definition unlock_release :: "thread \<Rightarrow> string \<Rightarrow> entry \<Rightarrow> keyedLocks \<Rightarrow> keyedLocks" where
  "unlock_release t key e l =
     l\<lparr>kl_owner := (kl_owner l)(e := None), kl_pc := (kl_pc l)(t := Released key e)\<rparr>"

text \<open>The rest of the returned function, under \<open>locks.mu\<close>.\<close>

definition unlock_leave :: "thread \<Rightarrow> string \<Rightarrow> entry \<Rightarrow> keyedLocks \<Rightarrow> keyedLocks" where
  "unlock_leave t key e l =
     (let users = kl_users l e - 1
      in l\<lparr>kl_users := (kl_users l)(e := users),
           kl_entries := (if users = 0 then AList.delete key (kl_entries l) else kl_entries l),
           kl_pc := (kl_pc l)(t := Idle)\<rparr>)"

inductive lock_step :: "keyedLocks \<Rightarrow> keyedLocks \<Rightarrow> bool" where
  enter: "kl_pc l t = Idle \<Longrightarrow> lock_step l (lock_enter t key l)"
| acquire: "kl_pc l t = Waiting key e \<Longrightarrow> kl_owner l e = None \<Longrightarrow> lock_step l (lock_acquire t key e l)"
| release: "kl_pc l t = Holding key e \<Longrightarrow> lock_step l (unlock_release t key e l)"
| leave: "kl_pc l t = Released key e \<Longrightarrow> lock_step l (unlock_leave t key e l)"

inductive_cases lock_stepE: "lock_step l l'"

section \<open>Invariant\<close>

fun uses :: "pc \<Rightarrow> (string \<times> entry) option" where
  "uses Idle = None"
| "uses (Waiting k e) = Some (k, e)"
| "uses (Holding k e) = Some (k, e)"
| "uses (Released k e) = Some (k, e)"

abbreviation users_of :: "(thread \<Rightarrow> pc) \<Rightarrow> string \<times> entry \<Rightarrow> thread set" where
  "users_of pc ke \<equiv> {t. uses (pc t) = Some ke}"

text \<open>
  Keys and entries correspond one to one; an entry in the map has users, and its counter counts them;
  a thread between \<open>lock\<close> and the end of \<open>unlock\<close> finds its entry in the map; a thread holds a key
  exactly when it owns the mutex of the key's entry.
\<close>

definition locks_inv ::
  "(string \<times> entry) list \<Rightarrow> (entry \<Rightarrow> int) \<Rightarrow> (entry \<Rightarrow> thread option) \<Rightarrow> entry \<Rightarrow> (thread \<Rightarrow> pc) \<Rightarrow> bool" where
  "locks_inv entries users owner nxt pc \<longleftrightarrow>
     distinct (map fst entries) \<and> distinct (map snd entries)
     \<and> (\<forall>ke\<in>set entries. snd ke < nxt \<and> finite (users_of pc ke) \<and> users_of pc ke \<noteq> {}
          \<and> users (snd ke) = int (card (users_of pc ke)))
     \<and> (\<forall>t ke. uses (pc t) = Some ke \<longrightarrow> ke \<in> set entries)
     \<and> (\<forall>t k e. pc t = Holding k e \<longleftrightarrow> (k, e) \<in> set entries \<and> owner e = Some t)"

definition locks_ok :: "keyedLocks \<Rightarrow> bool" where
  "locks_ok l \<longleftrightarrow> locks_inv (kl_entries l) (kl_users l) (kl_owner l) (kl_next l) (kl_pc l)"

lemma locks_invI:
  assumes "distinct (map fst entries)" "distinct (map snd entries)"
    and "\<And>ke. ke \<in> set entries \<Longrightarrow> snd ke < nxt"
    and "\<And>ke. ke \<in> set entries \<Longrightarrow> finite (users_of pc ke)"
    and "\<And>ke. ke \<in> set entries \<Longrightarrow> users_of pc ke \<noteq> {}"
    and "\<And>ke. ke \<in> set entries \<Longrightarrow> users (snd ke) = int (card (users_of pc ke))"
    and "\<And>t ke. uses (pc t) = Some ke \<Longrightarrow> ke \<in> set entries"
    and "\<And>t k e. pc t = Holding k e \<longleftrightarrow> (k, e) \<in> set entries \<and> owner e = Some t"
  shows "locks_inv entries users owner nxt pc"
  unfolding locks_inv_def using assms by blast

lemma locks_invD:
  assumes "locks_inv entries users owner nxt pc"
  shows "distinct (map fst entries)" "distinct (map snd entries)"
    and "\<And>ke. ke \<in> set entries \<Longrightarrow> snd ke < nxt"
    and "\<And>ke. ke \<in> set entries \<Longrightarrow> finite (users_of pc ke)"
    and "\<And>ke. ke \<in> set entries \<Longrightarrow> users_of pc ke \<noteq> {}"
    and "\<And>ke. ke \<in> set entries \<Longrightarrow> users (snd ke) = int (card (users_of pc ke))"
    and "\<And>t ke. uses (pc t) = Some ke \<Longrightarrow> ke \<in> set entries"
    and "\<And>t k e. pc t = Holding k e \<longleftrightarrow> (k, e) \<in> set entries \<and> owner e = Some t"
  using assms unfolding locks_inv_def by blast+

lemma locks_ok_new: "locks_ok newKeyedLocks"
  by (simp add: locks_ok_def locks_inv_def newKeyedLocks_def)

text \<open>How the users of an entry change when one thread moves.\<close>

lemma users_move:
  "users_of (pc(t := p)) ke = (if uses p = Some ke then insert t (users_of pc ke) else users_of pc ke - {t})"
  by auto

lemma same_entry:
  assumes "locks_inv entries users owner nxt pc" "(k, e) \<in> set entries" "(k', e') \<in> set entries" "k = k' \<or> e = e'"
  shows "k = k' \<and> e = e'"
proof -
  have "inj_on fst (set entries)" "inj_on snd (set entries)"
    using locks_invD(1,2)[OF assms(1)] by (auto simp: distinct_map)
  then show ?thesis using assms(2-4) by (metis fst_conv inj_onD snd_conv)
qed

lemma other_entry:
  assumes "locks_inv entries users owner nxt pc" "(k, e) \<in> set entries" "ke \<in> set entries" "ke \<noteq> (k, e)"
  shows "snd ke \<noteq> e" "fst ke \<noteq> k"
  using same_entry[OF assms(1,2), of "fst ke" "snd ke"] assms(3,4) by (cases ke, force)+

text \<open>
  Taking and giving back the mutex: the thread keeps its entry, so only the owner matters.
\<close>

lemma locks_inv_keep:
  assumes ok: "locks_inv entries users owner nxt pc" and at: "uses (pc t) = Some (k, e)" and keep: "uses p = Some (k, e)"
    and owner: "\<And>u k' e'. (pc(t := p)) u = Holding k' e' \<longleftrightarrow> (k', e') \<in> set entries \<and> owner' e' = Some u"
  shows "locks_inv entries users owner' nxt (pc(t := p))"
proof -
  have users: "users_of (pc(t := p)) ke = users_of pc ke" for ke
    using at keep by auto
  have refs: "ke \<in> set entries" if "uses ((pc(t := p)) u) = Some ke" for u ke
    using that locks_invD(7)[OF ok, of u ke] locks_invD(7)[OF ok at] keep by (cases "u = t") auto
  show ?thesis
    unfolding locks_inv_def users using ok[unfolded locks_inv_def] refs owner by blast
qed

lemma locks_inv_acquire:
  assumes ok: "locks_inv entries users owner nxt pc" and at: "pc t = Waiting k e" and free: "owner e = None"
  shows "locks_inv entries users (owner(e := Some t)) nxt (pc(t := Holding k e))"
proof (rule locks_inv_keep[OF ok])
  fix u k' e'
  have ke: "(k, e) \<in> set entries" by (rule locks_invD(7)[OF ok, of t]) (simp add: at)
  show "(pc(t := Holding k e)) u = Holding k' e' \<longleftrightarrow> (k', e') \<in> set entries \<and> (owner(e := Some t)) e' = Some u"
    using ke locks_invD(8)[OF ok, of u k' e'] free at same_entry[OF ok ke, of k' e'] by auto
qed (use at in simp_all)

lemma locks_inv_release:
  assumes ok: "locks_inv entries users owner nxt pc" and at: "pc t = Holding k e"
  shows "locks_inv entries users (owner(e := None)) nxt (pc(t := Released k e))"
proof (rule locks_inv_keep[OF ok])
  fix u k' e'
  show "(pc(t := Released k e)) u = Holding k' e' \<longleftrightarrow> (k', e') \<in> set entries \<and> (owner(e := None)) e' = Some u"
    using locks_invD(8)[OF ok, of u k' e'] locks_invD(8)[OF ok, of t k e] at same_entry[OF ok, of k e k' e'] by auto
qed (use at in simp_all)

lemma locks_inv_enter_old:
  assumes ok: "locks_inv entries users owner nxt pc" and idle: "pc t = Idle" and e: "(k, e) \<in> set entries"
  shows "locks_inv entries (users(e := users e + 1)) owner nxt (pc(t := Waiting k e))"
proof (rule locks_invI)
  have fresh: "t \<notin> users_of pc ke" for ke using idle by simp
  show "distinct (map fst entries)" by (rule locks_invD(1)[OF ok])
  show "distinct (map snd entries)" by (rule locks_invD(2)[OF ok])
  fix ke u k' e'
  { assume ke: "ke \<in> set entries"
    show "snd ke < nxt" by (rule locks_invD(3)[OF ok ke])
    show "finite (users_of (pc(t := Waiting k e)) ke)"
      unfolding users_move using locks_invD(4)[OF ok ke] by simp
    show "users_of (pc(t := Waiting k e)) ke \<noteq> {}"
      unfolding users_move using locks_invD(5)[OF ok ke] fresh[of ke] by auto
    show "(users(e := users e + 1)) (snd ke) = int (card (users_of (pc(t := Waiting k e)) ke))"
      unfolding users_move using locks_invD(4,6)[OF ok ke] fresh[of ke] other_entry(1)[OF ok e ke]
      by (cases "ke = (k, e)") simp_all }
  show "uses ((pc(t := Waiting k e)) u) = Some ke \<Longrightarrow> ke \<in> set entries"
    using e locks_invD(7)[OF ok, of u ke] by (cases "u = t") auto
  show "(pc(t := Waiting k e)) u = Holding k' e' \<longleftrightarrow> (k', e') \<in> set entries \<and> owner e' = Some u"
    using idle locks_invD(8)[OF ok, of u k' e'] by (cases "u = t") simp_all
qed

lemma locks_inv_enter_new:
  assumes ok: "locks_inv entries users owner nxt pc" and idle: "pc t = Idle" and new: "map_of entries k = None"
  shows "locks_inv (entries @ [(k, nxt)]) (users(nxt := 1)) (owner(nxt := None)) (Suc nxt) (pc(t := Waiting k nxt))"
proof (rule locks_invI)
  have fresh: "t \<notin> users_of pc ke" for ke using idle by simp
  have small: "ke \<in> set entries \<Longrightarrow> snd ke < nxt" for ke by (rule locks_invD(3)[OF ok])
  have none: "users_of pc (k, nxt) = {}" using locks_invD(7)[OF ok] small by force
  show "distinct (map fst (entries @ [(k, nxt)]))" "distinct (map snd (entries @ [(k, nxt)]))"
    using locks_invD(1,2)[OF ok] new small by (force simp: map_of_eq_None_iff)+
  fix ke u k' e'
  { assume "ke \<in> set (entries @ [(k, nxt)])"
    then have ke: "ke = (k, nxt) \<or> ke \<in> set entries \<and> ke \<noteq> (k, nxt) \<and> snd ke \<noteq> nxt"
      using small[of ke] by (auto simp del: in_set_conv_decomp)
    then show "snd ke < Suc nxt" using small[of ke] by auto
    show "finite (users_of (pc(t := Waiting k nxt)) ke)" "users_of (pc(t := Waiting k nxt)) ke \<noteq> {}"
      "(users(nxt := 1)) (snd ke) = int (card (users_of (pc(t := Waiting k nxt)) ke))"
      unfolding users_move using ke none fresh[of ke] locks_invD(4-6)[OF ok, of ke] by auto }
  show "uses ((pc(t := Waiting k nxt)) u) = Some ke \<Longrightarrow> ke \<in> set (entries @ [(k, nxt)])"
    using locks_invD(7)[OF ok, of u ke] by (cases "u = t") auto
  show "(pc(t := Waiting k nxt)) u = Holding k' e' \<longleftrightarrow>
      (k', e') \<in> set (entries @ [(k, nxt)]) \<and> (owner(nxt := None)) e' = Some u"
    using idle locks_invD(8)[OF ok, of u k' e'] small[of "(k', e')"] by auto
qed

text \<open>The last user deletes the entry; any other leaves it to the remaining ones.\<close>

lemma locks_inv_leave_last:
  assumes ok: "locks_inv entries users owner nxt pc" and at: "pc t = Released k e" and last: "users_of pc (k, e) = {t}"
  shows "locks_inv (AList.delete k entries) (users(e := 0)) owner nxt (pc(t := Idle))"
proof -
  have ke: "(k, e) \<in> set entries" by (rule locks_invD(7)[OF ok, of t]) (simp add: at)
  have keep: "ke \<in> set (AList.delete k entries) \<longleftrightarrow> ke \<in> set entries \<and> ke \<noteq> (k, e)" for ke
    using other_entry(2)[OF ok ke, of ke] by (cases ke) (auto simp: AList.delete_eq)
  have only: "uses (pc u) = Some (k, e) \<Longrightarrow> u = t" for u using last by blast
  have users: "users_of (pc(t := Idle)) ke = users_of pc ke" if "ke \<noteq> (k, e)" for ke
    unfolding users_move using that at by auto
  show ?thesis
  proof (rule locks_invI)
    show "distinct (map fst (AList.delete k entries))" "distinct (map snd (AList.delete k entries))"
      using locks_invD(1,2)[OF ok] by (simp_all add: AList.delete_eq distinct_map_filter)
    fix ke u k' e'
    { assume "ke \<in> set (AList.delete k entries)"
      then have "ke \<in> set entries" and ne: "ke \<noteq> (k, e)" by (simp_all add: keep)
      moreover have "snd ke \<noteq> e" using other_entry(1)[OF ok ke] calculation by blast
      ultimately show "snd ke < nxt" "finite (users_of (pc(t := Idle)) ke)" "users_of (pc(t := Idle)) ke \<noteq> {}"
        "(users(e := 0)) (snd ke) = int (card (users_of (pc(t := Idle)) ke))"
        unfolding users[OF ne] using locks_invD(3-6)[OF ok, of ke] by simp_all }
    show "uses ((pc(t := Idle)) u) = Some ke \<Longrightarrow> ke \<in> set (AList.delete k entries)"
      unfolding keep using locks_invD(7)[OF ok, of u ke] only[of u] by (cases "u = t") auto
    show "(pc(t := Idle)) u = Holding k' e' \<longleftrightarrow> (k', e') \<in> set (AList.delete k entries) \<and> owner e' = Some u"
    proof (cases "u = t")
      case True
      then show ?thesis
        unfolding keep using locks_invD(8)[OF ok, of t k' e'] at by simp
    next
      case False
      then have "pc u \<noteq> Holding k e" using only[of u] by auto
      then show ?thesis
        unfolding keep using False locks_invD(8)[OF ok, of u k' e'] by auto
    qed
  qed
qed

lemma locks_inv_leave_shared:
  assumes ok: "locks_inv entries users owner nxt pc" and at: "pc t = Released k e" and more: "users_of pc (k, e) \<noteq> {t}"
  shows "locks_inv entries (users(e := users e - 1)) owner nxt (pc(t := Idle))"
proof -
  have ke: "(k, e) \<in> set entries" by (rule locks_invD(7)[OF ok, of t]) (simp add: at)
  have t: "t \<in> users_of pc (k, e)" using at by simp
  have fin: "finite (users_of pc (k, e))" by (rule locks_invD(4)[OF ok ke])
  have card: "int (card (users_of pc (k, e) - {t})) = users e - 1"
    using locks_invD(6)[OF ok ke] card_Suc_Diff1[OF fin t] by simp
  have users: "users_of (pc(t := Idle)) ke = users_of pc ke - {t}" for ke unfolding users_move by simp
  show ?thesis
  proof (rule locks_invI)
    show "distinct (map fst entries)" by (rule locks_invD(1)[OF ok])
    show "distinct (map snd entries)" by (rule locks_invD(2)[OF ok])
    fix ke u k' e'
    { assume m: "ke \<in> set entries"
      show "snd ke < nxt" by (rule locks_invD(3)[OF ok m])
      show "finite (users_of (pc(t := Idle)) ke)" unfolding users using locks_invD(4)[OF ok m] by simp
      have other: "t \<notin> users_of pc ke" "snd ke \<noteq> e" if "ke \<noteq> (k, e)"
        using that at other_entry(1)[OF ok ke m] by auto
      show "users_of (pc(t := Idle)) ke \<noteq> {}"
      proof (cases "ke = (k, e)")
        case True
        then show ?thesis unfolding users using more t by blast
      next
        case False
        then show ?thesis unfolding users using other(1) locks_invD(5)[OF ok m] by blast
      qed
      show "(users(e := users e - 1)) (snd ke) = int (card (users_of (pc(t := Idle)) ke))"
      proof (cases "ke = (k, e)")
        case True
        then show ?thesis unfolding users using card by simp
      next
        case False
        then have "users_of pc ke - {t} = users_of pc ke" using other(1) by blast
        then show ?thesis unfolding users using other(2)[OF False] locks_invD(6)[OF ok m] by simp
      qed }
    show "uses ((pc(t := Idle)) u) = Some ke \<Longrightarrow> ke \<in> set entries"
      using locks_invD(7)[OF ok, of u ke] by (cases "u = t") simp_all
    show "(pc(t := Idle)) u = Holding k' e' \<longleftrightarrow> (k', e') \<in> set entries \<and> owner e' = Some u"
      using locks_invD(8)[OF ok, of u k' e'] at by (cases "u = t") simp_all
  qed
qed

lemma locks_ok_step: "locks_ok l \<Longrightarrow> lock_step l l' \<Longrightarrow> locks_ok l'"
proof (erule lock_stepE)
  fix t key assume ok: "locks_ok l" and l': "l' = lock_enter t key l" and idle: "kl_pc l t = Idle"
  show "locks_ok l'"
  proof (cases "map_of (kl_entries l) key")
    case None
    then show ?thesis using locks_inv_enter_new[OF ok[unfolded locks_ok_def] idle None]
      by (simp add: l' lock_enter_def locks_ok_def update_fresh Let_def)
  next
    case (Some e)
    then show ?thesis using locks_inv_enter_old[OF ok[unfolded locks_ok_def] idle map_of_SomeD[OF Some]]
      by (simp add: l' lock_enter_def locks_ok_def)
  qed
next
  fix t key e assume ok: "locks_ok l" and l': "l' = unlock_leave t key e l" and at: "kl_pc l t = Released key e"
  have ke: "(key, e) \<in> set (kl_entries l)" by (rule locks_invD(7)[OF ok[unfolded locks_ok_def], of t]) (simp add: at)
  have card: "kl_users l e = int (card (users_of (kl_pc l) (key, e)))" "finite (users_of (kl_pc l) (key, e))"
    using locks_invD(4,6)[OF ok[unfolded locks_ok_def] ke] by simp_all
  have t: "t \<in> users_of (kl_pc l) (key, e)" using at by simp
  show "locks_ok l'"
  proof (cases "users_of (kl_pc l) (key, e) = {t}")
    case True
    then have "kl_users l e = 1" using card by simp
    then show ?thesis using locks_inv_leave_last[OF ok[unfolded locks_ok_def] at True]
      by (simp add: l' unlock_leave_def locks_ok_def)
  next
    case False
    then have "kl_users l e \<noteq> 1" using card t by (metis card_1_singletonE of_nat_eq_1_iff singletonD)
    then show ?thesis using locks_inv_leave_shared[OF ok[unfolded locks_ok_def] at False]
      by (simp add: l' unlock_leave_def locks_ok_def Let_def)
  qed
qed (simp_all add: locks_ok_def lock_acquire_def unlock_release_def locks_inv_acquire locks_inv_release)

interpretation locks: transition_system newKeyedLocks lock_step locks_ok
  by unfold_locales (fact locks_ok_new, fact locks_ok_step)

section \<open>Properties\<close>

text \<open>
  C8.  Mutual exclusion and no leak: in every reachable state, at most one thread holds a key; a thread
  waits, holds or releases through the entry the map has for its key; and the map has exactly the
  keys that some thread is using, so it is empty again when all threads are done.
\<close>

theorem keyed_locks_exclusive:
  assumes "lock_step\<^sup>*\<^sup>* newKeyedLocks l"
  shows "(kl_pc l t = Holding k e \<and> kl_pc l u = Holding k e' \<longrightarrow> t = u)
    \<and> (\<forall>v k' e'. uses (kl_pc l v) = Some (k', e') \<longrightarrow> map_of (kl_entries l) k' = Some e')
    \<and> fst ` set (kl_entries l) = {k'. \<exists>v e'. uses (kl_pc l v) = Some (k', e')}
    \<and> ((\<forall>v. kl_pc l v = Idle) \<longrightarrow> locks_size l = 0)"
proof -
  have ok: "locks_inv (kl_entries l) (kl_users l) (kl_owner l) (kl_next l) (kl_pc l)"
    using locks.inv_reachable[OF assms] by (simp add: locks_ok_def)
  have refs: "\<exists>v. uses (kl_pc l v) = Some ke" if "ke \<in> set (kl_entries l)" for ke
    using locks_invD(5)[OF ok that] by blast
  have "kl_pc l t = Holding k e \<and> kl_pc l u = Holding k e' \<longrightarrow> t = u"
    using locks_invD(8)[OF ok] same_entry[OF ok] by (metis option.inject)
  moreover have "uses (kl_pc l v) = Some (k', e') \<longrightarrow> map_of (kl_entries l) k' = Some e'" for v k' e'
    using locks_invD(1,7)[OF ok] by simp
  moreover have "fst ` set (kl_entries l) = {k'. \<exists>v e'. uses (kl_pc l v) = Some (k', e')}"
    using refs locks_invD(7)[OF ok] by force
  moreover have "(\<forall>v. kl_pc l v = Idle) \<longrightarrow> locks_size l = 0"
  proof
    assume "\<forall>v. kl_pc l v = Idle"
    then have "set (kl_entries l) = {}" using refs by fastforce
    then show "locks_size l = 0" by (simp add: locks_size_def)
  qed
  ultimately show ?thesis by blast
qed

theorem keyed_locks_exclusive_witness:
  "\<exists>l. lock_step\<^sup>*\<^sup>* newKeyedLocks l \<and> kl_pc l 1 = Holding ''k'' 0 \<and> kl_pc l 2 = Waiting ''k'' 0
     \<and> map_of (kl_entries l) ''k'' = Some 0"
proof -
  let ?l1 = "lock_enter 1 ''k'' newKeyedLocks"
  let ?l2 = "lock_enter 2 ''k'' ?l1"
  let ?l3 = "lock_acquire 1 ''k'' 0 ?l2"
  have facts: "kl_pc newKeyedLocks 1 = Idle" "kl_pc ?l1 2 = Idle" "kl_pc ?l2 1 = Waiting ''k'' 0" "kl_owner ?l2 0 = None"
    "kl_pc ?l3 1 = Holding ''k'' 0" "kl_pc ?l3 2 = Waiting ''k'' 0"
    by (simp_all add: newKeyedLocks_def lock_enter_def lock_acquire_def Let_def)
  have "lock_step newKeyedLocks ?l1" by (rule enter[OF facts(1)])
  moreover have "lock_step ?l1 ?l2" by (rule enter[OF facts(2)])
  moreover have "lock_step ?l2 ?l3" by (rule acquire[OF facts(3,4)])
  ultimately have reach: "lock_step\<^sup>*\<^sup>* newKeyedLocks ?l3"
    by (meson converse_rtranclp_into_rtranclp rtranclp.rtrancl_refl)
  have "map_of (kl_entries ?l3) ''k'' = Some 0"
    using keyed_locks_exclusive[OF reach] facts(5) uses.simps(3) by metis
  then show ?thesis using reach facts(5,6) by blast
qed

end
