(* ===== verification/Sha256.thy ===== *)
theory Sha256
  imports Go_Runtime
begin

text \<open>
  SHA-256 (FIPS 180-4), the digest \<open>crypto/sha256\<close> computes, over byte sequences.  Finding and
  action identifiers are the hexadecimal form of this digest.  Nothing is assumed about the
  function: statements about identifiers are either about its output format or say that two
  different inputs with the same identifier are a collision of it.
\<close>

unbundle bit_operations_syntax

type_synonym u32 = "32 word"

section \<open>Constants and round functions\<close>

definition sha256_K :: "u32 list" where
  "sha256_K =
    [1116352408, 1899447441, 3049323471, 3921009573, 961987163, 1508970993, 2453635748, 2870763221,
     3624381080, 310598401, 607225278, 1426881987, 1925078388, 2162078206, 2614888103, 3248222580,
     3835390401, 4022224774, 264347078, 604807628, 770255983, 1249150122, 1555081692, 1996064986,
     2554220882, 2821834349, 2952996808, 3210313671, 3336571891, 3584528711, 113926993, 338241895,
     666307205, 773529912, 1294757372, 1396182291, 1695183700, 1986661051, 2177026350, 2456956037,
     2730485921, 2820302411, 3259730800, 3345764771, 3516065817, 3600352804, 4094571909, 275423344,
     430227734, 506948616, 659060556, 883997877, 958139571, 1322822218, 1537002063, 1747873779,
     1955562222, 2024104815, 2227730452, 2361852424, 2428436474, 2756734187, 3204031479, 3329325298]"

definition sha256_H0 :: "u32 list" where
  "sha256_H0 = [1779033703, 3144134277, 1013904242, 2773480762, 1359893119, 2600822924, 528734635, 1541459225]"

definition Ch :: "u32 \<Rightarrow> u32 \<Rightarrow> u32 \<Rightarrow> u32" where
  "Ch x y z = (x AND y) XOR (NOT x AND z)"

definition Maj :: "u32 \<Rightarrow> u32 \<Rightarrow> u32 \<Rightarrow> u32" where
  "Maj x y z = (x AND y) XOR (x AND z) XOR (y AND z)"

definition Sigma0 :: "u32 \<Rightarrow> u32" where
  "Sigma0 x = word_rotr 2 x XOR word_rotr 13 x XOR word_rotr 22 x"

definition Sigma1 :: "u32 \<Rightarrow> u32" where
  "Sigma1 x = word_rotr 6 x XOR word_rotr 11 x XOR word_rotr 25 x"

definition sigma0 :: "u32 \<Rightarrow> u32" where
  "sigma0 x = word_rotr 7 x XOR word_rotr 18 x XOR drop_bit 3 x"

definition sigma1 :: "u32 \<Rightarrow> u32" where
  "sigma1 x = word_rotr 17 x XOR word_rotr 19 x XOR drop_bit 10 x"

section \<open>Padding, schedule, compression\<close>

text \<open>The \<open>n\<close> low bytes of a number, most significant first.\<close>

fun be_bytes :: "nat \<Rightarrow> nat \<Rightarrow> nat list" where
  "be_bytes 0 x = []"
| "be_bytes (Suc n) x = be_bytes n (x div 256) @ [x mod 256]"

definition sha256_pad :: "nat list \<Rightarrow> nat list" where
  "sha256_pad m =
     m @ [0x80] @ replicate ((119 - length m mod 64) mod 64) 0 @ be_bytes 8 (8 * length m)"

fun words_be :: "nat list \<Rightarrow> u32 list" where
  "words_be (a # b # c # d # rest) =
     word_of_nat (a * 16777216 + b * 65536 + c * 256 + d) # words_be rest"
| "words_be _ = []"

text \<open>The schedule, kept in reverse: the newest word first.\<close>

fun schedule_rev :: "nat \<Rightarrow> u32 list \<Rightarrow> u32 list" where
  "schedule_rev 0 ws = ws"
| "schedule_rev (Suc n) ws =
     schedule_rev n ((sigma1 (ws ! 1) + ws ! 6 + sigma0 (ws ! 14) + ws ! 15) # ws)"

definition message_schedule :: "u32 list \<Rightarrow> u32 list" where
  "message_schedule block = rev (schedule_rev 48 (rev block))"

fun sha256_round :: "u32 list \<Rightarrow> u32 \<times> u32 \<Rightarrow> u32 list" where
  "sha256_round [a, b, c, d, e, f, g, h] (k, w) =
     (let t1 = h + Sigma1 e + Ch e f g + k + w; t2 = Sigma0 a + Maj a b c
      in [t1 + t2, a, b, c, d + t1, e, f, g])"
| "sha256_round st kw = st"

definition compress :: "u32 list \<Rightarrow> u32 list \<Rightarrow> u32 list" where
  "compress hs block =
     map2 (+) hs (foldl sha256_round hs (zip sha256_K (message_schedule block)))"

fun sha256_blocks :: "u32 list \<Rightarrow> u32 list \<Rightarrow> u32 list" where
  "sha256_blocks hs ws =
     (if length ws < 16 then hs else sha256_blocks (compress hs (take 16 ws)) (drop 16 ws))"

declare sha256_blocks.simps [simp del]

definition sha256 :: "nat list \<Rightarrow> u32 list" where
  "sha256 m = sha256_blocks sha256_H0 (words_be (sha256_pad m))"

text \<open>\<open>hex.EncodeToString\<close> of the digest.\<close>

definition sha256_hex :: "nat list \<Rightarrow> string" where
  "sha256_hex m = concat (map (\<lambda>w. hex_digits 8 (unat w)) (sha256 m))"

section \<open>The form of a digest\<close>

lemma length_sha256_round: "length (sha256_round st kw) = length st"
  by (cases "(st, kw)" rule: sha256_round.cases) (auto simp: Let_def)

lemma length_fold_round: "length (foldl sha256_round st kws) = length st"
  by (induction kws arbitrary: st) (simp_all add: length_sha256_round)

lemma length_compress: "length (compress hs block) = length hs"
  by (simp add: compress_def length_fold_round)

lemma length_sha256_blocks: "length (sha256_blocks hs ws) = length hs"
proof (induction hs ws rule: sha256_blocks.induct)
  case (1 hs ws)
  then show ?case by (subst sha256_blocks.simps) (simp add: length_compress)
qed

lemma length_sha256: "length (sha256 m) = 8"
  by (simp add: sha256_def length_sha256_blocks sha256_H0_def)

lemma length_hex_digits [simp]: "length (hex_digits n x) = n"
  by (induction n arbitrary: x) auto

lemma length_sha256_hex: "length (sha256_hex m) = 64"
proof -
  have "length (concat (map (\<lambda>w. hex_digits 8 (unat w)) ws)) = 8 * length ws" for ws :: "u32 list"
    by (induction ws) auto
  then show ?thesis by (simp add: sha256_hex_def length_sha256)
qed

lemma hex_digit_chars:
  assumes "d < 16"
  shows "hex_digit d \<in> set ''0123456789abcdef''"
proof -
  have "list_all (\<lambda>d. List.member ''0123456789abcdef'' (hex_digit d)) [0..<16]" by code_simp
  then show ?thesis using assms by (simp only: list_all_iff List.member_iff set_upt) simp
qed

lemma hex_digits_chars:
  assumes "\<And>d. d < 16 \<Longrightarrow> hex_digit d \<in> C"
  shows "set (hex_digits n x) \<subseteq> C"
  using assms by (induction n arbitrary: x) auto

lemma sha256_hex_chars: "set (sha256_hex m) \<subseteq> set ''0123456789abcdef''"
  proof -
  define C where "C = set ''0123456789abcdef''"
  have "set (hex_digits n x) \<subseteq> C" for n x
    unfolding C_def by (rule hex_digits_chars[OF hex_digit_chars])
  then show ?thesis unfolding C_def[symmetric] sha256_hex_def by auto
qed

end
