(* ===== verification/Evidence.thy ===== *)
theory Evidence
  imports Policy Sha256
begin

text \<open>
  The evidence of a diagnosis (\<open>internal/diagnosis/engine.go\<close>): identifiers of findings and actions,
  the collector that keeps them within the budget of a status, and the order in which they are
  reported.
\<close>

section \<open>Identifiers\<close>

definition maxPersistedEvidenceBytes :: nat where "maxPersistedEvidenceBytes = 384 * 1024"
definition maxPersistedFindings :: nat where "maxPersistedFindings = 512"
definition maxPersistedActions :: nat where "maxPersistedActions = 256"

text \<open>The parts are hashed one after the other, with a zero byte between two parts.\<close>

definition digest :: "string list \<Rightarrow> string" where
  "digest parts = sha256_hex (byte_vals (strings_Join parts [CHR 0x00]))"

definition findingParts :: "Finding \<Rightarrow> string list" where
  "findingParts f =
     [f_Type f, f_Message f, f_Finalizer f, f_APIService f, f_Webhook f]
     @ (case f_ResourceRef f of
          None \<Rightarrow> []
        | Some r \<Rightarrow> [tr_APIGroup r, tr_Version r, tr_Resource r, tr_Namespace r, tr_Name r, tr_UID r])
     @ (case f_ControllerRef f of
          None \<Rightarrow> []
        | Some c \<Rightarrow> [cr_APIVersion c, cr_Kind c, cr_Namespace c, cr_Name c])
     @ (case f_Count f of None \<Rightarrow> [] | Some n \<Rightarrow> [itoa n])
     @ [format_bool (f_Truncated f)]"

definition findingID :: "Finding \<Rightarrow> string" where
  "findingID f = ''finding-'' @ digest (findingParts f)"

definition actionID :: "RemediationActionType \<Rightarrow> UID \<Rightarrow> string \<Rightarrow> string \<Rightarrow> UID \<Rightarrow> int \<Rightarrow> string" where
  "actionID actionType uid finalizer resourceVersion policyUID policyGeneration =
     ''action-'' @ digest [actionType, uid, finalizer, resourceVersion, policyUID, itoa policyGeneration]"

definition truncateRunes :: "string \<Rightarrow> nat \<Rightarrow> string" where
  "truncateRunes v maximum =
     (let rs = runes_of_string v
      in if length rs \<le> maximum then v else string_of_runes (take maximum rs))"

definition sortedCopy :: "string list \<Rightarrow> string list" where
  "sortedCopy values = sort values"

definition targetReference :: "TargetReference \<Rightarrow> string \<Rightarrow> string \<Rightarrow> UID \<Rightarrow> TargetReference" where
  "targetReference base namespace name uid = base\<lparr>tr_Namespace := namespace, tr_Name := name, tr_UID := uid\<rparr>"

text \<open>\<open>newAction\<close> dereferences the policy, which \<open>Diagnose\<close> has checked before.\<close>

definition newAction ::
  "CompiledPolicy \<Rightarrow> RemediationActionType \<Rightarrow> TargetReference \<Rightarrow> string \<Rightarrow> string \<Rightarrow> string \<Rightarrow> RemediationAction" where
  "newAction policy actionType target finalizer resourceVersion reason =
     (let (eligible, ineligibleReason) = ActionEligibility (Some policy) actionType finalizer
      in \<lparr>a_ID = actionID actionType (tr_UID target) finalizer resourceVersion (cp_uid policy) (cp_generation policy),
          a_Type = actionType, a_Risk = RiskFor actionType finalizer, a_Target = target, a_Finalizer = finalizer,
          a_Eligible = eligible, a_IneligibleReason = ineligibleReason,
          a_PreconditionResourceVersion = resourceVersion, a_Reason = reason\<rparr>)"

section \<open>The collector\<close>

record collector =
  c_policy :: CompiledPolicy
  c_findings :: "(string \<times> Finding) list"
  c_actions :: "(string \<times> RemediationAction) list"
  c_persistedBytes :: nat
  c_omittedFindings :: nat
  c_omittedActions :: nat

definition newCollector :: "CompiledPolicy \<Rightarrow> collector" where
  "newCollector policy =
     \<lparr>c_policy = policy, c_findings = [], c_actions = [], c_persistedBytes = 0,
      c_omittedFindings = 0, c_omittedActions = 0\<rparr>"

text \<open>
  \<open>jsonSizeWriter.encodedSize\<close>: the count starts at minus one and \<open>Encode\<close> adds a newline, so the
  result is the length of the JSON text.
\<close>

definition encodedSize :: "json \<Rightarrow> nat" where
  "encodedSize v = nat (- 1 + int (length (json_text v @ [CHR 0x0A])))"

definition addFinding :: "Finding \<Rightarrow> collector \<Rightarrow> collector" where
  "addFinding finding c =
     (let f0 = finding\<lparr>f_Message := truncateRunes (f_Message finding) 1024\<rparr>;
          f = f0\<lparr>f_ID := findingID f0\<rparr>
      in case map_of (c_findings c) (f_ID f) of
        Some _ \<Rightarrow> c
      | None \<Rightarrow>
          let size = encodedSize (Finding_json f)
          in if length (c_findings c) \<ge> maxPersistedFindings
                \<or> c_persistedBytes c + size > maxPersistedEvidenceBytes
             then c\<lparr>c_omittedFindings := Suc (c_omittedFindings c)\<rparr>
             else c\<lparr>c_persistedBytes := c_persistedBytes c + size,
                     c_findings := AList.update (f_ID f) f (c_findings c)\<rparr>)"

definition addAction :: "RemediationAction \<Rightarrow> collector \<Rightarrow> collector" where
  "addAction action c =
     (case map_of (c_actions c) (a_ID action) of
        Some _ \<Rightarrow> c
      | None \<Rightarrow>
          let size = encodedSize (RemediationAction_json action)
          in if length (c_actions c) \<ge> maxPersistedActions
                \<or> c_persistedBytes c + size > maxPersistedEvidenceBytes
             then c\<lparr>c_omittedActions := Suc (c_omittedActions c)\<rparr>
             else c\<lparr>c_persistedBytes := c_persistedBytes c + size,
                     c_actions := AList.update (a_ID action) action (c_actions c)\<rparr>)"

definition overflow_summary :: "nat \<Rightarrow> Finding" where
  "overflow_summary omitted =
     (let f = zero_Finding\<lparr>f_Type := FindingUnknown,
                f_Message := ''diagnostic evidence exceeded the persisted status budget'',
                f_Count := Some (wrap32 (int omitted)), f_Truncated := True\<rparr>
      in f\<lparr>f_ID := findingID f\<rparr>)"

definition collector_sorted :: "collector \<Rightarrow> Finding list \<times> RemediationAction list \<times> bool" where
  "collector_sorted c =
     (let overflow = (c_omittedFindings c > 0 \<or> c_omittedActions c > 0);
          findings = map snd (c_findings c)
            @ (if overflow then [overflow_summary (c_omittedFindings c + c_omittedActions c)] else [])
      in (sort_key f_ID findings, sort_key a_ID (map snd (c_actions c)), overflow))"

section \<open>Facts about the collector\<close>

text \<open>The analyzers only ever add; a diagnosis is a sequence of additions to a new collector.\<close>

datatype evidence = EFinding Finding | EAction RemediationAction

primrec add_evidence :: "evidence \<Rightarrow> collector \<Rightarrow> collector" where
  "add_evidence (EFinding f) c = addFinding f c"
| "add_evidence (EAction a) c = addAction a c"

definition collect :: "evidence list \<Rightarrow> collector \<Rightarrow> collector" where
  "collect es c = foldl (\<lambda>c e. add_evidence e c) c es"

lemma collect_simps [simp]:
  "collect [] c = c" "collect (e # es) c = collect es (add_evidence e c)"
  "collect (es @ es') c = collect es' (collect es c)"
  by (simp_all add: collect_def)

text \<open>A finding as it is stored: the message cut, the identifier computed.\<close>

definition stored_finding :: "Finding \<Rightarrow> Finding" where
  "stored_finding f =
     (let f0 = f\<lparr>f_Message := truncateRunes (f_Message f) 1024\<rparr> in f0\<lparr>f_ID := findingID f0\<rparr>)"

definition finding_size :: "Finding \<Rightarrow> nat" where
  "finding_size f = encodedSize (Finding_json f)"

definition action_size :: "RemediationAction \<Rightarrow> nat" where
  "action_size a = encodedSize (RemediationAction_json a)"

lemma addFinding_alt:
  "addFinding f c =
     (if map_of (c_findings c) (f_ID (stored_finding f)) \<noteq> None then c
      else if length (c_findings c) \<ge> maxPersistedFindings
              \<or> c_persistedBytes c + finding_size (stored_finding f) > maxPersistedEvidenceBytes
      then c\<lparr>c_omittedFindings := Suc (c_omittedFindings c)\<rparr>
      else c\<lparr>c_persistedBytes := c_persistedBytes c + finding_size (stored_finding f),
              c_findings := c_findings c @ [(f_ID (stored_finding f), stored_finding f)]\<rparr>)"
  by (auto simp: addFinding_def stored_finding_def finding_size_def Let_def update_fresh split: option.splits)

lemma addAction_alt:
  "addAction a c =
     (if map_of (c_actions c) (a_ID a) \<noteq> None then c
      else if length (c_actions c) \<ge> maxPersistedActions
              \<or> c_persistedBytes c + action_size a > maxPersistedEvidenceBytes
      then c\<lparr>c_omittedActions := Suc (c_omittedActions c)\<rparr>
      else c\<lparr>c_persistedBytes := c_persistedBytes c + action_size a,
              c_actions := c_actions c @ [(a_ID a, a)]\<rparr>)"
  by (auto simp: addAction_def action_size_def Let_def update_fresh split: option.splits)

lemma encodedSize_length: "encodedSize v = length (json_text v)"
  by (simp add: encodedSize_def)

lemma findingID_ID [simp]: "findingID (f\<lparr>f_ID := i\<rparr>) = findingID f"
  by (simp add: findingID_def findingParts_def)

lemma truncateRunes_runes: "length (runes_of_string (truncateRunes v n)) \<le> n"
  by (simp add: truncateRunes_def Let_def runes_of_string_of_runes runes_take_valid)

lemma stored_finding_facts [simp]:
  "f_ID (stored_finding f) = findingID (stored_finding f)"
  "length (runes_of_string (f_Message (stored_finding f))) \<le> 1024"
  by (simp_all add: stored_finding_def Let_def truncateRunes_runes)

definition collector_ok :: "collector \<Rightarrow> bool" where
  "collector_ok c \<longleftrightarrow>
     distinct (map fst (c_findings c)) \<and> distinct (map fst (c_actions c))
     \<and> list_all (\<lambda>(i, f). i = f_ID f \<and> f_ID f = findingID f \<and> length (runes_of_string (f_Message f)) \<le> 1024) (c_findings c)
     \<and> list_all (\<lambda>(i, a). i = a_ID a) (c_actions c)
     \<and> length (c_findings c) \<le> maxPersistedFindings \<and> length (c_actions c) \<le> maxPersistedActions
     \<and> c_persistedBytes c = sum_list (map (finding_size \<circ> snd) (c_findings c)) + sum_list (map (action_size \<circ> snd) (c_actions c))
     \<and> c_persistedBytes c \<le> maxPersistedEvidenceBytes"

lemma collector_ok_new: "collector_ok (newCollector p)"
  by (simp add: collector_ok_def newCollector_def)

lemma collector_ok_addFinding: "collector_ok c \<Longrightarrow> collector_ok (addFinding f c)"
  unfolding addFinding_alt by (simp add: collector_ok_def map_of_eq_None_iff)

lemma collector_ok_addAction: "collector_ok c \<Longrightarrow> collector_ok (addAction a c)"
  unfolding addAction_alt by (simp add: collector_ok_def map_of_eq_None_iff)

lemma collector_ok_collect: "collector_ok c \<Longrightarrow> collector_ok (collect es c)"
proof (induction es arbitrary: c)
  case (Cons e es)
  then show ?case by (cases e) (simp_all add: collector_ok_addFinding collector_ok_addAction)
qed simp

text \<open>What has been stored never changes, and the omissions only grow.\<close>

definition no_omission :: "collector \<Rightarrow> bool" where
  "no_omission c \<longleftrightarrow> c_omittedFindings c = 0 \<and> c_omittedActions c = 0"

lemma add_evidence_omission: "no_omission (add_evidence e c) \<Longrightarrow> no_omission c"
  by (cases e) (auto simp: no_omission_def addFinding_alt addAction_alt split: if_splits)

lemma collect_omission: "no_omission (collect es c) \<Longrightarrow> no_omission c"
  by (induction es arbitrary: c) (auto dest: add_evidence_omission)

lemma collect_members:
  assumes "no_omission (collect es c)"
  shows "fst ` set (c_findings (collect es c)) = fst ` set (c_findings c) \<union> {f_ID (stored_finding f) | f. EFinding f \<in> set es}
    \<and> set (c_findings (collect es c)) \<subseteq> set (c_findings c) \<union> {(f_ID (stored_finding f), stored_finding f) | f. EFinding f \<in> set es}
    \<and> fst ` set (c_actions (collect es c)) = fst ` set (c_actions c) \<union> {a_ID a | a. EAction a \<in> set es}
    \<and> set (c_actions (collect es c)) \<subseteq> set (c_actions c) \<union> {(a_ID a, a) | a. EAction a \<in> set es}"
  using assms
proof (induction es arbitrary: c)
  case (Cons e es)
  note IH = Cons.IH[of "add_evidence e c"]
  have "no_omission (add_evidence e c)" using Cons.prems collect_omission by simp
  then show ?case
    using IH Cons.prems
    by (cases e) (auto simp: addFinding_alt addAction_alt no_omission_def map_of_eq_None_iff image_iff split: if_splits)
qed simp

text \<open>
  When identifiers do not collide among the evidence and everything fits, the order and the
  multiplicity of the additions do not matter.
\<close>

definition finding_pairs :: "evidence set \<Rightarrow> (string \<times> Finding) set" where
  "finding_pairs E = {(f_ID (stored_finding f), stored_finding f) | f. EFinding f \<in> E}"

definition action_pairs :: "evidence set \<Rightarrow> (string \<times> RemediationAction) set" where
  "action_pairs E = {(a_ID a, a) | a. EAction a \<in> E}"

definition collision_free :: "evidence set \<Rightarrow> bool" where
  "collision_free E \<longleftrightarrow> inj_on fst (finding_pairs E) \<and> inj_on fst (action_pairs E)"

lemma finite_pairs: "finite E \<Longrightarrow> finite (finding_pairs E)" "finite E \<Longrightarrow> finite (action_pairs E)"
proof -
  assume "finite E"
  moreover have "finding_pairs E \<subseteq> (\<lambda>e. case e of EFinding f \<Rightarrow> (f_ID (stored_finding f), stored_finding f) | EAction a \<Rightarrow> undefined) ` E"
    by (force simp: finding_pairs_def image_iff)
  moreover have "action_pairs E \<subseteq> (\<lambda>e. case e of EFinding f \<Rightarrow> undefined | EAction a \<Rightarrow> (a_ID a, a)) ` E"
    by (force simp: action_pairs_def image_iff)
  ultimately show "finite (finding_pairs E)" "finite (action_pairs E)" using finite_subset by blast+
qed

lemma collect_exact:
  assumes "no_omission (collect es (newCollector p))" and "collision_free (set es)"
  shows "set (c_findings (collect es (newCollector p))) = finding_pairs (set es)"
    and "set (c_actions (collect es (newCollector p))) = action_pairs (set es)"
proof -
  let ?c = "collect es (newCollector p)"
  note m = collect_members[OF assms(1)]
  have f: "set (c_findings ?c) \<subseteq> finding_pairs (set es)" "fst ` set (c_findings ?c) = fst ` finding_pairs (set es)"
    using m by (auto simp: newCollector_def finding_pairs_def image_iff)
  have a: "set (c_actions ?c) \<subseteq> action_pairs (set es)" "fst ` set (c_actions ?c) = fst ` action_pairs (set es)"
    using m by (auto simp: newCollector_def action_pairs_def image_iff)
  show "set (c_findings ?c) = finding_pairs (set es)" "set (c_actions ?c) = action_pairs (set es)"
    using f a assms(2) unfolding collision_free_def by (meson inj_on_image_eq_iff order_refl)+
qed

text \<open>Everything fits, whatever the order, when it fits as a set.\<close>

definition fits :: "evidence set \<Rightarrow> bool" where
  "fits E \<longleftrightarrow>
     card (finding_pairs E) \<le> maxPersistedFindings \<and> card (action_pairs E) \<le> maxPersistedActions
     \<and> sum (finding_size \<circ> snd) (finding_pairs E) + sum (action_size \<circ> snd) (action_pairs E) \<le> maxPersistedEvidenceBytes"

lemma sum_list_pairs: "distinct (map fst xs) \<Longrightarrow> sum_list (map g xs) = sum g (set xs)"
  by (simp add: sum_list_distinct_conv_sum_set distinct_map)

lemma collector_bytes:
  "collector_ok c \<Longrightarrow> c_persistedBytes c = sum (finding_size \<circ> snd) (set (c_findings c)) + sum (action_size \<circ> snd) (set (c_actions c))"
  by (simp add: collector_ok_def sum_list_pairs)

lemma collector_lengths:
  "collector_ok c \<Longrightarrow> length (c_findings c) = card (set (c_findings c)) \<and> length (c_actions c) = card (set (c_actions c))"
  unfolding collector_ok_def distinct_map by (metis distinct_card)

lemma collect_fits:
  assumes "finite E" and "fits E" and "collector_ok c" and "no_omission c"
    and "set (c_findings c) \<subseteq> finding_pairs E" and "set (c_actions c) \<subseteq> action_pairs E" and "set es \<subseteq> E"
  shows "no_omission (collect es c)"
  using assms(3-7)
proof (induction es arbitrary: c)
  case (Cons e es)
  note fin = finite_pairs[OF assms(1)]
  have sub: "sum (finding_size \<circ> snd) F + sum (action_size \<circ> snd) A \<le> maxPersistedEvidenceBytes"
    "card F \<le> maxPersistedFindings" "card A \<le> maxPersistedActions"
    if "F \<subseteq> finding_pairs E" "A \<subseteq> action_pairs E" for F A
    using assms(2) sum_mono2[OF fin(1) that(1), of "finding_size \<circ> snd"] sum_mono2[OF fin(2) that(2), of "action_size \<circ> snd"]
      card_mono[OF fin(1) that(1)] card_mono[OF fin(2) that(2)]
    unfolding fits_def by auto
  have step: "no_omission (add_evidence e c) \<and> set (c_findings (add_evidence e c)) \<subseteq> finding_pairs E
      \<and> set (c_actions (add_evidence e c)) \<subseteq> action_pairs E"
  proof (cases e)
    case (EFinding f)
    let ?x = "(f_ID (stored_finding f), stored_finding f)"
    have x: "?x \<in> finding_pairs E" using Cons.prems(5) EFinding by (auto simp: finding_pairs_def)
    show ?thesis
    proof (cases "map_of (c_findings c) (fst ?x) = None")
      case True
      then have new: "?x \<notin> set (c_findings c)" by (auto simp: map_of_eq_None_iff image_iff)
      have "insert ?x (set (c_findings c)) \<subseteq> finding_pairs E" using x Cons.prems(3) by simp
      from sub[OF this Cons.prems(4)] new
      have "length (c_findings c) < maxPersistedFindings"
        "c_persistedBytes c + finding_size (stored_finding f) \<le> maxPersistedEvidenceBytes"
        using collector_lengths[OF Cons.prems(1)] collector_bytes[OF Cons.prems(1)] by simp_all
      then show ?thesis using True EFinding Cons.prems(2-4) x by (simp add: addFinding_alt no_omission_def)
    qed (use EFinding Cons.prems(2-4) in \<open>simp add: addFinding_alt\<close>)
  next
    case (EAction a)
    have x: "(a_ID a, a) \<in> action_pairs E" using Cons.prems(5) EAction by (auto simp: action_pairs_def)
    show ?thesis
    proof (cases "map_of (c_actions c) (a_ID a) = None")
      case True
      then have new: "(a_ID a, a) \<notin> set (c_actions c)" by (auto simp: map_of_eq_None_iff image_iff)
      have "insert (a_ID a, a) (set (c_actions c)) \<subseteq> action_pairs E" using x Cons.prems(4) by simp
      from sub[OF Cons.prems(3) this] new
      have "length (c_actions c) < maxPersistedActions" "c_persistedBytes c + action_size a \<le> maxPersistedEvidenceBytes"
        using collector_lengths[OF Cons.prems(1)] collector_bytes[OF Cons.prems(1)] by simp_all
      then show ?thesis using True EAction Cons.prems(2-4) x by (simp add: addAction_alt no_omission_def)
    qed (use EAction Cons.prems(2-4) in \<open>simp add: addAction_alt\<close>)
  qed
  moreover have "collector_ok (add_evidence e c)"
    using Cons.prems(1) by (cases e) (simp_all add: collector_ok_addFinding collector_ok_addAction)
  ultimately show ?case using Cons.IH Cons.prems(5) by simp
qed simp

section \<open>A bound on the size of encoded evidence\<close>

text \<open>No byte of a string takes more than six bytes of JSON.\<close>

lemma decode_all_length: "sum_list (map (length \<circ> snd) (decode_all bs)) = length bs"
  by (induction bs rule: decode_all.induct) (auto simp: Let_def split: prod.splits)

lemma decode_all_nonempty: "rb \<in> set (decode_all bs) \<Longrightarrow> snd rb \<noteq> []"
  by (induction bs rule: decode_all.induct) (auto simp: Let_def split: prod.splits)

lemma length_json_rune: "snd rb \<noteq> [] \<Longrightarrow> length (json_rune rb) \<le> 6 * length (snd rb)"
proof -
  assume "snd rb \<noteq> []"
  then have "1 \<le> length (snd rb)" by (simp add: Suc_le_eq)
  then show ?thesis by (simp add: json_rune_def Let_def of_bytes_def)
qed

lemma length_json_string: "length (json_string s) \<le> 6 * length s + 2"
proof -
  let ?d = "decode_all (byte_vals s)"
  have "length (concat (map json_rune ?d)) = sum_list (map (length \<circ> json_rune) ?d)"
    by (simp add: length_concat comp_def)
  also have "\<dots> \<le> sum_list (map (\<lambda>rb. 6 * length (snd rb)) ?d)"
    by (rule sum_list_mono) (simp add: length_json_rune decode_all_nonempty)
  also have "\<dots> = 6 * length s"
    using decode_all_length[of "byte_vals s"] by (simp add: sum_list_const_mult comp_def byte_vals_def)
  finally show ?thesis by (simp add: json_string_def)
qed

fun json_weight :: "json \<Rightarrow> nat" where
  "json_weight (JStr s) = 6 * length s + 2"
| "json_weight (JInt i) = length (itoa i)"
| "json_weight (JBool b) = 5"
| "json_weight (JRaw s) = length s"
| "json_weight (JArr xs) = 2 + sum_list (map (\<lambda>x. json_weight x + 1) xs)"
| "json_weight (JObj fs) = 2 + sum_list (map (\<lambda>f. 6 * length (fst f) + json_weight (snd f) + 4) fs)"

lemma length_Join: "length (strings_Join ss [c]) \<le> sum_list (map (\<lambda>s. length s + 1) ss)"
  by (induction ss "[c]" rule: strings_Join.induct) auto

lemma json_weight_bound: "length (json_text v) \<le> json_weight v"
proof (induction v)
  case (JArr xs)
  have "length (strings_Join (map json_text xs) '','') \<le> sum_list (map (\<lambda>x. length (json_text x) + 1) xs)"
    using length_Join[of "map json_text xs" "CHR '',''"] by (simp add: comp_def)
  also have "\<dots> \<le> sum_list (map (\<lambda>x. json_weight x + 1) xs)"
    by (rule sum_list_mono) (simp add: JArr.IH)
  finally show ?case by simp
next
  case (JObj fs)
  let ?t = "\<lambda>f. json_string (fst f) @ '':'' @ json_text (snd f)"
  have "length (strings_Join (map ?t fs) '','') \<le> sum_list (map (\<lambda>f. length (?t f) + 1) fs)"
    using length_Join[of "map ?t fs" "CHR '',''"] by (simp add: comp_def)
  also have "\<dots> \<le> sum_list (map (\<lambda>f. 6 * length (fst f) + json_weight (snd f) + 4) fs)"
  proof (rule sum_list_mono)
    fix f assume "f \<in> set fs"
    then have "length (json_text (snd f)) \<le> json_weight (snd f)" using JObj.IH[of f "snd f"] by (simp add: snds.simps)
    then show "length (?t f) + 1 \<le> 6 * length (fst f) + json_weight (snd f) + 4"
      using length_json_string[of "fst f"] by simp
  qed
  finally show ?case by simp
qed (use length_json_string in \<open>simp_all add: format_bool_def\<close>)

section \<open>Properties\<close>

text \<open>
  C30.  Whatever is found, the evidence reported stays within the budget of a status: at most 512
  findings and one summary, at most 256 actions, at most 384 KiB of JSON besides the summary;
  findings and actions are sorted by identifier, no two actions share one, and no message exceeds
  1024 runes.
\<close>

theorem evidence_within_budget:
  "case collector_sorted (collect es (newCollector p)) of (findings, actions, overflow) \<Rightarrow>
     length findings \<le> 512 + (if overflow then 1 else 0) \<and> length actions \<le> 256
     \<and> sum_list (map finding_size findings) + sum_list (map action_size actions)
         \<le> 393216 + (if overflow then finding_size (overflow_summary
              (c_omittedFindings (collect es (newCollector p)) + c_omittedActions (collect es (newCollector p)))) else 0)
     \<and> sorted (map f_ID findings) \<and> sorted (map a_ID actions) \<and> distinct (map a_ID actions)
     \<and> list_all (\<lambda>f. length (runes_of_string (f_Message f)) \<le> 1024) findings"
proof -
  let ?c = "collect es (newCollector p)"
  have ok: "collector_ok ?c" by (intro collector_ok_collect collector_ok_new)
  have eq: "map (\<lambda>x. a_ID (snd x)) (c_actions ?c) = map fst (c_actions ?c)"
    using ok by (auto simp: collector_ok_def list_all_iff)
  have ids: "distinct (map (\<lambda>x. a_ID (snd x)) (c_actions ?c))"
    unfolding eq using ok by (simp add: collector_ok_def)
  have size: "sum_list (map g (sort_key k xs)) = sum_list (map g xs)" for g :: "'a \<Rightarrow> nat" and k :: "'a \<Rightarrow> string" and xs
    by (metis mset_map mset_sort sum_mset_sum_list)
  have short: "length (runes_of_string (f_Message (overflow_summary n))) \<le> 1024" for n
  proof -
    have "length (runes_of_string ''diagnostic evidence exceeded the persisted status budget'') \<le> 1024" by code_simp
    then show ?thesis by (simp add: overflow_summary_def Let_def)
  qed
  have msgs: "list_all (\<lambda>f. length (runes_of_string (f_Message f)) \<le> 1024) (map snd (c_findings ?c))"
    using ok by (auto simp: collector_ok_def list_all_iff)
  have bytes: "sum_list (map (finding_size \<circ> snd) (c_findings ?c)) + sum_list (map (action_size \<circ> snd) (c_actions ?c)) \<le> 393216"
    using ok by (simp add: collector_ok_def maxPersistedEvidenceBytes_def)
  show ?thesis
    using ok msgs short bytes ids
    by (auto simp: collector_sorted_def Let_def size collector_ok_def maxPersistedFindings_def maxPersistedActions_def
        list_all_iff comp_def)
qed

text \<open>
  C31.  The report does not depend on the order in which evidence was found, nor on repetitions: when one
  order fits in the budget and identifiers do not collide, every order of the same evidence gives the
  same findings and actions.
\<close>

theorem evidence_order_independent:
  assumes "set es' = set es" and "collision_free (set es)" and "no_omission (collect es (newCollector p))"
  shows "collector_sorted (collect es' (newCollector p)) = collector_sorted (collect es (newCollector p))"
proof -
  let ?c = "collect es (newCollector p)" and ?c' = "collect es' (newCollector p)"
  have ok: "collector_ok ?c" "collector_ok ?c'" by (intro collector_ok_collect collector_ok_new)+
  note exact = collect_exact[OF assms(3,2)]
  have "fits (set es)"
    unfolding fits_def using ok(1) collector_bytes[OF ok(1)] collector_lengths[OF ok(1)] exact
    by (simp add: collector_ok_def)
  then have none: "no_omission ?c'"
    by (rule collect_fits[OF finite_set])
      (auto simp: assms(1) collector_ok_new[unfolded newCollector_def] newCollector_def no_omission_def)
  note exact' = collect_exact[OF none, unfolded assms(1), OF assms(2)]
  have d: "distinct (map fst (c_findings x))" "distinct (map fst (c_actions x))"
    "map f_ID (map snd (c_findings x)) = map fst (c_findings x)" "map a_ID (map snd (c_actions x)) = map fst (c_actions x)"
    if "collector_ok x" for x using that by (auto simp: collector_ok_def list_all_iff)
  have perm: "mset (c_findings ?c') = mset (c_findings ?c)" "mset (c_actions ?c') = mset (c_actions ?c)"
    using d(1,2)[OF ok(1)] d(1,2)[OF ok(2)] exact exact'
    by (metis distinct_map set_eq_iff_mset_eq_distinct)+
  have "inj_on f_ID (snd ` set (c_findings ?c'))" "inj_on a_ID (snd ` set (c_actions ?c'))"
    using d[OF ok(2)] by (metis distinct_map list.set_map)+
  then have "sort_key f_ID (map snd (c_findings ?c')) = sort_key f_ID (map snd (c_findings ?c))"
    "sort_key a_ID (map snd (c_actions ?c')) = sort_key a_ID (map snd (c_actions ?c))"
    using perm by (auto intro!: sort_key_perm_eq)
  then show ?thesis using none assms(3) by (simp add: collector_sorted_def no_omission_def Let_def)
qed

definition evidence_action :: "string \<Rightarrow> RemediationAction" where
  "evidence_action ident =
     \<lparr>a_ID = ident, a_Type = ActionRemoveResourceFinalizer, a_Risk = RiskMedium,
      a_Target = \<lparr>tr_APIGroup = [], tr_Version = ''v1'', tr_Resource = ''pods'', tr_Kind = ''Pod'', tr_Namespace = ''ns'',
                   tr_Name = ''p'', tr_UID = ''u''\<rparr>,
      a_Finalizer = ''f'', a_Eligible = False, a_IneligibleReason = ''no'', a_PreconditionResourceVersion = ''1'',
      a_Reason = ''r''\<rparr>"

lemma evidence_action_size: "action_size (evidence_action [c]) \<le> 5000"
  using json_weight_bound[of "RemediationAction_json (evidence_action [c])"]
  by (simp add: action_size_def encodedSize_length evidence_action_def RemediationAction_json_def TargetReference_json_def go_enum)

theorem evidence_order_independent_witness:
  "no_omission (collect [EAction (evidence_action ''a''), EAction (evidence_action ''b'')] (newCollector empty_policy))
   \<and> collector_sorted (collect (map (EAction \<circ> evidence_action) [''b'', ''a'', ''b'']) (newCollector empty_policy))
     = collector_sorted (collect [EAction (evidence_action ''a''), EAction (evidence_action ''b'')] (newCollector empty_policy))"
proof -
  let ?es = "[EAction (evidence_action ''a''), EAction (evidence_action ''b'')]"
  have same: "set (map (EAction \<circ> evidence_action) [''b'', ''a'', ''b'']) = set ?es" by auto
  have free: "collision_free (set ?es)"
    by (auto simp: collision_free_def finding_pairs_def action_pairs_def evidence_action_def inj_on_def)
  have "a_ID (evidence_action i) = i" for i by (simp add: evidence_action_def)
  then have none: "no_omission (collect ?es (newCollector empty_policy))"
    using evidence_action_size[of "CHR ''a''"] evidence_action_size[of "CHR ''b''"]
    by (simp add: no_omission_def newCollector_def addAction_alt maxPersistedActions_def maxPersistedEvidenceBytes_def)
  from none evidence_order_independent[OF same free none] show ?thesis by blast
qed

lemma byte_vals_inj: "byte_vals s = byte_vals s' \<longleftrightarrow> s = s'"
  by (simp add: byte_vals_def inj_map_eq_map inj_def)

text \<open>
  C32.  Identifiers of actions: for parts without a zero byte, the hashed message determines action type,
  target UID, finalizer, resource version, policy UID and policy generation, so two actions share an
  identifier only if they agree on all of these or their messages collide under SHA-256.
\<close>

theorem action_id_identity:
  assumes "list_all (\<lambda>x. CHR 0x00 \<notin> set x) [t, u, f, v, pu, t', u', f', v', pu']"
  shows "(actionID t u f v pu g = actionID t' u' f' v' pu' g' \<longleftrightarrow>
      sha256_hex (byte_vals (strings_Join [t, u, f, v, pu, itoa g] [CHR 0x00]))
        = sha256_hex (byte_vals (strings_Join [t', u', f', v', pu', itoa g'] [CHR 0x00])))
    \<and> (byte_vals (strings_Join [t, u, f, v, pu, itoa g] [CHR 0x00])
         = byte_vals (strings_Join [t', u', f', v', pu', itoa g'] [CHR 0x00])
       \<longleftrightarrow> (t, u, f, v, pu, g) = (t', u', f', v', pu', g'))"
proof
  show "actionID t u f v pu g = actionID t' u' f' v' pu' g' \<longleftrightarrow>
      sha256_hex (byte_vals (strings_Join [t, u, f, v, pu, itoa g] [CHR 0x00]))
        = sha256_hex (byte_vals (strings_Join [t', u', f', v', pu', itoa g'] [CHR 0x00]))"
    unfolding actionID_def digest_def by simp
  have "[t, u, f, v, pu, itoa g] = [t', u', f', v', pu', itoa g']"
    if "strings_Join [t, u, f, v, pu, itoa g] [CHR 0x00] = strings_Join [t', u', f', v', pu', itoa g'] [CHR 0x00]"
    using that by (rule strings_Join_inj) (use assms in \<open>simp_all add: itoa_no_NUL\<close>)
  then show "byte_vals (strings_Join [t, u, f, v, pu, itoa g] [CHR 0x00])
         = byte_vals (strings_Join [t', u', f', v', pu', itoa g'] [CHR 0x00])
       \<longleftrightarrow> (t, u, f, v, pu, g) = (t', u', f', v', pu', g')"
    unfolding byte_vals_inj by (auto dest: itoa_inj)
qed

theorem action_id_identity_witness:
  "list_all (\<lambda>x. CHR 0x00 \<notin> set x) [''RemoveResourceFinalizer'', ''u'', ''f'', ''1'', ''p'', ''RemoveResourceFinalizer'', ''u'', ''f'', ''2'', ''p'']
   \<and> byte_vals (strings_Join [''RemoveResourceFinalizer'', ''u'', ''f'', ''1'', ''p'', itoa 3] [CHR 0x00])
     \<noteq> byte_vals (strings_Join [''RemoveResourceFinalizer'', ''u'', ''f'', ''2'', ''p'', itoa 3] [CHR 0x00])"
proof -
  have n: "list_all (\<lambda>x. CHR 0x00 \<notin> set x) [''RemoveResourceFinalizer'', ''u'', ''f'', ''1'', ''p'', ''RemoveResourceFinalizer'', ''u'', ''f'', ''2'', ''p'']"
    by code_simp
  show ?thesis using action_id_identity[OF n, of 3 3] n by simp
qed

end
