(* ===== verification/Analyzers.thy ===== *)
theory Analyzers
  imports Evidence
begin

text \<open>
  The analyzers of a diagnosis that work on what has already been read
  (\<open>internal/diagnosis/analyzers.go\<close> and \<open>engine.go\<close>): grace period, finalizers and their owners, API
  services, admission webhooks, namespace conditions and CRD conversion.  Each takes the collector
  and returns it with its additions.
\<close>

section \<open>Data (types.go)\<close>

record DiagnosisSnapshot =
  dsn_Catalog :: Snapshot
  dsn_APIServices :: "APIService list"
  dsn_MutatingWebhooks :: "WebhookConfiguration list"
  dsn_ValidatingWebhooks :: "WebhookConfiguration list"
  dsn_Services :: "Service list"
  dsn_EndpointSlices :: "EndpointSlice list"
  dsn_Deployments :: "Workload list"
  dsn_StatefulSets :: "Workload list"
  dsn_DaemonSets :: "Workload list"
  dsn_NamespaceLabels :: "string \<rightharpoonup> labels"

text \<open>
  A request has a policy pointer; the analyzers only run on a request whose policy is not nil, so
  theirs has the policy itself.
\<close>

record 'p Request =
  req_Target :: TargetReference
  req_Policy :: 'p
  req_Snapshot :: DiagnosisSnapshot
  req_Now :: time

record Result =
  dg_TargetFound :: bool
  dg_UIDMatches :: bool
  dg_ThresholdElapsed :: bool
  dg_DiagnosisComplete :: bool
  dg_TargetSnapshot :: TargetSnapshot
  dg_Findings :: "Finding list"
  dg_Actions :: "RemediationAction list"

definition zero_Result :: Result where
  "zero_Result =
     \<lparr>dg_TargetFound = False, dg_UIDMatches = False, dg_ThresholdElapsed = False, dg_DiagnosisComplete = False,
      dg_TargetSnapshot = zero_TargetSnapshot, dg_Findings = [], dg_Actions = []\<rparr>"

section \<open>Constants of the Kubernetes API\<close>

definition APIServiceAvailable :: string where [go_enum]: "APIServiceAvailable = ''Available''"
definition NamespaceDeletionDiscoveryFailure :: string where
  [go_enum]: "NamespaceDeletionDiscoveryFailure = ''NamespaceDeletionDiscoveryFailure''"
definition NamespaceDeletionGVParsingFailure :: string where
  [go_enum]: "NamespaceDeletionGVParsingFailure = ''NamespaceDeletionGroupVersionParsingFailure''"
definition NamespaceDeletionContentFailure :: string where
  [go_enum]: "NamespaceDeletionContentFailure = ''NamespaceDeletionContentFailure''"
definition NamespaceContentRemaining :: string where
  [go_enum]: "NamespaceContentRemaining = ''NamespaceContentRemaining''"
definition NamespaceFinalizersRemaining :: string where
  [go_enum]: "NamespaceFinalizersRemaining = ''NamespaceFinalizersRemaining''"
definition WebhookConverter :: string where [go_enum]: "WebhookConverter = ''Webhook''"
definition FailurePolicyIgnore :: string where [go_enum]: "FailurePolicyIgnore = ''Ignore''"
definition MatchPolicyExact :: string where [go_enum]: "MatchPolicyExact = ''Exact''"
definition OperationAll :: string where [go_enum]: "OperationAll = ''*''"
definition OperationUpdate :: string where [go_enum]: "OperationUpdate = ''UPDATE''"
definition AllScopes :: string where [go_enum]: "AllScopes = ''*''"
definition NamespacedScope :: string where [go_enum]: "NamespacedScope = ''Namespaced''"
definition ClusterScope :: string where [go_enum]: "ClusterScope = ''Cluster''"

section \<open>Health of backends and owners\<close>

definition serviceBackendReady :: "DiagnosisSnapshot \<Rightarrow> string \<Rightarrow> string \<Rightarrow> bool \<times> string" where
  "serviceBackendReady snapshot namespace name =
     (if \<not> list_ex (\<lambda>service. svc_Namespace service = namespace \<and> svc_Name service = name) (dsn_Services snapshot)
      then (False, ''Service '' @ namespace @ ''/'' @ name @ '' does not exist'')
      else if list_ex (\<lambda>slice. eps_Namespace slice = namespace
                 \<and> (case eps_Labels slice LabelServiceName of None \<Rightarrow> [] | Some v \<Rightarrow> v) = name
                 \<and> list_ex (\<lambda>ready. ready = None \<or> ready = Some True) (eps_Ready slice))
                (dsn_EndpointSlices snapshot)
      then (True, [])
      else (False, ''Service '' @ namespace @ ''/'' @ name @ '' has no ready EndpointSlice endpoints''))"

definition find_workload :: "Workload list \<Rightarrow> ControllerReference \<Rightarrow> Workload option" where
  "find_workload workloads owner =
     find (\<lambda>w. wl_Namespace w = cr_Namespace owner \<and> wl_Name w = cr_Name owner) workloads"

definition replicas_healthy :: "Workload \<Rightarrow> bool" where
  "replicas_healthy w =
     (let desired = (case wl_SpecReplicas w of None \<Rightarrow> 1 | Some n \<Rightarrow> n)
      in \<not> (desired = 0 \<or> wl_ObservedGeneration w < wl_Generation w \<or> wl_Available w < desired))"

definition daemon_healthy :: "Workload \<Rightarrow> bool" where
  "daemon_healthy w =
     (\<not> (wl_ObservedGeneration w < wl_Generation w \<or> wl_DesiredScheduled w = 0
          \<or> wl_Available w < wl_DesiredScheduled w))"

definition ownerHealthy :: "kube_lib \<Rightarrow> DiagnosisSnapshot \<Rightarrow> ControllerReference \<Rightarrow> bool \<times> string" where
  "ownerHealthy L snapshot owner =
     (if cr_Kind owner = ''Deployment'' then
        (case find_workload (dsn_Deployments snapshot) owner of
           None \<Rightarrow> (False, ''Deployment does not exist'')
         | Some w \<Rightarrow> if replicas_healthy w then (True, [])
                     else (False, ''Deployment is not fully available at its current generation''))
      else if cr_Kind owner = ''StatefulSet'' then
        (case find_workload (dsn_StatefulSets snapshot) owner of
           None \<Rightarrow> (False, ''StatefulSet does not exist'')
         | Some w \<Rightarrow> if replicas_healthy w then (True, [])
                     else (False, ''StatefulSet is not fully ready at its current generation''))
      else if cr_Kind owner = ''DaemonSet'' then
        (case find_workload (dsn_DaemonSets snapshot) owner of
           None \<Rightarrow> (False, ''DaemonSet does not exist'')
         | Some w \<Rightarrow> if daemon_healthy w then (True, [])
                     else (False, ''DaemonSet is not fully ready at its current generation''))
      else (False, ''unsupported owner kind '' @ quote (lib_IsPrint L) (cr_Kind owner)))"

section \<open>API services\<close>

definition apiServiceAvailable :: "APIService \<Rightarrow> bool" where
  "apiServiceAvailable s \<longleftrightarrow>
     list_ex (\<lambda>c. asc_Type c = APIServiceAvailable \<and> asc_Status c = ConditionTrue) (apis_Conditions s)"

definition api_service_message :: "kube_lib \<Rightarrow> APIService \<Rightarrow> string" where
  "api_service_message L s =
     (let prefix = ''APIService '' @ quote (lib_IsPrint L) (apis_Name s) @ '' is unavailable''
      in case find (\<lambda>c. asc_Type c = APIServiceAvailable \<and> asc_Status c \<noteq> ConditionTrue \<and> asc_Message c \<noteq> [])
                (apis_Conditions s) of
           None \<Rightarrow> prefix
         | Some c \<Rightarrow> prefix @ '': '' @ asc_Message c)"

definition analyze_api_service :: "kube_lib \<Rightarrow> 'p Request \<Rightarrow> collector \<Rightarrow> APIService \<Rightarrow> collector" where
  "analyze_api_service L request c s =
     (let target = req_Target request;
          isNamespace = (tr_APIGroup target = [] \<and> tr_Resource target = ''namespaces'')
      in if apiServiceAvailable s then c
         else if \<not> isNamespace \<and> (apis_Group s \<noteq> tr_APIGroup target \<or> apis_Version s \<noteq> tr_Version target) then c
         else addFinding (zero_Finding\<lparr>f_Type := FindingUnavailableAPIService, f_Message := api_service_message L s,
                            f_APIService := apis_Name s\<rparr>) c)"

definition analyzeAPIServices :: "kube_lib \<Rightarrow> 'p Request \<Rightarrow> collector \<Rightarrow> collector" where
  "analyzeAPIServices L request c =
     foldl (analyze_api_service L request) c (dsn_APIServices (req_Snapshot request))"

section \<open>Admission webhooks\<close>

record webhookView =
  wv_identity :: string
  wv_rules :: "RuleWithOperations list"
  wv_failurePolicy :: "string option"
  wv_matchPolicy :: "string option"
  wv_namespaceSelector :: "LabelSelector option"
  wv_objectSelector :: "LabelSelector option"
  wv_clientConfig :: WebhookClientConfig
  wv_matchConditions :: nat

definition operationMatches :: "string list \<Rightarrow> bool" where
  "operationMatches operations \<longleftrightarrow> OperationAll \<in> set operations \<or> OperationUpdate \<in> set operations"

definition stringRuleMatches :: "string list \<Rightarrow> string \<Rightarrow> bool" where
  "stringRuleMatches rules v \<longleftrightarrow> ''*'' \<in> set rules \<or> v \<in> set rules"

definition admissionTarget :: "TargetReference \<Rightarrow> string \<times> string" where
  "admissionTarget target =
     (if tr_APIGroup target = [] \<and> tr_Resource target = ''namespaces'' then (tr_Resource target, ''finalize'')
      else (tr_Resource target, []))"

definition resourceRuleMatches :: "string list \<Rightarrow> string \<Rightarrow> string \<Rightarrow> bool" where
  "resourceRuleMatches rules resource subresource =
     (let candidate = (if subresource \<noteq> [] then resource @ ''/'' @ subresource else resource)
      in list_ex (\<lambda>rule.
           if rule = ''*/*'' \<or> rule = candidate then True
           else if rule = ''*'' \<and> subresource = [] then True
           else if subresource \<noteq> [] \<and> rule = resource @ ''/*'' then True
           else subresource \<noteq> [] \<and> rule = ''*/'' @ subresource) rules)"

definition scopeMatches :: "string option \<Rightarrow> bool \<Rightarrow> bool" where
  "scopeMatches scope namespaced =
     (case scope of
        None \<Rightarrow> True
      | Some s \<Rightarrow> if s = AllScopes then True
                 else namespaced \<and> s = NamespacedScope \<or> \<not> namespaced \<and> s = ClusterScope)"

definition ruleMatches :: "'p Request \<Rightarrow> RuleWithOperations \<Rightarrow> string option \<Rightarrow> bool" where
  "ruleMatches request rule matchPolicy =
     (let target = req_Target request; (targetResource, subresource) = admissionTarget target
      in if \<not> operationMatches (rule_Operations rule) \<or> \<not> stringRuleMatches (rule_APIGroups rule) (tr_APIGroup target)
            \<or> \<not> resourceRuleMatches (rule_Resources rule) targetResource subresource then False
         else if \<not> scopeMatches (rule_Scope rule) (tr_Namespace target \<noteq> []) then False
         else if stringRuleMatches (rule_APIVersions rule) (tr_Version target) then True
         else if matchPolicy = Some MatchPolicyExact then False
         else case Resolve (dsn_Catalog (req_Snapshot request))
                     \<lparr>gr_Group = tr_APIGroup target, gr_Resource = tr_Resource target\<rparr> of
                None \<Rightarrow> False
              | Some resource \<Rightarrow>
                  list_ex (stringRuleMatches (rule_APIVersions rule))
                    (v_Version (res_PreferredVersion resource) # map v_Version (AlternateVersions resource)))"

text \<open>A missing key of \<open>NamespaceLabels\<close> gives the nil map, the empty set of labels.\<close>

definition webhookMatches :: "kube_lib \<Rightarrow> 'p Request \<Rightarrow> Unstructured \<Rightarrow> webhookView \<Rightarrow> bool \<times> string" where
  "webhookMatches L request target webhook =
     (let t = req_Target request;
          selectedLabels =
            (if tr_APIGroup t = [] \<and> tr_Resource t = ''namespaces'' then Some (obj_Labels target)
             else if tr_Namespace t \<noteq> []
             then Some (case dsn_NamespaceLabels (req_Snapshot request) (tr_Namespace t) of
                          None \<Rightarrow> Map.empty | Some l \<Rightarrow> l)
             else None);
          byRules = (list_ex (\<lambda>rule. ruleMatches request rule (wv_matchPolicy webhook)) (wv_rules webhook), []);
          byObject =
            (case wv_objectSelector webhook of
               None \<Rightarrow> byRules
             | Some s \<Rightarrow>
                 (case lib_LabelSelectorAsSelector L s of
                    Inl err \<Rightarrow> (False, ''matching webhook has an invalid objectSelector: '' @ err)
                  | Inr selector \<Rightarrow> if \<not> selector (obj_Labels target) then (False, []) else byRules))
      in case wv_namespaceSelector webhook of
           None \<Rightarrow> byObject
         | Some s \<Rightarrow>
             (case lib_LabelSelectorAsSelector L s of
                Inl err \<Rightarrow> (False, ''matching webhook has an invalid namespaceSelector: '' @ err)
              | Inr selector \<Rightarrow>
                  (case selectedLabels of
                     None \<Rightarrow> byObject
                   | Some l \<Rightarrow> if \<not> selector l then (False, []) else byObject)))"

definition webhook_finding :: "'p Request \<Rightarrow> webhookView \<Rightarrow> FindingType \<Rightarrow> string \<Rightarrow> Finding" where
  "webhook_finding request webhook t message =
     zero_Finding\<lparr>f_Type := t, f_Message := message, f_Webhook := wv_identity webhook,
       f_ResourceRef := Some (req_Target request)\<rparr>"

definition analyzeWebhook ::
  "kube_lib \<Rightarrow> 'p Request \<Rightarrow> Unstructured \<Rightarrow> webhookView \<Rightarrow> collector \<Rightarrow> collector" where
  "analyzeWebhook L request target webhook c =
     (let report = (\<lambda>t message. addFinding (webhook_finding request webhook t message) c)
      in if wv_failurePolicy webhook = Some FailurePolicyIgnore then c
         else let (matches, uncertain) = webhookMatches L request target webhook
         in if uncertain \<noteq> [] then report FindingUnknown uncertain
         else if \<not> matches then c
         else if wv_matchConditions webhook > 0 then
           report FindingUnknown ''matching webhook has matchConditions that cannot be evaluated from metadata''
         else if wcc_URL (wv_clientConfig webhook) \<noteq> None then
           report FindingUnknown ''matching fail-closed webhook URL health is not probed''
         else case wcc_Service (wv_clientConfig webhook) of
           None \<Rightarrow> report FindingUnknown ''matching fail-closed webhook has no Service or URL''
         | Some service \<Rightarrow>
             (let (ready, reason) =
                serviceBackendReady (req_Snapshot request) (sref_Namespace service) (sref_Name service)
              in if \<not> ready then
                   report FindingBlockingWebhook (''matching fail-closed webhook backend is unavailable: '' @ reason)
                 else
                   report FindingUnknown ''matching fail-closed webhook backend is ready; TLS behavior was not probed''))"

definition webhook_view :: "WebhookConfiguration \<Rightarrow> Webhook \<Rightarrow> webhookView" where
  "webhook_view configuration webhook =
     \<lparr>wv_identity = whc_Name configuration @ ''/'' @ wh_Name webhook, wv_rules = wh_Rules webhook,
      wv_failurePolicy = wh_FailurePolicy webhook, wv_matchPolicy = wh_MatchPolicy webhook,
      wv_namespaceSelector = wh_NamespaceSelector webhook, wv_objectSelector = wh_ObjectSelector webhook,
      wv_clientConfig = wh_ClientConfig webhook, wv_matchConditions = wh_MatchConditions webhook\<rparr>"

definition configured_webhooks :: "WebhookConfiguration list \<Rightarrow> webhookView list" where
  "configured_webhooks cs = concat (map (\<lambda>cfg. map (webhook_view cfg) (whc_Webhooks cfg)) cs)"

definition analyzeAdmissionWebhooks :: "kube_lib \<Rightarrow> 'p Request \<Rightarrow> Unstructured \<Rightarrow> collector \<Rightarrow> collector" where
  "analyzeAdmissionWebhooks L request target c =
     (let step = (\<lambda>c webhook. analyzeWebhook L request target webhook c);
          snapshot = req_Snapshot request
      in foldl step (foldl step c (configured_webhooks (dsn_MutatingWebhooks snapshot)))
           (configured_webhooks (dsn_ValidatingWebhooks snapshot)))"

section \<open>Grace period and finalizers\<close>

definition object_reference :: "TargetReference \<Rightarrow> Unstructured \<Rightarrow> TargetReference" where
  "object_reference base target = targetReference base (obj_Namespace target) (obj_Name target) (obj_UID target)"

definition analyzeGracePeriod :: "'p Request \<Rightarrow> Unstructured \<Rightarrow> collector \<Rightarrow> collector" where
  "analyzeGracePeriod request target c =
     (case (obj_DeletionGracePeriodSeconds target, obj_DeletionTimestamp target) of
        (Some grace, Some deleted) \<Rightarrow>
          if \<not> req_Now request > deleted then c
          else addFinding (zero_Finding\<lparr>f_Type := FindingDeletionGracePeriodExceeded,
                 f_Message := ''deletion grace period of '' @ itoa grace @ '' seconds has elapsed'',
                 f_ResourceRef := Some (object_reference (req_Target request) target)\<rparr>) c
      | _ \<Rightarrow> c)"

definition analyzeFinalizerOwner :: "kube_lib \<Rightarrow> CompiledPolicy Request \<Rightarrow> string \<Rightarrow> collector \<Rightarrow> collector" where
  "analyzeFinalizerOwner L request finalizer c =
     (case policy_FinalizerOwner (Some (req_Policy request)) finalizer of
        None \<Rightarrow> c
      | Some owner \<Rightarrow>
          (let (healthy, reason) = ownerHealthy L (req_Snapshot request) owner
           in if healthy then c
              else addFinding (zero_Finding\<lparr>f_Type := FindingMissingFinalizerController,
                     f_Message := ''configured finalizer owner is unhealthy: '' @ reason,
                     f_Finalizer := finalizer, f_ControllerRef := Some owner\<rparr>) c))"

definition analyze_finalizer ::
  "kube_lib \<Rightarrow> CompiledPolicy Request \<Rightarrow> Unstructured \<Rightarrow> bool \<Rightarrow> collector \<Rightarrow> string \<Rightarrow> collector" where
  "analyze_finalizer L request target crd c finalizer =
     (let c1 = addFinding (zero_Finding\<lparr>f_Type := FindingBlockingFinalizer,
                 f_Message := ''metadata finalizer '' @ quote (lib_IsPrint L) finalizer @ '' remains'',
                 f_ResourceRef := Some (object_reference (req_Target request) target), f_Finalizer := finalizer\<rparr>) c;
          c2 = analyzeFinalizerOwner L request finalizer c1
      in if crd \<and> finalizer = CustomResourceCleanupFinalizer then c2
         else addAction (newAction (req_Policy request) ActionRemoveResourceFinalizer (req_Target request) finalizer
                (obj_ResourceVersion target)
                (''remove blocking metadata finalizer '' @ quote (lib_IsPrint L) finalizer)) c2)"

definition analyzeMetadataFinalizers ::
  "kube_lib \<Rightarrow> CompiledPolicy Request \<Rightarrow> Unstructured \<Rightarrow> bool \<Rightarrow> collector \<Rightarrow> collector" where
  "analyzeMetadataFinalizers L request target crd c =
     foldl (analyze_finalizer L request target crd) c (sortedCopy (obj_Finalizers target))"

definition diagnoseGeneric :: "kube_lib \<Rightarrow> CompiledPolicy Request \<Rightarrow> Unstructured \<Rightarrow> collector \<Rightarrow> collector" where
  "diagnoseGeneric L request target c =
     analyzeMetadataFinalizers L request target False (analyzeGracePeriod request target c)"

section \<open>Namespace conditions\<close>

definition namespace_finding_type :: "string \<Rightarrow> FindingType" where
  "namespace_finding_type t =
     (if t = NamespaceDeletionDiscoveryFailure \<or> t = NamespaceDeletionGVParsingFailure
         \<or> t = NamespaceDeletionContentFailure then FindingDiscoveryFailure
      else if t = NamespaceContentRemaining then FindingRemainingResource
      else if t = NamespaceFinalizersRemaining then FindingBlockingFinalizer
      else FindingUnknown)"

definition analyze_condition :: "TargetReference \<Rightarrow> collector \<Rightarrow> NamespaceCondition \<Rightarrow> collector" where
  "analyze_condition target c cond =
     (if nc_Status cond \<noteq> ConditionTrue then c
      else addFinding (zero_Finding\<lparr>f_Type := namespace_finding_type (nc_Type cond),
             f_Message := (if nc_Message cond = []
                           then ''Namespace condition '' @ nc_Type cond @ '' is true'' else nc_Message cond),
             f_ResourceRef := Some target\<rparr>) c)"

definition analyzeNamespaceConditions :: "NamespaceCondition list \<Rightarrow> TargetReference \<Rightarrow> collector \<Rightarrow> collector" where
  "analyzeNamespaceConditions conditions target c = foldl (analyze_condition target) c conditions"

section \<open>CRD conversion\<close>

definition conversion_finding :: "FindingType \<Rightarrow> string \<Rightarrow> CustomResourceDefinition \<Rightarrow> Finding" where
  "conversion_finding t message crd =
     zero_Finding\<lparr>f_Type := t, f_Message := message, f_Webhook := crd_Name crd @ ''/conversion''\<rparr>"

definition analyzeCRDConversion ::
  "'p Request \<Rightarrow> CustomResourceDefinition \<Rightarrow> collector \<Rightarrow> bool \<times> collector" where
  "analyzeCRDConversion request crd c =
     (case crd_Conversion crd of
        None \<Rightarrow> (True, c)
      | Some conversion \<Rightarrow>
          if crc_Strategy conversion \<noteq> WebhookConverter then (True, c)
          else case crc_Webhook conversion of
            None \<Rightarrow> (False, addFinding (zero_Finding\<lparr>f_Type := FindingUnknown,
                       f_Message := ''CRD conversion webhook configuration is missing''\<rparr>) c)
          | Some None \<Rightarrow> (False, addFinding (conversion_finding FindingUnknown
                       ''CRD conversion webhook client configuration is missing'' crd) c)
          | Some (Some config) \<Rightarrow>
              if wcc_URL config \<noteq> None then
                (False, addFinding (conversion_finding FindingUnknown ''CRD conversion URL health is not probed'' crd) c)
              else case wcc_Service config of
                None \<Rightarrow> (False, addFinding (conversion_finding FindingUnknown
                           ''CRD conversion webhook has no Service or URL'' crd) c)
              | Some service \<Rightarrow>
                  (let (ready, reason) =
                     serviceBackendReady (req_Snapshot request) (sref_Namespace service) (sref_Name service)
                   in if \<not> ready then
                        (False, addFinding (conversion_finding FindingBlockingWebhook
                           (''CRD conversion Service is unavailable: '' @ reason) crd) c)
                      else (True, c)))"

end
