(* ===== verification/Diagnosis.thy ===== *)
theory Diagnosis
  imports Executor Analyzers
begin

text \<open>
  The diagnosis engine (\<open>internal/diagnosis/engine.go\<close>, \<open>analyzers.go\<close>): reading the target, listing
  what remains of a namespace or of a CRD page by page, and \<open>Diagnose\<close> itself, as programs over the
  log of their calls.

  The source lists pages until the server sends an empty continue token; nothing in it bounds the
  number of pages.  The listing loops here have a fuel, and a program that runs out of it returns
  \<open>None\<close>.  \<open>diagnosis_returns\<close> shows that for a server whose tokens advance the fuel can be
  chosen so that this never happens.
\<close>

section \<open>Programs with fuel\<close>

definition bind_may :: "'a option io \<Rightarrow> ('a \<Rightarrow> 'b option io) \<Rightarrow> 'b option io" where
  "bind_may m f = State_Monad.bind m (\<lambda>x. case x of None \<Rightarrow> State_Monad.return None | Some a \<Rightarrow> f a)"

definition give :: "'a \<Rightarrow> 'a option io" where
  "give x = State_Monad.return (Some x)"

abbreviation yields :: "(event \<Rightarrow> bool) \<Rightarrow> ('a \<Rightarrow> event set \<Rightarrow> bool) \<Rightarrow> 'a option io \<Rightarrow> bool" where
  "yields P A m \<equiv> ensures P (\<lambda>x evs. \<forall>a. x = Some a \<longrightarrow> A a evs) m"

lemma yields_mono: "yields P A m \<Longrightarrow> (\<And>x evs. A x evs \<Longrightarrow> B x evs) \<Longrightarrow> yields P B m"
  by (rule ensures_mono) blast+

lemma yields_give: "A x {} \<Longrightarrow> yields P A (give x)"
  by (simp add: give_def ensures_return)

lemma yields_bind_may:
  assumes "yields P A m" and "\<And>x evs. A x evs \<Longrightarrow> yields P (\<lambda>y evs'. B y (evs \<union> evs')) (f x)"
  shows "yields P B (bind_may m f)"
  unfolding bind_may_def
  by (rule ensures_bind[OF assms(1)]) (use assms(2) in \<open>auto intro!: ensures_return split: option.splits\<close>)

lemmas yields_rules = yields_give ensures_cases

section \<open>Remaining objects of a namespace\<close>

definition metadataPageSize :: int where "metadataPageSize = 500"

text \<open>
  The inner loop of \<open>listNamespaceResource\<close>: an error, or the items and whether the maximum cut them
  off.
\<close>

fun list_pages ::
  "env \<Rightarrow> GroupVersionResource \<Rightarrow> string \<Rightarrow> int \<Rightarrow> PartialObjectMetadata list \<Rightarrow> string \<Rightarrow> nat
     \<Rightarrow> (ApiError + PartialObjectMetadata list \<times> bool) option io" where
  "list_pages E gvr namespace maximum items continueToken 0 = State_Monad.return None"
| "list_pages E gvr namespace maximum items continueToken (Suc fuel) =
     (let remaining = maximum - int (length items)
      in if remaining \<le> 0 then give (Inr (items, True))
         else do { r \<leftarrow> list_meta E gvr namespace continueToken (nat (min metadataPageSize remaining));
                   case r of
                     Inl err \<Rightarrow> give (Inl err)
                   | Inr page \<Rightarrow>
                       (let items' = items @ page_Items page
                        in if page_Continue page = [] then give (Inr (items', False))
                           else list_pages E gvr namespace maximum items' (page_Continue page) fuel) })"

type_synonym listing = "PartialObjectMetadata list \<times> Version \<times> bool \<times> ApiError option"

fun list_versions ::
  "env \<Rightarrow> nat \<Rightarrow> Resource \<Rightarrow> string \<Rightarrow> int \<Rightarrow> ApiError option \<Rightarrow> Version list \<Rightarrow> listing option io" where
  "list_versions E fuel resource namespace maximum lastUnavailable [] =
     give ([], res_PreferredVersion resource, False, lastUnavailable)"
| "list_versions E fuel resource namespace maximum lastUnavailable (version # versions) =
     bind_may (list_pages E (WithVersion (res_GroupResource resource) (v_Version version)) namespace maximum [] [] fuel)
       (\<lambda>r. case r of
          Inl err \<Rightarrow>
            if ae_NotFound err \<or> ae_Gone err
            then list_versions E fuel resource namespace maximum (Some err) versions
            else give ([], version, False, Some err)
        | Inr (items, truncated) \<Rightarrow> give (items, version, truncated, None))"

definition listNamespaceResource :: "env \<Rightarrow> nat \<Rightarrow> Resource \<Rightarrow> string \<Rightarrow> int \<Rightarrow> listing option io" where
  "listNamespaceResource E fuel resource namespace maximum =
     list_versions E fuel resource namespace maximum None
       (OrderedVersions resource (v_Version (res_PreferredVersion resource)))"

definition addTruncationFinding :: "int \<Rightarrow> collector \<Rightarrow> collector" where
  "addTruncationFinding observed c =
     addFinding (zero_Finding\<lparr>f_Type := FindingRemainingResource,
       f_Message := ''remaining-resource enumeration reached maxNamespaceObjects'',
       f_Count := Some (wrap32 observed), f_Truncated := True\<rparr>) c"

definition hasLaterNamespacedResource :: "Resource list \<Rightarrow> bool" where
  "hasLaterNamespacedResource resources \<longleftrightarrow> list_ex (\<lambda>r. v_Namespaced (res_PreferredVersion r)) resources"

definition metadataReference :: "Resource \<Rightarrow> PartialObjectMetadata \<Rightarrow> TargetReference" where
  "metadataReference resource item =
     \<lparr>tr_APIGroup = gr_Group (res_GroupResource resource), tr_Version = v_Version (res_PreferredVersion resource),
      tr_Resource = gr_Resource (res_GroupResource resource), tr_Kind = v_Kind (res_PreferredVersion resource),
      tr_Namespace = pom_Namespace item, tr_Name = pom_Name item, tr_UID = pom_UID item\<rparr>"

text \<open>The object \<open>child\<close>, of which only the labels are set.\<close>

definition child_object :: "labels \<Rightarrow> Unstructured" where
  "child_object l =
     \<lparr>obj_Name = [], obj_Namespace = [], obj_UID = [], obj_ResourceVersion = [], obj_Finalizers = [],
      obj_Labels = l, obj_DeletionTimestamp = None, obj_DeletionGracePeriodSeconds = None,
      obj_SpecFinalizers = Inr None, obj_AsNamespace = Inr \<lparr>ns_SpecFinalizers = [], ns_StatusConditions = []\<rparr>,
      obj_AsCRD = Inr \<lparr>crd_Name = [], crd_Finalizers = [], crd_Group = [], crd_Plural = [], crd_Kind = [],
                       crd_Versions = [], crd_Conversion = None\<rparr>\<rparr>"

definition item_finalizer ::
  "kube_lib \<Rightarrow> CompiledPolicy Request \<Rightarrow> TargetReference \<Rightarrow> PartialObjectMetadata \<Rightarrow> collector \<Rightarrow> string \<Rightarrow> collector" where
  "item_finalizer L request reference item c finalizer =
     (let c1 = addFinding (zero_Finding\<lparr>f_Type := FindingBlockingFinalizer,
                 f_Message := ''remaining object has metadata finalizer '' @ quote (lib_IsPrint L) finalizer,
                 f_ResourceRef := Some reference, f_Finalizer := finalizer\<rparr>) c;
          c2 = analyzeFinalizerOwner L request finalizer c1
      in addAction (newAction (req_Policy request) ActionRemoveResourceFinalizer reference finalizer
           (pom_ResourceVersion item)
           (''remove finalizer '' @ quote (lib_IsPrint L) finalizer @ '' from object blocking Namespace deletion'')) c2)"

definition namespace_item ::
  "kube_lib \<Rightarrow> CompiledPolicy Request \<Rightarrow> Resource \<Rightarrow> Version \<Rightarrow> collector \<Rightarrow> PartialObjectMetadata \<Rightarrow> collector" where
  "namespace_item L request resource version c item =
     (let reference = metadataReference (resource\<lparr>res_PreferredVersion := version\<rparr>) item;
          c1 = addFinding (zero_Finding\<lparr>f_Type := FindingRemainingResource,
                 f_Message := lib_GroupResourceString L (res_GroupResource resource) @ '' '' @ pom_Namespace item @ ''/''
                   @ pom_Name item @ '' remains in terminating Namespace'',
                 f_ResourceRef := Some reference\<rparr>) c;
          c2 = (if dp_CheckWebhooks (set_Diagnosis (policy_Settings (Some (req_Policy request))))
                then analyzeAdmissionWebhooks L (request\<lparr>req_Target := reference\<rparr>) (child_object (pom_Labels item)) c1
                else c1)
      in foldl (item_finalizer L request reference item) c2 (sortedCopy (pom_Finalizers item)))"

fun enumerate_resources ::
  "kube_lib \<Rightarrow> env \<Rightarrow> nat \<Rightarrow> CompiledPolicy Request \<Rightarrow> int \<Rightarrow> int \<Rightarrow> Result \<Rightarrow> collector \<Rightarrow> Resource list
     \<Rightarrow> (Result \<times> collector) option io" where
  "enumerate_resources L E fuel request maxObjects observed result c [] = give (result, c)"
| "enumerate_resources L E fuel request maxObjects observed result c (resource # resources) =
     (if \<not> v_Namespaced (res_PreferredVersion resource)
      then enumerate_resources L E fuel request maxObjects observed result c resources
      else let remaining = maxObjects - observed
      in if remaining \<le> 0
      then give (result\<lparr>dg_DiagnosisComplete := False\<rparr>, addTruncationFinding observed c)
      else bind_may (listNamespaceResource E fuel resource (tr_Name (req_Target request)) remaining)
        (\<lambda>(items, version, truncated, err).
           case err of
             Some e \<Rightarrow>
               enumerate_resources L E fuel request maxObjects observed (result\<lparr>dg_DiagnosisComplete := False\<rparr>)
                 (addFinding (zero_Finding\<lparr>f_Type := FindingDiscoveryFailure,
                    f_Message := ''list '' @ lib_GroupResourceString L (res_GroupResource resource) @ '' in Namespace ''
                      @ quote (lib_IsPrint L) (tr_Name (req_Target request)) @ '': '' @ ae_Text e\<rparr>) c) resources
           | None \<Rightarrow>
               (let c' = foldl (namespace_item L request resource version) c items;
                    observed' = observed + int (length items)
                in if truncated \<or> (observed' \<ge> maxObjects \<and> hasLaterNamespacedResource resources)
                   then give (result\<lparr>dg_DiagnosisComplete := False\<rparr>, addTruncationFinding observed' c')
                   else enumerate_resources L E fuel request maxObjects observed' result c' resources)))"

definition enumerateNamespace ::
  "kube_lib \<Rightarrow> env \<Rightarrow> nat \<Rightarrow> CompiledPolicy Request \<Rightarrow> Result \<Rightarrow> collector \<Rightarrow> (Result \<times> collector) option io" where
  "enumerateNamespace L E fuel request result c =
     enumerate_resources L E fuel request
       (dp_MaxNamespaceObjects (set_Diagnosis (policy_Settings (Some (req_Policy request))))) 0 result c
       (Snapshot_Resources (dsn_Catalog (req_Snapshot request)))"

definition diagnoseNamespace ::
  "kube_lib \<Rightarrow> env \<Rightarrow> nat \<Rightarrow> CompiledPolicy Request \<Rightarrow> Unstructured \<Rightarrow> Result \<Rightarrow> collector
     \<Rightarrow> (Result \<times> collector) option io" where
  "diagnoseNamespace L E fuel request target result c =
     (case obj_AsNamespace target of
        Inl err \<Rightarrow>
          give (result\<lparr>dg_DiagnosisComplete := False\<rparr>,
            addFinding (zero_Finding\<lparr>f_Type := FindingDiscoveryFailure,
              f_Message := ''decode Namespace target: '' @ err\<rparr>) c)
      | Inr namespace \<Rightarrow>
          (let result1 = result\<lparr>dg_TargetSnapshot :=
                 (dg_TargetSnapshot result)\<lparr>ts_NamespaceFinalizers := sort (ns_SpecFinalizers namespace)\<rparr>\<rparr>;
               c1 = analyzeGracePeriod request target c;
               c2 = analyzeMetadataFinalizers L request target False c1;
               c3 = analyzeNamespaceConditions (ns_StatusConditions namespace) (req_Target request) c2
           in bind_may (enumerateNamespace L E fuel request result1 c3)
                (\<lambda>(result2, c4).
                   if dg_DiagnosisComplete result2 \<and> length (ns_SpecFinalizers namespace) > 0 then
                     give (result2, addAction (newAction (req_Policy request) ActionForceFinalizeNamespace
                       (req_Target request) [] (obj_ResourceVersion target)
                       ''clear Namespace spec.finalizers after reviewing remaining content'') c4)
                   else give (result2, c4))))"

section \<open>Instances of a CRD\<close>

record crd_scan =
  cs_seenUIDs :: "string set"
  cs_retained :: int
  cs_complete :: bool
  cs_collector :: collector

definition addCRDTruncationFinding :: "int \<Rightarrow> collector \<Rightarrow> collector" where
  "addCRDTruncationFinding retained c =
     addFinding (zero_Finding\<lparr>f_Type := FindingRemainingResource,
       f_Message := ''custom-resource enumeration reached maxCRDInstances'',
       f_Count := Some (wrap32 retained), f_Truncated := True\<rparr>) c"

text \<open>The loop over the items of a page: \<open>Inl\<close> for the early return, with the collector.\<close>

fun crd_items ::
  "kube_lib \<Rightarrow> CustomResourceDefinition \<Rightarrow> int \<Rightarrow> string \<Rightarrow> crd_scan \<Rightarrow> PartialObjectMetadata list
     \<Rightarrow> collector + crd_scan" where
  "crd_items L crd maxInstances version st [] = Inr st"
| "crd_items L crd maxInstances version st (item # items) =
     (if pom_UID item \<noteq> [] \<and> pom_UID item \<in> cs_seenUIDs st then crd_items L crd maxInstances version st items
      else if cs_retained st \<ge> maxInstances then Inl (addCRDTruncationFinding (cs_retained st) (cs_collector st))
      else if pom_UID item = [] then
        crd_items L crd maxInstances version
          (st\<lparr>cs_retained := cs_retained st + 1, cs_complete := False,
               cs_collector := addFinding (zero_Finding\<lparr>f_Type := FindingUnknown,
                 f_Message := ''CRD instance '' @ pom_Namespace item @ ''/'' @ pom_Name item @ '' in ''
                   @ lib_GroupVersionString L (crd_Group crd) version @ '' has no UID''\<rparr>) (cs_collector st)\<rparr>) items
      else
        crd_items L crd maxInstances version
          (st\<lparr>cs_retained := cs_retained st + 1, cs_seenUIDs := insert (pom_UID item) (cs_seenUIDs st),
               cs_collector := addFinding (zero_Finding\<lparr>f_Type := FindingRemainingResource,
                 f_Message := ''custom resource '' @ pom_Namespace item @ ''/'' @ pom_Name item @ '' remains'',
                 f_ResourceRef := Some \<lparr>tr_APIGroup = crd_Group crd, tr_Version = version, tr_Resource = crd_Plural crd,
                   tr_Kind = crd_Kind crd, tr_Namespace = pom_Namespace item, tr_Name = pom_Name item,
                   tr_UID = pom_UID item\<rparr>\<rparr>) (cs_collector st)\<rparr>) items)"

fun crd_pages ::
  "kube_lib \<Rightarrow> env \<Rightarrow> CustomResourceDefinition \<Rightarrow> int \<Rightarrow> string \<Rightarrow> crd_scan \<Rightarrow> string \<Rightarrow> nat
     \<Rightarrow> (collector + crd_scan) option io" where
  "crd_pages L E crd maxInstances version st nextPage 0 = State_Monad.return None"
| "crd_pages L E crd maxInstances version st nextPage (Suc fuel) =
     do { r \<leftarrow> list_meta E \<lparr>gvr_Group = crd_Group crd, gvr_Version = version, gvr_Resource = crd_Plural crd\<rparr>
                 [] nextPage (nat metadataPageSize);
          case r of
            Inl err \<Rightarrow>
              give (Inr (st\<lparr>cs_complete := False,
                cs_collector := addFinding (zero_Finding\<lparr>f_Type := FindingDiscoveryFailure,
                  f_Message := ''list CRD instances for '' @ lib_GroupVersionString L (crd_Group crd) version
                    @ '': '' @ ae_Text err\<rparr>) (cs_collector st)\<rparr>))
          | Inr page \<Rightarrow>
              (case crd_items L crd maxInstances version st (page_Items page) of
                 Inl c \<Rightarrow> give (Inl c)
               | Inr st' \<Rightarrow>
                   if page_Continue page = [] then give (Inr st')
                   else crd_pages L E crd maxInstances version st' (page_Continue page) fuel) }"

fun crd_versions ::
  "kube_lib \<Rightarrow> env \<Rightarrow> nat \<Rightarrow> CustomResourceDefinition \<Rightarrow> int \<Rightarrow> crd_scan \<Rightarrow> string list
     \<Rightarrow> (bool \<times> collector) option io" where
  "crd_versions L E fuel crd maxInstances st [] = give (cs_complete st, cs_collector st)"
| "crd_versions L E fuel crd maxInstances st (version # versions) =
     bind_may (crd_pages L E crd maxInstances version st [] fuel)
       (\<lambda>r. case r of
          Inl c \<Rightarrow> give (False, c)
        | Inr st' \<Rightarrow> crd_versions L E fuel crd maxInstances st' versions)"

definition served_versions :: "CustomResourceDefinition \<Rightarrow> string list" where
  "served_versions crd = sort (map fst (filter snd (crd_Versions crd)))"

definition enumerateCRDInstances ::
  "kube_lib \<Rightarrow> env \<Rightarrow> nat \<Rightarrow> CustomResourceDefinition \<Rightarrow> int \<Rightarrow> collector \<Rightarrow> (bool \<times> collector) option io" where
  "enumerateCRDInstances L E fuel crd maxInstances c =
     crd_versions L E fuel crd maxInstances
       \<lparr>cs_seenUIDs = {}, cs_retained = 0, cs_complete = True, cs_collector = c\<rparr> (served_versions crd)"

definition diagnoseCRD ::
  "kube_lib \<Rightarrow> env \<Rightarrow> nat \<Rightarrow> CompiledPolicy Request \<Rightarrow> Unstructured \<Rightarrow> Result \<Rightarrow> collector
     \<Rightarrow> (Result \<times> collector) option io" where
  "diagnoseCRD L E fuel request target result c =
     (case obj_AsCRD target of
        Inl err \<Rightarrow>
          give (result\<lparr>dg_DiagnosisComplete := False\<rparr>,
            addFinding (zero_Finding\<lparr>f_Type := FindingDiscoveryFailure,
              f_Message := ''decode CustomResourceDefinition target: '' @ err\<rparr>) c)
      | Inr crd \<Rightarrow>
          (let c1 = analyzeGracePeriod request target c;
               c2 = analyzeMetadataFinalizers L request target True c1
           in bind_may (enumerateCRDInstances L E fuel crd
                (dp_MaxCRDInstances (set_Diagnosis (policy_Settings (Some (req_Policy request))))) c2)
                (\<lambda>(instancesComplete, c3).
                   let (conversionComplete, c4) = analyzeCRDConversion request crd c3;
                       result1 = result\<lparr>dg_DiagnosisComplete :=
                         dg_DiagnosisComplete result \<and> instancesComplete \<and> conversionComplete\<rparr>
                   in if instancesComplete \<and> conversionComplete
                         \<and> CustomResourceCleanupFinalizer \<in> set (crd_Finalizers crd) then
                        give (result1, addAction (newAction (req_Policy request) ActionRemoveCRDFinalizer
                          (req_Target request) CustomResourceCleanupFinalizer (obj_ResourceVersion target)
                          ''remove the CRD cleanup finalizer after complete instance and conversion evidence'') c4)
                      else give (result1, c4))))"

section \<open>Diagnose\<close>

text \<open>\<open>getTarget\<close>; its loop over versions is that of the executor's \<open>getCurrent\<close>.\<close>

definition getTarget :: "env \<Rightarrow> 'p Request \<Rightarrow> get_answer io" where
  "getTarget E request =
     (let target = req_Target request;
          gr = \<lparr>gr_Group = tr_APIGroup target, gr_Resource = tr_Resource target\<rparr>
      in case Resolve (dsn_Catalog (req_Snapshot request)) gr of
           None \<Rightarrow>
             (let gvr = WithVersion gr (tr_Version target)
              in do { r \<leftarrow> dyn_get E gvr (tr_Namespace target) (tr_Name target);
                      case r of
                        Inl err \<Rightarrow> State_Monad.return (None, gvr, Some err)
                      | Inr obj \<Rightarrow> State_Monad.return (Some obj, gvr, None) })
         | Some resource \<Rightarrow> get_versions E target gr None (OrderedVersions resource (tr_Version target)))"

text \<open>The version and the kind under which the target was read replace those of the request.\<close>

definition observed_target :: "DiagnosisSnapshot \<Rightarrow> TargetReference \<Rightarrow> string \<Rightarrow> TargetReference" where
  "observed_target snapshot target version =
     (let t = target\<lparr>tr_Version := version\<rparr>;
          gr = \<lparr>gr_Group = tr_APIGroup target, gr_Resource = tr_Resource target\<rparr>
      in case Resolve (dsn_Catalog snapshot) gr of
           None \<Rightarrow> t
         | Some resource \<Rightarrow>
             (case find (\<lambda>v. v_Version v = version) (OrderedVersions resource version) of
                None \<Rightarrow> t
              | Some v \<Rightarrow> t\<lparr>tr_Kind := v_Kind v\<rparr>))"

datatype diagnosis = DiagnosisError ApiError | Diagnosed Result | DiagnosisPanic

definition finish_diagnosis :: "Result \<times> collector \<Rightarrow> Result" where
  "finish_diagnosis rc =
     (let (result, c) = rc; (findings, actions, overflow) = collector_sorted c;
          complete = (dg_DiagnosisComplete result \<and> \<not> overflow)
      in result\<lparr>dg_Findings := findings, dg_Actions := (if complete then actions else []),
                 dg_DiagnosisComplete := complete\<rparr>)"

text \<open>The dispatch to the analyzers, once the target is known to be overdue.\<close>

definition analyze_target ::
  "kube_lib \<Rightarrow> env \<Rightarrow> nat \<Rightarrow> CompiledPolicy Request \<Rightarrow> Unstructured \<Rightarrow> Result \<Rightarrow> (Result \<times> collector) option io" where
  "analyze_target L E fuel request target result =
     (let settings = policy_Settings (Some (req_Policy request));
          gr = \<lparr>gr_Group = tr_APIGroup (req_Target request), gr_Resource = tr_Resource (req_Target request)\<rparr>;
          c0 = newCollector (req_Policy request);
          c1 = (if dp_CheckAPIServices (set_Diagnosis settings) then analyzeAPIServices L request c0 else c0);
          c2 = (if dp_CheckWebhooks (set_Diagnosis settings) then analyzeAdmissionWebhooks L request target c1 else c1)
      in if gr = namespacesGR then diagnoseNamespace L E fuel request target result c2
         else if gr = crdsGR then diagnoseCRD L E fuel request target result c2
         else give (result, diagnoseGeneric L request target c2))"

definition diagnose_object ::
  "kube_lib \<Rightarrow> env \<Rightarrow> nat \<Rightarrow> CompiledPolicy Request \<Rightarrow> Unstructured \<Rightarrow> Result option io" where
  "diagnose_object L E fuel request target =
     (let result = zero_Result\<lparr>dg_TargetFound := True, dg_DiagnosisComplete := True\<rparr>
      in if obj_UID target \<noteq> tr_UID (req_Target request) then give result
         else let result1 = result\<lparr>dg_UIDMatches := True,
                    dg_TargetSnapshot := zero_TargetSnapshot\<lparr>ts_ResourceVersion := obj_ResourceVersion target,
                      ts_MetadataFinalizers := sortedCopy (obj_Finalizers target)\<rparr>\<rparr>
         in case obj_DeletionTimestamp target of
              None \<Rightarrow> give result1
            | Some deleted \<Rightarrow>
                (let elapsed = (\<not> req_Now request < deleted
                       + set_TerminationAge (policy_Settings (Some (req_Policy request))));
                     result2 = result1\<lparr>dg_ThresholdElapsed := elapsed\<rparr>
                 in if \<not> elapsed then give result2
                    else bind_may (analyze_target L E fuel request target result2)
                           (\<lambda>rc. give (finish_diagnosis rc))))"

definition Diagnose :: "kube_lib \<Rightarrow> env option \<Rightarrow> nat \<Rightarrow> policy_ptr Request \<Rightarrow> diagnosis option io" where
  "Diagnose L reader fuel request =
     (case reader of
        None \<Rightarrow> give (DiagnosisError (errors_New ''diagnosis reader is required''))
      | Some E \<Rightarrow>
          case req_Policy request of
            None \<Rightarrow> give (DiagnosisError (errors_New ''compiled policy is required''))
          | Some policy \<Rightarrow>
              if \<not> Ready (req_Policy request) then
                give (DiagnosisError (errors_New ''compiled policy must be ready''))
              else if time_IsZero (req_Now request) then
                give (DiagnosisError (errors_New ''diagnosis time is required''))
              else do { (target, gvr, err) \<leftarrow> getTarget E request;
                        case err of
                          Some e \<Rightarrow>
                            if ae_NotFound e \<or> ae_Gone e then give (Diagnosed (zero_Result\<lparr>dg_DiagnosisComplete := True\<rparr>))
                            else give (DiagnosisError (errorf_wrap ''get diagnosis target: '' e))
                        | None \<Rightarrow>
                            (case target of
                               None \<Rightarrow> give DiagnosisPanic
                             | Some obj \<Rightarrow>
                                 bind_may (diagnose_object L E fuel
                                   \<lparr>req_Target = observed_target (req_Snapshot request) (req_Target request) (gvr_Version gvr),
                                    req_Policy = policy, req_Snapshot = req_Snapshot request, req_Now = req_Now request\<rparr> obj)
                                   (\<lambda>result. give (Diagnosed result))) })"

end
