(* ===== verification/Metrics.thy ===== *)
theory Metrics
  imports Api_Types
begin

text \<open>
  The collectors of the program (\<open>metrics.go\<close> of the packages \<open>scanner\<close>, \<open>discovery\<close> and \<open>executor\<close>) and
  their registration when the process starts.  A collector has a name, which the registry keeps unique, and the
  names of its labels; a time series is a collector with one value for each label.
\<close>

datatype collector_kind = CounterVec | Gauge | GaugeVec | Histogram

record Collector =
  col_Kind :: collector_kind
  col_Name :: string
  col_Labels :: "string list"

section \<open>Scanner\<close>

definition scanCycles :: Collector where
  "scanCycles = \<lparr>col_Kind = CounterVec, col_Name = ''exitguard_scanner_cycles_total'', col_Labels = [''result'']\<rparr>"

definition scanDuration :: Collector where
  "scanDuration = \<lparr>col_Kind = Histogram, col_Name = ''exitguard_scanner_cycle_duration_seconds'', col_Labels = []\<rparr>"

definition catalogResources_gauge :: Collector where
  "catalogResources_gauge = \<lparr>col_Kind = Gauge, col_Name = ''exitguard_scanner_catalog_resources'', col_Labels = []\<rparr>"

definition resourceLists_total :: Collector where
  "resourceLists_total = \<lparr>col_Kind = CounterVec, col_Name = ''exitguard_scanner_resource_lists_total'', col_Labels = [''result'']\<rparr>"

definition diagnoses_total :: Collector where
  "diagnoses_total = \<lparr>col_Kind = CounterVec, col_Name = ''exitguard_scanner_diagnoses_total'', col_Labels = [''result'']\<rparr>"

definition compiledPoliciesGauge :: Collector where
  "compiledPoliciesGauge = \<lparr>col_Kind = GaugeVec, col_Name = ''exitguard_scanner_policies'', col_Labels = [''ready'']\<rparr>"

definition activeIncidents :: Collector where
  "activeIncidents = \<lparr>col_Kind = GaugeVec, col_Name = ''exitguard_scanner_incidents'', col_Labels = [''phase'']\<rparr>"

definition scanner_collectors :: "Collector list" where
  "scanner_collectors =
     [scanCycles, scanDuration, catalogResources_gauge, resourceLists_total, diagnoses_total, compiledPoliciesGauge,
      activeIncidents]"

section \<open>Discovery and executor\<close>

definition discoveryRefreshes :: Collector where
  "discoveryRefreshes = \<lparr>col_Kind = CounterVec, col_Name = ''exitguard_discovery_refreshes_total'', col_Labels = [''result'']\<rparr>"

definition discoveredResources :: Collector where
  "discoveredResources = \<lparr>col_Kind = Gauge, col_Name = ''exitguard_discovery_resources'', col_Labels = []\<rparr>"

definition discovery_collectors :: "Collector list" where
  "discovery_collectors = [discoveryRefreshes, discoveredResources]"

definition remediations :: Collector where
  "remediations = \<lparr>col_Kind = CounterVec, col_Name = ''exitguard_remediation_attempts_total'',
     col_Labels = [''action'', ''risk'', ''result'', ''dry_run'']\<rparr>"

definition executor_collectors :: "Collector list" where
  "executor_collectors = [remediations]"

section \<open>Registration\<close>

text \<open>\<open>MustRegister\<close> panics, which is \<open>None\<close>, when a name is taken.\<close>

fun MustRegister :: "Collector list \<Rightarrow> Collector list \<Rightarrow> Collector list option" where
  "MustRegister registry [] = Some registry"
| "MustRegister registry (c # cs) =
     (if col_Name c \<in> set (map col_Name registry) then None else MustRegister (registry @ [c]) cs)"

lemma MustRegister_iff:
  "MustRegister registry cs = Some registry' \<longleftrightarrow>
     registry' = registry @ cs \<and> distinct (map col_Name cs) \<and> set (map col_Name cs) \<inter> set (map col_Name registry) = {}"
  by (induction registry cs rule: MustRegister.induct) auto

text \<open>The packages may be initialised in any order: no registration panics.\<close>

theorem collectors_register:
  assumes "mset groups = mset [scanner_collectors, discovery_collectors, executor_collectors]"
  shows "MustRegister [] (concat groups) = Some (concat groups)"
proof -
  let ?all = "scanner_collectors @ discovery_collectors @ executor_collectors"
  have "distinct (map col_Name ?all)" by code_simp
  moreover have "mset (concat groups) = mset ?all"
    using arg_cong[OF assms, of "\<lambda>M. sum_mset (image_mset mset M)"] by (simp add: mset_concat flip: sum_mset_sum_list)
  then have "mset (map col_Name (concat groups)) = mset (map col_Name ?all)" by (simp only: mset_map)
  ultimately have "distinct (map col_Name (concat groups))" using mset_eq_imp_distinct_iff by blast
  then show ?thesis by (simp add: MustRegister_iff)
qed

section \<open>Series\<close>

text \<open>The values of the labels that the documentation calls bounded.\<close>

definition bounded_series :: "(string \<times> string list) list" where
  "bounded_series =
     [(col_Name scanCycles, [''success'', ''error'', ''overlap_skipped'']),
      (col_Name catalogResources_gauge, [[]]),
      (col_Name resourceLists_total, [''success'', ''error'', ''forbidden'', ''unsupported'']),
      (col_Name diagnoses_total, [''success'', ''error'']),
      (col_Name compiledPoliciesGauge, [''true'', ''false'']),
      (col_Name activeIncidents, [IncidentPhaseActive, IncidentPhaseDiagnosisFailed, IncidentPhaseResolved])]"

definition bounded_metric :: "string \<Rightarrow> string \<Rightarrow> bool" where
  "bounded_metric name label \<longleftrightarrow>
     (case map_of bounded_series name of None \<Rightarrow> False | Some labels \<Rightarrow> label \<in> set labels)"

lemmas collector_defs =
  scanCycles_def scanDuration_def catalogResources_gauge_def resourceLists_total_def diagnoses_total_def
  compiledPoliciesGauge_def activeIncidents_def

lemma bounded_labels [simp]:
  "bounded_metric (col_Name scanCycles) label \<longleftrightarrow> label \<in> {''success'', ''error'', ''overlap_skipped''}"
  "bounded_metric (col_Name catalogResources_gauge) label \<longleftrightarrow> label = []"
  "bounded_metric (col_Name resourceLists_total) label \<longleftrightarrow> label \<in> {''success'', ''error'', ''forbidden'', ''unsupported''}"
  "bounded_metric (col_Name diagnoses_total) label \<longleftrightarrow> label \<in> {''success'', ''error''}"
  "bounded_metric (col_Name compiledPoliciesGauge) label \<longleftrightarrow> label \<in> {''true'', ''false''}"
  "bounded_metric (col_Name activeIncidents) label
     \<longleftrightarrow> label \<in> {IncidentPhaseActive, IncidentPhaseDiagnosisFailed, IncidentPhaseResolved}"
  by (simp_all add: bounded_metric_def bounded_series_def collector_defs)

text \<open>Every such series belongs to a registered collector, with as many labels as it declares.\<close>

lemma bounded_metric_registered:
  assumes "bounded_metric name label"
  shows "\<exists>c \<in> set scanner_collectors. col_Name c = name \<and> (label = [] \<longleftrightarrow> col_Labels c = []) \<and> length (col_Labels c) \<le> 1"
proof -
  have "list_all (\<lambda>(name, labels). list_ex (\<lambda>c. col_Name c = name
      \<and> list_all (\<lambda>label. (label = [] \<longleftrightarrow> col_Labels c = []) \<and> length (col_Labels c) \<le> 1) labels) scanner_collectors) bounded_series"
    by code_simp
  moreover obtain labels where "(name, labels) \<in> set bounded_series" "label \<in> set labels"
    using assms unfolding bounded_metric_def by (auto split: option.splits dest: map_of_SomeD)
  ultimately show ?thesis by (fastforce simp: list_all_iff list_ex_iff)
qed

end
