(* ===== verification/Scanner.thy ===== *)
theory Scanner
  imports Diagnosis Go_Numbers Metrics
begin

text \<open>
  The scanner (\<open>internal/scanner/scanner.go\<close>, \<open>cycle.go\<close>): compiling policies with a cache, listing the
  resources they select, diagnosing what is being deleted and keeping one DeletionIncident per target.

  The scanner lists resources and diagnoses targets with pools of workers.  Every call of a worker is
  answered by the environment from the log, so other writers may act at any point; what the workers share
  is the target budget, each of whose calls is atomic.  The model runs the workers' jobs one after the other,
  in an order, and up to a point, that the environment chooses (a done context stops the hand-out of jobs),
  and passes the budget from job to job.  Go leaves the order
  in which a map is iterated open; the model iterates in the order of insertion.
  Joined errors are a list, empty for nil.
\<close>

section \<open>Environment\<close>

record scan_env =
  se_env :: env
  se_TryLock :: "event list \<Rightarrow> bool"
  se_LastResult :: "event list \<Rightarrow> time option"
  se_ListPolicies :: "event list \<Rightarrow> ApiError + TerminationPolicy list"
  se_PolicyStatus :: "event list \<Rightarrow> TerminationPolicy \<Rightarrow> ApiError option"
  se_ListIncidents :: "event list \<Rightarrow> ApiError + DeletionIncident list"
  se_CreateIncident :: "event list \<Rightarrow> DeletionIncident \<Rightarrow> ApiError option"
  se_PatchIncident :: "event list \<Rightarrow> DeletionIncident \<Rightarrow> ApiError + DeletionIncident"
  se_IncidentStatus :: "event list \<Rightarrow> DeletionIncident \<Rightarrow> ApiError + DeletionIncident"
  se_DeleteIncident :: "event list \<Rightarrow> string \<Rightarrow> ApiError option"
  se_ListAPIServices :: "event list \<Rightarrow> ApiError + APIService list"
  se_ListWebhooks :: "event list \<Rightarrow> bool \<Rightarrow> ApiError + WebhookConfiguration list"
  se_GetCRD :: "event list \<Rightarrow> string \<Rightarrow> ApiError + CustomResourceDefinition"
  se_GetService :: "event list \<Rightarrow> string \<Rightarrow> string \<Rightarrow> ApiError + Service"
  se_ListEndpointSlices :: "event list \<Rightarrow> string \<Rightarrow> string \<Rightarrow> ApiError + EndpointSlice list"
  se_GetWorkload :: "event list \<Rightarrow> string \<Rightarrow> string \<Rightarrow> string \<Rightarrow> ApiError + Workload"
  se_CtxErr :: "event list \<Rightarrow> bool"
  se_ListOrder :: "Resource list \<Rightarrow> Resource list"
  se_DiagnoseOrder :: "UID list \<Rightarrow> UID list"
  se_Fraction :: fraction_value

text \<open>
  \<open>se_ListWebhooks True\<close> lists the mutating configurations; \<open>se_Fraction\<close> is the arithmetic of
  \<open>time.ParseDuration\<close> on fractions.
\<close>

definition scan_call :: "(event list \<Rightarrow> 'r) \<Rightarrow> ('r \<Rightarrow> scan_event) \<Rightarrow> 'r io" where
  "scan_call answer ev = invoke answer (\<lambda>r. EvScan (ev r))"

definition metric :: "Collector \<Rightarrow> string \<Rightarrow> int \<Rightarrow> unit io" where
  "metric collector label n = note_event (EvScan (ScMetric (col_Name collector) label n))"

section \<open>Data\<close>

definition observationRefresh :: duration where "observationRefresh = 5 * minute"

definition retentionAnnotation :: string where
  "retentionAnnotation = ''safety.exitguard.io/resolved-incident-ttl''"

record Config =
  cfg_Interval :: duration
  cfg_Timeout :: duration
  cfg_ResourceWorkers :: int
  cfg_DiagnosisWorkers :: int
  cfg_PageSize :: int
  cfg_MaxTargets :: int

record Coordinator =
  co_interval :: duration
  co_timeout :: duration
  co_config :: Config

definition NewCoordinator :: "bool \<Rightarrow> bool \<Rightarrow> bool \<Rightarrow> bool \<Rightarrow> bool \<Rightarrow> Config \<Rightarrow> ApiError + Coordinator" where
  "NewCoordinator reader writer metadataClient catalog engine config =
     (if \<not> reader \<or> \<not> writer \<or> \<not> metadataClient \<or> \<not> catalog \<or> \<not> engine then
        Inl (errors_New ''scanner reader, writer, metadata client, catalog, and diagnosis engine are required'')
      else if cfg_Interval config \<le> 0 \<or> cfg_Timeout config \<le> 0 \<or> cfg_ResourceWorkers config \<le> 0
              \<or> cfg_DiagnosisWorkers config \<le> 0 \<or> cfg_PageSize config \<le> 0 \<or> cfg_MaxTargets config \<le> 0 then
        Inl (errors_New ''scanner bounds must be positive'')
      else Inr \<lparr>co_interval = cfg_Interval config, co_timeout = cfg_Timeout config, co_config = config\<rparr>)"

record policyCompileCacheEntry =
  ce_generation :: int
  ce_spec :: TerminationPolicySpec
  ce_compiled :: CompiledPolicy
  ce_status :: TerminationPolicyStatus

type_synonym policyCompileCacheKey = "UID \<times> string"
type_synonym compile_cache = "(policyCompileCacheKey \<times> policyCompileCacheEntry) list"

text \<open>The state that persists across cycles.\<close>

record liveCycleRunner =
  lr_config :: Config
  lr_policyCatalog :: "Resource list"
  lr_policyCompileCache :: compile_cache

record compiledPolicies =
  cps_items :: "CompiledPolicy list"
  cps_byUID :: "(UID \<times> CompiledPolicy) list"

record observation =
  obs_target :: TargetReference
  obs_policy :: CompiledPolicy
  obs_meta :: PartialObjectMetadata

record resourceCoverage =
  cov_success :: bool
  cov_allUIDs :: "UID set"
  cov_selectedUIDs :: "UID set"
  cov_identities :: "(string \<times> UID) list"

record trackedTargets =
  trk_uids :: "UID set"
  trk_identities :: "string set"

definition incidentName :: "UID \<Rightarrow> string" where
  "incidentName uid = ''deletion-'' @ uid"

definition objectIdentity :: "string \<Rightarrow> string \<Rightarrow> string" where
  "objectIdentity namespace name = namespace @ [CHR 0x00] @ name"

definition policyUID :: "PolicyReference option \<Rightarrow> UID" where
  "policyUID ref = (case ref of None \<Rightarrow> [] | Some r \<Rightarrow> pr_UID r)"

definition listResult :: "ApiError \<Rightarrow> string" where
  "listResult err =
     (if ae_Forbidden err then ''forbidden''
      else if ae_NotFound err \<or> ae_MethodNotSupported err then ''unsupported''
      else ''error'')"

section \<open>Conditions\<close>

text \<open>The map by type keeps the last condition of each type.\<close>

definition preserveConditionTransitions :: "Condition list \<Rightarrow> Condition list \<Rightarrow> Condition list" where
  "preserveConditionTransitions current desired =
     map (\<lambda>d. case map_of (rev (map (\<lambda>p. (cond_Type p, p)) current)) (cond_Type d) of
                None \<Rightarrow> d
              | Some previous \<Rightarrow>
                  if cond_Status previous = cond_Status d
                  then d\<lparr>cond_LastTransitionTime := cond_LastTransitionTime previous\<rparr> else d) desired"

definition diagnosisConditions :: "Result \<Rightarrow> time \<Rightarrow> Condition list" where
  "diagnosisConditions result now =
     (let (visibleStatus, visibleReason) =
            (if \<not> dg_TargetFound result then (ConditionFalse, ''TargetAbsent'')
             else if \<not> dg_UIDMatches result then (ConditionFalse, ''TargetReplaced'')
             else (ConditionTrue, ''TargetObserved''));
          (completeStatus, completeReason) =
            (if \<not> dg_DiagnosisComplete result then (ConditionFalse, ''DiagnosisIncomplete'')
             else (ConditionTrue, ''DiagnosisComplete''))
      in [\<lparr>cond_Type = ''DiagnosisComplete'', cond_Status = completeStatus, cond_ObservedGeneration = 0,
           cond_LastTransitionTime = now, cond_Reason = completeReason, cond_Message = []\<rparr>,
          \<lparr>cond_Type = ''TargetVisible'', cond_Status = visibleStatus, cond_ObservedGeneration = 0,
           cond_LastTransitionTime = now, cond_Reason = visibleReason, cond_Message = []\<rparr>])"

section \<open>Policies\<close>

text \<open>\<open>retry.RetryOnConflict\<close> around a closure that keeps state between its calls.\<close>

fun retry_with :: "nat \<Rightarrow> ('s \<Rightarrow> (ApiError option \<times> 's) io) \<Rightarrow> 's \<Rightarrow> (ApiError option \<times> 's) io" where
  "retry_with 0 fn st = fn st"
| "retry_with (Suc n) fn st =
     do { (err, st') \<leftarrow> fn st;
          case err of
            None \<Rightarrow> State_Monad.return (None, st')
          | Some e \<Rightarrow> if ae_Conflict e then retry_with n fn st' else State_Monad.return (Some e, st') }"

definition retry_closure :: "scan_env \<Rightarrow> ('s \<Rightarrow> (ApiError option \<times> 's) io) \<Rightarrow> 's \<Rightarrow> (ApiError option \<times> 's) io" where
  "retry_closure S fn st = retry_with (env_ConflictRetries (se_env S)) fn st"

definition policy_status_update :: "scan_env \<Rightarrow> TerminationPolicy \<Rightarrow> ApiError option io" where
  "policy_status_update S p = scan_call (\<lambda>log. se_PolicyStatus S log p) (ScPolicyStatus p)"

text \<open>The state of the closure: the current policy, nil once written, and the desired status.\<close>

definition write_policy_status ::
  "scan_env \<Rightarrow> TerminationPolicy \<Rightarrow> TerminationPolicyStatus
     \<Rightarrow> (ApiError option \<times> TerminationPolicy option \<times> TerminationPolicyStatus) io" where
  "write_policy_status S current desired =
     (let desired' = desired\<lparr>ps_Conditions := preserveConditionTransitions (ps_Conditions (tp_Status current)) (ps_Conditions desired)\<rparr>
      in if tp_Status current = desired' then State_Monad.return (None, Some current, desired')
         else do { err \<leftarrow> policy_status_update S (current\<lparr>tp_Status := desired'\<rparr>);
                   State_Monad.return (err, None, desired') })"

definition zero_TerminationPolicy :: TerminationPolicy where
  "zero_TerminationPolicy =
     \<lparr>tp_Meta = zero_ObjectMeta,
      tp_Spec = \<lparr>sp_Priority = 0, sp_TargetRules = [], sp_TerminationAge = 0,
                 sp_Diagnosis = \<lparr>dp_CheckAPIServices = False, dp_CheckWebhooks = False, dp_MaxNamespaceObjects = 0,
                                 dp_MaxCRDInstances = 0\<rparr>,
                 sp_FinalizerOwners = [],
                 sp_Remediation = \<lparr>rp_MaxRisk = [], rp_AllowedFinalizers = [], rp_AllowNamespaceForce = False,
                                   rp_ApprovalTTL = 0\<rparr>,
                 sp_Retention = \<lparr>rt_ResolvedIncidentTTL = 0\<rparr>\<rparr>,
      tp_Status = \<lparr>ps_ObservedGeneration = 0, ps_Conditions = [], ps_LastValidatedTime = None,
                   ps_ResolvedResourceCount = 0\<rparr>\<rparr>"

text \<open>A failed read leaves the closure with an empty object, not with nil.\<close>

definition policy_status_attempt ::
  "scan_env \<Rightarrow> string \<Rightarrow> TerminationPolicy option \<times> TerminationPolicyStatus
     \<Rightarrow> (ApiError option \<times> TerminationPolicy option \<times> TerminationPolicyStatus) io" where
  "policy_status_attempt S name st =
     (case fst st of
        Some current \<Rightarrow> write_policy_status S current (snd st)
      | None \<Rightarrow>
          do { r \<leftarrow> get_policy (se_env S) name;
               case r of
                 Inl err \<Rightarrow> State_Monad.return (Some err, Some zero_TerminationPolicy, snd st)
               | Inr current \<Rightarrow> write_policy_status S current (snd st) })"

definition updatePolicyStatus :: "scan_env \<Rightarrow> TerminationPolicy \<Rightarrow> TerminationPolicyStatus \<Rightarrow> ApiError option io" where
  "updatePolicyStatus S current desired =
     do { (err, _) \<leftarrow> retry_closure S (policy_status_attempt S (om_Name (tp_Meta current))) (Some current, desired);
          State_Monad.return err }"

text \<open>The entry of a policy: compiled anew, or the cached one with its times moved to now.\<close>

definition refresh_entry :: "time \<Rightarrow> policyCompileCacheEntry \<Rightarrow> policyCompileCacheEntry" where
  "refresh_entry now entry =
     (let status = ce_status entry
      in entry\<lparr>ce_status := status\<lparr>ps_LastValidatedTime := Some now,
           ps_Conditions := map (\<lambda>c. c\<lparr>cond_LastTransitionTime := now\<rparr>) (ps_Conditions status)\<rparr>\<rparr>)"

definition compile_entry :: "kube_lib \<Rightarrow> compile_cache \<Rightarrow> Snapshot \<Rightarrow> time \<Rightarrow> TerminationPolicy \<Rightarrow> policyCompileCacheEntry" where
  "compile_entry L cache catalog now policy =
     (let fresh = (let (compiled, status) = Compile L (Some policy) catalog now
                   in \<lparr>ce_generation = om_Generation (tp_Meta policy), ce_spec = tp_Spec policy,
                       ce_compiled = compiled, ce_status = status\<rparr>)
      in case map_of cache (om_UID (tp_Meta policy), om_Name (tp_Meta policy)) of
           None \<Rightarrow> fresh
         | Some entry \<Rightarrow>
             if ce_generation entry \<noteq> om_Generation (tp_Meta policy) \<or> ce_spec entry \<noteq> tp_Spec policy then fresh
             else refresh_entry now entry)"

text \<open>The loop over the policies: the cache of the next cycle and what has been compiled so far.\<close>

fun compile_loop ::
  "kube_lib \<Rightarrow> scan_env \<Rightarrow> compile_cache \<Rightarrow> Snapshot \<Rightarrow> time \<Rightarrow> compile_cache \<Rightarrow> compiledPolicies \<Rightarrow> TerminationPolicy list
     \<Rightarrow> (ApiError + compile_cache \<times> compiledPolicies) io" where
  "compile_loop L S cache catalog now nextCache result [] = State_Monad.return (Inr (nextCache, result))"
| "compile_loop L S cache catalog now nextCache result (policy # policies) =
     (let entry = compile_entry L cache catalog now policy;
          compiled = ce_compiled entry;
          nextCache' = AList.update (om_UID (tp_Meta policy), om_Name (tp_Meta policy)) entry nextCache
      in do { err \<leftarrow> updatePolicyStatus S policy (ce_status entry);
              case err of
                Some e \<Rightarrow> State_Monad.return (Inl e)
              | None \<Rightarrow>
                  compile_loop L S cache catalog now nextCache'
                    (result\<lparr>cps_byUID := AList.update (cp_uid compiled) compiled (cps_byUID result),
                             cps_items := (if Ready (Some compiled) then cps_items result @ [compiled] else cps_items result)\<rparr>)
                    policies })"

text \<open>By priority, highest first, then by name; names of cluster-scoped objects are unique.\<close>

definition sort_policies :: "CompiledPolicy list \<Rightarrow> CompiledPolicy list" where
  "sort_policies ps = sort_key (\<lambda>p. - cp_priority p) (sort_key cp_name ps)"

definition compilePolicies ::
  "kube_lib \<Rightarrow> scan_env \<Rightarrow> liveCycleRunner \<Rightarrow> Snapshot \<Rightarrow> time \<Rightarrow> (ApiError + compiledPolicies \<times> liveCycleRunner) io" where
  "compilePolicies L S r catalog now =
     do { l \<leftarrow> scan_call (se_ListPolicies S) ScListPolicies;
          case l of
            Inl err \<Rightarrow> State_Monad.return (Inl (errorf_wrap ''list termination policies: '' err))
          | Inr policies \<Rightarrow>
              (let catalogResources = Snapshot_Resources catalog;
                   cache = (if lr_policyCatalog r \<noteq> catalogResources then [] else lr_policyCompileCache r)
               in do { x \<leftarrow> compile_loop L S cache catalog now [] \<lparr>cps_items = [], cps_byUID = []\<rparr> policies;
                       case x of
                         Inl err \<Rightarrow> State_Monad.return (Inl err)
                       | Inr (nextCache, result) \<Rightarrow>
                           do { metric compiledPoliciesGauge ''true'' (int (length (cps_items result)));
                                metric compiledPoliciesGauge ''false''
                                  (int (length policies) - int (length (cps_items result)));
                                State_Monad.return (Inr (result\<lparr>cps_items := sort_policies (cps_items result)\<rparr>,
                                  r\<lparr>lr_policyCatalog := catalogResources, lr_policyCompileCache := nextCache\<rparr>)) } }) }"

definition selectWinning :: "compiledPolicies \<Rightarrow> Target \<Rightarrow> CompiledPolicy option" where
  "selectWinning p target = find (\<lambda>candidate. Match (Some candidate) target) (cps_items p)"

section \<open>Namespace labels\<close>

fun namespace_pages :: "env \<Rightarrow> nat \<Rightarrow> (string \<rightharpoonup> labels) \<Rightarrow> string \<Rightarrow> nat \<Rightarrow> (ApiError + (string \<rightharpoonup> labels)) option io" where
  "namespace_pages E limit labelsByNamespace continueToken 0 = State_Monad.return None"
| "namespace_pages E limit labelsByNamespace continueToken (Suc fuel) =
     do { r \<leftarrow> list_meta E (WithVersion namespacesGR ''v1'') [] continueToken limit;
          case r of
            Inl err \<Rightarrow> give (Inl (errorf_wrap ''list namespace metadata: '' err))
          | Inr page \<Rightarrow>
              (let labels' = foldl (\<lambda>m item. m(pom_Name item \<mapsto> pom_Labels item)) labelsByNamespace (page_Items page)
               in if page_Continue page = [] then give (Inr labels')
                  else namespace_pages E limit labels' (page_Continue page) fuel) }"

definition namespaceLabels :: "scan_env \<Rightarrow> Config \<Rightarrow> nat \<Rightarrow> (ApiError + (string \<rightharpoonup> labels)) option io" where
  "namespaceLabels S cfg fuel = namespace_pages (se_env S) (nat (cfg_PageSize cfg)) Map.empty [] fuel"

section \<open>The target budget\<close>

record targetBudget =
  tb_maximum :: int
  tb_reserved :: "UID set"

definition reserve :: "targetBudget \<Rightarrow> UID \<Rightarrow> bool \<times> targetBudget" where
  "reserve b uid =
     (if uid \<in> tb_reserved b then (True, b)
      else if int (card (tb_reserved b)) \<ge> tb_maximum b then (False, b)
      else (True, b\<lparr>tb_reserved := insert uid (tb_reserved b)\<rparr>))"

section \<open>Listing targets\<close>

text \<open>
  The resources of a scan: those a ready policy resolves to and those with an unresolved incident, as
  far as the catalog knows them.
\<close>

definition policy_resources :: "kube_lib \<Rightarrow> Snapshot \<Rightarrow> compiledPolicies \<Rightarrow> (GroupResource \<times> Resource) list" where
  "policy_resources L catalog policies =
     foldl (\<lambda>selected gr. case Resolve catalog gr of None \<Rightarrow> selected | Some resource \<Rightarrow> AList.update gr resource selected) []
       (concat (map (\<lambda>policy. ResolvedGroupResources L (Some policy)) (cps_items policies)))"

definition empty_tracked :: trackedTargets where
  "empty_tracked = \<lparr>trk_uids = {}, trk_identities = {}\<rparr>"

type_synonym tracking = "(GroupResource \<times> Resource) list \<times> (GroupResource \<Rightarrow> trackedTargets)"

definition track_incident :: "Snapshot \<Rightarrow> tracking \<Rightarrow> DeletionIncident \<Rightarrow> tracking" where
  "track_incident catalog st incident =
     (let (selected, tracked) = st; target = ds_Target (di_Spec incident);
          gr = \<lparr>gr_Group = tr_APIGroup target, gr_Resource = tr_Resource target\<rparr>
      in if is_Phase (di_Status incident) = IncidentPhaseResolved then st
         else case Resolve catalog gr of
           None \<Rightarrow> st
         | Some resource \<Rightarrow>
             (AList.update gr resource selected,
              tracked(gr := \<lparr>trk_uids = insert (tr_UID target) (trk_uids (tracked gr)),
                              trk_identities = insert (objectIdentity (tr_Namespace target) (tr_Name target))
                                (trk_identities (tracked gr))\<rparr>)))"

definition resourcesToScan ::
  "kube_lib \<Rightarrow> scan_env \<Rightarrow> Snapshot \<Rightarrow> compiledPolicies
     \<Rightarrow> (ApiError + Resource list \<times> (GroupResource \<Rightarrow> trackedTargets) \<times> DeletionIncident list) io" where
  "resourcesToScan L S catalog policies =
     do { l \<leftarrow> scan_call (se_ListIncidents S) ScListIncidents;
          case l of
            Inl err \<Rightarrow> State_Monad.return (Inl (errorf_wrap ''list incidents for scan scope: '' err))
          | Inr incidents \<Rightarrow>
              (let (selected, tracked) =
                 foldl (track_incident catalog) (policy_resources L catalog policies, \<lambda>_. empty_tracked) incidents
               in State_Monad.return (Inr (sort_key (\<lambda>r. lib_GroupResourceString L (res_GroupResource r)) (map snd selected),
                    tracked, incidents))) }"

datatype list_error = TargetBound | ListError ApiError

definition policy_target_of :: "GroupResource \<Rightarrow> bool \<Rightarrow> (string \<rightharpoonup> labels) \<Rightarrow> PartialObjectMetadata \<Rightarrow> Target" where
  "policy_target_of gr namespaced nsLabels item =
     \<lparr>tg_GroupResource = gr, tg_Namespaced = namespaced, tg_Namespace = pom_Namespace item, tg_Labels = pom_Labels item,
      tg_NamespaceLabels = (case nsLabels (pom_Namespace item) of None \<Rightarrow> Map.empty | Some l \<Rightarrow> l)\<rparr>"

text \<open>
  The loop over the items of a page.  The budget is asked for every selected object in deletion; when it is
  exhausted the loop stops with what is retained so far.
\<close>

fun retain_items ::
  "Resource \<Rightarrow> Version \<Rightarrow> compiledPolicies \<Rightarrow> (string \<rightharpoonup> labels) \<Rightarrow> trackedTargets \<Rightarrow> targetBudget
     \<Rightarrow> PartialObjectMetadata list \<Rightarrow> PartialObjectMetadata list \<Rightarrow> PartialObjectMetadata list \<times> bool \<times> targetBudget" where
  "retain_items resource version policies nsLabels tracked budget retained [] = (retained, False, budget)"
| "retain_items resource version policies nsLabels tracked budget retained (item # items) =
     (let target = policy_target_of (res_GroupResource resource) (v_Namespaced version) nsLabels item;
          selectedDeleting = (pom_DeletionTimestamp item \<noteq> None \<and> selectWinning policies target \<noteq> None);
          trackedUID = (pom_UID item \<in> trk_uids tracked);
          trackedIdentity = (objectIdentity (pom_Namespace item) (pom_Name item) \<in> trk_identities tracked);
          (reserved, budget') = (if selectedDeleting then reserve budget (pom_UID item) else (True, budget))
      in if \<not> selectedDeleting \<and> \<not> trackedUID \<and> \<not> trackedIdentity
         then retain_items resource version policies nsLabels tracked budget retained items
         else if \<not> reserved then (retained, True, budget')
         else retain_items resource version policies nsLabels tracked budget' (retained @ [item]) items)"

type_synonym version_answer = "PartialObjectMetadata list \<times> list_error option \<times> targetBudget"

fun list_version_pages ::
  "scan_env \<Rightarrow> Config \<Rightarrow> Resource \<Rightarrow> Version \<Rightarrow> compiledPolicies \<Rightarrow> (string \<rightharpoonup> labels) \<Rightarrow> trackedTargets \<Rightarrow> targetBudget
     \<Rightarrow> PartialObjectMetadata list \<Rightarrow> string \<Rightarrow> nat \<Rightarrow> version_answer option io" where
  "list_version_pages S cfg resource version policies nsLabels tracked budget retained continueToken 0 = State_Monad.return None"
| "list_version_pages S cfg resource version policies nsLabels tracked budget retained continueToken (Suc fuel) =
     do { r \<leftarrow> list_meta (se_env S) (WithVersion (res_GroupResource resource) (v_Version version)) [] continueToken
                 (nat (cfg_PageSize cfg));
          case r of
            Inl err \<Rightarrow> give ([], Some (ListError err), budget)
          | Inr page \<Rightarrow>
              (let (retained', full, budget') =
                     retain_items resource version policies nsLabels tracked budget retained (page_Items page)
               in if full then give (retained', Some TargetBound, budget')
                  else if page_Continue page = [] then give (retained', None, budget')
                  else list_version_pages S cfg resource version policies nsLabels tracked budget' retained'
                         (page_Continue page) fuel) }"

definition listResourceVersion ::
  "scan_env \<Rightarrow> Config \<Rightarrow> nat \<Rightarrow> Resource \<Rightarrow> Version \<Rightarrow> compiledPolicies \<Rightarrow> (string \<rightharpoonup> labels) \<Rightarrow> trackedTargets \<Rightarrow> targetBudget
     \<Rightarrow> version_answer option io" where
  "listResourceVersion S cfg fuel resource version policies nsLabels tracked budget =
     list_version_pages S cfg resource version policies nsLabels tracked budget [] [] fuel"

type_synonym list_answer = "(PartialObjectMetadata list \<times> Version \<times> list_error option) \<times> targetBudget"

fun list_resource_versions ::
  "scan_env \<Rightarrow> Config \<Rightarrow> nat \<Rightarrow> Resource \<Rightarrow> compiledPolicies \<Rightarrow> (string \<rightharpoonup> labels) \<Rightarrow> trackedTargets \<Rightarrow> targetBudget
     \<Rightarrow> list_error option \<Rightarrow> Version list \<Rightarrow> list_answer option io" where
  "list_resource_versions S cfg fuel resource policies nsLabels tracked budget lastUnavailable [] =
     give (([], res_PreferredVersion resource, lastUnavailable), budget)"
| "list_resource_versions S cfg fuel resource policies nsLabels tracked budget lastUnavailable (version # versions) =
     bind_may (listResourceVersion S cfg fuel resource version policies nsLabels tracked budget)
       (\<lambda>(items, err, budget').
          case err of
            None \<Rightarrow> give ((items, version, None), budget')
          | Some TargetBound \<Rightarrow> give ((items, version, Some TargetBound), budget')
          | Some (ListError e) \<Rightarrow>
              if \<not> ae_NotFound e \<and> \<not> ae_Gone e then give (([], version, Some (ListError e)), budget')
              else list_resource_versions S cfg fuel resource policies nsLabels tracked budget' (Some (ListError e)) versions)"

definition listResource ::
  "scan_env \<Rightarrow> Config \<Rightarrow> nat \<Rightarrow> Resource \<Rightarrow> compiledPolicies \<Rightarrow> (string \<rightharpoonup> labels) \<Rightarrow> trackedTargets \<Rightarrow> targetBudget
     \<Rightarrow> list_answer option io" where
  "listResource S cfg fuel resource policies nsLabels tracked budget =
     list_resource_versions S cfg fuel resource policies nsLabels tracked budget None
       (OrderedVersions resource (v_Version (res_PreferredVersion resource)))"

text \<open>The workers: every job that was handed out, with its result in the order of arrival.\<close>

type_synonym listed_resource = "Resource \<times> PartialObjectMetadata list \<times> list_error option"

fun run_list_jobs ::
  "scan_env \<Rightarrow> Config \<Rightarrow> nat \<Rightarrow> compiledPolicies \<Rightarrow> (string \<rightharpoonup> labels) \<Rightarrow> (GroupResource \<Rightarrow> trackedTargets) \<Rightarrow> targetBudget
     \<Rightarrow> Resource list \<Rightarrow> listed_resource list option io" where
  "run_list_jobs S cfg fuel policies nsLabels tracked budget [] = give []"
| "run_list_jobs S cfg fuel policies nsLabels tracked budget (resource # resources) =
     bind_may (listResource S cfg fuel resource policies nsLabels (tracked (res_GroupResource resource)) budget)
       (\<lambda>((items, version, err), budget').
          bind_may (run_list_jobs S cfg fuel policies nsLabels tracked budget' resources)
            (\<lambda>rest. give ((resource\<lparr>res_PreferredVersion := version\<rparr>, items, err) # rest)))"

text \<open>Jobs are handed out at most once each, in any order and possibly not all.\<close>

definition dispatch :: "('a list \<Rightarrow> 'a list) \<Rightarrow> 'a list \<Rightarrow> 'a list" where
  "dispatch order jobs = remdups (filter (\<lambda>j. j \<in> set jobs) (order jobs))"

section \<open>Observations and coverage\<close>

record scan_view =
  sv_observations :: "(UID \<times> observation) list"
  sv_coverage :: "(GroupResource \<times> resourceCoverage) list"
  sv_errors :: "ApiError list"
  sv_truncated :: bool

definition observe_item ::
  "compiledPolicies \<Rightarrow> (string \<rightharpoonup> labels) \<Rightarrow> Resource \<Rightarrow> (UID \<times> observation) list \<times> resourceCoverage \<Rightarrow> PartialObjectMetadata
     \<Rightarrow> (UID \<times> observation) list \<times> resourceCoverage" where
  "observe_item policies nsLabels resource st item =
     (let (observations, state) = st;
          version = res_PreferredVersion resource; gr = res_GroupResource resource;
          state1 = state\<lparr>cov_allUIDs := insert (pom_UID item) (cov_allUIDs state),
            cov_identities := AList.update (objectIdentity (pom_Namespace item) (pom_Name item)) (pom_UID item) (cov_identities state)\<rparr>
      in case selectWinning policies (policy_target_of gr (v_Namespaced version) nsLabels item) of
           None \<Rightarrow> (observations, state1)
         | Some winner \<Rightarrow>
             (let state2 = state1\<lparr>cov_selectedUIDs := insert (pom_UID item) (cov_selectedUIDs state1)\<rparr>
              in if pom_DeletionTimestamp item = None \<or> map_of observations (pom_UID item) \<noteq> None then (observations, state2)
                 else (AList.update (pom_UID item)
                         \<lparr>obs_target = \<lparr>tr_APIGroup = gr_Group gr, tr_Version = v_Version version, tr_Resource = gr_Resource gr,
                            tr_Kind = v_Kind version, tr_Namespace = pom_Namespace item, tr_Name = pom_Name item, tr_UID = pom_UID item\<rparr>,
                          obs_policy = winner, obs_meta = item\<rparr> observations, state2)))"

definition empty_coverage :: "bool \<Rightarrow> resourceCoverage" where
  "empty_coverage success = \<lparr>cov_success = success, cov_allUIDs = {}, cov_selectedUIDs = {}, cov_identities = []\<rparr>"

text \<open>One iteration of the loop over the results.\<close>

definition record_listing ::
  "kube_lib \<Rightarrow> compiledPolicies \<Rightarrow> (string \<rightharpoonup> labels) \<Rightarrow> scan_view \<Rightarrow> listed_resource \<Rightarrow> scan_view" where
  "record_listing L policies nsLabels v listed =
     (let (resource, items, err) = listed; gr = res_GroupResource resource;
          prefix = ''list '' @ lib_GroupResourceString L gr @ '': '';
          go = (\<lambda>v. let (observations, state) =
                      foldl (observe_item policies nsLabels resource) (sv_observations v, empty_coverage (err = None)) items
                    in v\<lparr>sv_observations := observations, sv_coverage := AList.update gr state (sv_coverage v)\<rparr>)
      in case err of
           None \<Rightarrow> go v
         | Some TargetBound \<Rightarrow>
             go (v\<lparr>sv_errors := sv_errors v @ [errors_New (prefix @ ''scan target bound exceeded'')], sv_truncated := True\<rparr>)
         | Some (ListError e) \<Rightarrow>
             v\<lparr>sv_errors := sv_errors v @ [errorf_wrap prefix e],
                sv_coverage := AList.update gr (empty_coverage False) (sv_coverage v)\<rparr>)"

definition seal_view :: "Config \<Rightarrow> scan_view \<Rightarrow> scan_view" where
  "seal_view cfg v =
     (if sv_truncated v
      then v\<lparr>sv_coverage := map (\<lambda>(gr, state). (gr, state\<lparr>cov_success := False\<rparr>)) (sv_coverage v),
              sv_errors := sv_errors v @ [errors_New (''scan target bound '' @ itoa (cfg_MaxTargets cfg) @ '' exceeded'')]\<rparr>
      else v)"

definition empty_view :: scan_view where
  "empty_view = \<lparr>sv_observations = [], sv_coverage = [], sv_errors = [], sv_truncated = False\<rparr>"

definition count_listing :: "listed_resource \<Rightarrow> unit io" where
  "count_listing listed =
     metric resourceLists_total
       (case snd (snd listed) of
          None \<Rightarrow> ''success'' | Some TargetBound \<Rightarrow> ''error'' | Some (ListError e) \<Rightarrow> listResult e) 1"

fun each :: "('a \<Rightarrow> unit io) \<Rightarrow> 'a list \<Rightarrow> unit io" where
  "each f [] = State_Monad.return ()"
| "each f (x # xs) = do { f x; each f xs }"

definition listTargets ::
  "kube_lib \<Rightarrow> scan_env \<Rightarrow> Config \<Rightarrow> nat \<Rightarrow> Snapshot \<Rightarrow> compiledPolicies \<Rightarrow> (string \<rightharpoonup> labels)
     \<Rightarrow> (scan_view \<times> DeletionIncident list option) option io" where
  "listTargets L S cfg fuel catalog policies nsLabels =
     do { x \<leftarrow> resourcesToScan L S catalog policies;
          case x of
            Inl err \<Rightarrow> give (empty_view\<lparr>sv_errors := [err]\<rparr>, None)
          | Inr (resources, tracked, incidents) \<Rightarrow>
              bind_may (run_list_jobs S cfg fuel policies nsLabels tracked \<lparr>tb_maximum = cfg_MaxTargets cfg, tb_reserved = {}\<rparr>
                  (dispatch (se_ListOrder S) resources))
                (\<lambda>results. do { each count_listing results;
                                give (seal_view cfg (foldl (record_listing L policies nsLabels) empty_view results), Some incidents) }) }"

section \<open>The diagnosis snapshot\<close>

datatype snapshot_failure = SnapshotError ApiError | SnapshotPanic

definition snapshot_error :: "string \<Rightarrow> ApiError \<Rightarrow> snapshot_failure + 'a" where
  "snapshot_error prefix err = Inl (SnapshotError (errorf_wrap prefix err))"

text \<open>Sequencing of steps that may fail.\<close>

definition and_step :: "('e + 'a) io \<Rightarrow> ('a \<Rightarrow> ('e + 'b) io) \<Rightarrow> ('e + 'b) io" where
  "and_step m f = State_Monad.bind m (\<lambda>x. case x of Inl e \<Rightarrow> State_Monad.return (Inl e) | Inr a \<Rightarrow> f a)"

definition list_step :: "string \<Rightarrow> (ApiError + 'a) io \<Rightarrow> (snapshot_failure + 'a) io" where
  "list_step prefix m =
     State_Monad.bind m (\<lambda>r. State_Monad.return (case r of Inl err \<Rightarrow> snapshot_error prefix err | Inr x \<Rightarrow> Inr x))"

type_synonym service_key = "string \<times> string"

definition service_key_string :: "service_key \<Rightarrow> string" where
  "service_key_string k = fst k @ ''/'' @ snd k"

definition webhook_services :: "WebhookConfiguration list \<Rightarrow> service_key list" where
  "webhook_services cs =
     concat (map (\<lambda>cfg. concat (map (\<lambda>w. case wcc_Service (wh_ClientConfig w) of
         None \<Rightarrow> [] | Some ref \<Rightarrow> [(sref_Namespace ref, sref_Name ref)]) (whc_Webhooks cfg))) cs)"

text \<open>
  The conversion webhook of a CRD.  The source reads \<open>ClientConfig.Service\<close> once the webhook is not nil,
  without looking whether the client configuration is.
\<close>

definition conversion_service :: "CustomResourceDefinition \<Rightarrow> snapshot_failure + service_key list" where
  "conversion_service crd =
     (case crd_Conversion crd of
        None \<Rightarrow> Inr []
      | Some conversion \<Rightarrow>
          (case crc_Webhook conversion of
             None \<Rightarrow> Inr []
           | Some None \<Rightarrow> Inl SnapshotPanic
           | Some (Some config) \<Rightarrow>
               Inr (case wcc_Service config of None \<Rightarrow> [] | Some ref \<Rightarrow> [(sref_Namespace ref, sref_Name ref)])))"

definition observed_services :: "scan_env \<Rightarrow> observation \<Rightarrow> (snapshot_failure + service_key list) io" where
  "observed_services S observed =
     (let target = obs_target observed
      in if tr_APIGroup target = gr_Group crdsGR \<and> tr_Resource target = gr_Resource crdsGR
         then do { r \<leftarrow> scan_call (\<lambda>log. se_GetCRD S log (tr_Name target)) (ScGetCRD (tr_Name target));
                   State_Monad.return (case r of
                     Inl err \<Rightarrow>
                       if \<not> ae_NotFound err
                       then snapshot_error (''get conversion webhook for '' @ tr_Name target @ '': '') err else Inr []
                   | Inr crd \<Rightarrow> conversion_service crd) }
         else State_Monad.return (Inr []))"

fun gather_services :: "scan_env \<Rightarrow> service_key list \<Rightarrow> observation list \<Rightarrow> (snapshot_failure + service_key list) io" where
  "gather_services S keys [] = State_Monad.return (Inr keys)"
| "gather_services S keys (observed # rest) =
     and_step (observed_services S observed) (\<lambda>ks. gather_services S (keys @ ks) rest)"

fun fetch_services ::
  "scan_env \<Rightarrow> DiagnosisSnapshot \<Rightarrow> service_key list \<Rightarrow> (snapshot_failure + DiagnosisSnapshot) io" where
  "fetch_services S snapshot [] = State_Monad.return (Inr snapshot)"
| "fetch_services S snapshot (key # keys) =
     do { r \<leftarrow> scan_call (\<lambda>log. se_GetService S log (fst key) (snd key)) (ScGetService (fst key) (snd key));
          case r of
            Inl err \<Rightarrow>
              if ae_NotFound err then fetch_services S snapshot keys
              else State_Monad.return (snapshot_error (''get webhook Service '' @ service_key_string key @ '': '') err)
          | Inr service \<Rightarrow>
              and_step (list_step (''list EndpointSlices for Service '' @ service_key_string key @ '': '')
                  (scan_call (\<lambda>log. se_ListEndpointSlices S log (fst key) (snd key)) (ScListEndpointSlices (fst key) (snd key))))
                (\<lambda>slices. fetch_services S (snapshot\<lparr>dsn_Services := dsn_Services snapshot @ [service],
                   dsn_EndpointSlices := dsn_EndpointSlices snapshot @ slices\<rparr>) keys) }"

definition add_workload :: "string \<Rightarrow> Workload \<Rightarrow> DiagnosisSnapshot \<Rightarrow> DiagnosisSnapshot" where
  "add_workload kind w snapshot =
     (if kind = ''Deployment'' then snapshot\<lparr>dsn_Deployments := dsn_Deployments snapshot @ [w]\<rparr>
      else if kind = ''StatefulSet'' then snapshot\<lparr>dsn_StatefulSets := dsn_StatefulSets snapshot @ [w]\<rparr>
      else snapshot\<lparr>dsn_DaemonSets := dsn_DaemonSets snapshot @ [w]\<rparr>)"

fun fetch_owners ::
  "scan_env \<Rightarrow> DiagnosisSnapshot \<Rightarrow> ControllerReference list \<Rightarrow> (snapshot_failure + DiagnosisSnapshot) io" where
  "fetch_owners S snapshot [] = State_Monad.return (Inr snapshot)"
| "fetch_owners S snapshot (owner # owners) =
     (let kind = cr_Kind owner; key = (cr_Namespace owner, cr_Name owner)
      in if kind \<noteq> ''Deployment'' \<and> kind \<noteq> ''StatefulSet'' \<and> kind \<noteq> ''DaemonSet'' then fetch_owners S snapshot owners
         else do { r \<leftarrow> scan_call (\<lambda>log. se_GetWorkload S log kind (fst key) (snd key)) (ScGetWorkload kind (fst key) (snd key));
                   case r of
                     Inr w \<Rightarrow> fetch_owners S (add_workload kind w snapshot) owners
                   | Inl err \<Rightarrow>
                       if ae_NotFound err then fetch_owners S snapshot owners
                       else State_Monad.return (snapshot_error
                         (''get finalizer owner '' @ kind @ '' '' @ service_key_string key @ '': '') err) })"

definition bare_snapshot :: "Snapshot \<Rightarrow> (string \<rightharpoonup> labels) \<Rightarrow> DiagnosisSnapshot" where
  "bare_snapshot catalog nsLabels =
     \<lparr>dsn_Catalog = catalog, dsn_APIServices = [], dsn_MutatingWebhooks = [], dsn_ValidatingWebhooks = [], dsn_Services = [],
      dsn_EndpointSlices = [], dsn_Deployments = [], dsn_StatefulSets = [], dsn_DaemonSets = [], dsn_NamespaceLabels = nsLabels\<rparr>"

definition diagnosisSnapshot ::
  "scan_env \<Rightarrow> Snapshot \<Rightarrow> (string \<rightharpoonup> labels) \<Rightarrow> (UID \<times> observation) list \<Rightarrow> (snapshot_failure + DiagnosisSnapshot) io" where
  "diagnosisSnapshot S catalog nsLabels observations =
     and_step (list_step ''build diagnosis snapshot: '' (scan_call (se_ListAPIServices S) ScListAPIServices)) (\<lambda>apiServices.
     and_step (list_step ''build diagnosis snapshot: '' (scan_call (\<lambda>log. se_ListWebhooks S log True) (ScListWebhooks True))) (\<lambda>mutating.
     and_step (list_step ''build diagnosis snapshot: '' (scan_call (\<lambda>log. se_ListWebhooks S log False) (ScListWebhooks False))) (\<lambda>validating.
       let snapshot = (bare_snapshot catalog nsLabels)\<lparr>dsn_APIServices := apiServices, dsn_MutatingWebhooks := mutating,
             dsn_ValidatingWebhooks := validating\<rparr>;
           owners = remdups (concat (map (\<lambda>obs. FinalizerOwners (Some (obs_policy obs))) (map snd observations)))
       in and_step (gather_services S (webhook_services mutating @ webhook_services validating) (map snd observations)) (\<lambda>keys.
          and_step (fetch_services S snapshot (sort_key service_key_string (remdups keys))) (\<lambda>snapshot'.
          fetch_owners S snapshot' owners)))))"

section \<open>Incidents\<close>

definition list_incidents :: "scan_env \<Rightarrow> (ApiError + DeletionIncident list) io" where
  "list_incidents S = scan_call (se_ListIncidents S) ScListIncidents"

definition incident_status_update :: "scan_env \<Rightarrow> DeletionIncident \<Rightarrow> (ApiError + DeletionIncident) io" where
  "incident_status_update S i = scan_call (\<lambda>log. se_IncidentStatus S log i) (ScIncidentStatus i)"

definition write_incident_status :: "scan_env \<Rightarrow> DeletionIncident \<Rightarrow> ApiError option io" where
  "write_incident_status S i =
     do { r \<leftarrow> incident_status_update S i;
          State_Monad.return (case r of Inl err \<Rightarrow> Some err | Inr _ \<Rightarrow> None) }"

definition ignore_absent :: "ApiError \<Rightarrow> ApiError option" where
  "ignore_absent e = (if ae_NotFound e then None else Some e)"

definition resolved_status :: "DeletionIncident \<Rightarrow> string \<Rightarrow> time \<Rightarrow> DeletionIncidentStatus" where
  "resolved_status current reason now =
     (di_Status current)\<lparr>is_Phase := IncidentPhaseResolved, is_ResolvedTime := Some now, is_ResolutionReason := reason,
       is_Conditions := [\<lparr>cond_Type = ''TargetVisible'', cond_Status = ConditionFalse,
         cond_ObservedGeneration = om_Generation (di_Meta current), cond_LastTransitionTime = now, cond_Reason = reason,
         cond_Message = ''target is no longer an active monitored deletion''\<rparr>]\<rparr>"

definition resolveIncident :: "scan_env \<Rightarrow> string \<Rightarrow> string \<Rightarrow> time \<Rightarrow> ApiError option io" where
  "resolveIncident S name reason now =
     RetryOnConflict (se_env S)
       (do { r \<leftarrow> get_incident (se_env S) name;
             case r of
               Inl err \<Rightarrow> State_Monad.return (ignore_absent err)
             | Inr current \<Rightarrow>
                 if is_Phase (di_Status current) = IncidentPhaseResolved then State_Monad.return None
                 else write_incident_status S (current\<lparr>di_Status := resolved_status current reason now\<rparr>) })"

definition failed_status :: "DeletionIncident \<Rightarrow> time \<Rightarrow> string \<Rightarrow> string \<Rightarrow> DeletionIncidentStatus" where
  "failed_status current now reason message =
     (di_Status current)\<lparr>is_Phase := IncidentPhaseDiagnosisFailed, is_TargetSnapshot := zero_TargetSnapshot, is_Findings := [],
       is_RecommendedActions := [], is_ActionEvidenceTime := None, is_ActionEvidenceExpiresTime := None,
       is_Conditions := preserveConditionTransitions (is_Conditions (di_Status current))
         [\<lparr>cond_Type = ''DiagnosisComplete'', cond_Status = ConditionFalse,
           cond_ObservedGeneration = om_Generation (di_Meta current), cond_LastTransitionTime = now, cond_Reason = reason,
           cond_Message = message\<rparr>,
          \<lparr>cond_Type = ''TargetVisible'', cond_Status = ConditionUnknown,
           cond_ObservedGeneration = om_Generation (di_Meta current), cond_LastTransitionTime = now, cond_Reason = reason,
           cond_Message = ''target visibility is unknown because current evidence is incomplete''\<rparr>]\<rparr>"

definition failIncidentDiagnosis :: "scan_env \<Rightarrow> string \<Rightarrow> time \<Rightarrow> string \<Rightarrow> string \<Rightarrow> ApiError option io" where
  "failIncidentDiagnosis S name now reason message =
     RetryOnConflict (se_env S)
       (do { r \<leftarrow> get_incident (se_env S) name;
             case r of
               Inl err \<Rightarrow> State_Monad.return (ignore_absent err)
             | Inr current \<Rightarrow>
                 if is_Phase (di_Status current) = IncidentPhaseResolved then State_Monad.return None
                 else if di_Status current = failed_status current now reason message then State_Monad.return None
                 else write_incident_status S (current\<lparr>di_Status := failed_status current now reason message\<rparr>) })"

fun fail_incidents :: "scan_env \<Rightarrow> time \<Rightarrow> string \<Rightarrow> string \<Rightarrow> DeletionIncident list \<Rightarrow> ApiError list io" where
  "fail_incidents S now reason message [] = State_Monad.return []"
| "fail_incidents S now reason message (i # is) =
     (if is_Phase (di_Status i) = IncidentPhaseResolved then fail_incidents S now reason message is
      else do { err \<leftarrow> failIncidentDiagnosis S (om_Name (di_Meta i)) now reason message;
                errs \<leftarrow> fail_incidents S now reason message is;
                State_Monad.return ((case err of None \<Rightarrow> [] | Some e \<Rightarrow> [e]) @ errs) })"

definition failActiveIncidentDiagnoses :: "scan_env \<Rightarrow> time \<Rightarrow> string \<Rightarrow> string \<Rightarrow> ApiError list io" where
  "failActiveIncidentDiagnoses S now reason message =
     do { l \<leftarrow> list_incidents S;
          case l of
            Inl err \<Rightarrow> State_Monad.return [errorf_wrap ''list incidents to block stale remediation: '' err]
          | Inr incidents \<Rightarrow> fail_incidents S now reason message incidents }"

section \<open>Persisting a diagnosis\<close>

definition zero_DeletionIncident :: DeletionIncident where
  "zero_DeletionIncident =
     \<lparr>di_Meta = zero_ObjectMeta,
      di_Spec = \<lparr>ds_Target = \<lparr>tr_APIGroup = [], tr_Version = [], tr_Resource = [], tr_Kind = [], tr_Namespace = [],
                               tr_Name = [], tr_UID = []\<rparr>, ds_FirstObservedTime = 0\<rparr>,
      di_Status = zero_DeletionIncidentStatus\<rparr>"

text \<open>The window of the action evidence: renewed when it is new, missing or about to end.\<close>

definition evidence_window ::
  "Config \<Rightarrow> time \<Rightarrow> Result \<Rightarrow> DeletionIncidentStatus \<Rightarrow> time option \<times> time option" where
  "evidence_window cfg now result status =
     (if dg_DiagnosisComplete result \<and> length (dg_Actions result) > 0 then
        (let actionsChanged = (is_RecommendedActions status \<noteq> dg_Actions result);
             refreshLead = max (cfg_Interval cfg) (cfg_Timeout cfg);
             old = (is_ActionEvidenceTime status, is_ActionEvidenceExpiresTime status)
         in if actionsChanged \<or> fst old = None \<or> snd old = None
               \<or> (case snd old of None \<Rightarrow> True | Some expires \<Rightarrow> time_sub expires now \<le> refreshLead)
            then (Some now, Some (now + wrap64 (cfg_Timeout cfg + wrap64 (2 * cfg_Interval cfg))))
            else old)
      else (None, None))"

definition diagnosed_status ::
  "Config \<Rightarrow> observation \<Rightarrow> Result \<Rightarrow> time \<Rightarrow> DeletionIncidentStatus \<Rightarrow> DeletionIncidentStatus" where
  "diagnosed_status cfg observed result now status =
     (let window = evidence_window cfg now result status; policy = obs_policy observed
      in status\<lparr>
           is_ActivePolicyRef := Some \<lparr>pr_Name = cp_name policy, pr_UID = cp_uid policy, pr_Generation = cp_generation policy\<rparr>,
           is_DeletionTimestamp := pom_DeletionTimestamp (obs_meta observed),
           is_TargetSnapshot := dg_TargetSnapshot result, is_Findings := dg_Findings result,
           is_RecommendedActions := dg_Actions result,
           is_ActionEvidenceTime := fst window, is_ActionEvidenceExpiresTime := snd window,
           is_ResolvedTime := None, is_ResolutionReason := [],
           is_Phase := (if dg_DiagnosisComplete result then IncidentPhaseActive else IncidentPhaseDiagnosisFailed),
           is_Conditions := preserveConditionTransitions (is_Conditions status) (diagnosisConditions result now),
           is_LastObservedTime :=
             (case is_LastObservedTime status of
                None \<Rightarrow> Some now
              | Some t \<Rightarrow> if time_sub now t \<ge> observationRefresh then Some now else Some t)\<rparr>)"

text \<open>
  The state of the closure that \<open>persistDiagnosis\<close> retries: the current incident, nil once written, whether
  the metrics are dirty, and the caller's object.  The first run works on the caller's object itself
  (\<open>pst_aliased\<close>), which a call to the API server overwrites with the object that the server answers.
\<close>

record persist_state =
  pst_current :: "DeletionIncident option"
  pst_aliased :: bool
  pst_existing :: DeletionIncident
  pst_dirty :: bool

definition store_existing :: "DeletionIncident \<Rightarrow> persist_state \<Rightarrow> persist_state" where
  "store_existing incident st = (if pst_aliased st then st\<lparr>pst_existing := incident\<rparr> else st)"

definition drop_current :: "persist_state \<Rightarrow> persist_state" where
  "drop_current st = st\<lparr>pst_current := None, pst_aliased := False\<rparr>"

definition write_diagnosis ::
  "scan_env \<Rightarrow> Config \<Rightarrow> observation \<Rightarrow> Result \<Rightarrow> time \<Rightarrow> DeletionIncident \<Rightarrow> persist_state
     \<Rightarrow> (ApiError option \<times> persist_state) io" where
  "write_diagnosis S cfg observed result now current st =
     (let desired = diagnosed_status cfg observed result now (di_Status current);
          st' = st\<lparr>pst_dirty := pst_dirty st \<or> is_Phase (di_Status current) \<noteq> is_Phase desired\<rparr>
      in if di_Status current = desired then State_Monad.return (None, st\<lparr>pst_current := Some current\<rparr>)
         else do { r \<leftarrow> incident_status_update S (current\<lparr>di_Status := desired\<rparr>);
                   State_Monad.return (case r of
                     Inl err \<Rightarrow> (Some err, drop_current (store_existing (current\<lparr>di_Status := desired\<rparr>) st'))
                   | Inr answered \<Rightarrow> (None, drop_current (store_existing answered st'))) })"

definition annotate_and_write ::
  "scan_env \<Rightarrow> Config \<Rightarrow> observation \<Rightarrow> Result \<Rightarrow> time \<Rightarrow> DeletionIncident \<Rightarrow> persist_state
     \<Rightarrow> (ApiError option \<times> persist_state) io" where
  "annotate_and_write S cfg observed result now current st =
     (let retention = duration_String (set_ResolvedIncidentTTL (policy_Settings (Some (obs_policy observed))));
          annotations = om_Annotations (di_Meta current)
      in if (case annotations retentionAnnotation of None \<Rightarrow> [] | Some v \<Rightarrow> v) = retention
         then write_diagnosis S cfg observed result now current st
         else (let patched = current\<lparr>di_Meta := (di_Meta current)\<lparr>om_Annotations := annotations(retentionAnnotation \<mapsto> retention)\<rparr>\<rparr>
               in do { r \<leftarrow> scan_call (\<lambda>log. se_PatchIncident S log patched) (ScPatchIncident patched);
                       case r of
                         Inl err \<Rightarrow> State_Monad.return (Some err, drop_current (store_existing patched st))
                       | Inr answered \<Rightarrow> write_diagnosis S cfg observed result now answered (store_existing answered st) }))"

text \<open>A failed read leaves the closure with an empty object, not with nil.\<close>

definition persist_attempt ::
  "scan_env \<Rightarrow> Config \<Rightarrow> observation \<Rightarrow> Result \<Rightarrow> time \<Rightarrow> string \<Rightarrow> persist_state \<Rightarrow> (ApiError option \<times> persist_state) io" where
  "persist_attempt S cfg observed result now name st =
     (case pst_current st of
        Some current \<Rightarrow> annotate_and_write S cfg observed result now current st
      | None \<Rightarrow>
          do { r \<leftarrow> get_incident (se_env S) name;
               case r of
                 Inl err \<Rightarrow> State_Monad.return (Some err, st\<lparr>pst_current := Some zero_DeletionIncident\<rparr>)
               | Inr current \<Rightarrow> annotate_and_write S cfg observed result now current st })"

text \<open>Joined errors, whether the metrics are dirty, and the caller's object after the call.\<close>

type_synonym persisted = "ApiError list \<times> bool \<times> DeletionIncident"

definition persist_status ::
  "scan_env \<Rightarrow> Config \<Rightarrow> observation \<Rightarrow> Result \<Rightarrow> time \<Rightarrow> string \<Rightarrow> persist_state \<Rightarrow> persisted io" where
  "persist_status S cfg observed result now name st =
     do { (err, st') \<leftarrow> retry_closure S (persist_attempt S cfg observed result now name) st;
          case err of
            None \<Rightarrow> State_Monad.return ([], pst_dirty st', pst_existing st')
          | Some e \<Rightarrow>
              if ae_RequestEntityTooLarge e then
                do { fallback \<leftarrow> failIncidentDiagnosis S name now ''EvidenceTooLarge''
                       ''diagnostic evidence exceeded the Kubernetes object size limit'';
                     State_Monad.return (e # (case fallback of None \<Rightarrow> [] | Some e' \<Rightarrow> [e']), True, pst_existing st') }
              else State_Monad.return ([e], pst_dirty st', pst_existing st') }"

definition new_incident :: "scan_env \<Rightarrow> observation \<Rightarrow> time \<Rightarrow> DeletionIncident" where
  "new_incident S observed now =
     \<lparr>di_Meta = zero_ObjectMeta\<lparr>om_Name := incidentName (tr_UID (obs_target observed)),
        om_Annotations := [retentionAnnotation \<mapsto>
          duration_String (set_ResolvedIncidentTTL (policy_Settings (Some (obs_policy observed))))]\<rparr>,
      di_Spec = \<lparr>ds_Target = obs_target observed, ds_FirstObservedTime = now\<rparr>,
      di_Status = zero_DeletionIncidentStatus\<rparr>"

definition persist_existing ::
  "scan_env \<Rightarrow> Config \<Rightarrow> observation \<Rightarrow> Result \<Rightarrow> time \<Rightarrow> bool \<Rightarrow> DeletionIncident \<Rightarrow> persisted io" where
  "persist_existing S cfg observed result now dirty existing =
     (let name = incidentName (tr_UID (obs_target observed));
          resolve = (\<lambda>reason. do { err \<leftarrow> resolveIncident S name reason now;
                                   State_Monad.return ((case err of None \<Rightarrow> [] | Some e \<Rightarrow> [e]), True, existing) })
      in if tr_UID (ds_Target (di_Spec existing)) \<noteq> tr_UID (obs_target observed)
         then State_Monad.return ([errors_New (''incident '' @ name @ '' belongs to different target UID'')], dirty, existing)
         else if \<not> dg_TargetFound result then resolve ''TargetAbsent''
         else if \<not> dg_UIDMatches result then resolve ''TargetReplaced''
         else persist_status S cfg observed result now name
                \<lparr>pst_current = Some existing, pst_aliased = True, pst_existing = existing, pst_dirty = dirty\<rparr>)"

definition persist_new ::
  "scan_env \<Rightarrow> Config \<Rightarrow> observation \<Rightarrow> Result \<Rightarrow> time \<Rightarrow> persisted io" where
  "persist_new S cfg observed result now =
     (let name = incidentName (tr_UID (obs_target observed));
          incident = new_incident S observed now;
          written = \<lparr>pst_current = None, pst_aliased = False, pst_existing = zero_DeletionIncident, pst_dirty = True\<rparr>
      in if \<not> dg_TargetFound result \<or> \<not> dg_UIDMatches result \<or> \<not> dg_ThresholdElapsed result
         then State_Monad.return ([], False, zero_DeletionIncident)
         else do { err \<leftarrow> scan_call (\<lambda>log. se_CreateIncident S log incident) (ScCreateIncident incident);
                   case err of
                     Some e \<Rightarrow>
                       if \<not> ae_AlreadyExists e then State_Monad.return ([e], False, zero_DeletionIncident)
                       else persist_status S cfg observed result now name written
                   | None \<Rightarrow> persist_status S cfg observed result now name written })"

definition persistDiagnosis ::
  "scan_env \<Rightarrow> Config \<Rightarrow> observation \<Rightarrow> Result \<Rightarrow> DeletionIncident option \<Rightarrow> time \<Rightarrow> persisted io" where
  "persistDiagnosis S cfg observed result existing now =
     (case existing of
        Some incident \<Rightarrow> persist_existing S cfg observed result now False incident
      | None \<Rightarrow>
          do { r \<leftarrow> get_incident (se_env S) (incidentName (tr_UID (obs_target observed)));
               case r of
                 Inr incident \<Rightarrow> persist_existing S cfg observed result now True incident
               | Inl err \<Rightarrow>
                   if ae_NotFound err then persist_new S cfg observed result now
                   else State_Monad.return ([err], False, zero_DeletionIncident) })"

section \<open>Diagnosing the targets\<close>

text \<open>The result that stands for a diagnosis that failed.\<close>

definition failed_result :: "observation \<Rightarrow> time \<Rightarrow> Result" where
  "failed_result observed now =
     zero_Result\<lparr>dg_TargetFound := True, dg_UIDMatches := True,
       dg_ThresholdElapsed := (case pom_DeletionTimestamp (obs_meta observed) of
          None \<Rightarrow> False
        | Some t \<Rightarrow> \<not> now < t + set_TerminationAge (policy_Settings (Some (obs_policy observed))))\<rparr>"

text \<open>
  The incidents of the list are shared: a diagnosis of a known target works on the object in the list, so
  the jobs pass the list on.  \<open>known\<close> has the position of a target's incident.  \<open>Diagnose\<close> never panics
  (\<open>diagnosis_read_only\<close>), so what stands for a panic here does not matter.
\<close>

type_synonym diagnosed_jobs = "ApiError list \<times> bool \<times> DeletionIncident list"

definition job_result :: "observation \<Rightarrow> time \<Rightarrow> diagnosis \<Rightarrow> Result \<times> ApiError list" where
  "job_result observed now d =
     (case d of
        Diagnosed result \<Rightarrow> (result, [])
      | DiagnosisError err \<Rightarrow> (failed_result observed now, [err])
      | DiagnosisPanic \<Rightarrow> (failed_result observed now, []))"

definition persist_job ::
  "scan_env \<Rightarrow> Config \<Rightarrow> (UID \<rightharpoonup> nat) \<Rightarrow> time \<Rightarrow> DeletionIncident list \<Rightarrow> observation \<Rightarrow> Result \<times> ApiError list
     \<Rightarrow> diagnosed_jobs option io" where
  "persist_job S cfg known now incidents observed x =
     (let (result, diagnoseErr) = x; position = known (tr_UID (obs_target observed))
      in do { (persistErr, dirty, existing) \<leftarrow>
                persistDiagnosis S cfg observed result (map_option (\<lambda>i. incidents ! i) position) now;
              let errs = map (errorf_wrap (''diagnose '' @ incidentName (tr_UID (obs_target observed)) @ '': ''))
                           (diagnoseErr @ persistErr);
                  incidents' = (case position of None \<Rightarrow> incidents | Some i \<Rightarrow> incidents[i := existing])
              in do { metric diagnoses_total (if errs \<noteq> [] then ''error'' else ''success'') 1;
                      give (errs, dirty, incidents') } })"

definition diagnose_target ::
  "kube_lib \<Rightarrow> scan_env \<Rightarrow> Config \<Rightarrow> nat \<Rightarrow> DiagnosisSnapshot \<Rightarrow> (UID \<rightharpoonup> nat) \<Rightarrow> time \<Rightarrow> DeletionIncident list \<Rightarrow> observation
     \<Rightarrow> diagnosed_jobs option io" where
  "diagnose_target L S cfg fuel snapshot known now incidents observed =
     bind_may (Diagnose L (Some (se_env S)) fuel
         \<lparr>req_Target = obs_target observed, req_Policy = Some (obs_policy observed), req_Snapshot = snapshot, req_Now = now\<rparr>)
       (\<lambda>d. persist_job S cfg known now incidents observed (job_result observed now d))"

fun run_diagnose_jobs ::
  "kube_lib \<Rightarrow> scan_env \<Rightarrow> Config \<Rightarrow> nat \<Rightarrow> DiagnosisSnapshot \<Rightarrow> (UID \<rightharpoonup> nat) \<Rightarrow> time \<Rightarrow> DeletionIncident list
     \<Rightarrow> observation list \<Rightarrow> diagnosed_jobs option io" where
  "run_diagnose_jobs L S cfg fuel snapshot known now incidents [] = give ([], False, incidents)"
| "run_diagnose_jobs L S cfg fuel snapshot known now incidents (observed # rest) =
     bind_may (diagnose_target L S cfg fuel snapshot known now incidents observed)
       (\<lambda>(errs, dirty, incidents'). bind_may (run_diagnose_jobs L S cfg fuel snapshot known now incidents' rest)
          (\<lambda>(errs', dirty', incidents''). give (errs @ errs', dirty \<or> dirty', incidents'')))"

definition sortedUIDs :: "(UID \<times> observation) list \<Rightarrow> UID list" where
  "sortedUIDs observations = sort (map fst observations)"

text \<open>The last incident of a target UID wins, as in the map the source fills.\<close>

definition known_incidents :: "DeletionIncident list \<Rightarrow> UID \<rightharpoonup> nat" where
  "known_incidents incidents =
     map_of (rev (zip (map (\<lambda>i. tr_UID (ds_Target (di_Spec i))) incidents) [0..<length incidents]))"

text \<open>The errors, whether the list is out of date, and the list as the jobs leave it.\<close>

definition diagnoseTargets ::
  "kube_lib \<Rightarrow> scan_env \<Rightarrow> Config \<Rightarrow> nat \<Rightarrow> (UID \<times> observation) list \<Rightarrow> DiagnosisSnapshot \<Rightarrow> DeletionIncident list option \<Rightarrow> time
     \<Rightarrow> (ApiError list \<times> bool \<times> DeletionIncident list option) option io" where
  "diagnoseTargets L S cfg fuel observations snapshot incidents now =
     (let list = (case incidents of None \<Rightarrow> [] | Some l \<Rightarrow> l)
      in bind_may (run_diagnose_jobs L S cfg fuel snapshot (known_incidents list) now list
             (List.map_filter (map_of observations) (dispatch (se_DiagnoseOrder S) (sortedUIDs observations))))
           (\<lambda>(errs, dirty, list'). give (errs, dirty, map_option (\<lambda>_. list') incidents)))"

section \<open>The life cycle of incidents\<close>

definition incidentRetention :: "scan_env \<Rightarrow> DeletionIncident \<Rightarrow> compiledPolicies \<Rightarrow> duration option" where
  "incidentRetention S incident policies =
     (let byAnnotation =
        (case om_Annotations (di_Meta incident) retentionAnnotation of
           None \<Rightarrow> None
         | Some v \<Rightarrow>
             if v = [] then None
             else case ParseDuration (se_Fraction S) v of
               None \<Rightarrow> None
             | Some parsed \<Rightarrow> if parsed > 0 then Some parsed else None)
      in case map_of (cps_byUID policies) (policyUID (is_ActivePolicyRef (di_Status incident))) of
           None \<Rightarrow> byAnnotation
         | Some policy \<Rightarrow>
             if set_ResolvedIncidentTTL (policy_Settings (Some policy)) > 0
             then Some (set_ResolvedIncidentTTL (policy_Settings (Some policy))) else byAnnotation)"

text \<open>What the scan makes of an incident: nothing, or one of these.\<close>

datatype lifecycle_action = DeleteIncident | ResolveAs string | FailDiagnosis | LeaveAlone

definition lifecycle_decision ::
  "scan_env \<Rightarrow> (UID \<times> observation) list \<Rightarrow> (GroupResource \<times> resourceCoverage) list \<Rightarrow> Snapshot \<Rightarrow> compiledPolicies \<Rightarrow> time
     \<Rightarrow> DeletionIncident \<Rightarrow> lifecycle_action" where
  "lifecycle_decision S observations coverage catalog policies now incident =
     (let target = ds_Target (di_Spec incident);
          gr = \<lparr>gr_Group = tr_APIGroup target, gr_Resource = tr_Resource target\<rparr>
      in if is_Phase (di_Status incident) = IncidentPhaseResolved then
           (case (incidentRetention S incident policies, is_ResolvedTime (di_Status incident)) of
              (Some retention, Some resolved) \<Rightarrow> if \<not> now < resolved + retention then DeleteIncident else LeaveAlone
            | _ \<Rightarrow> LeaveAlone)
         else if map_of observations (tr_UID target) \<noteq> None then LeaveAlone
         else if Resolve catalog gr = None then ResolveAs ''ResourceTypeRemoved''
         else case map_of coverage gr of
           None \<Rightarrow> LeaveAlone
         | Some state \<Rightarrow>
             if \<not> cov_success state then FailDiagnosis
             else if tr_UID target \<notin> cov_allUIDs state then
               ResolveAs (case map_of (cov_identities state) (objectIdentity (tr_Namespace target) (tr_Name target)) of
                            None \<Rightarrow> ''TargetAbsent''
                          | Some currentUID \<Rightarrow> if currentUID \<noteq> tr_UID target then ''TargetReplaced'' else ''TargetAbsent'')
             else if tr_UID target \<notin> cov_selectedUIDs state then ResolveAs ''PolicyNoLongerMatches''
             else ResolveAs ''TargetNoLongerDeleting'')"

definition apply_lifecycle :: "scan_env \<Rightarrow> time \<Rightarrow> DeletionIncident \<Rightarrow> lifecycle_action \<Rightarrow> ApiError option io" where
  "apply_lifecycle S now incident action =
     (case action of
        LeaveAlone \<Rightarrow> State_Monad.return None
      | DeleteIncident \<Rightarrow>
          do { err \<leftarrow> scan_call (\<lambda>log. se_DeleteIncident S log (om_Name (di_Meta incident))) (ScDeleteIncident (om_Name (di_Meta incident)));
               State_Monad.return (case err of None \<Rightarrow> None | Some e \<Rightarrow> ignore_absent e) }
      | ResolveAs reason \<Rightarrow> resolveIncident S (om_Name (di_Meta incident)) reason now
      | FailDiagnosis \<Rightarrow>
          failIncidentDiagnosis S (om_Name (di_Meta incident)) now ''ResourceListFailed'' ''resource coverage is incomplete'')"

datatype incidentViewState = incidentViewUnavailable | incidentViewFresh | incidentViewStale
datatype incidentViewChange = incidentViewUnchanged | incidentViewInvalidated

fun lifecycle_loop ::
  "scan_env \<Rightarrow> (UID \<times> observation) list \<Rightarrow> (GroupResource \<times> resourceCoverage) list \<Rightarrow> Snapshot \<Rightarrow> compiledPolicies \<Rightarrow> time
     \<Rightarrow> DeletionIncident list \<Rightarrow> (incidentViewChange \<times> ApiError list) io" where
  "lifecycle_loop S observations coverage catalog policies now [] = State_Monad.return (incidentViewUnchanged, [])"
| "lifecycle_loop S observations coverage catalog policies now (incident # incidents) =
     (let action = lifecycle_decision S observations coverage catalog policies now incident
      in do { err \<leftarrow> apply_lifecycle S now incident action;
              (change, errs) \<leftarrow> lifecycle_loop S observations coverage catalog policies now incidents;
              State_Monad.return (if action = LeaveAlone then change else incidentViewInvalidated,
                (case err of None \<Rightarrow> [] | Some e \<Rightarrow> [e]) @ errs) })"

definition reconcileLifecycle ::
  "scan_env \<Rightarrow> (UID \<times> observation) list \<Rightarrow> (GroupResource \<times> resourceCoverage) list \<Rightarrow> Snapshot \<Rightarrow> compiledPolicies
     \<Rightarrow> DeletionIncident list option \<Rightarrow> time \<Rightarrow> (incidentViewChange \<times> ApiError list) io" where
  "reconcileLifecycle S observations coverage catalog policies incidents now =
     (case incidents of
        Some list \<Rightarrow> lifecycle_loop S observations coverage catalog policies now list
      | None \<Rightarrow>
          do { l \<leftarrow> list_incidents S;
               case l of
                 Inl err \<Rightarrow> State_Monad.return (incidentViewUnchanged, [errorf_wrap ''list incidents: '' err])
               | Inr list \<Rightarrow> lifecycle_loop S observations coverage catalog policies now list })"

section \<open>The cycle (cycle.go)\<close>

record incidentView =
  iv_list :: "DeletionIncident list option"
  iv_state :: incidentViewState

definition view_install :: "DeletionIncident list option \<Rightarrow> incidentView" where
  "view_install list =
     \<lparr>iv_list = list, iv_state = (if list = None then incidentViewUnavailable else incidentViewFresh)\<rparr>"

definition view_apply :: "incidentViewChange \<Rightarrow> incidentView \<Rightarrow> incidentView" where
  "view_apply change v = (if change = incidentViewInvalidated then v\<lparr>iv_state := incidentViewStale\<rparr> else v)"

definition metricList :: "incidentView \<Rightarrow> DeletionIncident list option" where
  "metricList v = (if iv_state v = incidentViewFresh then iv_list v else None)"

definition set_incident_gauges :: "DeletionIncident list \<Rightarrow> unit io" where
  "set_incident_gauges incidents =
     each (\<lambda>phase. metric activeIncidents phase
              (int (length (filter (\<lambda>i. is_Phase (di_Status i) = phase) incidents))))
       [IncidentPhaseActive, IncidentPhaseDiagnosisFailed, IncidentPhaseResolved]"

definition updateIncidentMetrics :: "scan_env \<Rightarrow> DeletionIncident list option \<Rightarrow> unit io" where
  "updateIncidentMetrics S incidents =
     (case incidents of
        Some list \<Rightarrow> set_incident_gauges list
      | None \<Rightarrow>
          do { l \<leftarrow> list_incidents S;
               case l of Inl err \<Rightarrow> State_Monad.return () | Inr list \<Rightarrow> set_incident_gauges list })"

definition finalizeIncidentMetrics :: "scan_env \<Rightarrow> incidentView \<Rightarrow> unit io" where
  "finalizeIncidentMetrics S v = updateIncidentMetrics S (metricList v)"

datatype cycle_result = CycleErrors "ApiError list" | CyclePanic

type_synonym cycle_answer = "cycle_result \<times> liveCycleRunner"

text \<open>
  \<open>degraded\<close>: give up on the cycle, after the diagnoses of all active incidents have been failed so that
  no approval can act on old evidence.  The context with its own time limit that the source takes when
  the cycle's is done shows only in the answers of the calls.
\<close>

definition degraded :: "scan_env \<Rightarrow> time \<Rightarrow> incidentView \<Rightarrow> ApiError list \<Rightarrow> string \<Rightarrow> string \<Rightarrow> cycle_result io" where
  "degraded S now v errs reason message =
     do { degradedErrs \<leftarrow> failActiveIncidentDiagnoses S now reason message;
          finalizeIncidentMetrics S (view_apply incidentViewInvalidated v);
          State_Monad.return (CycleErrors (errs @ degradedErrs)) }"

definition ctx_err :: "scan_env \<Rightarrow> bool io" where
  "ctx_err S = scan_call (se_CtxErr S) ScCtxErr"

text \<open>The end of a stage whose errors do not stop the cycle unless its context is done.\<close>

definition timed_out :: "scan_env \<Rightarrow> ApiError list \<Rightarrow> bool io" where
  "timed_out S errs = (if errs \<noteq> [] then ctx_err S else State_Monad.return False)"

definition finish_cycle ::
  "scan_env \<Rightarrow> Snapshot \<Rightarrow> compiledPolicies \<Rightarrow> time \<Rightarrow> scan_view \<Rightarrow> incidentView \<Rightarrow> ApiError list \<Rightarrow> cycle_result io" where
  "finish_cycle S catalog policies now view v errs =
     do { (change, lifecycleErrs) \<leftarrow> reconcileLifecycle S (sv_observations view) (sv_coverage view) catalog policies (iv_list v) now;
          finalizeIncidentMetrics S (view_apply change v);
          State_Monad.return (CycleErrors (errs @ lifecycleErrs)) }"

definition diagnose_stage ::
  "kube_lib \<Rightarrow> scan_env \<Rightarrow> Config \<Rightarrow> nat \<Rightarrow> Snapshot \<Rightarrow> compiledPolicies \<Rightarrow> time \<Rightarrow> scan_view \<Rightarrow> incidentView \<Rightarrow> DiagnosisSnapshot
     \<Rightarrow> cycle_result option io" where
  "diagnose_stage L S cfg fuel catalog policies now view v snapshot =
     bind_may (diagnoseTargets L S cfg fuel (sv_observations view) snapshot (iv_list v) now)
       (\<lambda>(diagnoseErrs, dirty, incidents).
          let v' = view_apply (if dirty then incidentViewInvalidated else incidentViewUnchanged) (v\<lparr>iv_list := incidents\<rparr>);
              errs = sv_errors view @ diagnoseErrs
          in do { late \<leftarrow> timed_out S diagnoseErrs;
                  r \<leftarrow> (if late then degraded S now v' errs ''ScanTimedOut'' ''the current scan did not complete''
                        else finish_cycle S catalog policies now view v' errs);
                  give r })"

definition scan_stage ::
  "kube_lib \<Rightarrow> scan_env \<Rightarrow> Config \<Rightarrow> nat \<Rightarrow> Snapshot \<Rightarrow> compiledPolicies \<Rightarrow> time \<Rightarrow> (string \<rightharpoonup> labels) \<Rightarrow> cycle_result option io" where
  "scan_stage L S cfg fuel catalog policies now nsLabels =
     bind_may (listTargets L S cfg fuel catalog policies nsLabels)
       (\<lambda>(view, incidents).
          let v = view_install incidents
          in do { late \<leftarrow> timed_out S (sv_errors view);
                  if late then do { r \<leftarrow> degraded S now v (sv_errors view) ''ScanTimedOut'' ''the current scan did not complete''; give r }
                  else if length (sv_observations view) > 0 then
                    do { x \<leftarrow> diagnosisSnapshot S catalog nsLabels (sv_observations view);
                         case x of
                           Inl (SnapshotError err) \<Rightarrow>
                             do { r \<leftarrow> degraded S now v (sv_errors view @ [err]) ''SnapshotFailed'' ''diagnosis snapshot is incomplete'';
                                  give r }
                         | Inl SnapshotPanic \<Rightarrow> give CyclePanic
                         | Inr snapshot \<Rightarrow> diagnose_stage L S cfg fuel catalog policies now view v snapshot }
                  else diagnose_stage L S cfg fuel catalog policies now view v (bare_snapshot catalog nsLabels) })"

definition no_view :: incidentView where
  "no_view = \<lparr>iv_list = None, iv_state = incidentViewUnavailable\<rparr>"

definition Run :: "kube_lib \<Rightarrow> scan_env \<Rightarrow> liveCycleRunner \<Rightarrow> nat \<Rightarrow> time \<Rightarrow> cycle_answer option io" where
  "Run L S r fuel now =
     do { status \<leftarrow> scan_call (se_LastResult S) ScLastResult;
          if (case status of None \<Rightarrow> False | Some lastSuccess \<Rightarrow> time_IsZero lastSuccess) then
            do { x \<leftarrow> degraded S now no_view [errors_New ''discovery catalog has no successful snapshot'']
                        ''DiscoveryUnavailable'' ''discovery has no complete snapshot'';
                 give (x, r) }
          else
            do { catalog \<leftarrow> call_snapshot (se_env S);
                 metric catalogResources_gauge [] (int (Snapshot_Len catalog));
                 p \<leftarrow> compilePolicies L S r catalog now;
                 case p of
                   Inl err \<Rightarrow>
                     do { x \<leftarrow> degraded S now no_view [err] ''PolicyCompilationFailed'' ''current policies could not be compiled'';
                          give (x, r) }
                 | Inr (policies, r') \<Rightarrow>
                     bind_may (namespaceLabels S (lr_config r) fuel)
                       (\<lambda>n. case n of
                          Inl err \<Rightarrow>
                            do { x \<leftarrow> degraded S now no_view [err] ''NamespaceInventoryFailed''
                                   ''namespace label inventory is incomplete'';
                                 give (x, r') }
                        | Inr nsLabels \<Rightarrow>
                            bind_may (scan_stage L S (lr_config r) fuel catalog policies now nsLabels) (\<lambda>x. give (x, r'))) } }"

text \<open>\<open>RunCycle\<close> refuses to overlap with a running cycle.\<close>

definition RunCycle :: "kube_lib \<Rightarrow> scan_env \<Rightarrow> liveCycleRunner \<Rightarrow> nat \<Rightarrow> cycle_answer option io" where
  "RunCycle L S r fuel =
     do { locked \<leftarrow> scan_call (se_TryLock S) ScTryLock;
          if \<not> locked then
            do { metric scanCycles ''overlap_skipped'' 1;
                 give (CycleErrors [errors_New ''scanner cycle already running''], r) }
          else
            do { now \<leftarrow> call_now (se_env S);
                 x \<leftarrow> Run L S r fuel now;
                 note_event (EvScan ScUnlock);
                 State_Monad.return x } }"

definition runTimedCycle :: "kube_lib \<Rightarrow> scan_env \<Rightarrow> liveCycleRunner \<Rightarrow> nat \<Rightarrow> cycle_answer option io" where
  "runTimedCycle L S r fuel =
     bind_may (RunCycle L S r fuel)
       (\<lambda>(x, r'). case x of
          CyclePanic \<Rightarrow> give (x, r')
        | CycleErrors errs \<Rightarrow>
            do { metric scanCycles (if errs = [] then ''success'' else ''error'') 1;
                 give (x, r') })"

text \<open>\<open>Start\<close>: a cycle at once, then one for every tick of the ticker until the context is done.\<close>

fun Coordinator_Start :: "kube_lib \<Rightarrow> scan_env \<Rightarrow> liveCycleRunner \<Rightarrow> nat \<Rightarrow> nat \<Rightarrow> liveCycleRunner option io" where
  "Coordinator_Start L S r fuel 0 = bind_may (runTimedCycle L S r fuel) (\<lambda>(x, r'). give r')"
| "Coordinator_Start L S r fuel (Suc ticks) =
     bind_may (runTimedCycle L S r fuel) (\<lambda>(x, r'). Coordinator_Start L S r' fuel ticks)"

end
