(* ===== verification/Diagnosis_Safety.thy ===== *)
theory Diagnosis_Safety
  imports Diagnosis
begin

text \<open>
  What a diagnosis shows: it only reads, it reports nothing about an object that is not the target or
  not overdue, its actions are built by the policy from objects it has read, actions that give up
  remaining content rest on listings read to their end, and the listings end.
\<close>

section \<open>Growth of a collector\<close>

text \<open>
  \<open>grows Q R c c'\<close>: the second collector is the first with additions, every added action satisfies
  \<open>Q\<close>, and everything in \<open>R\<close> has been added.
\<close>

definition grows :: "(RemediationAction \<Rightarrow> bool) \<Rightarrow> evidence set \<Rightarrow> collector \<Rightarrow> collector \<Rightarrow> bool" where
  "grows Q R c c' \<longleftrightarrow> (\<exists>ev. c' = collect ev c \<and> (\<forall>a. EAction a \<in> set ev \<longrightarrow> Q a) \<and> R \<subseteq> set ev)"

lemma grows_refl: "grows Q {} c c"
  unfolding grows_def by (rule exI[where x = "[]"]) simp

lemma grows_trans:
  assumes "grows Q R c c'" and "grows Q R' c' c''"
  shows "grows Q (R \<union> R') c c''"
proof -
  from assms obtain ev ev' where "c' = collect ev c" "\<forall>a. EAction a \<in> set ev \<longrightarrow> Q a" "R \<subseteq> set ev"
    "c'' = collect ev' c'" "\<forall>a. EAction a \<in> set ev' \<longrightarrow> Q a" "R' \<subseteq> set ev'"
    unfolding grows_def by blast
  then show ?thesis unfolding grows_def by (intro exI[where x = "ev @ ev'"]) auto
qed

lemma grows_mono: "grows Q R c c' \<Longrightarrow> (\<And>a. Q a \<Longrightarrow> Q' a) \<Longrightarrow> R' \<subseteq> R \<Longrightarrow> grows Q' R' c c'"
  unfolding grows_def by blast

lemma grows_finding: "grows Q {EFinding f} c (addFinding f c)"
  unfolding grows_def by (rule exI[where x = "[EFinding f]"]) simp

lemma grows_action: "Q a \<Longrightarrow> grows Q {EAction a} c (addAction a c)"
  unfolding grows_def by (rule exI[where x = "[EAction a]"]) simp

lemma grows_foldl:
  assumes "\<And>c x. x \<in> set xs \<Longrightarrow> grows Q (R x) c (f c x)"
  shows "grows Q (\<Union>x\<in>set xs. R x) c (foldl f c xs)"
  using assms
proof (induction xs arbitrary: c)
  case (Cons x xs)
  have "grows Q (R x \<union> (\<Union>x\<in>set xs. R x)) c (foldl f (f c x) xs)"
    by (rule grows_trans[OF Cons.prems[of x] Cons.IH]) (use Cons.prems in auto)
  then show ?case by simp
qed (simp add: grows_refl)

text \<open>The rules for growth of which only the actions matter.\<close>

abbreviation grows_by :: "(RemediationAction \<Rightarrow> bool) \<Rightarrow> collector \<Rightarrow> collector \<Rightarrow> bool" where
  "grows_by Q c c' \<equiv> grows Q {} c c'"

lemma grows_by_trans: "grows_by Q c c' \<Longrightarrow> grows_by Q c' c'' \<Longrightarrow> grows_by Q c c''"
  using grows_trans[of Q "{}" c c' "{}" c''] by simp

lemma grows_by_foldl: "(\<And>c x. x \<in> set xs \<Longrightarrow> grows_by Q c (f c x)) \<Longrightarrow> grows_by Q c (foldl f c xs)"
  using grows_foldl[of xs Q "\<lambda>_. {}" f c] by simp

lemma grows_by_finding: "grows_by Q c (addFinding f c)"
  by (rule grows_mono[OF grows_finding]) auto

lemma grows_by_action: "Q a \<Longrightarrow> grows_by Q c (addAction a c)"
  by (rule grows_mono[OF grows_action]) auto

text \<open>What a grown collector reports.\<close>

lemma collect_actions: "set (map snd (c_actions (collect ev c))) \<subseteq> set (map snd (c_actions c)) \<union> {a. EAction a \<in> set ev}"
proof (induction ev arbitrary: c)
  case (Cons e ev)
  have "set (map snd (c_actions (add_evidence e c))) \<subseteq> set (map snd (c_actions c)) \<union> {a. e = EAction a}"
    by (cases e) (auto simp: addFinding_alt addAction_alt)
  then have "set (map snd (c_actions (collect ev (add_evidence e c))))
      \<subseteq> (set (map snd (c_actions c)) \<union> {a. e = EAction a}) \<union> {a. EAction a \<in> set ev}"
    using Cons[of "add_evidence e c"] by blast
  then show ?case unfolding collect_simps(2) by (rule order_trans) auto
qed simp

lemma grows_actions:
  "grows Q R (newCollector p) c \<Longrightarrow> a \<in> set (fst (snd (collector_sorted c))) \<Longrightarrow> Q a"
  unfolding grows_def collector_sorted_def Let_def using collect_actions by (fastforce simp: newCollector_def)

lemma collector_ok_keys:
  assumes "collector_ok c"
  shows "f_ID ` snd ` set (c_findings c) = fst ` set (c_findings c)" and "a_ID ` snd ` set (c_actions c) = fst ` set (c_actions c)"
proof -
  have "\<forall>x\<in>set (c_findings c). f_ID (snd x) = fst x" "\<forall>x\<in>set (c_actions c). a_ID (snd x) = fst x"
    using assms by (auto simp: collector_ok_def list_all_iff)
  then show "f_ID ` snd ` set (c_findings c) = fst ` set (c_findings c)" "a_ID ` snd ` set (c_actions c) = fst ` set (c_actions c)"
    by (simp_all add: image_image)
qed

lemma grows_reported:
  assumes "grows Q R (newCollector p) c" and "\<not> snd (snd (collector_sorted c))"
  shows "EFinding f \<in> R \<Longrightarrow> f_ID (stored_finding f) \<in> f_ID ` set (fst (collector_sorted c))"
    and "EAction a \<in> R \<Longrightarrow> a_ID a \<in> a_ID ` set (fst (snd (collector_sorted c)))"
proof -
  from assms(1) obtain ev where ev: "c = collect ev (newCollector p)" "R \<subseteq> set ev" unfolding grows_def by blast
  have none: "no_omission c" using assms(2) by (simp add: collector_sorted_def no_omission_def Let_def)
  have ok: "collector_ok c" unfolding ev(1) by (intro collector_ok_collect collector_ok_new)
  have sets: "set (fst (collector_sorted c)) = snd ` set (c_findings c)" "set (fst (snd (collector_sorted c))) = snd ` set (c_actions c)"
    using none by (simp_all add: collector_sorted_def no_omission_def Let_def)
  note m = collect_members[OF none[unfolded ev(1)], folded ev(1)]
  show "EFinding f \<in> R \<Longrightarrow> f_ID (stored_finding f) \<in> f_ID ` set (fst (collector_sorted c))"
    unfolding sets collector_ok_keys[OF ok] conjunct1[OF m] using ev(2) by blast
  show "EAction a \<in> R \<Longrightarrow> a_ID a \<in> a_ID ` set (fst (snd (collector_sorted c)))"
    unfolding sets collector_ok_keys[OF ok] conjunct1[OF conjunct2[OF conjunct2[OF m]]] using ev(2) by blast
qed

section \<open>Growth by the analyzers\<close>

text \<open>Most analyzers add findings only, so they grow a collector whatever the actions have to satisfy.\<close>

named_theorems grows_rules \<open>rules for the growth of a collector\<close>

lemmas [grows_rules] = grows_refl grows_by_finding

lemma grows_by_case_prod [grows_rules]:
  "(\<And>a b. x = (a, b) \<Longrightarrow> grows_by Q c (f a b)) \<Longrightarrow> grows_by Q c (case x of (a, b) \<Rightarrow> f a b)"
  by (cases x) simp

lemma grows_by_if [grows_rules]:
  "(b \<Longrightarrow> grows_by Q c x) \<Longrightarrow> (\<not> b \<Longrightarrow> grows_by Q c y) \<Longrightarrow> grows_by Q c (if b then x else y)"
  by simp

lemma grows_by_option [grows_rules]:
  "(x = None \<Longrightarrow> grows_by Q c n) \<Longrightarrow> (\<And>a. x = Some a \<Longrightarrow> grows_by Q c (m a)) \<Longrightarrow>
   grows_by Q c (case x of None \<Rightarrow> n | Some a \<Rightarrow> m a)"
  by (cases x) auto

lemma grows_analyzers [grows_rules]:
  "grows_by Q c (analyzeAPIServices L request c)"
  "grows_by Q c (analyzeWebhook L request target w c)"
  "grows_by Q c (analyzeGracePeriod request target c)"
  "grows_by Q c (analyzeFinalizerOwner L prequest finalizer c)"
  "grows_by Q c (analyzeNamespaceConditions conds t c)"
  "grows_by Q c (addTruncationFinding n c)"
  "grows_by Q c (addCRDTruncationFinding n c)"
  by (unfold analyzeAPIServices_def analyze_api_service_def analyzeWebhook_def analyzeGracePeriod_def
      analyzeFinalizerOwner_def analyzeNamespaceConditions_def analyze_condition_def addTruncationFinding_def
      addCRDTruncationFinding_def Let_def)
    (intro grows_rules grows_by_foldl)+

lemma grows_admission [grows_rules]: "grows_by Q c (analyzeAdmissionWebhooks L request target c)"
  unfolding analyzeAdmissionWebhooks_def Let_def
  by (intro grows_by_trans[OF grows_by_foldl grows_by_foldl] grows_rules)

lemma grows_conversion [grows_rules]: "grows_by Q c (snd (analyzeCRDConversion request crd c))"
  unfolding analyzeCRDConversion_def Let_def
  by (auto split: option.splits prod.splits simp: grows_refl grows_by_finding)

text \<open>The same as steps: an addition on top of what has already grown.\<close>

lemma grows_steps:
  "grows_by Q c c' \<Longrightarrow> grows_by Q c (addFinding f c')"
  "grows_by Q c c' \<Longrightarrow> Q a \<Longrightarrow> grows_by Q c (addAction a c')"
  "grows_by Q c c' \<Longrightarrow> grows_by Q c (analyzeFinalizerOwner L prequest finalizer c')"
  "grows_by Q c c' \<Longrightarrow> grows_by Q c (analyzeGracePeriod request target c')"
  "grows_by Q c c' \<Longrightarrow> grows_by Q c (analyzeAdmissionWebhooks L request target c')"
  "grows_by Q c c' \<Longrightarrow> grows_by Q c (analyzeAPIServices L request c')"
  "grows_by Q c c' \<Longrightarrow> grows_by Q c (analyzeNamespaceConditions conds t c')"
  "grows_by Q c c' \<Longrightarrow> grows_by Q c (snd (analyzeCRDConversion request crd c'))"
  by (erule grows_by_trans, rule grows_rules grows_by_action, assumption?)+

text \<open>Actions as \<open>newAction\<close> builds them from the policy of the request.\<close>

definition built_action :: "CompiledPolicy \<Rightarrow> RemediationAction \<Rightarrow> bool" where
  "built_action p a \<longleftrightarrow>
     a = newAction p (a_Type a) (a_Target a) (a_Finalizer a) (a_PreconditionResourceVersion a) (a_Reason a)"

lemma newAction_fields [simp]:
  "a_Type (newAction p t ref f v r) = t" "a_Target (newAction p t ref f v r) = ref"
  "a_Finalizer (newAction p t ref f v r) = f" "a_PreconditionResourceVersion (newAction p t ref f v r) = v"
  "a_Reason (newAction p t ref f v r) = r" "a_Risk (newAction p t ref f v r) = RiskFor t f"
  "(a_Eligible (newAction p t ref f v r), a_IneligibleReason (newAction p t ref f v r)) = ActionEligibility (Some p) t f"
  "a_ID (newAction p t ref f v r) = actionID t (tr_UID ref) f v (cp_uid p) (cp_generation p)"
  by (simp_all add: newAction_def split: prod.splits)

lemma built_newAction [simp]: "built_action p (newAction p t ref f v r)"
  by (simp add: built_action_def)

text \<open>An action on the target itself that removes one of its finalizers.\<close>

definition finalizer_action :: "CompiledPolicy Request \<Rightarrow> Unstructured \<Rightarrow> bool \<Rightarrow> RemediationAction \<Rightarrow> bool" where
  "finalizer_action request target crd a \<longleftrightarrow>
     built_action (req_Policy request) a \<and> a_Type a = ActionRemoveResourceFinalizer
     \<and> a_Target a = req_Target request \<and> a_PreconditionResourceVersion a = obj_ResourceVersion target
     \<and> a_Finalizer a \<in> set (obj_Finalizers target) \<and> \<not> (crd \<and> a_Finalizer a = CustomResourceCleanupFinalizer)"

lemma set_sortedCopy [simp]: "set (sortedCopy xs) = set xs"
  by (simp add: sortedCopy_def)

lemma grows_metadata_finalizers:
  assumes "\<And>a. finalizer_action request target crd a \<Longrightarrow> Q a"
  shows "grows_by Q c (analyzeMetadataFinalizers L request target crd c)"
  unfolding analyzeMetadataFinalizers_def
proof (rule grows_by_foldl)
  fix c f assume f: "f \<in> set (sortedCopy (obj_Finalizers target))"
  show "grows_by Q c (analyze_finalizer L request target crd c f)"
    unfolding analyze_finalizer_def Let_def
    by (intro grows_by_if grows_steps grows_refl assms) (use f in \<open>auto simp: finalizer_action_def\<close>)
qed

section \<open>Specifications of reading programs\<close>

text \<open>
  The only calls of a diagnosis: a GET, and a metadata LIST of between one and 500 objects.
  \<open>reads A m\<close>: from every log, the program appends such calls only, and a result satisfies \<open>A\<close>
  together with the calls made.
\<close>

fun diagnosis_read :: "event \<Rightarrow> bool" where
  "diagnosis_read (EvDynGet _ _ _ _) = True"
| "diagnosis_read (EvListMeta _ _ _ lim _) = (1 \<le> lim \<and> lim \<le> 500)"
| "diagnosis_read _ = False"

abbreviation answers :: "('a \<Rightarrow> event set \<Rightarrow> bool) \<Rightarrow> 'a io \<Rightarrow> bool" where
  "answers A m \<equiv> ensures diagnosis_read A m"

abbreviation reads :: "('a \<Rightarrow> event set \<Rightarrow> bool) \<Rightarrow> 'a option io \<Rightarrow> bool" where
  "reads A m \<equiv> yields diagnosis_read A m"

lemma answers_list_meta:
  "1 \<le> lim \<Longrightarrow> lim \<le> 500 \<Longrightarrow> answers (\<lambda>r evs. evs = {EvListMeta gvr ns tok lim r}) (list_meta E gvr ns tok lim)"
  unfolding ensures_def by (auto intro!: wp_intro)

lemma answers_dyn_get: "answers (\<lambda>r evs. evs = {EvDynGet gvr ns n r}) (dyn_get E gvr ns n)"
  unfolding ensures_def by (auto intro!: wp_intro)

section \<open>Listings\<close>

text \<open>
  A complete listing from a continue token: pages answered by the server, each asked for with the
  token of the one before, until a page without a token.
\<close>

inductive page_chain :: "event set \<Rightarrow> GroupVersionResource \<Rightarrow> string \<Rightarrow> string \<Rightarrow> PartialObjectMetadata list \<Rightarrow> bool"
  for evs gvr ns where
  last_page: "EvListMeta gvr ns tok lim (Inr page) \<in> evs \<Longrightarrow> page_Continue page = [] \<Longrightarrow>
     page_chain evs gvr ns tok (page_Items page)"
| next_page: "EvListMeta gvr ns tok lim (Inr page) \<in> evs \<Longrightarrow> page_Continue page \<noteq> [] \<Longrightarrow>
     page_chain evs gvr ns (page_Continue page) items \<Longrightarrow> page_chain evs gvr ns tok (page_Items page @ items)"

lemma page_chain_mono: "page_chain evs gvr ns tok items \<Longrightarrow> evs \<subseteq> evs' \<Longrightarrow> page_chain evs' gvr ns tok items"
  by (induction rule: page_chain.induct) (auto intro: page_chain.intros)

definition listed :: "event set \<Rightarrow> GroupVersionResource \<Rightarrow> string \<Rightarrow> PartialObjectMetadata \<Rightarrow> bool" where
  "listed evs gvr ns item \<longleftrightarrow> (\<exists>tok lim page. EvListMeta gvr ns tok lim (Inr page) \<in> evs \<and> item \<in> set (page_Items page))"

lemma listed_mono: "listed evs gvr ns item \<Longrightarrow> evs \<subseteq> evs' \<Longrightarrow> listed evs' gvr ns item"
  unfolding listed_def by blast

definition pages_read ::
  "GroupVersionResource \<Rightarrow> string \<Rightarrow> int \<Rightarrow> PartialObjectMetadata list \<Rightarrow> string
     \<Rightarrow> ApiError + PartialObjectMetadata list \<times> bool \<Rightarrow> event set \<Rightarrow> bool" where
  "pages_read gvr ns maximum items tok x evs \<longleftrightarrow>
     (\<forall>items' truncated. x = Inr (items', truncated) \<longrightarrow>
        (\<exists>new. items' = items @ new \<and> (\<forall>item\<in>set new. listed evs gvr ns item)
           \<and> (truncated \<longrightarrow> maximum \<le> int (length items')) \<and> (\<not> truncated \<longrightarrow> page_chain evs gvr ns tok new)))"

lemma pages_read_next:
  assumes "pages_read gvr ns maximum (items @ page_Items page) (page_Continue page) x evs" and "page_Continue page \<noteq> []"
  shows "pages_read gvr ns maximum items tok x (insert (EvListMeta gvr ns tok lim (Inr page)) evs)"
  unfolding pages_read_def
proof (intro allI impI)
  let ?evs = "insert (EvListMeta gvr ns tok lim (Inr page)) evs"
  fix items' truncated assume "x = Inr (items', truncated)"
  with assms(1) obtain new where new: "items' = (items @ page_Items page) @ new" "\<forall>item\<in>set new. listed evs gvr ns item"
    "truncated \<longrightarrow> maximum \<le> int (length items')" "\<not> truncated \<longrightarrow> page_chain evs gvr ns (page_Continue page) new"
    unfolding pages_read_def by blast
  have "page_chain ?evs gvr ns tok (page_Items page @ new)" if "\<not> truncated"
    using new(4) that assms(2) by (intro page_chain.next_page[where lim = lim]) (auto intro: page_chain_mono)
  moreover have "\<forall>item\<in>set (page_Items page @ new). listed ?evs gvr ns item"
  proof -
    have "\<forall>item\<in>set (page_Items page). listed ?evs gvr ns item" unfolding listed_def by blast
    moreover have "\<forall>item\<in>set new. listed ?evs gvr ns item" using new(2) by (auto intro: listed_mono)
    ultimately show ?thesis by auto
  qed
  ultimately show "\<exists>new. items' = items @ new \<and> (\<forall>item\<in>set new. listed ?evs gvr ns item)
      \<and> (truncated \<longrightarrow> maximum \<le> int (length items')) \<and> (\<not> truncated \<longrightarrow> page_chain ?evs gvr ns tok new)"
    using new(1,3) by (intro exI[where x = "page_Items page @ new"]) simp
qed

lemma list_pages_reads: "reads (pages_read gvr ns maximum items tok) (list_pages E gvr ns maximum items tok fuel)"
proof (induction fuel arbitrary: items tok)
  case (Suc fuel)
  let ?lim = "nat (min metadataPageSize (maximum - int (length items)))"
  have page: "reads (pages_read gvr ns maximum items tok)
      (State_Monad.bind (list_meta E gvr ns tok ?lim) (\<lambda>r. case r of
         Inl err \<Rightarrow> give (Inl err)
       | Inr page \<Rightarrow>
           (let items' = items @ page_Items page
            in if page_Continue page = [] then give (Inr (items', False))
               else list_pages E gvr ns maximum items' (page_Continue page) fuel)))"
    if "\<not> maximum - int (length items) \<le> 0"
  proof (rule ensures_bind[OF answers_list_meta])
    fix r evs assume evs: "evs = {EvListMeta gvr ns tok ?lim r}"
    show "reads (\<lambda>y evs'. pages_read gvr ns maximum items tok y (evs \<union> evs'))
        (case r of Inl err \<Rightarrow> give (Inl err)
         | Inr page \<Rightarrow>
             (let items' = items @ page_Items page
              in if page_Continue page = [] then give (Inr (items', False))
                 else list_pages E gvr ns maximum items' (page_Continue page) fuel))"
    proof (cases r)
      case (Inr page)
      have "pages_read gvr ns maximum items tok (Inr (items @ page_Items page, False)) evs" if "page_Continue page = []"
        unfolding pages_read_def evs Inr using that by (auto simp: listed_def intro!: page_chain.last_page[where lim = ?lim])
      then show ?thesis
        unfolding Inr sum.case Let_def
        by (auto intro!: yields_give yields_mono[OF Suc.IH] simp: evs Inr pages_read_next)
    qed (auto intro!: yields_give simp: pages_read_def)
  qed (use that in \<open>auto simp: metadataPageSize_def\<close>)
  show ?case
    unfolding list_pages.simps Let_def using page[unfolded Let_def]
    by (auto intro!: yields_give simp: pages_read_def)
qed (simp add: ensures_return)

text \<open>What one resource contributes to the enumeration of a namespace.\<close>

definition resource_version :: "Resource \<Rightarrow> Version \<Rightarrow> GroupVersionResource" where
  "resource_version resource version = WithVersion (res_GroupResource resource) (v_Version version)"

definition listing_read :: "Resource \<Rightarrow> string \<Rightarrow> listing \<Rightarrow> event set \<Rightarrow> bool" where
  "listing_read resource ns x evs \<longleftrightarrow>
     (case x of (items, version, truncated, err) \<Rightarrow>
        err = None \<longrightarrow> version \<in> set (all_versions resource)
          \<and> (\<forall>item\<in>set items. listed evs (resource_version resource version) ns item)
          \<and> (\<not> truncated \<longrightarrow> page_chain evs (resource_version resource version) ns [] items))"

lemma listing_read_mono: "listing_read resource ns x evs \<Longrightarrow> evs \<subseteq> evs' \<Longrightarrow> listing_read resource ns x evs'"
  unfolding listing_read_def by (auto split: prod.splits intro: listed_mono page_chain_mono)

lemma list_versions_reads:
  assumes "lastUnavailable \<noteq> None \<or> versions \<noteq> []" and "set versions \<subseteq> set (all_versions resource)"
  shows "reads (listing_read resource ns) (list_versions E fuel resource ns maximum lastUnavailable versions)"
  using assms
proof (induction versions arbitrary: lastUnavailable)
  case Nil
  show ?case unfolding list_versions.simps by (rule yields_give) (use Nil in \<open>auto simp: listing_read_def\<close>)
next
  case (Cons version versions)
  show ?case
    unfolding list_versions.simps resource_version_def[symmetric]
  proof (rule yields_bind_may[OF list_pages_reads])
    fix r evs assume r: "pages_read (resource_version resource version) ns maximum [] [] r evs"
    show "reads (\<lambda>y evs'. listing_read resource ns y (evs \<union> evs')) (case r of
        Inl err \<Rightarrow> if ae_NotFound err \<or> ae_Gone err then list_versions E fuel resource ns maximum (Some err) versions
                   else give ([], version, False, Some err)
      | Inr (items, truncated) \<Rightarrow> give (items, version, truncated, None))"
    proof (intro yields_rules)
      fix err assume "r = Inl err"
      show "reads (\<lambda>y evs'. listing_read resource ns y (evs \<union> evs')) (list_versions E fuel resource ns maximum (Some err) versions)"
        by (rule yields_mono[OF Cons.IH]) (use Cons.prems in \<open>auto intro: listing_read_mono\<close>)
    qed (use r Cons.prems in \<open>auto simp: pages_read_def listing_read_def\<close>)
  qed
qed

lemma listNamespaceResource_reads:
  "reads (listing_read resource ns) (listNamespaceResource E fuel resource ns maximum)"
  unfolding listNamespaceResource_def
  by (rule list_versions_reads) (simp_all add: OrderedVersions_nonempty OrderedVersions_subset)

text \<open>The evidence about one remaining object: that it remains, and one action per finalizer.\<close>

definition remaining_finding :: "kube_lib \<Rightarrow> Resource \<Rightarrow> Version \<Rightarrow> PartialObjectMetadata \<Rightarrow> Finding" where
  "remaining_finding L resource version item =
     zero_Finding\<lparr>f_Type := FindingRemainingResource,
       f_Message := lib_GroupResourceString L (res_GroupResource resource) @ '' '' @ pom_Namespace item @ ''/''
         @ pom_Name item @ '' remains in terminating Namespace'',
       f_ResourceRef := Some (metadataReference (resource\<lparr>res_PreferredVersion := version\<rparr>) item)\<rparr>"

definition item_action :: "kube_lib \<Rightarrow> CompiledPolicy \<Rightarrow> Resource \<Rightarrow> Version \<Rightarrow> PartialObjectMetadata \<Rightarrow> string \<Rightarrow> RemediationAction" where
  "item_action L p resource version item finalizer =
     newAction p ActionRemoveResourceFinalizer (metadataReference (resource\<lparr>res_PreferredVersion := version\<rparr>) item)
       finalizer (pom_ResourceVersion item)
       (''remove finalizer '' @ quote (lib_IsPrint L) finalizer @ '' from object blocking Namespace deletion'')"

definition item_evidence :: "kube_lib \<Rightarrow> CompiledPolicy \<Rightarrow> Resource \<Rightarrow> Version \<Rightarrow> PartialObjectMetadata \<Rightarrow> evidence set" where
  "item_evidence L p resource version item =
     insert (EFinding (remaining_finding L resource version item))
       ((\<lambda>f. EAction (item_action L p resource version item f)) ` set (pom_Finalizers item))"

lemma grows_item_finalizer:
  assumes "Q (newAction (req_Policy request) ActionRemoveResourceFinalizer ref f (pom_ResourceVersion item)
      (''remove finalizer '' @ quote (lib_IsPrint L) f @ '' from object blocking Namespace deletion''))"
  shows "grows Q {EAction (newAction (req_Policy request) ActionRemoveResourceFinalizer ref f (pom_ResourceVersion item)
      (''remove finalizer '' @ quote (lib_IsPrint L) f @ '' from object blocking Namespace deletion''))}
    c (item_finalizer L request ref item c f)"
  unfolding item_finalizer_def Let_def
  by (rule grows_mono[OF grows_trans[OF grows_steps(3)[OF grows_by_finding] grows_action[where Q = Q]]])
    (use assms in auto)

lemma grows_namespace_item:
  assumes "\<And>f. f \<in> set (pom_Finalizers item) \<Longrightarrow> Q (item_action L (req_Policy request) resource version item f)"
  shows "grows Q (item_evidence L (req_Policy request) resource version item) c (namespace_item L request resource version c item)"
proof -
  let ?ref = "metadataReference (resource\<lparr>res_PreferredVersion := version\<rparr>) item"
  let ?c1 = "addFinding (remaining_finding L resource version item) c"
  let ?c2 = "if dp_CheckWebhooks (set_Diagnosis (policy_Settings (Some (req_Policy request))))
    then analyzeAdmissionWebhooks L (request\<lparr>req_Target := ?ref\<rparr>) (child_object (pom_Labels item)) ?c1 else ?c1"
  have "grows Q {EFinding (remaining_finding L resource version item)} c ?c1" by (rule grows_finding)
  moreover have "grows_by Q ?c1 ?c2" by (intro grows_rules)
  moreover have "grows Q (\<Union>f\<in>set (pom_Finalizers item). {EAction (item_action L (req_Policy request) resource version item f)})
      ?c2 (foldl (item_finalizer L request ?ref item) ?c2 (sortedCopy (pom_Finalizers item)))"
    unfolding set_sortedCopy[of "pom_Finalizers item", symmetric]
    by (rule grows_foldl, unfold item_action_def, rule grows_item_finalizer) (use assms in \<open>auto simp: item_action_def\<close>)
  ultimately have "grows Q ({EFinding (remaining_finding L resource version item)} \<union> {}
      \<union> (\<Union>f\<in>set (pom_Finalizers item). {EAction (item_action L (req_Policy request) resource version item f)}))
      c (foldl (item_finalizer L request ?ref item) ?c2 (sortedCopy (pom_Finalizers item)))"
    by (blast intro: grows_trans)
  then show ?thesis
    unfolding namespace_item_def Let_def remaining_finding_def[symmetric]
    by (rule grows_mono) (auto simp: item_evidence_def)
qed

text \<open>An action on an object that a listing of the namespace returned.\<close>

definition child_action :: "kube_lib \<Rightarrow> CompiledPolicy Request \<Rightarrow> event set \<Rightarrow> RemediationAction \<Rightarrow> bool" where
  "child_action L request evs a \<longleftrightarrow>
     (\<exists>resource version item.
        resource \<in> set (Snapshot_Resources (dsn_Catalog (req_Snapshot request)))
        \<and> v_Namespaced (res_PreferredVersion resource) \<and> version \<in> set (all_versions resource)
        \<and> listed evs (resource_version resource version) (tr_Name (req_Target request)) item
        \<and> a_Finalizer a \<in> set (pom_Finalizers item)
        \<and> a = item_action L (req_Policy request) resource version item (a_Finalizer a))"

lemma child_action_mono: "child_action L request evs a \<Longrightarrow> evs \<subseteq> evs' \<Longrightarrow> child_action L request evs' a"
  unfolding child_action_def by (blast intro: listed_mono)

text \<open>A resource of the catalog listed to its end, with all that was listed among the evidence.\<close>

definition swept :: "kube_lib \<Rightarrow> CompiledPolicy Request \<Rightarrow> event set \<Rightarrow> evidence set \<Rightarrow> Resource \<Rightarrow> bool" where
  "swept L request evs R resource \<longleftrightarrow>
     (\<exists>version items. version \<in> set (all_versions resource)
        \<and> page_chain evs (resource_version resource version) (tr_Name (req_Target request)) [] items
        \<and> (\<forall>item\<in>set items. item_evidence L (req_Policy request) resource version item \<subseteq> R))"

lemma swept_mono: "swept L request evs R resource \<Longrightarrow> evs \<subseteq> evs' \<Longrightarrow> R \<subseteq> R' \<Longrightarrow> swept L request evs' R' resource"
  unfolding swept_def by (meson order_trans page_chain_mono)

definition enumerated ::
  "kube_lib \<Rightarrow> CompiledPolicy Request \<Rightarrow> Result \<Rightarrow> collector \<Rightarrow> Resource list \<Rightarrow> Result \<times> collector \<Rightarrow> event set \<Rightarrow> bool" where
  "enumerated L request result c resources x evs \<longleftrightarrow>
     (\<exists>b R. fst x = result\<lparr>dg_DiagnosisComplete := b\<rparr> \<and> (b \<longrightarrow> dg_DiagnosisComplete result)
        \<and> grows (child_action L request evs) R c (snd x)
        \<and> (b \<longrightarrow> (\<forall>resource\<in>set resources. v_Namespaced (res_PreferredVersion resource) \<longrightarrow> swept L request evs R resource)))"

lemma enumerated_stop:
  "grows (child_action L request evs) R c c' \<Longrightarrow> enumerated L request result c resources (result\<lparr>dg_DiagnosisComplete := False\<rparr>, c') evs"
  unfolding enumerated_def by (intro exI[where x = False] exI[where x = R]) simp

lemma enumerated_skip:
  "enumerated L request result c resources x evs \<Longrightarrow> \<not> v_Namespaced (res_PreferredVersion resource) \<Longrightarrow>
   enumerated L request result c (resource # resources) x evs"
  unfolding enumerated_def by auto

text \<open>An enumeration goes on after the evidence of one resource.\<close>

lemma enumerated_go_on:
  assumes "enumerated L request result' c' resources x evs'" and "grows (child_action L request evs) R c c'"
    and "result' = result\<lparr>dg_DiagnosisComplete := b\<rparr>" and "b \<Longrightarrow> dg_DiagnosisComplete result \<and> swept L request evs R resource"
  shows "enumerated L request result c (resource # resources) x (evs \<union> evs')"
proof -
  from assms(1) obtain b' R' where x: "fst x = result'\<lparr>dg_DiagnosisComplete := b'\<rparr>" "b' \<longrightarrow> dg_DiagnosisComplete result'"
    "grows (child_action L request evs') R' c' (snd x)"
    "b' \<longrightarrow> (\<forall>r\<in>set resources. v_Namespaced (res_PreferredVersion r) \<longrightarrow> swept L request evs' R' r)"
    unfolding enumerated_def by blast
  have "grows (child_action L request (evs \<union> evs')) (R \<union> R') c (snd x)"
    by (rule grows_trans[OF grows_mono[OF assms(2)] grows_mono[OF x(3)]]) (auto intro: child_action_mono)
  moreover have "\<forall>r\<in>set (resource # resources). v_Namespaced (res_PreferredVersion r) \<longrightarrow> swept L request (evs \<union> evs') (R \<union> R') r"
    if b' using that x(2,4) assms(3,4) by (auto intro: swept_mono)
  moreover have "fst x = result\<lparr>dg_DiagnosisComplete := b'\<rparr>" "b' \<longrightarrow> dg_DiagnosisComplete result"
    using x(1,2) assms(3,4) by auto
  ultimately show ?thesis unfolding enumerated_def by blast
qed

lemma grows_items:
  assumes "resource \<in> set (Snapshot_Resources (dsn_Catalog (req_Snapshot request)))"
    and "v_Namespaced (res_PreferredVersion resource)"
    and "listing_read resource (tr_Name (req_Target request)) (items, version, truncated, None) evs"
  shows "grows (child_action L request evs) (\<Union>item\<in>set items. item_evidence L (req_Policy request) resource version item)
    c (foldl (namespace_item L request resource version) c items)"
proof (rule grows_foldl, rule grows_namespace_item)
  fix item f assume "item \<in> set items" "f \<in> set (pom_Finalizers item)"
  with assms show "child_action L request evs (item_action L (req_Policy request) resource version item f)"
    unfolding child_action_def listing_read_def
    by (intro exI[where x = resource] exI[where x = version] exI[where x = item]) (auto simp: item_action_def)
qed

lemma enumerate_resources_reads:
  assumes "set resources \<subseteq> set (Snapshot_Resources (dsn_Catalog (req_Snapshot request)))"
  shows "reads (enumerated L request result c resources) (enumerate_resources L E fuel request maxObjects observed result c resources)"
  using assms
proof (induction resources arbitrary: observed result c)
  case Nil
  show ?case
    unfolding enumerate_resources.simps
    by (rule yields_give) (auto simp: enumerated_def intro!: exI[where x = "dg_DiagnosisComplete result"] exI[where x = "{}"] grows_refl)
next
  case (Cons resource resources)
  note IH = Cons.IH[OF order_trans[OF set_subset_Cons Cons.prems]]
  show ?case
    unfolding enumerate_resources.simps Let_def
  proof (intro yields_rules yields_bind_may[OF listNamespaceResource_reads] yields_mono[OF IH], goal_cases)
    case (1 x evs)
    then show ?case by (intro enumerated_skip)
  next
    case 2
    show ?case by (rule enumerated_stop[OF grows_analyzers(6)])
  next
    case (3 x evs items z version za truncated zb)
    then show ?case
      by (intro enumerated_stop[OF grows_trans[OF grows_items grows_analyzers(6)]]) (use Cons.prems in auto)
  next
    case (4 x evs items z version za truncated zb xa evsa)
    then show ?case
      by (intro enumerated_go_on[OF _ grows_items, where b = "dg_DiagnosisComplete result"])
        (use Cons.prems in \<open>auto simp: swept_def listing_read_def\<close>)
  next
    case (5 x evs items z version za truncated zb e xa evsa)
    then show ?case by (intro enumerated_go_on[OF _ grows_by_finding, where b = False]) auto
  qed
qed

section \<open>Instances of a CRD\<close>

definition instance_finding :: "CustomResourceDefinition \<Rightarrow> string \<Rightarrow> PartialObjectMetadata \<Rightarrow> Finding" where
  "instance_finding crd version item =
     zero_Finding\<lparr>f_Type := FindingRemainingResource,
       f_Message := ''custom resource '' @ pom_Namespace item @ ''/'' @ pom_Name item @ '' remains'',
       f_ResourceRef := Some \<lparr>tr_APIGroup = crd_Group crd, tr_Version = version, tr_Resource = crd_Plural crd,
         tr_Kind = crd_Kind crd, tr_Namespace = pom_Namespace item, tr_Name = pom_Name item, tr_UID = pom_UID item\<rparr>\<rparr>"

text \<open>An instance is accounted for when some served version showed it and the finding about it was added.\<close>

definition accounted :: "CustomResourceDefinition \<Rightarrow> evidence set \<Rightarrow> UID \<Rightarrow> bool" where
  "accounted crd R uid \<longleftrightarrow>
     uid \<noteq> [] \<and> (\<exists>version item. pom_UID item = uid \<and> EFinding (instance_finding crd version item) \<in> R)"

lemma accounted_mono: "accounted crd R uid \<Longrightarrow> R \<subseteq> R' \<Longrightarrow> accounted crd R' uid"
  unfolding accounted_def by blast

text \<open>From one state of the scan to a later one: findings only, and every UID newly seen is accounted for.\<close>

definition scanned :: "CustomResourceDefinition \<Rightarrow> crd_scan \<Rightarrow> crd_scan \<Rightarrow> evidence set \<Rightarrow> bool" where
  "scanned crd st st' R \<longleftrightarrow>
     grows (\<lambda>_. False) R (cs_collector st) (cs_collector st') \<and> (cs_complete st' \<longrightarrow> cs_complete st)
     \<and> cs_seenUIDs st \<subseteq> cs_seenUIDs st' \<and> (\<forall>u\<in>cs_seenUIDs st' - cs_seenUIDs st. accounted crd R u)"

lemma scanned_refl: "scanned crd st st {}"
  by (simp add: scanned_def grows_refl)

lemma scanned_trans: "scanned crd st st' R \<Longrightarrow> scanned crd st' st'' R' \<Longrightarrow> scanned crd st st'' (R \<union> R')"
proof -
  assume a: "scanned crd st st' R" "scanned crd st' st'' R'"
  have "accounted crd (R \<union> R') u" if "u \<in> cs_seenUIDs st'' - cs_seenUIDs st" for u
    using a that accounted_mono[of crd R u "R \<union> R'"] accounted_mono[of crd R' u "R \<union> R'"]
    by (cases "u \<in> cs_seenUIDs st'") (auto simp: scanned_def)
  with a show ?thesis unfolding scanned_def by (auto intro: grows_trans)
qed

text \<open>What the loop over one page leaves: all its instances have been seen, or the limit was reached.\<close>

definition items_scanned ::
  "CustomResourceDefinition \<Rightarrow> crd_scan \<Rightarrow> PartialObjectMetadata list \<Rightarrow> collector + crd_scan \<Rightarrow> bool" where
  "items_scanned crd st items x \<longleftrightarrow>
     (case x of
        Inl c \<Rightarrow> grows_by (\<lambda>_. False) (cs_collector st) c
      | Inr st' \<Rightarrow> \<exists>R. scanned crd st st' R
          \<and> (cs_complete st' \<longrightarrow> (\<forall>item\<in>set items. pom_UID item \<noteq> [] \<and> pom_UID item \<in> cs_seenUIDs st')))"

lemma items_scanned_append:
  assumes "items_scanned crd st items (Inr st1)" and "items_scanned crd st1 items' x"
  shows "items_scanned crd st (items @ items') x"
proof -
  from assms(1) obtain R1 where R1: "scanned crd st st1 R1"
    "cs_complete st1 \<longrightarrow> (\<forall>item\<in>set items. pom_UID item \<noteq> [] \<and> pom_UID item \<in> cs_seenUIDs st1)"
    unfolding items_scanned_def by auto
  have grow: "grows_by (\<lambda>_. False) (cs_collector st) (cs_collector st1)"
    using R1(1) by (auto simp: scanned_def intro: grows_mono)
  show ?thesis
  proof (cases x)
    case (Inl c)
    then show ?thesis using assms(2) grow by (auto simp: items_scanned_def intro: grows_by_trans)
  next
    case (Inr st')
    with assms(2) obtain R where R: "scanned crd st1 st' R"
      "cs_complete st' \<longrightarrow> (\<forall>item\<in>set items'. pom_UID item \<noteq> [] \<and> pom_UID item \<in> cs_seenUIDs st')"
      by (auto simp: items_scanned_def)
    have "cs_complete st' \<longrightarrow> (\<forall>item\<in>set (items @ items'). pom_UID item \<noteq> [] \<and> pom_UID item \<in> cs_seenUIDs st')"
      using R R1(2) by (auto simp: scanned_def)
    then show ?thesis using scanned_trans[OF R1(1) R(1)] by (auto simp: items_scanned_def Inr)
  qed
qed

lemma crd_items_scanned: "items_scanned crd st items (crd_items L crd maxInstances version st items)"
proof (induction items arbitrary: st)
  case Nil
  show ?case by (auto simp: items_scanned_def intro: scanned_refl)
next
  case (Cons item items)
  have on: "items_scanned crd st (item # items) (crd_items L crd maxInstances version st1 items)"
    if "scanned crd st st1 R" "cs_complete st1 \<Longrightarrow> pom_UID item \<noteq> [] \<and> pom_UID item \<in> cs_seenUIDs st1" for st1 R
    using items_scanned_append[OF _ Cons.IH[of st1], of st "[item]"] that by (auto simp: items_scanned_def[of _ _ "[_]"])
  show ?case
    unfolding crd_items.simps instance_finding_def[symmetric]
  proof (simp only: if_split, intro conjI impI, goal_cases)
    case 1
    then show ?case by (intro on[OF scanned_refl]) auto
  next
    case 2
    show ?case by (simp add: items_scanned_def grows_rules)
  next
    case 3
    show ?case by (rule on[where R = "{}"]) (auto simp: scanned_def intro: grows_rules)
  next
    case 4
    then show ?case
      by (intro on[where R = "{EFinding (instance_finding crd version item)}"])
        (auto simp: scanned_def accounted_def intro: grows_finding)
  qed
qed

text \<open>One version, and all of them.\<close>

definition version_scanned ::
  "CustomResourceDefinition \<Rightarrow> GroupVersionResource \<Rightarrow> string \<Rightarrow> crd_scan \<Rightarrow> collector + crd_scan \<Rightarrow> event set \<Rightarrow> bool" where
  "version_scanned crd gvr tok st x evs \<longleftrightarrow>
     (\<exists>items. items_scanned crd st items x \<and> (\<forall>st'. x = Inr st' \<longrightarrow> cs_complete st' \<longrightarrow> page_chain evs gvr [] tok items))"

abbreviation crd_gvr :: "CustomResourceDefinition \<Rightarrow> string \<Rightarrow> GroupVersionResource" where
  "crd_gvr crd version \<equiv> \<lparr>gvr_Group = crd_Group crd, gvr_Version = version, gvr_Resource = crd_Plural crd\<rparr>"

lemma version_scanned_next:
  assumes "version_scanned crd gvr (page_Continue page) st1 x evs" and "items_scanned crd st (page_Items page) (Inr st1)"
    and "page_Continue page \<noteq> []"
  shows "version_scanned crd gvr tok st x (insert (EvListMeta gvr [] tok lim (Inr page)) evs)"
proof -
  from assms(1) obtain items where "items_scanned crd st1 items x"
    "\<forall>st'. x = Inr st' \<longrightarrow> cs_complete st' \<longrightarrow> page_chain evs gvr [] (page_Continue page) items"
    unfolding version_scanned_def by blast
  with assms(2,3) show ?thesis
    unfolding version_scanned_def
    by (intro exI[where x = "page_Items page @ items"])
      (auto intro: items_scanned_append intro!: page_chain.next_page[where lim = lim] elim: page_chain_mono)
qed

lemma crd_pages_reads:
  "reads (version_scanned crd (crd_gvr crd version) tok st) (crd_pages L E crd maxInstances version st tok fuel)"
proof (induction fuel arbitrary: st tok)
  case (Suc fuel)
  show ?case
    unfolding crd_pages.simps
  proof (rule ensures_bind[OF answers_list_meta], goal_cases)
    case (3 r evs)
    note items = crd_items_scanned[of crd st _ L maxInstances version]
    show ?case
    proof (intro yields_rules, goal_cases)
      case (1 e)
      then show ?case
        by (auto simp: version_scanned_def items_scanned_def scanned_def intro!: exI[where x = "[]"] exI[where x = "{}"] grows_rules)
    next
      case (2 page c)
      then show ?case using items[of "page_Items page"] by (auto simp: version_scanned_def)
    next
      case (3 page st1)
      then show ?case
        using items[of "page_Items page"] \<open>evs = _\<close>
        by (auto simp: version_scanned_def intro!: exI[where x = "page_Items page"] page_chain.last_page[where lim = "nat metadataPageSize"])
    next
      case (4 page st1)
      then show ?case
        using items[of "page_Items page"] \<open>evs = _\<close>
        by (intro yields_mono[OF Suc.IH]) (auto intro: version_scanned_next)
    qed
  qed (simp_all add: metadataPageSize_def)
qed (simp add: ensures_return)

definition instances_read ::
  "CustomResourceDefinition \<Rightarrow> crd_scan \<Rightarrow> string list \<Rightarrow> bool \<times> collector \<Rightarrow> event set \<Rightarrow> bool" where
  "instances_read crd st versions x evs \<longleftrightarrow>
     (\<exists>R seen. grows (\<lambda>_. False) R (cs_collector st) (snd x)
        \<and> (\<forall>u\<in>seen - cs_seenUIDs st. accounted crd R u)
        \<and> (fst x \<longrightarrow> cs_complete st \<and> (\<forall>version\<in>set versions. \<exists>items. page_chain evs (crd_gvr crd version) [] [] items
              \<and> (\<forall>item\<in>set items. pom_UID item \<noteq> [] \<and> pom_UID item \<in> seen))))"

lemma instances_read_next:
  assumes "instances_read crd st1 versions x evs'" and "version_scanned crd (crd_gvr crd version) [] st (Inr st1) evs"
  shows "instances_read crd st (version # versions) x (evs \<union> evs')"
proof -
  from assms(1) obtain R seen where x: "grows (\<lambda>_. False) R (cs_collector st1) (snd x)"
    "\<forall>u\<in>seen - cs_seenUIDs st1. accounted crd R u"
    "fst x \<longrightarrow> cs_complete st1 \<and> (\<forall>version\<in>set versions. \<exists>items. page_chain evs' (crd_gvr crd version) [] [] items
       \<and> (\<forall>item\<in>set items. pom_UID item \<noteq> [] \<and> pom_UID item \<in> seen))"
    unfolding instances_read_def by blast
  from assms(2) obtain items R1 where v: "scanned crd st st1 R1"
    "cs_complete st1 \<longrightarrow> page_chain evs (crd_gvr crd version) [] [] items
       \<and> (\<forall>item\<in>set items. pom_UID item \<noteq> [] \<and> pom_UID item \<in> cs_seenUIDs st1)"
    unfolding version_scanned_def items_scanned_def by auto
  let ?seen = "seen \<union> cs_seenUIDs st1"
  have "\<forall>u\<in>?seen - cs_seenUIDs st. accounted crd (R1 \<union> R) u"
    using x(2) v(1) accounted_mono[of crd R1 _ "R1 \<union> R"] accounted_mono[of crd R _ "R1 \<union> R"]
    unfolding scanned_def by blast
  moreover have "grows (\<lambda>_. False) (R1 \<union> R) (cs_collector st) (snd x)"
    using v(1) x(1) by (auto simp: scanned_def intro: grows_trans)
  moreover have "\<exists>items. page_chain (evs \<union> evs') (crd_gvr crd w) [] [] items \<and> (\<forall>item\<in>set items. pom_UID item \<noteq> [] \<and> pom_UID item \<in> ?seen)"
    if "fst x" "w \<in> set (version # versions)" for w
    using that x(3) v(2) page_chain_mono[of evs _ _ _ _ "evs \<union> evs'"] page_chain_mono[of evs' _ _ _ _ "evs \<union> evs'"]
    by (cases "w = version") (simp_all, blast+)
  moreover have "fst x \<longrightarrow> cs_complete st" using x(3) v(1) by (auto simp: scanned_def)
  ultimately show ?thesis unfolding instances_read_def by blast
qed

lemma crd_versions_reads:
  "reads (instances_read crd st versions) (crd_versions L E fuel crd maxInstances st versions)"
proof (induction versions arbitrary: st)
  case Nil
  show ?case
    unfolding crd_versions.simps
    by (rule yields_give) (auto simp: instances_read_def intro!: exI[where x = "{}"] grows_refl)
next
  case (Cons version versions)
  show ?case
    unfolding crd_versions.simps
  proof (intro yields_bind_may[OF crd_pages_reads] yields_rules yields_mono[OF Cons.IH], goal_cases)
    case (1 x evs c)
    then show ?case
      by (auto simp: version_scanned_def items_scanned_def instances_read_def intro!: exI[where x = "{}"])
  next
    case (2 x evs st1 xa evs')
    then show ?case by (intro instances_read_next) simp_all
  qed
qed

section \<open>A whole diagnosis\<close>

text \<open>When the conversion of a CRD does not keep its instances from being read.\<close>

definition conversion_ready :: "DiagnosisSnapshot \<Rightarrow> CustomResourceDefinition \<Rightarrow> bool" where
  "conversion_ready snapshot crd \<longleftrightarrow>
     (\<forall>conversion. crd_Conversion crd = Some conversion \<longrightarrow> crc_Strategy conversion = WebhookConverter \<longrightarrow>
        (\<exists>config service. crc_Webhook conversion = Some (Some config) \<and> wcc_URL config = None \<and> wcc_Service config = Some service
           \<and> fst (serviceBackendReady snapshot (sref_Namespace service) (sref_Name service))))"

lemma analyzeCRDConversion_ready: "fst (analyzeCRDConversion request crd c) \<longleftrightarrow> conversion_ready (req_Snapshot request) crd"
  unfolding analyzeCRDConversion_def conversion_ready_def by (auto split: option.splits prod.splits)

text \<open>
  An action of a diagnosis: built by the policy, and either about the target as it was read or about
  an object listed in the target namespace.
\<close>

definition backed :: "kube_lib \<Rightarrow> CompiledPolicy Request \<Rightarrow> Unstructured \<Rightarrow> event set \<Rightarrow> RemediationAction \<Rightarrow> bool" where
  "backed L request obj evs a \<longleftrightarrow>
     built_action (req_Policy request) a
     \<and> (a_Target a = req_Target request \<and> a_PreconditionResourceVersion a = obj_ResourceVersion obj
          \<and> (a_Type a = ActionRemoveResourceFinalizer \<and> a_Finalizer a \<in> set (obj_Finalizers obj)
               \<and> \<not> (target_gr (req_Target request) = crdsGR \<and> a_Finalizer a = CustomResourceCleanupFinalizer)
             \<or> a_Type a = ActionForceFinalizeNamespace \<and> a_Finalizer a = [] \<and> target_gr (req_Target request) = namespacesGR
               \<and> (\<exists>ns. obj_AsNamespace obj = Inr ns \<and> ns_SpecFinalizers ns \<noteq> [])
             \<or> a_Type a = ActionRemoveCRDFinalizer \<and> a_Finalizer a = CustomResourceCleanupFinalizer
               \<and> target_gr (req_Target request) = crdsGR
               \<and> (\<exists>crd. obj_AsCRD obj = Inr crd \<and> CustomResourceCleanupFinalizer \<in> set (crd_Finalizers crd)))
        \<or> target_gr (req_Target request) = namespacesGR \<and> child_action L request evs a)"

text \<open>What a complete diagnosis has looked at.\<close>

definition thorough :: "kube_lib \<Rightarrow> CompiledPolicy Request \<Rightarrow> Unstructured \<Rightarrow> event set \<Rightarrow> evidence set \<Rightarrow> bool" where
  "thorough L request obj evs R \<longleftrightarrow>
     (target_gr (req_Target request) = namespacesGR \<longrightarrow>
        (\<forall>resource\<in>set (Snapshot_Resources (dsn_Catalog (req_Snapshot request))).
           v_Namespaced (res_PreferredVersion resource) \<longrightarrow> swept L request evs R resource))
     \<and> (target_gr (req_Target request) = crdsGR \<longrightarrow>
          (\<exists>crd. obj_AsCRD obj = Inr crd \<and> conversion_ready (req_Snapshot request) crd
             \<and> (\<forall>version\<in>set (served_versions crd). \<exists>items. page_chain evs (crd_gvr crd version) [] [] items
                  \<and> (\<forall>item\<in>set items. accounted crd R (pom_UID item)))))"

definition analyzed ::
  "kube_lib \<Rightarrow> CompiledPolicy Request \<Rightarrow> Unstructured \<Rightarrow> Result \<Rightarrow> collector \<Rightarrow> Result \<times> collector \<Rightarrow> event set \<Rightarrow> bool" where
  "analyzed L request obj result c x evs \<longleftrightarrow>
     dg_TargetFound (fst x) = dg_TargetFound result \<and> dg_UIDMatches (fst x) = dg_UIDMatches result
     \<and> dg_ThresholdElapsed (fst x) = dg_ThresholdElapsed result
     \<and> (\<exists>R. grows (backed L request obj evs) R c (snd x)
          \<and> (dg_DiagnosisComplete (fst x) \<longrightarrow> thorough L request obj evs R))"

lemma child_action_built: "child_action L request evs a \<Longrightarrow> built_action (req_Policy request) a"
  unfolding child_action_def item_action_def by (metis built_newAction)

lemma backed_intros:
  "finalizer_action request obj crd a \<Longrightarrow> crd \<longleftrightarrow> target_gr (req_Target request) = crdsGR \<Longrightarrow> backed L request obj evs a"
  "child_action L request evs a \<Longrightarrow> target_gr (req_Target request) = namespacesGR \<Longrightarrow> backed L request obj evs a"
  unfolding backed_def finalizer_action_def by (auto intro: child_action_built)

lemma gr_distinct [simp]: "namespacesGR \<noteq> crdsGR" "crdsGR \<noteq> namespacesGR"
  by (simp_all add: namespacesGR_def crdsGR_def)

lemma analyzed_action:
  "analyzed L request obj result c (r, c') evs \<Longrightarrow> backed L request obj evs a \<Longrightarrow> analyzed L request obj result c (r, addAction a c') evs"
  unfolding analyzed_def fst_conv snd_conv using grows_trans[OF _ grows_by_action] by force

lemma grows_own_finalizers:
  assumes "crd \<longleftrightarrow> target_gr (req_Target request) = crdsGR"
  shows "grows_by (backed L request obj evs) c (analyzeMetadataFinalizers L request obj crd (analyzeGracePeriod request obj c))"
  by (intro grows_by_trans[OF grows_steps(4)[OF grows_refl] grows_metadata_finalizers] backed_intros(1)[OF _ assms])

lemma analyzed_enumerated:
  assumes gr: "target_gr (req_Target request) = namespacesGR"
    and "enumerated L request (result\<lparr>dg_TargetSnapshot := snapshot\<rparr>) c'
      (Snapshot_Resources (dsn_Catalog (req_Snapshot request))) x evs"
    and "grows_by (backed L request obj evs) c c'"
  shows "analyzed L request obj result c x evs"
proof -
  from assms(2) obtain b R where x: "fst x = result\<lparr>dg_TargetSnapshot := snapshot, dg_DiagnosisComplete := b\<rparr>"
    "grows (backed L request obj evs) R c' (snd x)" "b \<Longrightarrow> thorough L request obj evs R"
    unfolding enumerated_def thorough_def gr by (auto intro: grows_mono backed_intros(2)[OF _ gr])
  with grows_trans[OF assms(3) x(2)] show ?thesis unfolding analyzed_def by auto
qed

lemma diagnoseNamespace_reads:
  assumes gr: "target_gr (req_Target request) = namespacesGR"
  shows "reads (analyzed L request obj result c) (diagnoseNamespace L E fuel request obj result c)"
  unfolding diagnoseNamespace_def Let_def enumerateNamespace_def
proof (intro yields_rules yields_bind_may[OF enumerate_resources_reads[OF order_refl]], goal_cases)
  case (1 err)
  show ?case by (auto simp: analyzed_def intro!: grows_rules exI[where x = "{}"])
next
  case (2 ns x evs r c4)
  then have "analyzed L request obj result c (r, c4) evs"
    by (intro analyzed_enumerated[OF gr _ grows_steps(7)[OF grows_own_finalizers]]) (auto simp: gr)
  then show ?case using 2 by (intro analyzed_action) (auto simp: gr backed_def)
next
  case (3 ns x evs r c4)
  then show ?case by (intro analyzed_enumerated[OF gr _ grows_steps(7)[OF grows_own_finalizers]]) (auto simp: gr)
qed

lemma analyzed_instances:
  assumes gr: "target_gr (req_Target request) = crdsGR" and crd: "obj_AsCRD obj = Inr crd"
    and "instances_read crd \<lparr>cs_seenUIDs = {}, cs_retained = 0, cs_complete = True, cs_collector = c'\<rparr> (served_versions crd)
      (complete, c'') evs"
    and "grows_by (backed L request obj evs) c c'"
    and "b \<Longrightarrow> complete \<and> conversion_ready (req_Snapshot request) crd"
  shows "analyzed L request obj result c (result\<lparr>dg_DiagnosisComplete := b\<rparr>, snd (analyzeCRDConversion request crd c'')) evs"
proof -
  from assms(3) obtain R seen where x: "grows (\<lambda>_. False) R c' c''" "\<forall>u\<in>seen. accounted crd R u"
    "complete \<longrightarrow> (\<forall>version\<in>set (served_versions crd). \<exists>items. page_chain evs (crd_gvr crd version) [] [] items
       \<and> (\<forall>item\<in>set items. pom_UID item \<noteq> [] \<and> pom_UID item \<in> seen))"
    unfolding instances_read_def by auto
  have "b \<Longrightarrow> thorough L request obj evs R"
    unfolding thorough_def gr using crd x(2,3) assms(5) by simp (metis (no_types))
  moreover have "grows (backed L request obj evs) R c' c''" by (rule grows_mono[OF x(1)]) auto
  then have "grows (backed L request obj evs) R c (snd (analyzeCRDConversion request crd c''))"
    using grows_trans[OF assms(4) grows_trans[OF _ grows_conversion[of _ c'' request crd]]] by simp
  ultimately show ?thesis unfolding analyzed_def by auto
qed

lemma diagnoseCRD_reads:
  assumes gr: "target_gr (req_Target request) = crdsGR"
  shows "reads (analyzed L request obj result c) (diagnoseCRD L E fuel request obj result c)"
  unfolding diagnoseCRD_def Let_def enumerateCRDInstances_def
proof (intro yields_rules yields_bind_may[OF crd_versions_reads], goal_cases)
  case (1 err)
  show ?case by (auto simp: analyzed_def intro!: grows_rules exI[where x = "{}"])
next
  case (2 crd x evs complete c3 conv c4)
  then have c4: "c4 = snd (analyzeCRDConversion request crd c3)" and conv: "conv = conversion_ready (req_Snapshot request) crd"
    using analyzeCRDConversion_ready[of request crd c3] by auto
  show ?case
    unfolding c4 using 2
    by (intro analyzed_action analyzed_instances[OF gr _ _ grows_own_finalizers, where complete = complete]) (auto simp: gr backed_def conv)
next
  case (3 crd x evs complete c3 conv c4)
  then have c4: "c4 = snd (analyzeCRDConversion request crd c3)" and conv: "conv = conversion_ready (req_Snapshot request) crd"
    using analyzeCRDConversion_ready[of request crd c3] by auto
  show ?case
    unfolding c4 using 3
    by (intro analyzed_instances[OF gr _ _ grows_own_finalizers, where complete = complete]) (auto simp: gr conv)
qed

lemma analyze_target_reads:
  "reads (analyzed L request obj result (newCollector (req_Policy request))) (analyze_target L E fuel request obj result)"
proof -
  define c where "c = (let settings = policy_Settings (Some (req_Policy request)); c0 = newCollector (req_Policy request);
    c1 = (if dp_CheckAPIServices (set_Diagnosis settings) then analyzeAPIServices L request c0 else c0)
    in if dp_CheckWebhooks (set_Diagnosis settings) then analyzeAdmissionWebhooks L request obj c1 else c1)"
  have start: "grows_by Q (newCollector (req_Policy request)) c" for Q
    unfolding c_def Let_def by (intro grows_by_if grows_steps grows_refl)
  have lift: "analyzed L request obj result (newCollector (req_Policy request)) x evs" if "analyzed L request obj result c x evs" for x evs
    using that grows_trans[OF start] unfolding analyzed_def by fastforce
  have gr: "\<lparr>gr_Group = tr_APIGroup (req_Target request), gr_Resource = tr_Resource (req_Target request)\<rparr> = target_gr (req_Target request)"
    by (simp add: target_gr_def)
  have generic: "analyzed L request obj result c (result, diagnoseGeneric L request obj c) {}"
    if "target_gr (req_Target request) \<noteq> namespacesGR" "target_gr (req_Target request) \<noteq> crdsGR"
    using that grows_own_finalizers[of False request L obj "{}" c]
    by (auto simp: analyzed_def diagnoseGeneric_def thorough_def)
  show ?thesis
    unfolding analyze_target_def gr Let_def c_def[unfolded Let_def, symmetric]
    by (intro yields_rules yields_mono[OF diagnoseNamespace_reads lift] yields_mono[OF diagnoseCRD_reads lift] lift generic)
qed

text \<open>The target is read before anything else, under a version of its own resource.\<close>

definition target_read :: "TargetReference \<Rightarrow> get_answer \<Rightarrow> event set \<Rightarrow> bool" where
  "target_read t x evs \<longleftrightarrow> read_ok t x evs \<and> (\<forall>e\<in>evs. \<exists>gvr r. e = EvDynGet gvr (tr_Namespace t) (tr_Name t) r)"

lemma target_read_next:
  "target_read t x evs \<Longrightarrow> target_read t x (insert (EvDynGet gvr (tr_Namespace t) (tr_Name t) r) evs)"
  unfolding target_read_def read_ok_def by (auto split: prod.splits option.splits)

lemma get_versions_reads:
  "e \<noteq> None \<or> versions \<noteq> [] \<Longrightarrow> answers (target_read t) (get_versions E t (target_gr t) e versions)"
proof (induction versions arbitrary: e)
  case Nil
  then show ?case by (auto intro!: ensures_return simp: target_read_def read_ok_def)
next
  case (Cons v vs)
  show ?case
    unfolding get_versions.simps
  proof (intro ensures_bind[OF answers_dyn_get] ensures_cases ensures_return, goal_cases)
    case (2 r evs err)
    then show ?case by (intro ensures_mono[OF Cons.IH]) (auto intro: target_read_next)
  qed (auto simp: target_read_def read_ok_def)
qed

lemma getTarget_reads: "answers (target_read (req_Target request)) (getTarget E request)"
  unfolding getTarget_def Let_def target_gr_def[symmetric]
proof (intro ensures_cases get_versions_reads, goal_cases)
  case 1
  show ?case
    by (intro ensures_bind[OF answers_dyn_get] ensures_cases ensures_return) (auto simp: target_read_def read_ok_def)
qed (simp add: OrderedVersions_nonempty)

text \<open>The request the analyzers see.\<close>

definition observed_request :: "policy_ptr Request \<Rightarrow> CompiledPolicy \<Rightarrow> string \<Rightarrow> CompiledPolicy Request" where
  "observed_request request policy version =
     \<lparr>req_Target = observed_target (req_Snapshot request) (req_Target request) version, req_Policy = policy,
      req_Snapshot = req_Snapshot request, req_Now = req_Now request\<rparr>"

text \<open>
  A diagnosis that got past its gates: the target was read with its UID, it was deleted at least the
  termination age of a ready policy ago, and the result comes from a collector grown by the analyzers.
\<close>

definition overdue ::
  "policy_ptr Request \<Rightarrow> event set \<Rightarrow> CompiledPolicy \<Rightarrow> string \<Rightarrow> Unstructured \<Rightarrow> bool" where
  "overdue request evs policy version obj \<longleftrightarrow>
     req_Policy request = Some policy \<and> cp_ready policy
     \<and> EvDynGet (WithVersion (target_gr (req_Target request)) version) (tr_Namespace (req_Target request))
         (tr_Name (req_Target request)) (Inr obj) \<in> evs
     \<and> obj_UID obj = tr_UID (req_Target request)
     \<and> (\<exists>deleted. obj_DeletionTimestamp obj = Some deleted
          \<and> deleted + set_TerminationAge (cp_settings policy) \<le> req_Now request)"

definition diagnosed_ok :: "kube_lib \<Rightarrow> policy_ptr Request \<Rightarrow> diagnosis \<Rightarrow> event set \<Rightarrow> bool" where
  "diagnosed_ok L request d evs \<longleftrightarrow>
     d \<noteq> DiagnosisPanic
     \<and> (\<forall>r. d = Diagnosed r \<longrightarrow>
          (if dg_ThresholdElapsed r then
             dg_TargetFound r \<and> dg_UIDMatches r
             \<and> (\<exists>policy version obj r0 c. overdue request evs policy version obj \<and> r = finish_diagnosis (r0, c)
                  \<and> analyzed L (observed_request request policy version) obj
                      (zero_Result\<lparr>dg_TargetFound := True, dg_UIDMatches := True, dg_ThresholdElapsed := True\<rparr>)
                      (newCollector policy) (r0, c) evs)
           else dg_Findings r = [] \<and> dg_Actions r = [] \<and> (\<forall>e\<in>evs. \<exists>gvr ns n x. e = EvDynGet gvr ns n x)))"

lemma observed_request_simps [simp]:
  "req_Policy (observed_request request policy version) = policy"
  "req_Snapshot (observed_request request policy version) = req_Snapshot request"
  "req_Now (observed_request request policy version) = req_Now request"
  "tr_UID (req_Target (observed_request request policy version)) = tr_UID (req_Target request)"
  "tr_Name (req_Target (observed_request request policy version)) = tr_Name (req_Target request)"
  "tr_Namespace (req_Target (observed_request request policy version)) = tr_Namespace (req_Target request)"
  "target_gr (req_Target (observed_request request policy version)) = target_gr (req_Target request)"
  by (simp_all add: observed_request_def observed_target_def target_gr_def Let_def split: option.splits)

lemma finish_diagnosis_flags [simp]:
  "dg_TargetFound (finish_diagnosis (r, c)) = dg_TargetFound r" "dg_UIDMatches (finish_diagnosis (r, c)) = dg_UIDMatches r"
  "dg_ThresholdElapsed (finish_diagnosis (r, c)) = dg_ThresholdElapsed r"
  by (simp_all add: finish_diagnosis_def Let_def split: prod.splits)

lemma analyzed_mono: "analyzed L request obj result c x evs \<Longrightarrow> evs \<subseteq> evs' \<Longrightarrow> analyzed L request obj result c x evs'"
proof -
  assume a: "analyzed L request obj result c x evs" "evs \<subseteq> evs'"
  have "backed L request obj evs b \<Longrightarrow> backed L request obj evs' b" for b
    unfolding backed_def using a(2) by (blast intro: child_action_mono)
  moreover have "thorough L request obj evs R \<Longrightarrow> thorough L request obj evs' R" for R
    unfolding thorough_def using a(2) by (meson order_refl page_chain_mono swept_mono)
  ultimately show ?thesis using a(1) unfolding analyzed_def by (blast intro: grows_mono)
qed

lemma diagnose_object_reads:
  assumes "overdue request evs policy version obj \<or> obj_UID obj \<noteq> tr_UID (req_Target request)
    \<or> \<not> (\<exists>deleted. obj_DeletionTimestamp obj = Some deleted \<and> deleted + set_TerminationAge (cp_settings policy) \<le> req_Now request)"
    and "\<forall>e\<in>evs. \<exists>gvr ns n x. e = EvDynGet gvr ns n x"
  shows "reads (\<lambda>r evs'. diagnosed_ok L request (Diagnosed r) (evs \<union> evs')) (diagnose_object L E fuel (observed_request request policy version) obj)"
  unfolding diagnose_object_def Let_def
proof (intro yields_rules yields_bind_may[OF analyze_target_reads], goal_cases)
  case (4 deleted x evs')
  then have "overdue request (evs \<union> evs') policy version obj" using assms(1) by (auto simp: overdue_def)
  moreover from 4 have a: "analyzed L (observed_request request policy version) obj
      (zero_Result\<lparr>dg_TargetFound := True, dg_UIDMatches := True, dg_ThresholdElapsed := True\<rparr>) (newCollector policy) x evs'"
    by (simp add: analyzed_def)
  then have "analyzed L (observed_request request policy version) obj
      (zero_Result\<lparr>dg_TargetFound := True, dg_UIDMatches := True, dg_ThresholdElapsed := True\<rparr>) (newCollector policy) x (evs \<union> evs')"
    by (rule analyzed_mono) simp
  moreover from a have "dg_TargetFound (fst x)" "dg_UIDMatches (fst x)" "dg_ThresholdElapsed (fst x)"
    by (simp_all add: analyzed_def)
  ultimately show ?case by (cases x) (simp add: diagnosed_ok_def, blast)
qed (use assms in \<open>auto simp: diagnosed_ok_def zero_Result_def\<close>)

lemma Diagnose_reads: "reads (diagnosed_ok L request) (Diagnose L reader fuel request)"
proof (cases reader)
  case (Some E)
  show ?thesis
    unfolding Diagnose_def Some option.case
  proof (intro yields_rules ensures_bind[OF getTarget_reads], goal_cases)
    case (5 policy x evs target z gvr err obj)
    then have r: "EvDynGet gvr (tr_Namespace (req_Target request)) (tr_Name (req_Target request)) (Inr obj) \<in> evs"
      "gvr = WithVersion (target_gr (req_Target request)) (gvr_Version gvr)" "\<forall>e\<in>evs. \<exists>gvr ns n x. e = EvDynGet gvr ns n x"
      by (auto simp: target_read_def read_ok_def WithVersion_def)
    then have "overdue request evs policy (gvr_Version gvr) obj \<or> obj_UID obj \<noteq> tr_UID (req_Target request)
        \<or> \<not> (\<exists>deleted. obj_DeletionTimestamp obj = Some deleted \<and> deleted + set_TerminationAge (cp_settings policy) \<le> req_Now request)"
      using 5 by (auto simp: overdue_def)
    from diagnose_object_reads[OF this r(3)] show ?case
      unfolding observed_request_def[symmetric] by (rule yields_bind_may) (rule yields_give, simp)
  qed (auto simp: diagnosed_ok_def zero_Result_def target_read_def read_ok_def)
qed (auto simp: Diagnose_def diagnosed_ok_def intro!: yields_give)

section \<open>Fuel\<close>

text \<open>
  A program that always has a result, and a program that agrees with another wherever that one has a
  result.
\<close>

definition total :: "'a option io \<Rightarrow> bool" where
  "total m \<longleftrightarrow> (\<forall>s. fst (run_state m s) \<noteq> None)"

definition extends :: "'a option io \<Rightarrow> 'a option io \<Rightarrow> bool" where
  "extends m' m \<longleftrightarrow> (\<forall>s. fst (run_state m s) \<noteq> None \<longrightarrow> run_state m' s = run_state m s)"

lemma run_bind_may:
  "run_state (bind_may m f) s =
     (case run_state m s of (None, s') \<Rightarrow> (None, s') | (Some x, s') \<Rightarrow> run_state (f x) s')"
  unfolding bind_may_def by (cases "run_state m s") (auto split: option.splits)

lemma total_rules:
  "total (give x)"
  "total m \<Longrightarrow> (\<And>x. total (f x)) \<Longrightarrow> total (bind_may m f)"
  "(\<And>s. total (g (fst (run_state n s)))) \<Longrightarrow> total (State_Monad.bind n g)"
  unfolding total_def
  by (simp_all add: give_def run_bind_may split: prod.splits option.splits) (metis fst_conv option.distinct(1), metis fst_conv)

lemma total_cases:
  "(b \<Longrightarrow> total m) \<Longrightarrow> (\<not> b \<Longrightarrow> total n) \<Longrightarrow> total (if b then m else n)"
  "(\<And>e. r = Inl e \<Longrightarrow> total (f e)) \<Longrightarrow> (\<And>y. r = Inr y \<Longrightarrow> total (g y)) \<Longrightarrow> total (case r of Inl e \<Rightarrow> f e | Inr y \<Rightarrow> g y)"
  "(opt = None \<Longrightarrow> total n) \<Longrightarrow> (\<And>y. opt = Some y \<Longrightarrow> total (h y)) \<Longrightarrow> total (case opt of None \<Rightarrow> n | Some y \<Rightarrow> h y)"
  "(\<And>y z. pair = (y, z) \<Longrightarrow> total (k y z)) \<Longrightarrow> total (case pair of (y, z) \<Rightarrow> k y z)"
  by (auto split: sum.splits option.splits prod.splits)

lemma extends_rules:
  "extends m m"
  "extends n (State_Monad.return None)"
  "extends m' m \<Longrightarrow> (\<And>x. extends (f' x) (f x)) \<Longrightarrow> extends (bind_may m' f') (bind_may m f)"
  "(\<And>x. extends (g' x) (g x)) \<Longrightarrow> extends (State_Monad.bind q g') (State_Monad.bind q g)"
  unfolding extends_def
  by (simp_all add: run_bind_may split: prod.splits option.splits) (metis fst_conv option.distinct(1) prod.inject option.inject)

lemma extends_cases:
  "(b \<Longrightarrow> extends m' m) \<Longrightarrow> (\<not> b \<Longrightarrow> extends n' n) \<Longrightarrow> extends (if b then m' else n') (if b then m else n)"
  "(\<And>e. r = Inl e \<Longrightarrow> extends (f' e) (f e)) \<Longrightarrow> (\<And>y. r = Inr y \<Longrightarrow> extends (g' y) (g y)) \<Longrightarrow>
   extends (case r of Inl e \<Rightarrow> f' e | Inr y \<Rightarrow> g' y) (case r of Inl e \<Rightarrow> f e | Inr y \<Rightarrow> g y)"
  "(opt = None \<Longrightarrow> extends n' n) \<Longrightarrow> (\<And>y. opt = Some y \<Longrightarrow> extends (h' y) (h y)) \<Longrightarrow>
   extends (case opt of None \<Rightarrow> n' | Some y \<Rightarrow> h' y) (case opt of None \<Rightarrow> n | Some y \<Rightarrow> h y)"
  "(\<And>y z. pair = (y, z) \<Longrightarrow> extends (k' y z) (k y z)) \<Longrightarrow>
   extends (case pair of (y, z) \<Rightarrow> k' y z) (case pair of (y, z) \<Rightarrow> k y z)"
  by (auto split: sum.splits option.splits prod.splits)

text \<open>
  A server whose continue tokens advance: every token it sends is nearer to the end of the listing
  than the token it was asked with, by some measure.
\<close>

definition tokens_advance :: "(string \<Rightarrow> nat) \<Rightarrow> env \<Rightarrow> bool" where
  "tokens_advance rank E \<longleftrightarrow>
     (\<forall>log gvr ns tok lim page. env_ListMeta E log gvr ns tok lim = Inr page \<longrightarrow> page_Continue page \<noteq> [] \<longrightarrow>
        rank (page_Continue page) < rank tok)"

lemma fst_list_meta: "fst (run_state (list_meta E gvr ns tok lim) s) = env_ListMeta E s gvr ns tok lim"
  by (simp add: list_meta_def)

lemma tokens_advanceD:
  assumes "tokens_advance rank E" and "env_ListMeta E log gvr ns tok lim = Inr page" and "page_Continue page \<noteq> []"
    and "rank tok < Suc fuel"
  shows "rank (page_Continue page) < fuel"
proof -
  have "rank (page_Continue page) < rank tok" using assms(1-3) unfolding tokens_advance_def by blast
  with assms(4) show ?thesis by simp
qed

lemma list_pages_total:
  "tokens_advance rank E \<Longrightarrow> rank tok < fuel \<Longrightarrow> total (list_pages E gvr ns maximum items tok fuel)"
proof (induction fuel arbitrary: items tok)
  case (Suc fuel)
  show ?case
    unfolding list_pages.simps Let_def
    by (intro total_rules total_cases Suc.IH Suc.prems(1))
      (use Suc.prems in \<open>auto simp: fst_list_meta elim: tokens_advanceD\<close>)
qed simp

lemma crd_pages_total:
  "tokens_advance rank E \<Longrightarrow> rank tok < fuel \<Longrightarrow> total (crd_pages L E crd maxInstances version st tok fuel)"
proof (induction fuel arbitrary: st tok)
  case (Suc fuel)
  show ?case
    unfolding crd_pages.simps
    by (intro total_rules total_cases Suc.IH Suc.prems(1))
      (use Suc.prems in \<open>auto simp: fst_list_meta elim: tokens_advanceD\<close>)
qed simp

text \<open>With fuel for the longest listing, every program of the diagnosis has a result.\<close>

lemma list_versions_total:
  "tokens_advance rank E \<Longrightarrow> rank [] < fuel \<Longrightarrow> total (list_versions E fuel resource ns maximum e versions)"
  by (induction versions arbitrary: e) (auto intro!: total_rules total_cases list_pages_total)

lemma enumerate_resources_total:
  "tokens_advance rank E \<Longrightarrow> rank [] < fuel \<Longrightarrow>
   total (enumerate_resources L E fuel request maxObjects observed result c resources)"
  by (induction resources arbitrary: observed result c)
    (auto intro!: total_rules total_cases list_versions_total simp: Let_def listNamespaceResource_def)

lemma crd_versions_total:
  "tokens_advance rank E \<Longrightarrow> rank [] < fuel \<Longrightarrow> total (crd_versions L E fuel crd maxInstances st versions)"
  by (induction versions arbitrary: st) (auto intro!: total_rules total_cases crd_pages_total)

lemma Diagnose_total: "tokens_advance rank E \<Longrightarrow> rank [] < fuel \<Longrightarrow> total (Diagnose L (Some E) fuel request)"
  unfolding Diagnose_def diagnose_object_def analyze_target_def diagnoseNamespace_def diagnoseCRD_def enumerateNamespace_def
    enumerateCRDInstances_def Let_def option.case
  by (intro total_rules total_cases enumerate_resources_total crd_versions_total)

text \<open>More fuel never changes a result.\<close>

lemma list_pages_extends:
  "n \<le> n' \<Longrightarrow> extends (list_pages E gvr ns maximum items tok n') (list_pages E gvr ns maximum items tok n)"
proof (induction n arbitrary: n' items tok)
  case (Suc n)
  then obtain m where "n' = Suc m" "n \<le> m" by (cases n') auto
  then show ?case by (auto simp: Let_def intro!: extends_rules extends_cases Suc.IH)
qed (simp add: extends_rules)

lemma crd_pages_extends:
  "n \<le> n' \<Longrightarrow> extends (crd_pages L E crd maxInstances version st tok n') (crd_pages L E crd maxInstances version st tok n)"
proof (induction n arbitrary: n' st tok)
  case (Suc n)
  then obtain m where "n' = Suc m" "n \<le> m" by (cases n') auto
  then show ?case by (auto intro!: extends_rules extends_cases Suc.IH)
qed (simp add: extends_rules)

lemma list_versions_extends:
  "n \<le> n' \<Longrightarrow> extends (list_versions E n' resource ns maximum e versions) (list_versions E n resource ns maximum e versions)"
  by (induction versions arbitrary: e) (auto intro!: extends_rules extends_cases list_pages_extends)

lemma enumerate_resources_extends:
  "n \<le> n' \<Longrightarrow> extends (enumerate_resources L E n' request maxObjects observed result c resources)
     (enumerate_resources L E n request maxObjects observed result c resources)"
  by (induction resources arbitrary: observed result c)
    (auto intro!: extends_rules extends_cases list_versions_extends simp: Let_def listNamespaceResource_def)

lemma crd_versions_extends:
  "n \<le> n' \<Longrightarrow> extends (crd_versions L E n' crd maxInstances st versions) (crd_versions L E n crd maxInstances st versions)"
  by (induction versions arbitrary: st) (auto intro!: extends_rules extends_cases crd_pages_extends)

lemma Diagnose_extends: "n \<le> n' \<Longrightarrow> extends (Diagnose L reader n' request) (Diagnose L reader n request)"
  unfolding Diagnose_def diagnose_object_def analyze_target_def diagnoseNamespace_def diagnoseCRD_def enumerateNamespace_def
    enumerateCRDInstances_def Let_def
  by (intro extends_rules(3,4) extends_cases enumerate_resources_extends crd_versions_extends extends_rules(1)) 

end
