(* ===== verification/Diagnosis_Properties.thy ===== *)
theory Diagnosis_Properties
  imports Diagnosis_Safety Samples
begin

text \<open>The properties of a diagnosis, each with a run that satisfies its hypotheses.\<close>

section \<open>From a run to its facts\<close>

lemma diagnosis_run:
  assumes "run_state (Diagnose L reader fuel request) s = (Some d, s @ es)"
  shows "list_all diagnosis_read es \<and> diagnosed_ok L request d (set es)"
  using Diagnose_reads[of L request reader fuel, unfolded ensures_def wp_def, rule_format, of s] assms by auto

lemma diagnosis_overdue:
  assumes "run_state (Diagnose L reader fuel request) s = (Some (Diagnosed r), s @ es)" and "dg_ThresholdElapsed r"
  obtains policy version obj r0 c R where "overdue request (set es) policy version obj" and "r = finish_diagnosis (r0, c)"
    and "grows (backed L (observed_request request policy version) obj (set es)) R (newCollector policy) c"
    and "dg_DiagnosisComplete r0 \<Longrightarrow> thorough L (observed_request request policy version) obj (set es) R"
    and "dg_TargetFound r" and "dg_UIDMatches r"
proof -
  have "diagnosed_ok L request (Diagnosed r) (set es)" using diagnosis_run[OF assms(1)] by simp
  then have "dg_TargetFound r \<and> dg_UIDMatches r
      \<and> (\<exists>policy version obj r0 c. overdue request (set es) policy version obj \<and> r = finish_diagnosis (r0, c)
           \<and> analyzed L (observed_request request policy version) obj
               (zero_Result\<lparr>dg_TargetFound := True, dg_UIDMatches := True, dg_ThresholdElapsed := True\<rparr>)
               (newCollector policy) (r0, c) (set es))"
    using assms(2) by (simp add: diagnosed_ok_def)
  then obtain policy version obj r0 c where a: "overdue request (set es) policy version obj" "r = finish_diagnosis (r0, c)"
    "analyzed L (observed_request request policy version) obj
       (zero_Result\<lparr>dg_TargetFound := True, dg_UIDMatches := True, dg_ThresholdElapsed := True\<rparr>) (newCollector policy) (r0, c) (set es)"
    "dg_TargetFound r" "dg_UIDMatches r"
    by blast
  from a(3) obtain R where "grows (backed L (observed_request request policy version) obj (set es)) R (newCollector policy) c"
    "dg_DiagnosisComplete r0 \<Longrightarrow> thorough L (observed_request request policy version) obj (set es) R"
    unfolding analyzed_def fst_conv snd_conv by blast
  with a(1,2,4,5) show thesis by (intro that[of policy version obj r0 c R])
qed

lemma diagnosis_not_overdue:
  assumes "run_state (Diagnose L reader fuel request) s = (Some (Diagnosed r), s @ es)" and "\<not> dg_ThresholdElapsed r"
  shows "dg_Findings r = []" and "dg_Actions r = []" and "EvListMeta gvr ns tok lim x \<notin> set es"
proof -
  have "diagnosed_ok L request (Diagnosed r) (set es)" using diagnosis_run[OF assms(1)] by simp
  then have *: "dg_Findings r = [] \<and> dg_Actions r = [] \<and> (\<forall>e\<in>set es. \<exists>gvr ns n x. e = EvDynGet gvr ns n x)"
    using assms(2) by (simp add: diagnosed_ok_def)
  then show "dg_Findings r = []" "dg_Actions r = []" by auto
  from * show "EvListMeta gvr ns tok lim x \<notin> set es" by blast
qed

lemma finish_diagnosis_complete:
  assumes "dg_DiagnosisComplete (finish_diagnosis (r, c))"
  shows "dg_DiagnosisComplete r" and "\<not> snd (snd (collector_sorted c))"
    and "dg_Findings (finish_diagnosis (r, c)) = fst (collector_sorted c)"
    and "dg_Actions (finish_diagnosis (r, c)) = fst (snd (collector_sorted c))"
  using assms by (auto simp: finish_diagnosis_def Let_def split: prod.splits)

lemma finish_diagnosis_actions:
  assumes "a \<in> set (dg_Actions (finish_diagnosis (r, c)))"
  shows "dg_DiagnosisComplete (finish_diagnosis (r, c))" and "a \<in> set (fst (snd (collector_sorted c)))"
  using assms by (auto simp: finish_diagnosis_def Let_def split: prod.splits if_splits)

section \<open>A sample run\<close>

text \<open>
  A namespace deleted long ago with a spec finalizer and no content: the diagnosis lists the one
  namespaced resource of the catalog and recommends to force its finalization.
\<close>

definition ready_policy :: CompiledPolicy where
  "ready_policy = empty_policy\<lparr>cp_ready := True,
     cp_settings := zero_Settings\<lparr>set_TerminationAge := 5,
       set_Diagnosis := \<lparr>dp_CheckAPIServices = True, dp_CheckWebhooks = True, dp_MaxNamespaceObjects = 10,
                         dp_MaxCRDInstances = 10\<rparr>\<rparr>\<rparr>"

definition quiet_snapshot :: DiagnosisSnapshot where
  "quiet_snapshot =
     \<lparr>dsn_Catalog = newSnapshot [newResourceOwned widgetsGR (sample_version ''v1'' ''Widget'' True) []],
      dsn_APIServices = [], dsn_MutatingWebhooks = [], dsn_ValidatingWebhooks = [], dsn_Services = [],
      dsn_EndpointSlices = [], dsn_Deployments = [], dsn_StatefulSets = [], dsn_DaemonSets = [],
      dsn_NamespaceLabels = Map.empty\<rparr>"

definition overdue_object :: Unstructured where
  "overdue_object = (child_object Map.empty)\<lparr>obj_Name := ''ns'', obj_UID := ''u'', obj_ResourceVersion := ''7'',
     obj_DeletionTimestamp := Some 10,
     obj_AsNamespace := Inr \<lparr>ns_SpecFinalizers = [''kubernetes''], ns_StatusConditions = []\<rparr>,
     obj_AsCRD := Inr \<lparr>crd_Name = ''ns'', crd_Finalizers = [CustomResourceCleanupFinalizer], crd_Group = ''example.io'',
       crd_Plural = ''gadgets'', crd_Kind = ''Gadget'', crd_Versions = [(''v1'', True)], crd_Conversion = None\<rparr>\<rparr>"

definition overdue_request :: "GroupResource \<Rightarrow> policy_ptr Request" where
  "overdue_request gr =
     \<lparr>req_Target = \<lparr>tr_APIGroup = gr_Group gr, tr_Version = ''v1'', tr_Resource = gr_Resource gr, tr_Kind = ''K'',
                    tr_Namespace = [], tr_Name = ''ns'', tr_UID = ''u''\<rparr>,
      req_Policy = Some ready_policy, req_Snapshot = quiet_snapshot, req_Now = 100\<rparr>"

definition empty_page :: MetadataPage where
  "empty_page = \<lparr>page_Items = [], page_Continue = []\<rparr>"

text \<open>A cluster in which the target is as above and every listing is empty.\<close>

definition quiet_env :: env where
  "quiet_env =
     \<lparr>env_Now = (\<lambda>_. 100), env_Snapshot = (\<lambda>_. newSnapshot []), env_GetApproval = (\<lambda>_ _. Inl (errors_New [])),
      env_GetIncident = (\<lambda>_ _. Inl (errors_New [])), env_GetPolicy = (\<lambda>_ _. Inl (errors_New [])),
      env_DynGet = (\<lambda>_ _ _ _. Inr overdue_object), env_ListMeta = (\<lambda>_ _ _ _ _. Inr empty_page),
      env_PatchOwners = (\<lambda>_ _ _. None), env_StatusUpdate = (\<lambda>_ _. None),
      env_Patch = (\<lambda>_ _ _ _ _ _. Inl (errors_New [])), env_Finalize = (\<lambda>_ _ _. Inl (errors_New [])),
      env_ConflictRetries = 4\<rparr>"

lemma length_digest [simp]: "length (digest parts) = 64"
  by (simp add: digest_def length_sha256_hex)

abbreviation force_action :: RemediationAction where
  "force_action \<equiv> newAction ready_policy ActionForceFinalizeNamespace (req_Target (overdue_request namespacesGR)) [] ''7''
     ''clear Namespace spec.finalizers after reviewing remaining content''"

lemma force_action_size: "action_size force_action \<le> 5000"
  using json_weight_bound[of "RemediationAction_json force_action"]
  by (simp add: action_size_def encodedSize_length newAction_def ActionEligibility_def ready_policy_def empty_policy_def
      zero_Settings_def overdue_request_def RemediationAction_json_def TargetReference_json_def actionID_def go_enum RiskFor_def)

abbreviation namespace_diagnosis :: "diagnosis option io" where
  "namespace_diagnosis \<equiv> Diagnose sample_lib (Some quiet_env) 1 (overdue_request namespacesGR)"

abbreviation namespace_result :: Result where
  "namespace_result \<equiv>
     \<lparr>dg_TargetFound = True, dg_UIDMatches = True, dg_ThresholdElapsed = True, dg_DiagnosisComplete = True,
      dg_TargetSnapshot = \<lparr>ts_ResourceVersion = ''7'', ts_MetadataFinalizers = [], ts_NamespaceFinalizers = [''kubernetes'']\<rparr>,
      dg_Findings = [], dg_Actions = [force_action]\<rparr>"

abbreviation namespace_calls :: "event list" where
  "namespace_calls \<equiv>
     [EvDynGet (WithVersion namespacesGR ''v1'') [] ''ns'' (Inr overdue_object),
      EvListMeta (WithVersion widgetsGR ''v1'') ''ns'' [] 10 (Inr empty_page)]"

lemma run_give [simp]: "run_state (give x) s = (Some x, s)"
  by (simp add: give_def)

lemma sample_policy_simps [simp]:
  "cp_ready ready_policy" "set_TerminationAge (cp_settings ready_policy) = 5" "cp_owners ready_policy = []"
  "set_Diagnosis (cp_settings ready_policy) = \<lparr>dp_CheckAPIServices = True, dp_CheckWebhooks = True, dp_MaxNamespaceObjects = 10,
                         dp_MaxCRDInstances = 10\<rparr>"
  by (simp_all add: ready_policy_def empty_policy_def)

lemma quiet_calls [simp]:
  "run_state (dyn_get quiet_env gvr ns n) s = (Inr overdue_object, s @ [EvDynGet gvr ns n (Inr overdue_object)])"
  "run_state (list_meta quiet_env gvr ns tok lim) s = (Inr empty_page, s @ [EvListMeta gvr ns tok lim (Inr empty_page)])"
  by (simp_all add: dyn_get_def list_meta_def quiet_env_def)

lemma quiet_snapshot_simps [simp]:
  "Resolve (dsn_Catalog quiet_snapshot) namespacesGR = None" "Resolve (dsn_Catalog quiet_snapshot) crdsGR = None"
  "Snapshot_Resources (dsn_Catalog quiet_snapshot) = [newResourceOwned widgetsGR (sample_version ''v1'' ''Widget'' True) []]"
  "dsn_APIServices quiet_snapshot = []" "dsn_MutatingWebhooks quiet_snapshot = []" "dsn_ValidatingWebhooks quiet_snapshot = []"
  by (simp_all add: quiet_snapshot_def Resolve_def newSnapshot_def newResourceOwned_def namespacesGR_def crdsGR_def
      widgetsGR_def Snapshot_Resources_eq)

lemma gr_eta [simp]: "\<lparr>gr_Group = gr_Group g, gr_Resource = gr_Resource g\<rparr> = (g :: GroupResource)"
  by simp

lemma overdue_request_simps [simp]:
  "req_Policy (overdue_request gr) = Some ready_policy" "req_Snapshot (overdue_request gr) = quiet_snapshot"
  "req_Now (overdue_request gr) = 100" "tr_APIGroup (req_Target (overdue_request gr)) = gr_Group gr"
  "tr_Resource (req_Target (overdue_request gr)) = gr_Resource gr" "tr_Version (req_Target (overdue_request gr)) = ''v1''"
  "tr_Namespace (req_Target (overdue_request gr)) = []" "tr_Name (req_Target (overdue_request gr)) = ''ns''"
  "tr_UID (req_Target (overdue_request gr)) = ''u''" "(req_Target (overdue_request gr))\<lparr>tr_Version := ''v1''\<rparr> = req_Target (overdue_request gr)"
  by (simp_all add: overdue_request_def)

lemma overdue_object_simps [simp]:
  "obj_UID overdue_object = ''u''" "obj_ResourceVersion overdue_object = ''7''" "obj_Finalizers overdue_object = []"
  "obj_DeletionTimestamp overdue_object = Some 10" "obj_DeletionGracePeriodSeconds overdue_object = None"
  "obj_AsNamespace overdue_object = Inr \<lparr>ns_SpecFinalizers = [''kubernetes''], ns_StatusConditions = []\<rparr>"
  by (simp_all add: overdue_object_def child_object_def)

lemma overdue_observed:
  assumes "gr = namespacesGR \<or> gr = crdsGR"
  shows "observed_target quiet_snapshot (req_Target (overdue_request gr)) ''v1'' = req_Target (overdue_request gr)"
    and "run_state (getTarget quiet_env (overdue_request gr)) s
      = ((Some overdue_object, WithVersion gr ''v1'', None), s @ [EvDynGet (WithVersion gr ''v1'') [] ''ns'' (Inr overdue_object)])"
  using assms by (auto simp: observed_target_def getTarget_def Let_def)

lemma quiet_analyzers [simp]:
  "req_Snapshot q = quiet_snapshot \<Longrightarrow> analyzeAPIServices L q c = c"
  "req_Snapshot q = quiet_snapshot \<Longrightarrow> analyzeAdmissionWebhooks L q obj c = c"
  "analyzeGracePeriod q overdue_object c = c" "analyzeMetadataFinalizers L cq overdue_object crd c = c"
  by (simp_all add: analyzeAPIServices_def analyzeAdmissionWebhooks_def configured_webhooks_def analyzeGracePeriod_def
      analyzeMetadataFinalizers_def sortedCopy_def)

lemma namespace_listing:
  "run_state (listNamespaceResource quiet_env 1 (newResourceOwned widgetsGR (sample_version ''v1'' ''Widget'' True) []) ''ns'' 10) s
   = (Some ([], sample_version ''v1'' ''Widget'' True, False, None), s @ [EvListMeta (WithVersion widgetsGR ''v1'') ''ns'' [] 10 (Inr empty_page)])"
  by (simp add: listNamespaceResource_def OrderedVersions_def appendVersion_def newResourceOwned_def sample_version_def
      run_bind_may empty_page_def metadataPageSize_def)

lemma one_action:
  "action_size a \<le> 5000 \<Longrightarrow> collector_sorted (addAction a (newCollector p)) = ([], [a], False)"
  by (simp add: addAction_alt newCollector_def collector_sorted_def maxPersistedActions_def maxPersistedEvidenceBytes_def)

abbreviation checked :: "GroupResource \<Rightarrow> CompiledPolicy Request" where
  "checked gr \<equiv> \<lparr>req_Target = req_Target (overdue_request gr), req_Policy = ready_policy, req_Snapshot = quiet_snapshot, req_Now = 100\<rparr>"

lemma namespace_run: "run_state namespace_diagnosis [] = (Some (Diagnosed namespace_result), [] @ namespace_calls)"
proof -
  have ns: "v_Namespaced (res_PreferredVersion (newResourceOwned widgetsGR (sample_version ''v1'' ''Widget'' True) []))"
    by (simp add: newResourceOwned_def sample_version_def)
  have "run_state (enumerateNamespace sample_lib quiet_env 1 (checked namespacesGR) r c) s
      = (Some (r, c), s @ [EvListMeta (WithVersion widgetsGR ''v1'') ''ns'' [] 10 (Inr empty_page)])" for r c s
    unfolding enumerateNamespace_def using ns namespace_listing[of s] by (simp add: run_bind_may hasLaterNamespacedResource_def)
  then have "run_state (diagnose_object sample_lib quiet_env 1 (checked namespacesGR) overdue_object) s
      = (Some namespace_result, s @ [EvListMeta (WithVersion widgetsGR ''v1'') ''ns'' [] 10 (Inr empty_page)])" for s
    using one_action[OF force_action_size, of ready_policy]
    by (simp add: diagnose_object_def analyze_target_def diagnoseNamespace_def run_bind_may zero_Result_def zero_TargetSnapshot_def
        sortedCopy_def analyzeNamespaceConditions_def finish_diagnosis_def)
  then show ?thesis
    using overdue_observed[of namespacesGR]
    by (simp add: Diagnose_def run_bind_may time_IsZero_def WithVersion_def)
qed

text \<open>The same object read as a CRD with no instances: its cleanup finalizer may be removed.\<close>

abbreviation cleanup_action :: RemediationAction where
  "cleanup_action \<equiv> newAction ready_policy ActionRemoveCRDFinalizer (req_Target (overdue_request crdsGR))
     CustomResourceCleanupFinalizer ''7''
     ''remove the CRD cleanup finalizer after complete instance and conversion evidence''"

lemma cleanup_action_size: "action_size cleanup_action \<le> 5000"
  using json_weight_bound[of "RemediationAction_json cleanup_action"]
  by (simp add: action_size_def encodedSize_length newAction_def ActionEligibility_def ready_policy_def empty_policy_def
      zero_Settings_def overdue_request_def RemediationAction_json_def TargetReference_json_def actionID_def go_enum RiskFor_def)

abbreviation crd_result :: Result where
  "crd_result \<equiv>
     \<lparr>dg_TargetFound = True, dg_UIDMatches = True, dg_ThresholdElapsed = True, dg_DiagnosisComplete = True,
      dg_TargetSnapshot = \<lparr>ts_ResourceVersion = ''7'', ts_MetadataFinalizers = [], ts_NamespaceFinalizers = []\<rparr>,
      dg_Findings = [], dg_Actions = [cleanup_action]\<rparr>"

abbreviation crd_calls :: "event list" where
  "crd_calls \<equiv>
     [EvDynGet (WithVersion crdsGR ''v1'') [] ''ns'' (Inr overdue_object),
      EvListMeta \<lparr>gvr_Group = ''example.io'', gvr_Version = ''v1'', gvr_Resource = ''gadgets''\<rparr> [] [] 500 (Inr empty_page)]"

lemma overdue_crd:
  "obj_AsCRD overdue_object = Inr \<lparr>crd_Name = ''ns'', crd_Finalizers = [CustomResourceCleanupFinalizer], crd_Group = ''example.io'',
       crd_Plural = ''gadgets'', crd_Kind = ''Gadget'', crd_Versions = [(''v1'', True)], crd_Conversion = None\<rparr>"
  by (simp add: overdue_object_def)

lemma crd_run:
  "run_state (Diagnose sample_lib (Some quiet_env) 1 (overdue_request crdsGR)) [] = (Some (Diagnosed crd_result), [] @ crd_calls)"
proof -
  let ?e = "EvListMeta \<lparr>gvr_Group = ''example.io'', gvr_Version = ''v1'', gvr_Resource = ''gadgets''\<rparr> [] [] 500 (Inr empty_page)"
  have "run_state (enumerateCRDInstances sample_lib quiet_env 1 \<lparr>crd_Name = ''ns'', crd_Finalizers = [CustomResourceCleanupFinalizer],
       crd_Group = ''example.io'', crd_Plural = ''gadgets'', crd_Kind = ''Gadget'', crd_Versions = [(''v1'', True)], crd_Conversion = None\<rparr> 10 c) s
      = (Some (True, c), s @ [?e])" for c s
    by (simp add: enumerateCRDInstances_def served_versions_def run_bind_may metadataPageSize_def empty_page_def Let_def)
  then have "run_state (diagnose_object sample_lib quiet_env 1 (checked crdsGR) overdue_object) s = (Some crd_result, s @ [?e])" for s
    using one_action[OF cleanup_action_size, of ready_policy]
    by (simp add: diagnose_object_def analyze_target_def diagnoseCRD_def run_bind_may zero_Result_def zero_TargetSnapshot_def
        sortedCopy_def finish_diagnosis_def overdue_crd analyzeCRDConversion_def Let_def)
  then show ?thesis
    using overdue_observed[of crdsGR]
    by (simp add: Diagnose_def run_bind_may time_IsZero_def WithVersion_def)
qed

section \<open>Properties\<close>

text \<open>
  A diagnosis only reads.  Whatever the cluster answers, the calls of \<open>Diagnose\<close> are GETs and
  metadata LISTs of between one and 500 objects, and it never dereferences a nil target.
\<close>

theorem diagnosis_read_only:
  "list_all diagnosis_read (added (Diagnose L reader fuel request) s)
   \<and> fst (run_state (Diagnose L reader fuel request) s) \<noteq> Some DiagnosisPanic"
proof -
  obtain es where es: "snd (run_state (Diagnose L reader fuel request) s) = s @ es" "list_all diagnosis_read es"
    "\<forall>d. fst (run_state (Diagnose L reader fuel request) s) = Some d \<longrightarrow> diagnosed_ok L request d (set es)"
    using Diagnose_reads[of L request reader fuel] unfolding ensures_def wp_def by blast
  have "\<not> diagnosed_ok L request DiagnosisPanic (set es)" by (simp add: diagnosed_ok_def)
  with es show ?thesis unfolding added_def by auto
qed

text \<open>
  C25.  Nothing is reported, and nothing listed, unless the target was read with the UID of the request
  and has been in deletion for at least the termination age of a ready policy.
\<close>

theorem diagnosis_gated:
  assumes "run_state (Diagnose L reader fuel request) s = (Some (Diagnosed r), s @ es)"
    and "dg_Findings r \<noteq> [] \<or> dg_Actions r \<noteq> [] \<or> (\<exists>gvr ns tok lim x. EvListMeta gvr ns tok lim x \<in> set es)"
  shows "dg_TargetFound r \<and> dg_UIDMatches r \<and> dg_ThresholdElapsed r
    \<and> (\<exists>policy version obj. overdue request (set es) policy version obj)"
proof -
  have e: "dg_ThresholdElapsed r" using diagnosis_not_overdue[OF assms(1)] assms(2) by blast
  with assms(1) obtain policy version obj where "overdue request (set es) policy version obj" "dg_TargetFound r" "dg_UIDMatches r"
    by (rule diagnosis_overdue)
  with e show ?thesis by blast
qed

theorem diagnosis_gated_witness:
  "\<exists>r. run_state namespace_diagnosis [] = (Some (Diagnosed r), [] @ namespace_calls) \<and> dg_Actions r \<noteq> []
     \<and> (\<exists>policy version obj. overdue (overdue_request namespacesGR) (set namespace_calls) policy version obj)"
proof (rule exI[where x = namespace_result], rule conjI[OF namespace_run])
  have ne: "dg_Actions namespace_result \<noteq> []" by simp
  then show "dg_Actions namespace_result \<noteq> []
      \<and> (\<exists>policy version obj. overdue (overdue_request namespacesGR) (set namespace_calls) policy version obj)"
    using diagnosis_gated[OF namespace_run] by blast
qed

text \<open>
  C21.  Every recommended action is backed by the run: it is only given by a complete diagnosis, it is
  what the policy makes of its type, target and finalizer (risk, eligibility, identifier), and it is
  about the target as it was read, with its resource version, or about an object that a listing of
  the target namespace returned, with that object's finalizer, identity and resource version.
\<close>

theorem diagnosis_actions_backed:
  assumes "run_state (Diagnose L reader fuel request) s = (Some (Diagnosed r), s @ es)" and "a \<in> set (dg_Actions r)"
  shows "dg_DiagnosisComplete r
    \<and> (\<exists>policy version obj. overdue request (set es) policy version obj
         \<and> backed L (observed_request request policy version) obj (set es) a)"
proof -
  have "dg_ThresholdElapsed r" using diagnosis_not_overdue(2)[OF assms(1)] assms(2) by fastforce
  with assms(1) show ?thesis
  proof (rule diagnosis_overdue)
    fix policy version obj r0 c R
    assume o: "overdue request (set es) policy version obj" and r: "r = finish_diagnosis (r0, c)"
      and g: "grows (backed L (observed_request request policy version) obj (set es)) R (newCollector policy) c"
    note a = finish_diagnosis_actions[OF assms(2)[unfolded r]]
    show ?thesis using o grows_actions[OF g a(2)] a(1) unfolding r by blast
  qed
qed

theorem diagnosis_actions_backed_witness:
  "\<exists>policy version obj. overdue (overdue_request namespacesGR) (set namespace_calls) policy version obj
     \<and> backed sample_lib (observed_request (overdue_request namespacesGR) policy version) obj (set namespace_calls) force_action"
  using diagnosis_actions_backed[OF namespace_run, of force_action] by simp

text \<open>
  C22.  A complete diagnosis of an overdue namespace has seen everything that is left: for every
  namespaced resource of the catalog, one served version was listed page by page to the last page, and
  every object of that listing is among the findings, every finalizer of it among the actions (by
  their identifiers).
\<close>

theorem complete_namespace_diagnosis:
  assumes "run_state (Diagnose L reader fuel request) s = (Some (Diagnosed r), s @ es)"
    and "dg_ThresholdElapsed r" and "dg_DiagnosisComplete r" and "target_gr (req_Target request) = namespacesGR"
    and "resource \<in> set (Snapshot_Resources (dsn_Catalog (req_Snapshot request)))" and "v_Namespaced (res_PreferredVersion resource)"
  shows "\<exists>policy version items. req_Policy request = Some policy \<and> version \<in> set (all_versions resource)
    \<and> page_chain (set es) (resource_version resource version) (tr_Name (req_Target request)) [] items
    \<and> (\<forall>item\<in>set items.
         f_ID (stored_finding (remaining_finding L resource version item)) \<in> f_ID ` set (dg_Findings r)
         \<and> (\<forall>f\<in>set (pom_Finalizers item). a_ID (item_action L policy resource version item f) \<in> a_ID ` set (dg_Actions r)))"
  using assms(1,2)
proof (rule diagnosis_overdue)
  fix policy version obj r0 c R
  assume o: "overdue request (set es) policy version obj" and r: "r = finish_diagnosis (r0, c)"
    and g: "grows (backed L (observed_request request policy version) obj (set es)) R (newCollector policy) c"
    and t: "dg_DiagnosisComplete r0 \<Longrightarrow> thorough L (observed_request request policy version) obj (set es) R"
  note f = finish_diagnosis_complete[OF assms(3)[unfolded r]]
  from t[OF f(1)] assms(4-6) have "swept L (observed_request request policy version) (set es) R resource"
    by (simp add: thorough_def)
  then obtain v items where v: "v \<in> set (all_versions resource)"
    "page_chain (set es) (resource_version resource v) (tr_Name (req_Target request)) [] items"
    "\<forall>item\<in>set items. item_evidence L policy resource v item \<subseteq> R"
    unfolding swept_def by auto
  have "req_Policy request = Some policy" using o by (simp add: overdue_def)
  moreover have "f_ID (stored_finding (remaining_finding L resource v item)) \<in> f_ID ` set (dg_Findings r)
      \<and> (\<forall>x\<in>set (pom_Finalizers item). a_ID (item_action L policy resource v item x) \<in> a_ID ` set (dg_Actions r))"
    if "item \<in> set items" for item
  proof -
    have "item_evidence L policy resource v item \<subseteq> R" using v(3) that by blast
    then show ?thesis using grows_reported[OF g f(2)] unfolding r f(3,4) by (auto simp: item_evidence_def)
  qed
  ultimately show ?thesis using v(1,2) by blast
qed

theorem complete_namespace_diagnosis_witness:
  "\<exists>policy version items. req_Policy (overdue_request namespacesGR) = Some policy
     \<and> page_chain (set namespace_calls)
         (resource_version (newResourceOwned widgetsGR (sample_version ''v1'' ''Widget'' True) []) version) ''ns'' [] items"
  using complete_namespace_diagnosis[OF namespace_run, of "newResourceOwned widgetsGR (sample_version ''v1'' ''Widget'' True) []"]
  by (auto simp: target_gr_def newResourceOwned_def sample_version_def)

text \<open>
  C23.  A complete diagnosis of an overdue CRD has seen every instance: each served version was listed to
  the last page, every instance listed has a UID and a finding about an instance with that UID is
  reported, and no conversion webhook stands between the API and the instances.
\<close>

theorem complete_crd_diagnosis:
  assumes "run_state (Diagnose L reader fuel request) s = (Some (Diagnosed r), s @ es)"
    and "dg_ThresholdElapsed r" and "dg_DiagnosisComplete r" and "target_gr (req_Target request) = crdsGR"
  shows "\<exists>policy version obj crd. overdue request (set es) policy version obj \<and> obj_AsCRD obj = Inr crd
    \<and> conversion_ready (req_Snapshot request) crd
    \<and> (\<forall>v\<in>set (served_versions crd). \<exists>items. page_chain (set es) (crd_gvr crd v) [] [] items
         \<and> (\<forall>item\<in>set items. pom_UID item \<noteq> []
              \<and> (\<exists>v' item'. pom_UID item' = pom_UID item
                   \<and> f_ID (stored_finding (instance_finding crd v' item')) \<in> f_ID ` set (dg_Findings r))))"
  using assms(1,2)
proof (rule diagnosis_overdue)
  fix policy version obj r0 c R
  assume o: "overdue request (set es) policy version obj" and r: "r = finish_diagnosis (r0, c)"
    and g: "grows (backed L (observed_request request policy version) obj (set es)) R (newCollector policy) c"
    and t: "dg_DiagnosisComplete r0 \<Longrightarrow> thorough L (observed_request request policy version) obj (set es) R"
  note f = finish_diagnosis_complete[OF assms(3)[unfolded r]]
  from t[OF f(1)] assms(4) obtain crd where crd: "obj_AsCRD obj = Inr crd" "conversion_ready (req_Snapshot request) crd"
    "\<forall>v\<in>set (served_versions crd). \<exists>items. page_chain (set es) (crd_gvr crd v) [] [] items
       \<and> (\<forall>item\<in>set items. accounted crd R (pom_UID item))"
    by (auto simp: thorough_def)
  have "pom_UID item \<noteq> [] \<and> (\<exists>v' item'. pom_UID item' = pom_UID item
      \<and> f_ID (stored_finding (instance_finding crd v' item')) \<in> f_ID ` set (dg_Findings r))"
    if "accounted crd R (pom_UID item)" for item
    using that grows_reported(1)[OF g f(2)] unfolding r f(3) accounted_def by blast
  with o crd show ?thesis by (meson)
qed

theorem complete_crd_diagnosis_witness:
  "\<exists>policy version obj. overdue (overdue_request crdsGR) (set crd_calls) policy version obj"
  using complete_crd_diagnosis[OF crd_run] by (auto simp: target_gr_def)

text \<open>
  C29.  A diagnosis returns: if the continue tokens of the server advance by some measure, fuel above the
  measure of the first request gives a result, and more fuel gives the same result with the same calls.
\<close>

theorem diagnosis_returns:
  assumes "tokens_advance rank E" and "rank [] < fuel"
  shows "\<exists>d s'. \<forall>fuel'\<ge>fuel. run_state (Diagnose L (Some E) fuel' request) s = (Some d, s')"
proof -
  obtain d s' where run: "run_state (Diagnose L (Some E) fuel request) s = (Some d, s')"
    using Diagnose_total[OF assms, of L request]
    by (cases "run_state (Diagnose L (Some E) fuel request) s") (auto simp: total_def, metis fst_conv)
  have "run_state (Diagnose L (Some E) fuel' request) s = (Some d, s')" if "fuel \<le> fuel'" for fuel'
    using Diagnose_extends[OF that, of L "Some E" request] run by (auto simp: extends_def)
  then show ?thesis by blast
qed

theorem diagnosis_returns_witness:
  "tokens_advance (\<lambda>_. 0) quiet_env
   \<and> (\<exists>d s'. \<forall>fuel'\<ge>1. run_state (Diagnose sample_lib (Some quiet_env) fuel' (overdue_request namespacesGR)) [] = (Some d, s'))"
proof
  show adv: "tokens_advance (\<lambda>_. 0) quiet_env" by (simp add: tokens_advance_def quiet_env_def empty_page_def)
  show "\<exists>d s'. \<forall>fuel'\<ge>1. run_state (Diagnose sample_lib (Some quiet_env) fuel' (overdue_request namespacesGR)) [] = (Some d, s')"
    using diagnosis_returns[OF adv, of 1] by simp
qed

end
