(* ===== verification/Scanner_Safety.thy ===== *)
theory Scanner_Safety
  imports Scanner Diagnosis_Properties
begin

text \<open>
  What the scanner writes, and that it returns: every write of any number of cycles is accounted for by
  what the scanner read before, and with fuel for the longest listing every cycle has a result.
\<close>

section \<open>Writes of the scanner\<close>

text \<open>
  A recommended action is grounded in a set of calls: they hold a reading of the target, overdue under the
  policy that the status names, that backs the action.
\<close>

definition action_grounded :: "kube_lib \<Rightarrow> event set \<Rightarrow> DeletionIncidentStatus \<Rightarrow> RemediationAction \<Rightarrow> bool" where
  "action_grounded L evs st a \<longleftrightarrow>
     (\<exists>request policy version obj. overdue request evs policy version obj
        \<and> backed L (observed_request request policy version) obj evs a
        \<and> is_ActivePolicyRef st = Some \<lparr>pr_Name = cp_name policy, pr_UID = cp_uid policy, pr_Generation = cp_generation policy\<rparr>)"

definition resolution_reasons :: "string set" where
  "resolution_reasons =
     {''TargetAbsent'', ''TargetReplaced'', ''ResourceTypeRemoved'', ''PolicyNoLongerMatches'', ''TargetNoLongerDeleting''}"

definition status_grounded :: "kube_lib \<Rightarrow> event set \<Rightarrow> DeletionIncidentStatus \<Rightarrow> bool" where
  "status_grounded L evs st \<longleftrightarrow>
     (is_Phase st = IncidentPhaseResolved \<and> is_ResolvedTime st \<noteq> None \<and> is_ResolutionReason st \<in> resolution_reasons)
     \<or> (is_Phase st = IncidentPhaseDiagnosisFailed \<and> is_RecommendedActions st = []
         \<and> is_ActionEvidenceTime st = None \<and> is_ActionEvidenceExpiresTime st = None)
     \<or> (is_Phase st = IncidentPhaseActive \<and> is_ResolvedTime st = None \<and> is_ResolutionReason st = []
         \<and> (is_ActionEvidenceTime st = None \<longleftrightarrow> is_RecommendedActions st = [])
         \<and> (is_ActionEvidenceExpiresTime st = None \<longleftrightarrow> is_RecommendedActions st = [])
         \<and> (\<forall>a\<in>set (is_RecommendedActions st). action_grounded L evs st a))"

text \<open>What the scanner may do, given the calls of its run.\<close>

fun scan_write :: "kube_lib \<Rightarrow> event set \<Rightarrow> event \<Rightarrow> bool" where
  "scan_write L evs (EvScan (ScIncidentStatus i _)) = status_grounded L evs (di_Status i)"
| "scan_write L evs (EvScan (ScCreateIncident i _)) =
     (om_Name (di_Meta i) = incidentName (tr_UID (ds_Target (di_Spec i))) \<and> di_Status i = zero_DeletionIncidentStatus)"
| "scan_write L evs (EvScan (ScMetric name label _)) = bounded_metric name label"
| "scan_write L evs e = (\<not> is_mutation e \<and> \<not> is_approval_write e)"

lemma backed_mono: "backed L request obj evs a \<Longrightarrow> evs \<subseteq> evs' \<Longrightarrow> backed L request obj evs' a"
  unfolding backed_def by (blast intro: child_action_mono)

lemma overdue_mono: "overdue request evs policy version obj \<Longrightarrow> evs \<subseteq> evs' \<Longrightarrow> overdue request evs' policy version obj"
  unfolding overdue_def by blast

lemma action_grounded_mono: "action_grounded L evs st a \<Longrightarrow> evs \<subseteq> evs' \<Longrightarrow> action_grounded L evs' st a"
  unfolding action_grounded_def by (meson backed_mono overdue_mono)

lemma status_grounded_mono: "status_grounded L evs st \<Longrightarrow> evs \<subseteq> evs' \<Longrightarrow> status_grounded L evs' st"
  unfolding status_grounded_def by (blast intro: action_grounded_mono)

lemma scan_write_mono: "scan_write L evs e \<Longrightarrow> evs \<subseteq> evs' \<Longrightarrow> scan_write L evs' e"
  by (induction L evs e rule: scan_write.induct) (auto intro: status_grounded_mono)

text \<open>
  A program whose events are accounted for by all that it did, and the rules for it.  They need no more
  than that an event stays accounted for when more calls are known.
\<close>

definition accounted :: "(event set \<Rightarrow> event \<Rightarrow> bool) \<Rightarrow> 'a io \<Rightarrow> bool" where
  "accounted ok m \<longleftrightarrow> ensures (\<lambda>_. True) (\<lambda>_ evs. \<forall>e\<in>evs. ok evs e) m"

lemma ensures_emits_set: "emits P m \<Longrightarrow> ensures (\<lambda>_. True) (\<lambda>_ evs. \<forall>e\<in>evs. P e) m"
  unfolding ensures_def wp_def emits_def list_all_iff by blast

locale accounting =
  fixes ok :: "event set \<Rightarrow> event \<Rightarrow> bool"
  assumes ok_mono: "ok evs e \<Longrightarrow> evs \<subseteq> evs' \<Longrightarrow> ok evs' e"
begin

lemma accounted_emits: "emits (ok {}) m \<Longrightarrow> accounted ok m"
  unfolding accounted_def by (rule ensures_mono[OF ensures_emits_set]) (auto intro: ok_mono)

text \<open>A program after which another continues with what the first one read.\<close>

lemma accounted_after:
  assumes "ensures (\<lambda>_. True) (\<lambda>x evs. (\<forall>e\<in>evs. ok evs e) \<and> A x evs) m"
    and "\<And>x evs. A x evs \<Longrightarrow> accounted (\<lambda>evs'. ok (evs \<union> evs')) (f x)"
  shows "accounted ok (State_Monad.bind m f)"
  unfolding accounted_def
proof (rule ensures_bind[OF assms(1)])
  fix x evs assume a: "(\<forall>e\<in>evs. ok evs e) \<and> A x evs"
  show "ensures (\<lambda>_. True) (\<lambda>_ evs'. \<forall>e\<in>evs \<union> evs'. ok (evs \<union> evs') e) (f x)"
    by (rule ensures_mono[OF assms(2)[unfolded accounted_def]]) (use a in \<open>auto intro: ok_mono\<close>)
qed

text \<open>What was known before still counts.\<close>

lemma accounted_more: "accounted ok m \<Longrightarrow> accounted (\<lambda>evs'. ok (evs \<union> evs')) m"
  unfolding accounted_def by (erule ensures_mono) (auto intro: ok_mono)

lemma accounting_more: "accounting (\<lambda>evs'. ok (evs \<union> evs'))"
  by unfold_locales (auto intro: ok_mono)

lemma accounted_bind:
  assumes "accounted ok m" and "\<And>x. accounted ok (f x)"
  shows "accounted ok (State_Monad.bind m f)"
  by (rule accounted_after[where A = "\<lambda>_ _. True"])
    (use assms in \<open>simp_all add: accounted_more accounted_def[of ok m]\<close>)

lemma accounted_return: "accounted ok (State_Monad.return x)" "accounted ok (give x)"
  unfolding give_def by (auto intro!: accounted_emits emits_intro)

lemma accounted_bind_may: "accounted ok m \<Longrightarrow> (\<And>x. accounted ok (f x)) \<Longrightarrow> accounted ok (bind_may m f)"
  unfolding bind_may_def by (auto intro!: accounted_bind accounted_return split: option.splits)

end

lemma accounted_cases:
  "(b \<Longrightarrow> accounted ok m) \<Longrightarrow> (\<not> b \<Longrightarrow> accounted ok n) \<Longrightarrow> accounted ok (if b then m else n)"
  "(\<And>e. r = Inl e \<Longrightarrow> accounted ok (f e)) \<Longrightarrow> (\<And>y. r = Inr y \<Longrightarrow> accounted ok (g y)) \<Longrightarrow>
   accounted ok (case r of Inl e \<Rightarrow> f e | Inr y \<Rightarrow> g y)"
  "(opt = None \<Longrightarrow> accounted ok n) \<Longrightarrow> (\<And>y. opt = Some y \<Longrightarrow> accounted ok (h y)) \<Longrightarrow>
   accounted ok (case opt of None \<Rightarrow> n | Some y \<Rightarrow> h y)"
  "(\<And>y z. pair = (y, z) \<Longrightarrow> accounted ok (k y z)) \<Longrightarrow> accounted ok (case pair of (y, z) \<Rightarrow> k y z)"
  "accounted ok (j x) \<Longrightarrow> accounted ok (let y = x in j y)"
  by (auto split: sum.splits option.splits prod.splits)

abbreviation grounded :: "kube_lib \<Rightarrow> 'a io \<Rightarrow> bool" where
  "grounded L \<equiv> accounted (scan_write L)"

interpretation written: accounting "scan_write L" for L
  by unfold_locales (rule scan_write_mono)

lemmas grounded_rules = written.accounted_return written.accounted_bind written.accounted_bind_may accounted_cases

section \<open>Calls and small programs\<close>

lemma emits_scan_call: "(\<And>r. P (EvScan (ev r))) \<Longrightarrow> emits P (scan_call answer ev)"
  unfolding scan_call_def by (rule emits_invoke)

lemma emits_metric: "P (EvScan (ScMetric (col_Name collector) label n)) \<Longrightarrow> emits P (metric collector label n)"
  unfolding metric_def by (rule emits_note)

lemma emits_retry_with: "(\<And>st. emits P (fn st)) \<Longrightarrow> emits P (retry_with n fn st)"
  by (induction n arbitrary: st) (auto intro!: emits_intro split: prod.splits option.splits)

lemma emits_retry_closure: "(\<And>st. emits P (fn st)) \<Longrightarrow> emits P (retry_closure S fn st)"
  unfolding retry_closure_def by (rule emits_retry_with)

lemma emits_each: "(\<And>x. x \<in> set xs \<Longrightarrow> emits P (f x)) \<Longrightarrow> emits P (each f xs)"
  by (induction xs) (auto intro!: emits_intro)

lemmas emits_scan = emits_scan_call emits_metric emits_retry_closure emits_each emits_intro

lemma emits_and_step: "emits P m \<Longrightarrow> (\<And>x. emits P (f x)) \<Longrightarrow> emits P (and_step m f)"
  unfolding and_step_def by (auto intro!: emits_intro)

lemma emits_list_step: "emits P m \<Longrightarrow> emits P (list_step prefix m)"
  unfolding list_step_def by (auto intro!: emits_intro)

lemma emits_bind_may: "emits P m \<Longrightarrow> (\<And>x. emits P (f x)) \<Longrightarrow> emits P (bind_may m f)"
  unfolding bind_may_def by (auto intro!: emits_intro)

lemma emits_give: "emits P (give x)"
  unfolding give_def by (rule emits_return)

lemmas emits_scan_all = emits_bind_may emits_give emits_and_step emits_list_step emits_scan

section \<open>Every program of the scanner, for any account of its writes\<close>

text \<open>
  Calls that write no incident, or only delete or annotate one, and metrics within their bounds.  The
  reading of a CRD is not among them, since what it returns may end the cycle.
\<close>

fun calm :: "event \<Rightarrow> bool" where
  "calm (EvScan (ScIncidentStatus _ _)) = False"
| "calm (EvScan (ScCreateIncident _ _)) = False"
| "calm (EvScan (ScGetCRD _ _)) = False"
| "calm (EvScan (ScMetric name label _)) = bounded_metric name label"
| "calm e = (\<not> is_mutation e \<and> \<not> is_approval_write e)"

lemma diagnosis_read_calm: "diagnosis_read e \<Longrightarrow> calm e"
  by (cases e) simp_all

text \<open>
  What an account of the scanner's writes has to admit: calm calls, new incidents and failed diagnoses.
  What it asks of a diagnosed or a resolved status is left to the account.
\<close>

locale scan_calls =
  fixes P :: "event \<Rightarrow> bool"
  assumes calm: "calm e \<Longrightarrow> P e"
    and creating: "P (EvScan (ScCreateIncident (new_incident S observed now) created))"
    and failing: "P (EvScan (ScIncidentStatus (incident\<lparr>di_Status := failed_status current now reason message\<rparr>) answer))"
begin

subsection \<open>Policies and listings\<close>

lemma emits_policy_status: "emits P (updatePolicyStatus S current desired)"
  unfolding updatePolicyStatus_def policy_status_attempt_def write_policy_status_def policy_status_update_def Let_def
  by (intro emits_scan_all) (simp_all add: calm)

lemma emits_compile_loop: "emits P (compile_loop K S cache catalog now nextCache result policies)"
  by (induction policies arbitrary: nextCache result)
    (auto simp: Let_def intro!: emits_intro emits_policy_status)

lemma emits_compilePolicies: "emits P (compilePolicies K S r catalog now)"
  unfolding compilePolicies_def Let_def by (intro emits_scan_all emits_compile_loop) (simp_all add: calm)

lemma emits_namespace_pages: "emits P (namespace_pages E limit m tok fuel)"
  by (induction fuel arbitrary: m tok) (auto simp: Let_def calm intro!: emits_scan_all)

lemma emits_list_version_pages:
  "emits P (list_version_pages S cfg resource version policies nsLabels tracked budget retained tok fuel)"
  by (induction fuel arbitrary: budget retained tok) (auto simp: Let_def calm intro!: emits_scan_all)

lemma emits_list_resource_versions:
  "emits P (list_resource_versions S cfg fuel resource policies nsLabels tracked budget e versions)"
  by (induction versions arbitrary: budget e)
    (auto simp: listResourceVersion_def intro!: emits_scan_all emits_list_version_pages split: option.splits list_error.splits)

lemma emits_run_list_jobs: "emits P (run_list_jobs S cfg fuel policies nsLabels tracked budget resources)"
  by (induction resources arbitrary: budget)
    (auto simp: listResource_def intro!: emits_scan_all emits_list_resource_versions)

lemma emits_listTargets: "emits P (listTargets K S cfg fuel catalog policies nsLabels)"
  unfolding listTargets_def resourcesToScan_def count_listing_def Let_def
  by (intro emits_scan_all emits_run_list_jobs) (simp_all add: calm listResult_def split: option.splits list_error.splits)

subsection \<open>The snapshot and the diagnosis\<close>

lemma emits_gather_services:
  assumes "\<And>name r. P (EvScan (ScGetCRD name r))"
  shows "emits P (gather_services S keys observations)"
  by (induction observations arbitrary: keys) (auto simp: observed_services_def Let_def assms intro!: emits_scan_all)

lemma emits_fetch_services: "emits P (fetch_services S snapshot keys)"
  by (induction keys arbitrary: snapshot) (auto simp: calm intro!: emits_scan_all)

lemma emits_fetch_owners: "emits P (fetch_owners S snapshot owners)"
  by (induction owners arbitrary: snapshot) (auto simp: Let_def calm intro!: emits_scan_all)

lemma emits_diagnosisSnapshot:
  assumes "\<And>name r. P (EvScan (ScGetCRD name r))"
  shows "emits P (diagnosisSnapshot S catalog nsLabels observations)"
  unfolding diagnosisSnapshot_def Let_def
  by (intro emits_scan_all emits_gather_services[OF assms] emits_fetch_services emits_fetch_owners) (simp_all add: calm)

lemma emits_Diagnose: "emits P (Diagnose K reader fuel request)"
  by (rule emits_mono[OF emits_ensures[OF Diagnose_reads]]) (simp add: calm diagnosis_read_calm)

subsection \<open>Incidents\<close>

lemma emits_write_incident_status:
  "(\<And>r. P (EvScan (ScIncidentStatus i r))) \<Longrightarrow> emits P (write_incident_status S i)"
  unfolding write_incident_status_def incident_status_update_def by (intro emits_scan_all)

lemma emits_failIncidentDiagnosis: "emits P (failIncidentDiagnosis S name now reason message)"
  unfolding failIncidentDiagnosis_def
  by (intro emits_scan_all emits_write_incident_status) (simp_all add: calm failing)

lemma emits_fail_incidents: "emits P (fail_incidents S now reason message incidents)"
  by (induction incidents) (auto intro!: emits_scan_all emits_failIncidentDiagnosis)

lemma emits_finalizeIncidentMetrics: "emits P (finalizeIncidentMetrics S v)"
  unfolding finalizeIncidentMetrics_def updateIncidentMetrics_def set_incident_gauges_def list_incidents_def
  by (intro emits_scan_all) (simp_all add: calm)

lemma emits_degraded: "emits P (degraded S now v errs reason message)"
  unfolding degraded_def failActiveIncidentDiagnoses_def list_incidents_def
  by (intro emits_scan_all emits_fail_incidents emits_finalizeIncidentMetrics) (simp_all add: calm)

lemma emits_ctx_err: "emits P (ctx_err S)" "emits P (timed_out S errs)"
  unfolding timed_out_def ctx_err_def by (auto simp: calm intro!: emits_scan_all)

subsection \<open>The life cycle\<close>

lemma emits_apply_lifecycle:
  "(\<And>reason. action = ResolveAs reason \<Longrightarrow> emits P (resolveIncident S (om_Name (di_Meta incident)) reason now)) \<Longrightarrow>
   emits P (apply_lifecycle S now incident action)"
  by (cases action) (auto simp: apply_lifecycle_def calm intro!: emits_scan_all emits_failIncidentDiagnosis)

lemma emits_lifecycle_loop:
  "(\<And>i reason. i \<in> set incidents \<Longrightarrow>
      lifecycle_decision S observations coverage catalog policies now i = ResolveAs reason \<Longrightarrow>
      emits P (resolveIncident S (om_Name (di_Meta i)) reason now)) \<Longrightarrow>
   emits P (lifecycle_loop S observations coverage catalog policies now incidents)"
  by (induction incidents) (auto simp: Let_def intro!: emits_intro emits_apply_lifecycle)

subsection \<open>Persisting a diagnosis\<close>

lemma emits_persist_attempt:
  assumes "\<And>i st r. P (EvScan (ScIncidentStatus (i\<lparr>di_Status := diagnosed_status cfg observed result now st\<rparr>) r))"
  shows "emits P (persist_attempt S cfg observed result now name st)"
  unfolding persist_attempt_def annotate_and_write_def write_diagnosis_def incident_status_update_def Let_def
  by (intro emits_scan_all) (simp_all add: calm assms)

lemma emits_persistDiagnosis:
  assumes diagnosed: "\<And>i st r. P (EvScan (ScIncidentStatus (i\<lparr>di_Status := diagnosed_status cfg observed result now st\<rparr>) r))"
    and "\<not> dg_TargetFound result \<Longrightarrow> emits P (resolveIncident S (incidentName (tr_UID (obs_target observed))) ''TargetAbsent'' now)"
    and "dg_TargetFound result \<Longrightarrow> \<not> dg_UIDMatches result \<Longrightarrow>
      emits P (resolveIncident S (incidentName (tr_UID (obs_target observed))) ''TargetReplaced'' now)"
  shows "emits P (persistDiagnosis S cfg observed result existing now)"
  unfolding persistDiagnosis_def persist_existing_def persist_new_def persist_status_def Let_def
  by (intro emits_scan_all emits_failIncidentDiagnosis emits_persist_attempt[OF diagnosed] assms(2,3)) (simp_all add: calm creating)

lemma emits_persist_job:
  assumes "\<And>i st r. P (EvScan (ScIncidentStatus (i\<lparr>di_Status := diagnosed_status cfg observed (fst x) now st\<rparr>) r))"
    and "\<not> dg_TargetFound (fst x) \<Longrightarrow> emits P (resolveIncident S (incidentName (tr_UID (obs_target observed))) ''TargetAbsent'' now)"
    and "dg_TargetFound (fst x) \<Longrightarrow> \<not> dg_UIDMatches (fst x) \<Longrightarrow>
      emits P (resolveIncident S (incidentName (tr_UID (obs_target observed))) ''TargetReplaced'' now)"
  shows "emits P (persist_job S cfg known now incidents observed x)"
  unfolding persist_job_def Let_def
  by (intro emits_scan_all emits_persistDiagnosis) (use assms in \<open>auto simp: calm\<close>)

end

section \<open>The account of what is written\<close>

lemma phases_distinct [simp]:
  "IncidentPhaseActive \<noteq> IncidentPhaseDiagnosisFailed" "IncidentPhaseDiagnosisFailed \<noteq> IncidentPhaseActive"
  "IncidentPhaseActive \<noteq> IncidentPhaseResolved" "IncidentPhaseResolved \<noteq> IncidentPhaseActive"
  "IncidentPhaseDiagnosisFailed \<noteq> IncidentPhaseResolved" "IncidentPhaseResolved \<noteq> IncidentPhaseDiagnosisFailed"
  by (simp_all add: go_enum)

lemma failed_status_grounded [simp]: "status_grounded L evs (failed_status current now reason message)"
  by (simp add: status_grounded_def failed_status_def)

lemma resolved_status_grounded: "reason \<in> resolution_reasons \<Longrightarrow> status_grounded L evs (resolved_status current reason now)"
  by (simp add: status_grounded_def resolved_status_def)

interpretation noted: scan_calls "scan_write L evs" for L evs
proof unfold_locales
  show "calm e \<Longrightarrow> scan_write L evs e" for e L evs by (induction e rule: calm.induct) simp_all
qed (simp_all add: new_incident_def)

lemma emits_resolveIncident:
  "reason \<in> resolution_reasons \<Longrightarrow> emits (scan_write L evs) (resolveIncident S name reason now)"
  unfolding resolveIncident_def
  by (intro emits_scan_all noted.emits_write_incident_status) (simp_all add: resolved_status_grounded)

lemma lifecycle_reasons:
  "lifecycle_decision S observations coverage catalog policies now incident = ResolveAs reason \<Longrightarrow> reason \<in> resolution_reasons"
  by (auto simp: lifecycle_decision_def resolution_reasons_def Let_def split: if_splits option.splits)

lemma emits_finish_cycle: "emits (scan_write L evs) (finish_cycle S catalog policies now view v errs)"
  unfolding finish_cycle_def reconcileLifecycle_def list_incidents_def
  by (intro emits_scan_all noted.emits_lifecycle_loop noted.emits_finalizeIncidentMetrics emits_resolveIncident)
    (auto dest: lifecycle_reasons)

text \<open>A result whose actions are grounded in the calls for the policy of the observation.\<close>

definition result_grounded :: "kube_lib \<Rightarrow> event set \<Rightarrow> CompiledPolicy \<Rightarrow> Result \<Rightarrow> bool" where
  "result_grounded L evs policy result \<longleftrightarrow>
     (\<not> dg_DiagnosisComplete result \<longrightarrow> dg_Actions result = [])
     \<and> (\<forall>a\<in>set (dg_Actions result). \<exists>request version obj. overdue request evs policy version obj
          \<and> backed L (observed_request request policy version) obj evs a)"

lemma diagnosed_status_fields [simp]:
  "is_RecommendedActions (diagnosed_status cfg observed result now st) = dg_Actions result"
  "is_ResolvedTime (diagnosed_status cfg observed result now st) = None"
  "is_ResolutionReason (diagnosed_status cfg observed result now st) = []"
  "is_Phase (diagnosed_status cfg observed result now st)
     = (if dg_DiagnosisComplete result then IncidentPhaseActive else IncidentPhaseDiagnosisFailed)"
  "is_ActivePolicyRef (diagnosed_status cfg observed result now st)
     = Some \<lparr>pr_Name = cp_name (obs_policy observed), pr_UID = cp_uid (obs_policy observed),
             pr_Generation = cp_generation (obs_policy observed)\<rparr>"
  "(is_ActionEvidenceTime (diagnosed_status cfg observed result now st),
    is_ActionEvidenceExpiresTime (diagnosed_status cfg observed result now st)) = evidence_window cfg now result st"
  by (simp_all add: diagnosed_status_def Let_def)

lemma evidence_window_None:
  "dg_DiagnosisComplete result \<Longrightarrow> fst (evidence_window cfg now result st) = None \<longleftrightarrow> dg_Actions result = []"
  "dg_DiagnosisComplete result \<Longrightarrow> snd (evidence_window cfg now result st) = None \<longleftrightarrow> dg_Actions result = []"
  "\<not> dg_DiagnosisComplete result \<Longrightarrow> evidence_window cfg now result st = (None, None)"
  by (auto simp: evidence_window_def Let_def)

lemma diagnosed_status_evidence:
  "is_ActionEvidenceTime (diagnosed_status cfg observed result now st) = fst (evidence_window cfg now result st)"
  "is_ActionEvidenceExpiresTime (diagnosed_status cfg observed result now st) = snd (evidence_window cfg now result st)"
  by (simp_all add: diagnosed_status_def Let_def)

lemma diagnosed_status_grounded:
  assumes "result_grounded L evs (obs_policy observed) result"
  shows "status_grounded L evs (diagnosed_status cfg observed result now st)"
proof (cases "dg_DiagnosisComplete result")
  case True
  then show ?thesis
    using assms unfolding status_grounded_def action_grounded_def result_grounded_def diagnosed_status_evidence
    by (simp add: evidence_window_None) blast
next
  case False
  then show ?thesis
    using assms unfolding status_grounded_def result_grounded_def diagnosed_status_evidence by (simp add: evidence_window_None)
qed

subsection \<open>Diagnosing\<close>

lemma diagnosed_grounded:
  assumes "diagnosed_ok L request (Diagnosed r) evs" and "req_Policy request = Some policy"
  shows "result_grounded L evs policy r"
proof (cases "dg_ThresholdElapsed r")
  case True
  with assms(1) obtain p version obj r0 c where "overdue request evs p version obj" and r: "r = finish_diagnosis (r0, c)"
    and "analyzed L (observed_request request p version) obj
      (zero_Result\<lparr>dg_TargetFound := True, dg_UIDMatches := True, dg_ThresholdElapsed := True\<rparr>) (newCollector p) (r0, c) evs"
    by (auto simp: diagnosed_ok_def)
  moreover from this(1) assms(2) have "p = policy" by (simp add: overdue_def)
  ultimately obtain R where *: "overdue request evs policy version obj"
    "grows (backed L (observed_request request policy version) obj evs) R (newCollector policy) c"
    by (auto simp: analyzed_def)
  have "\<exists>request version obj. overdue request evs policy version obj \<and> backed L (observed_request request policy version) obj evs a"
    if "a \<in> set (dg_Actions r)" for a
    using *(1) grows_actions[OF *(2)] finish_diagnosis_actions(2)[OF that[unfolded r]] by blast
  moreover have "dg_Actions r = []" if "\<not> dg_DiagnosisComplete r"
    using that finish_diagnosis_actions(1)[of _ r0 c] unfolding r by (metis list.set_intros(1) neq_Nil_conv)
  ultimately show ?thesis unfolding result_grounded_def by blast
next
  case False
  with assms(1) have "dg_Actions r = []" by (simp add: diagnosed_ok_def)
  then show ?thesis by (simp add: result_grounded_def)
qed

lemma failed_result_grounded [simp]: "result_grounded L evs policy (failed_result observed now)"
  by (simp add: result_grounded_def failed_result_def zero_Result_def)

lemma job_result_grounded:
  "diagnosed_ok L request d evs \<Longrightarrow> req_Policy request = Some policy \<Longrightarrow> result_grounded L evs policy (fst (job_result observed now d))"
  by (cases d) (auto simp: job_result_def intro: diagnosed_grounded)

lemma emits_persist_job_grounded:
  "result_grounded L evs (obs_policy observed) (fst x) \<Longrightarrow> emits (scan_write L evs) (persist_job S cfg known now incidents observed x)"
  by (intro noted.emits_persist_job emits_resolveIncident) (simp_all add: diagnosed_status_grounded resolution_reasons_def)

text \<open>A diagnosis writes nothing itself, so it may be followed by writes that its calls account for.\<close>

lemma Diagnose_accounted:
  "ensures (\<lambda>_. True) (\<lambda>x evs. (\<forall>e\<in>evs. scan_write L evs e) \<and> (\<forall>d. x = Some d \<longrightarrow> diagnosed_ok L request d evs))
     (Diagnose L reader fuel request)"
  by (rule ensures_conj[OF written.accounted_emits[OF noted.emits_Diagnose, unfolded accounted_def] ensures_weaken[OF Diagnose_reads]]) simp

lemma grounded_diagnose_target: "grounded L (diagnose_target L S cfg fuel snapshot known now incidents observed)"
  unfolding diagnose_target_def bind_may_def
proof (rule written.accounted_after[OF Diagnose_accounted], goal_cases)
  case (1 x evs)
  then have "emits (scan_write L evs) (case x of None \<Rightarrow> State_Monad.return None
      | Some d \<Rightarrow> persist_job S cfg known now incidents observed (job_result observed now d))"
    by (intro emits_case_option emits_return emits_persist_job_grounded job_result_grounded) auto
  then show ?case unfolding accounted_def by (rule ensures_mono[OF ensures_emits_set]) (auto intro: scan_write_mono)
qed

lemma grounded_run_diagnose_jobs: "grounded L (run_diagnose_jobs L S cfg fuel snapshot known now incidents observations)"
  by (induction observations arbitrary: incidents) (auto intro!: grounded_rules grounded_diagnose_target)

section \<open>The cycle\<close>

lemma grounded_diagnose_stage: "grounded L (diagnose_stage L S cfg fuel catalog policies now view v snapshot)"
  unfolding diagnose_stage_def diagnoseTargets_def Let_def
  by (intro grounded_rules grounded_run_diagnose_jobs written.accounted_emits noted.emits_ctx_err noted.emits_degraded emits_finish_cycle)

lemma grounded_scan_stage: "grounded L (scan_stage L S cfg fuel catalog policies now nsLabels)"
  unfolding scan_stage_def Let_def
  by (intro grounded_rules grounded_diagnose_stage written.accounted_emits[OF noted.emits_ctx_err(2)] written.accounted_emits[OF noted.emits_degraded]
      written.accounted_emits[OF noted.emits_listTargets] written.accounted_emits[OF noted.emits_diagnosisSnapshot])
    (auto split: snapshot_failure.splits intro!: grounded_rules written.accounted_emits[OF noted.emits_degraded])

lemma grounded_Run: "grounded L (Run L S r fuel now)"
  unfolding Run_def namespaceLabels_def
  by (intro grounded_rules grounded_scan_stage written.accounted_emits noted.emits_degraded noted.emits_compilePolicies noted.emits_namespace_pages
      emits_scan_call emits_metric emits_calls) simp_all

lemma grounded_runTimedCycle: "grounded L (runTimedCycle L S r fuel)"
  unfolding runTimedCycle_def RunCycle_def
  by (intro grounded_rules grounded_Run written.accounted_emits[OF emits_scan_call] written.accounted_emits[OF emits_metric]
      written.accounted_emits[OF emits_note] written.accounted_emits[OF emits_calls(1)])
    (auto split: cycle_result.splits intro!: grounded_rules written.accounted_emits[OF emits_metric])

lemma grounded_Start: "grounded L (Coordinator_Start L S r fuel ticks)"
  by (induction ticks arbitrary: r) (auto intro!: grounded_rules grounded_runTimedCycle)

section \<open>Fuel\<close>

lemma total_release:
  assumes "total m"
  shows "total (do { x \<leftarrow> m; note_event e; State_Monad.return x })"
  using assms unfolding total_def by (simp add: split_beta)

lemma namespace_pages_total:
  "tokens_advance rank E \<Longrightarrow> rank tok < fuel \<Longrightarrow> total (namespace_pages E limit m tok fuel)"
proof (induction fuel arbitrary: m tok)
  case (Suc fuel)
  show ?case
    unfolding namespace_pages.simps Let_def
    by (intro total_rules total_cases Suc.IH Suc.prems(1))
      (use Suc.prems in \<open>auto simp: fst_list_meta elim: tokens_advanceD\<close>)
qed simp

lemma list_version_pages_total:
  "tokens_advance rank (se_env S) \<Longrightarrow> rank tok < fuel \<Longrightarrow>
   total (list_version_pages S cfg resource version policies nsLabels tracked budget retained tok fuel)"
proof (induction fuel arbitrary: budget retained tok)
  case (Suc fuel)
  show ?case
    unfolding list_version_pages.simps Let_def
    by (intro total_rules total_cases Suc.IH Suc.prems(1))
      (use Suc.prems in \<open>auto simp: fst_list_meta elim: tokens_advanceD\<close>)
qed simp

lemma list_resource_versions_total:
  "tokens_advance rank (se_env S) \<Longrightarrow> rank [] < fuel \<Longrightarrow>
   total (list_resource_versions S cfg fuel resource policies nsLabels tracked budget e versions)"
  by (induction versions arbitrary: budget e)
    (auto simp: listResourceVersion_def intro!: total_rules list_version_pages_total split: option.splits list_error.splits)

lemma run_list_jobs_total:
  "tokens_advance rank (se_env S) \<Longrightarrow> rank [] < fuel \<Longrightarrow>
   total (run_list_jobs S cfg fuel policies nsLabels tracked budget resources)"
  by (induction resources arbitrary: budget)
    (auto simp: listResource_def intro!: total_rules list_resource_versions_total)

lemma run_diagnose_jobs_total:
  "tokens_advance rank (se_env S) \<Longrightarrow> rank [] < fuel \<Longrightarrow>
   total (run_diagnose_jobs L S cfg fuel snapshot known now incidents observations)"
  by (induction observations arbitrary: incidents)
    (auto simp: diagnose_target_def persist_job_def Let_def intro!: total_rules Diagnose_total split: prod.splits)

lemma scan_stage_total:
  assumes "tokens_advance rank (se_env S)" and "rank [] < fuel"
  shows "total (scan_stage L S cfg fuel catalog policies now nsLabels)"
proof -
  have diagnose: "total (diagnose_stage L S cfg fuel catalog policies now view v snapshot)" for view v snapshot
    unfolding diagnose_stage_def diagnoseTargets_def Let_def
    by (intro total_rules total_cases run_diagnose_jobs_total[OF assms])
  show ?thesis
    unfolding scan_stage_def listTargets_def Let_def
    by (intro total_rules total_cases diagnose run_list_jobs_total[OF assms])
      (auto split: snapshot_failure.splits intro!: total_rules)
qed

lemma runTimedCycle_total:
  assumes "tokens_advance rank (se_env S)" and "rank [] < fuel"
  shows "total (runTimedCycle L S r fuel)"
proof -
  have "total (Run L S r fuel now)" for now
    unfolding Run_def namespaceLabels_def
    by (intro total_rules total_cases scan_stage_total[OF assms] namespace_pages_total[OF assms])
  then show ?thesis
    unfolding runTimedCycle_def RunCycle_def
    by (intro total_rules total_cases total_release) (auto intro!: total_rules split: cycle_result.splits)
qed

lemma Start_total:
  "tokens_advance rank (se_env S) \<Longrightarrow> rank [] < fuel \<Longrightarrow> total (Coordinator_Start L S r fuel ticks)"
  by (induction ticks arbitrary: r) (auto intro!: total_rules runTimedCycle_total)

text \<open>More fuel never changes a result.\<close>

lemma extends_release:
  assumes "extends m' m"
  shows "extends (do { x \<leftarrow> m'; note_event e; State_Monad.return x }) (do { x \<leftarrow> m; note_event e; State_Monad.return x })"
  using assms unfolding extends_def by (simp add: split_beta)

lemma extends_case_cycle_result:
  "(\<And>errs. extends (f' errs) (f errs)) \<Longrightarrow> extends n' n \<Longrightarrow>
   extends (case x of CycleErrors errs \<Rightarrow> f' errs | CyclePanic \<Rightarrow> n') (case x of CycleErrors errs \<Rightarrow> f errs | CyclePanic \<Rightarrow> n)"
  by (cases x) auto

lemma extends_case_failure:
  "(\<And>e. extends (f' e) (f e)) \<Longrightarrow> extends n' n \<Longrightarrow>
   extends (case x of SnapshotError e \<Rightarrow> f' e | SnapshotPanic \<Rightarrow> n') (case x of SnapshotError e \<Rightarrow> f e | SnapshotPanic \<Rightarrow> n)"
  by (cases x) auto

lemma extends_case_list_error:
  "extends m' m \<Longrightarrow> (\<And>e. extends (f' e) (f e)) \<Longrightarrow>
   extends (case x of TargetBound \<Rightarrow> m' | ListError e \<Rightarrow> f' e) (case x of TargetBound \<Rightarrow> m | ListError e \<Rightarrow> f e)"
  by (cases x) auto

lemmas extends_steps = extends_rules(3,4) extends_cases extends_case_cycle_result extends_case_failure extends_case_list_error
  extends_release

lemma namespace_pages_extends:
  "n \<le> n' \<Longrightarrow> extends (namespace_pages E limit m tok n') (namespace_pages E limit m tok n)"
proof (induction n arbitrary: n' m tok)
  case (Suc n)
  then obtain k where "n' = Suc k" "n \<le> k" by (cases n') auto
  then show ?case by (auto simp: Let_def intro!: extends_rules extends_cases Suc.IH)
qed (simp add: extends_rules)

lemma list_version_pages_extends:
  "n \<le> n' \<Longrightarrow> extends (list_version_pages S cfg resource version policies nsLabels tracked budget retained tok n')
     (list_version_pages S cfg resource version policies nsLabels tracked budget retained tok n)"
proof (induction n arbitrary: n' budget retained tok)
  case (Suc n)
  then obtain k where "n' = Suc k" "n \<le> k" by (cases n') auto
  then show ?case by (auto simp: Let_def intro!: extends_rules extends_cases Suc.IH)
qed (simp add: extends_rules)

lemma list_resource_versions_extends:
  "n \<le> n' \<Longrightarrow> extends (list_resource_versions S cfg n' resource policies nsLabels tracked budget e versions)
     (list_resource_versions S cfg n resource policies nsLabels tracked budget e versions)"
proof (induction versions arbitrary: budget e)
  case (Cons v vs)
  show ?case
    unfolding list_resource_versions.simps listResourceVersion_def
    by (intro extends_steps list_version_pages_extends Cons extends_rules(1))
qed (simp add: extends_rules)

lemma run_list_jobs_extends:
  "n \<le> n' \<Longrightarrow> extends (run_list_jobs S cfg n' policies nsLabels tracked budget resources)
     (run_list_jobs S cfg n policies nsLabels tracked budget resources)"
proof (induction resources arbitrary: budget)
  case (Cons r rs)
  show ?case
    unfolding run_list_jobs.simps listResource_def
    by (rule extends_rules(3)[OF list_resource_versions_extends[OF Cons.prems]])
      (auto intro!: extends_rules(3)[OF Cons.IH[OF Cons.prems]] extends_rules(1) split: prod.splits)
qed (simp add: extends_rules)

lemma run_diagnose_jobs_extends:
  "n \<le> n' \<Longrightarrow> extends (run_diagnose_jobs L S cfg n' snapshot known now incidents observations)
     (run_diagnose_jobs L S cfg n snapshot known now incidents observations)"
proof (induction observations arbitrary: incidents)
  case (Cons ob obs)
  show ?case
    unfolding run_diagnose_jobs.simps diagnose_target_def
    by (intro extends_steps Diagnose_extends Cons extends_rules(1))
qed (simp add: extends_rules)

lemma scan_stage_extends:
  assumes "n \<le> n'"
  shows "extends (scan_stage L S cfg n' catalog policies now nsLabels) (scan_stage L S cfg n catalog policies now nsLabels)"
  unfolding scan_stage_def listTargets_def diagnose_stage_def diagnoseTargets_def Let_def
  by (intro extends_steps run_list_jobs_extends[OF assms] run_diagnose_jobs_extends[OF assms] extends_rules(1))

lemma runTimedCycle_extends: "n \<le> n' \<Longrightarrow> extends (runTimedCycle L S r n') (runTimedCycle L S r n)"
  unfolding runTimedCycle_def RunCycle_def Run_def namespaceLabels_def
  by (intro extends_steps scan_stage_extends namespace_pages_extends extends_rules(1))

lemma Start_extends: "n \<le> n' \<Longrightarrow> extends (Coordinator_Start L S r n' ticks) (Coordinator_Start L S r n ticks)"
proof (induction ticks arbitrary: r)
  case (Suc ticks)
  then show ?case
    unfolding Coordinator_Start.simps by (intro extends_steps runTimedCycle_extends) auto
qed (simp add: extends_rules runTimedCycle_extends)

section \<open>Giving up on a cycle\<close>

text \<open>An incident on which the executor can no longer act.\<close>

definition remediation_blocked :: "DeletionIncidentStatus \<Rightarrow> bool" where
  "remediation_blocked st \<longleftrightarrow>
     is_Phase st = IncidentPhaseDiagnosisFailed \<and> is_RecommendedActions st = []
     \<and> is_ActionEvidenceTime st = None \<and> is_ActionEvidenceExpiresTime st = None"

text \<open>
  What the calls say about an incident that was to be blocked: it is gone, it was read as resolved or as
  blocked, or the status of what was read was overwritten with a blocked one, and the server agreed.
\<close>

definition incident_blocked :: "string \<Rightarrow> event set \<Rightarrow> bool" where
  "incident_blocked name evs \<longleftrightarrow>
     (\<exists>e. EvGetIncident name (Inl e) \<in> evs \<and> ae_NotFound e)
     \<or> (\<exists>i. EvGetIncident name (Inr i) \<in> evs
          \<and> (is_Phase (di_Status i) = IncidentPhaseResolved \<or> remediation_blocked (di_Status i)
             \<or> (\<exists>st i'. EvScan (ScIncidentStatus (i\<lparr>di_Status := st\<rparr>) (Inr i')) \<in> evs \<and> remediation_blocked st)))"

lemma incident_blocked_mono: "incident_blocked name evs \<Longrightarrow> evs \<subseteq> evs' \<Longrightarrow> incident_blocked name evs'"
  unfolding incident_blocked_def by blast

lemma ensures_retry_conflict:
  assumes "ensures P A fn" and "\<And>x evs evs'. A x evs \<Longrightarrow> A x (evs' \<union> evs)"
  shows "ensures P A (retry_conflict n fn)"
proof (induction n)
  case (Suc n)
  show ?case
    unfolding retry_conflict.simps
    by (intro ensures_bind[OF assms(1)] ensures_cases ensures_return ensures_mono[OF Suc.IH]) (auto intro: assms(2))
qed (simp add: assms(1))

lemma ensures_calls:
  "ensures (\<lambda>_. True) (\<lambda>r evs. evs = {EvGetIncident n r}) (get_incident E n)"
  "ensures (\<lambda>_. True) (\<lambda>r evs. evs = {EvScan (ev r)}) (scan_call answer ev)"
  unfolding get_incident_def scan_call_def by (rule ensures_invoke, simp)+

lemma failed_status_blocked: "remediation_blocked (failed_status current now reason message)"
  by (simp add: remediation_blocked_def failed_status_def)

lemma failIncidentDiagnosis_blocks:
  "ensures (\<lambda>_. True) (\<lambda>r evs. r = None \<longrightarrow> incident_blocked name evs) (failIncidentDiagnosis S name now reason message)"
  unfolding failIncidentDiagnosis_def RetryOnConflict_def write_incident_status_def incident_status_update_def
proof (intro ensures_retry_conflict ensures_bind[OF ensures_calls(1)] ensures_bind[OF ensures_calls(2)] ensures_cases ensures_return,
    goal_cases)
  case (1 r evs err)
  then show ?case by (auto simp: ignore_absent_def incident_blocked_def split: if_splits)
next
  case (2 r evs current)
  then show ?case by (auto simp: incident_blocked_def)
next
  case (3 r evs current)
  then show ?case using failed_status_blocked[of current now reason message] by (auto simp: incident_blocked_def)
next
  case (4 r evs current r' evs')
  then show ?case
    using failed_status_blocked[of current now reason message] by (auto simp: incident_blocked_def split: sum.splits)
next
  case (5 x evs evs')
  then show ?case by (auto intro: incident_blocked_mono)
qed

lemma fail_incidents_blocks:
  "ensures (\<lambda>_. True) (\<lambda>errs evs. errs = [] \<longrightarrow> (\<forall>i\<in>set incidents. is_Phase (di_Status i) \<noteq> IncidentPhaseResolved
       \<longrightarrow> incident_blocked (om_Name (di_Meta i)) evs)) (fail_incidents S now reason message incidents)"
proof (induction incidents)
  case (Cons i incidents)
  show ?case
    unfolding fail_incidents.simps
  proof (intro ensures_cases ensures_bind[OF failIncidentDiagnosis_blocks] ensures_bind[OF Cons.IH] ensures_return, goal_cases)
    case 1
    then show ?case by (intro ensures_mono[OF Cons.IH]) auto
  next
    case (2 r evs errs evs')
    then show ?case by (auto split: option.splits intro: incident_blocked_mono)
  qed
qed (auto intro!: ensures_return)

lemma degraded_blocks:
  "ensures (\<lambda>_. True)
     (\<lambda>x evs. x = CycleErrors errs \<longrightarrow> (\<exists>incidents. EvScan (ScListIncidents (Inr incidents)) \<in> evs
        \<and> (\<forall>i\<in>set incidents. is_Phase (di_Status i) \<noteq> IncidentPhaseResolved
             \<longrightarrow> incident_blocked (om_Name (di_Meta i)) evs)))
     (degraded S now v errs reason message)"
proof -
  have fail: "ensures (\<lambda>_. True)
     (\<lambda>errs evs. errs = [] \<longrightarrow> (\<exists>incidents. EvScan (ScListIncidents (Inr incidents)) \<in> evs
        \<and> (\<forall>i\<in>set incidents. is_Phase (di_Status i) \<noteq> IncidentPhaseResolved
             \<longrightarrow> incident_blocked (om_Name (di_Meta i)) evs)))
     (failActiveIncidentDiagnoses S now reason message)"
    unfolding failActiveIncidentDiagnoses_def list_incidents_def
  proof (intro ensures_bind[OF ensures_calls(2)] ensures_cases ensures_return, goal_cases)
    case (2 r evs incidents)
    then show ?case by (intro ensures_mono[OF fail_incidents_blocks]) (auto intro: incident_blocked_mono)
  qed simp
  have "emits (\<lambda>_. True) (finalizeIncidentMetrics S v)" for v
    by (rule emits_mono[OF noted.emits_finalizeIncidentMetrics]) simp
  then show ?thesis
    unfolding degraded_def
    by (intro ensures_bind[OF fail] ensures_bind[OF ensures_emits] ensures_return) (auto intro: incident_blocked_mono)
qed

end
