(* ===== verification/Scan_Listing.thy ===== *)
theory Scan_Listing
  imports Scanner Diagnosis_Safety
begin

text \<open>
  What a scan has seen: the listings of its workers against the target budget, and what the scanner
  concludes from them about targets that are no longer there.
\<close>

section \<open>The target budget\<close>

definition budget_ok :: "targetBudget \<Rightarrow> bool" where
  "budget_ok b \<longleftrightarrow> finite (tb_reserved b) \<and> int (card (tb_reserved b)) \<le> max 0 (tb_maximum b)"

definition budget_le :: "targetBudget \<Rightarrow> targetBudget \<Rightarrow> bool" where
  "budget_le b b' \<longleftrightarrow>
     tb_maximum b' = tb_maximum b \<and> tb_reserved b \<subseteq> tb_reserved b' \<and> (budget_ok b \<longrightarrow> budget_ok b')"

lemma budget_le_refl [simp]: "budget_le b b"
  by (simp add: budget_le_def)

lemma budget_le_trans: "budget_le b b' \<Longrightarrow> budget_le b' b'' \<Longrightarrow> budget_le b b''"
  by (auto simp: budget_le_def)

lemma reserve_spec:
  "budget_le b (snd (reserve b uid))" "fst (reserve b uid) \<Longrightarrow> uid \<in> tb_reserved (snd (reserve b uid))"
  by (auto simp: reserve_def budget_le_def budget_ok_def card_insert_if split: if_splits)

section \<open>Listings\<close>

definition deleting_selected ::
  "compiledPolicies \<Rightarrow> (string \<rightharpoonup> labels) \<Rightarrow> Resource \<Rightarrow> Version \<Rightarrow> PartialObjectMetadata \<Rightarrow> bool" where
  "deleting_selected policies nsLabels resource version item \<longleftrightarrow>
     pom_DeletionTimestamp item \<noteq> None
     \<and> selectWinning policies (policy_target_of (res_GroupResource resource) (v_Namespaced version) nsLabels item) \<noteq> None"

definition is_tracked :: "trackedTargets \<Rightarrow> PartialObjectMetadata \<Rightarrow> bool" where
  "is_tracked tracked item \<longleftrightarrow>
     pom_UID item \<in> trk_uids tracked \<or> objectIdentity (pom_Namespace item) (pom_Name item) \<in> trk_identities tracked"

definition charged ::
  "compiledPolicies \<Rightarrow> (string \<rightharpoonup> labels) \<Rightarrow> Resource \<Rightarrow> Version \<Rightarrow> targetBudget \<Rightarrow> PartialObjectMetadata list \<Rightarrow> bool" where
  "charged policies nsLabels resource version b items \<longleftrightarrow>
     (\<forall>item\<in>set items. deleting_selected policies nsLabels resource version item \<longrightarrow> pom_UID item \<in> tb_reserved b)"

text \<open>What is retained of a list of items: nothing else, and all that is wanted.\<close>

definition retains ::
  "compiledPolicies \<Rightarrow> (string \<rightharpoonup> labels) \<Rightarrow> Resource \<Rightarrow> Version \<Rightarrow> trackedTargets
     \<Rightarrow> PartialObjectMetadata list \<Rightarrow> PartialObjectMetadata list \<Rightarrow> PartialObjectMetadata list \<Rightarrow> bool" where
  "retains policies nsLabels resource version tracked before items after \<longleftrightarrow>
     set before \<subseteq> set after \<and> set after \<subseteq> set before \<union> set items
     \<and> (\<forall>item\<in>set items. deleting_selected policies nsLabels resource version item \<or> is_tracked tracked item \<longrightarrow> item \<in> set after)"

lemma retains_append:
  "retains p n r v t before xs mid \<Longrightarrow> retains p n r v t mid ys after \<Longrightarrow> retains p n r v t before (xs @ ys) after"
  unfolding retains_def by auto

lemma charged_mono: "charged p n r v b items \<Longrightarrow> budget_le b b' \<Longrightarrow> charged p n r v b' items"
  unfolding charged_def budget_le_def by blast

lemma retain_items_step:
  "retain_items resource version policies nsLabels tracked budget retained (item # items) =
     (if \<not> deleting_selected policies nsLabels resource version item \<and> \<not> is_tracked tracked item
      then retain_items resource version policies nsLabels tracked budget retained items
      else if deleting_selected policies nsLabels resource version item \<and> \<not> fst (reserve budget (pom_UID item))
      then (retained, True, snd (reserve budget (pom_UID item)))
      else retain_items resource version policies nsLabels tracked
             (if deleting_selected policies nsLabels resource version item then snd (reserve budget (pom_UID item)) else budget)
             (retained @ [item]) items)"
  by (auto simp: deleting_selected_def is_tracked_def Let_def split: prod.splits)

declare retain_items.simps(2) [simp del]

definition items_retained ::
  "compiledPolicies \<Rightarrow> (string \<rightharpoonup> labels) \<Rightarrow> Resource \<Rightarrow> Version \<Rightarrow> trackedTargets \<Rightarrow> targetBudget
     \<Rightarrow> PartialObjectMetadata list \<Rightarrow> PartialObjectMetadata list \<Rightarrow> PartialObjectMetadata list \<times> bool \<times> targetBudget \<Rightarrow> bool" where
  "items_retained policies nsLabels resource version tracked b before items x \<longleftrightarrow>
     (case x of (after, full, b') \<Rightarrow>
        budget_le b b'
        \<and> (charged policies nsLabels resource version b before \<longrightarrow> charged policies nsLabels resource version b' after)
        \<and> (\<not> full \<longrightarrow> retains policies nsLabels resource version tracked before items after))"

lemma items_retained_next:
  assumes "budget_le b b'" and "charged p n r v b before \<longrightarrow> charged p n r v b' mid" and "retains p n r v t before [item] mid"
    and "items_retained p n r v t b' mid items x"
  shows "items_retained p n r v t b before (item # items) x"
  using assms(1,2,4) budget_le_trans[OF assms(1)] retains_append[OF assms(3)] unfolding items_retained_def by auto

lemma retain_items_retained:
  "items_retained policies nsLabels resource version tracked b before items
     (retain_items resource version policies nsLabels tracked b before items)"
proof (induction items arbitrary: b before)
  case Nil
  show ?case by (simp add: items_retained_def retains_def)
next
  case (Cons item items)
  let ?sel = "deleting_selected policies nsLabels resource version item"
  have keep: "items_retained policies nsLabels resource version tracked b before (item # items)
      (retain_items resource version policies nsLabels tracked b' (before @ [item]) items)"
    if "budget_le b b'" "?sel \<longrightarrow> pom_UID item \<in> tb_reserved b'" for b'
    using that charged_mono[OF _ that(1)]
    by (intro items_retained_next[OF _ _ _ Cons.IH]) (auto simp: charged_def retains_def)
  have skip: "items_retained policies nsLabels resource version tracked b before (item # items)
      (retain_items resource version policies nsLabels tracked b before items)" if "\<not> ?sel" "\<not> is_tracked tracked item"
    using that by (intro items_retained_next[OF _ _ _ Cons.IH]) (auto simp: retains_def)
  have full: "items_retained policies nsLabels resource version tracked b before (item # items)
      (before, True, snd (reserve b (pom_UID item)))"
    using reserve_spec(1)[of b "pom_UID item"] by (auto simp: items_retained_def intro: charged_mono)
  show ?case
    unfolding retain_items_step using skip full reserve_spec[of b "pom_UID item"] by (auto intro!: keep)
qed

lemma retain_items_spec:
  assumes "retain_items resource version policies nsLabels tracked b before items = (after, full, b')"
  shows "budget_le b b'"
    and "charged policies nsLabels resource version b before \<Longrightarrow> charged policies nsLabels resource version b' after"
    and "\<not> full \<Longrightarrow> retains policies nsLabels resource version tracked before items after"
  using retain_items_retained[of policies nsLabels resource version tracked b before items] unfolding assms
  by (simp_all add: items_retained_def)

text \<open>A version of a resource listed to the last page, with what is retained of it.\<close>

definition version_listed ::
  "compiledPolicies \<Rightarrow> (string \<rightharpoonup> labels) \<Rightarrow> Resource \<Rightarrow> Version \<Rightarrow> trackedTargets
     \<Rightarrow> PartialObjectMetadata list \<Rightarrow> string \<Rightarrow> PartialObjectMetadata list \<Rightarrow> event set \<Rightarrow> bool" where
  "version_listed policies nsLabels resource version tracked before tok after evs \<longleftrightarrow>
     (\<exists>items. page_chain evs (resource_version resource version) [] tok items
        \<and> retains policies nsLabels resource version tracked before items after)"

lemma version_listed_mono:
  "version_listed p n r v t before tok after evs \<Longrightarrow> evs \<subseteq> evs' \<Longrightarrow> version_listed p n r v t before tok after evs'"
  unfolding version_listed_def by (blast intro: page_chain_mono)

abbreviation sees :: "('a \<Rightarrow> event set \<Rightarrow> bool) \<Rightarrow> 'a option io \<Rightarrow> bool" where
  "sees A m \<equiv> yields (\<lambda>_. True) A m"

lemma ensures_list_meta:
  "ensures (\<lambda>_. True) (\<lambda>r evs. evs = {EvListMeta gvr ns tok lim r}) (list_meta E gvr ns tok lim)"
  unfolding list_meta_def by (rule ensures_invoke) simp

lemma ensures_case_list_error:
  "(x = TargetBound \<Longrightarrow> ensures P A m) \<Longrightarrow> (\<And>e. x = ListError e \<Longrightarrow> ensures P A (f e)) \<Longrightarrow>
   ensures P A (case x of TargetBound \<Rightarrow> m | ListError e \<Rightarrow> f e)"
  by (cases x) auto

definition pages_listed ::
  "compiledPolicies \<Rightarrow> (string \<rightharpoonup> labels) \<Rightarrow> Resource \<Rightarrow> Version \<Rightarrow> trackedTargets \<Rightarrow> targetBudget
     \<Rightarrow> PartialObjectMetadata list \<Rightarrow> string \<Rightarrow> version_answer \<Rightarrow> event set \<Rightarrow> bool" where
  "pages_listed policies nsLabels resource version tracked b before tok x evs \<longleftrightarrow>
     (case x of (after, err, b') \<Rightarrow>
        budget_le b b'
        \<and> (charged policies nsLabels resource version b before \<longrightarrow> charged policies nsLabels resource version b' after)
        \<and> (err = None \<longrightarrow> version_listed policies nsLabels resource version tracked before tok after evs))"

lemma pages_listed_next:
  assumes "retain_items resource version policies nsLabels tracked b before (page_Items page) = (mid, False, b')"
    and "page_Continue page \<noteq> []" and "pages_listed policies nsLabels resource version tracked b' mid (page_Continue page) x evs"
  shows "pages_listed policies nsLabels resource version tracked b before tok x
    (insert (EvListMeta (resource_version resource version) [] tok lim (Inr page)) evs)"
proof -
  note spec = retain_items_spec[OF assms(1)]
  have "version_listed policies nsLabels resource version tracked before tok after
      (insert (EvListMeta (resource_version resource version) [] tok lim (Inr page)) evs)"
    if v: "version_listed policies nsLabels resource version tracked mid (page_Continue page) after evs" for after
  proof -
    from v obtain items where "page_chain evs (resource_version resource version) [] (page_Continue page) items"
      and r: "retains policies nsLabels resource version tracked mid items after"
      unfolding version_listed_def by blast
    then have "page_chain (insert (EvListMeta (resource_version resource version) [] tok lim (Inr page)) evs)
        (resource_version resource version) [] tok (page_Items page @ items)"
      using assms(2) by (intro page_chain.next_page) (auto elim: page_chain_mono)
    then show ?thesis
      unfolding version_listed_def using retains_append[OF spec(3) r] by blast
  qed
  then show ?thesis
    using assms(3) spec(1,2) budget_le_trans[OF spec(1)] unfolding pages_listed_def by (auto split: prod.splits)
qed

lemma pages_listed_last:
  assumes "retain_items resource version policies nsLabels tracked b before (page_Items page) = (after, full, b')"
    and "err = None \<longrightarrow> \<not> full \<and> page_Continue page = []"
  shows "pages_listed policies nsLabels resource version tracked b before tok (after, err, b')
    {EvListMeta (resource_version resource version) [] tok lim (Inr page)}"
proof -
  have "page_Continue page = [] \<Longrightarrow> page_chain {EvListMeta (resource_version resource version) [] tok lim (Inr page)}
      (resource_version resource version) [] tok (page_Items page)"
    by (rule page_chain.last_page) auto
  then show ?thesis
    using retain_items_spec[OF assms(1)] assms(2) unfolding pages_listed_def version_listed_def by auto
qed

lemma list_version_pages_sees:
  "sees (pages_listed policies nsLabels resource version tracked b before tok)
     (list_version_pages S cfg resource version policies nsLabels tracked b before tok fuel)"
proof (induction fuel arbitrary: b before tok)
  case 0
  show ?case by (simp add: ensures_return)
next
  case (Suc fuel)
  show ?case
    unfolding list_version_pages.simps Let_def resource_version_def[symmetric]
  proof (intro ensures_bind[OF ensures_list_meta] yields_rules, goal_cases)
    case (1 r evs err)
    show ?case by (simp add: pages_listed_def charged_def)
  next
    case (2 r evs page retained' y full b')
    then show ?case using pages_listed_last[of resource version policies nsLabels tracked b before page] by simp
  next
    case (3 r evs page retained' y full b')
    then show ?case using pages_listed_last[of resource version policies nsLabels tracked b before page] by simp
  next
    case (4 r evs page retained' y full b')
    then show ?case
      by (intro yields_mono[OF Suc.IH]) (use pages_listed_next in simp)
  qed
qed

section \<open>Resources\<close>

text \<open>
  What a worker answers for a resource: the items it retains are paid for from the budget, and if there
  is no error they come from a complete listing of one served version.
\<close>

definition resource_listed ::
  "compiledPolicies \<Rightarrow> (string \<rightharpoonup> labels) \<Rightarrow> Resource \<Rightarrow> Version list \<Rightarrow> trackedTargets \<Rightarrow> targetBudget
     \<Rightarrow> list_answer \<Rightarrow> event set \<Rightarrow> bool" where
  "resource_listed policies nsLabels resource versions tracked b x evs \<longleftrightarrow>
     (case x of ((items, version, err), b') \<Rightarrow>
        budget_le b b' \<and> charged policies nsLabels resource version b' items
        \<and> (err = None \<longrightarrow> version \<in> set versions \<and> version_listed policies nsLabels resource version tracked [] [] items evs))"

lemma resource_listed_later:
  assumes "resource_listed policies nsLabels resource versions tracked b' x evs'" and "budget_le b b'"
  shows "resource_listed policies nsLabels resource (version # versions) tracked b x (evs \<union> evs')"
  using assms budget_le_trans[OF assms(2)] unfolding resource_listed_def
  by (auto split: prod.splits intro: version_listed_mono)

lemma list_resource_versions_sees:
  "e \<noteq> None \<or> versions \<noteq> [] \<Longrightarrow>
   sees (resource_listed policies nsLabels resource versions tracked b)
     (list_resource_versions S cfg fuel resource policies nsLabels tracked b e versions)"
proof (induction versions arbitrary: b e)
  case Nil
  then show ?case
    unfolding list_resource_versions.simps by (intro yields_give) (auto simp: resource_listed_def charged_def)
next
  case (Cons version versions)
  show ?case
    unfolding list_resource_versions.simps listResourceVersion_def
  proof (rule yields_bind_may[OF list_version_pages_sees], goal_cases)
    case (1 x evs)
    obtain items err b' where x: "x = (items, err, b')" by (cases x)
    note p = 1[unfolded x pages_listed_def, simplified]
    have "sees (\<lambda>y evs'. resource_listed policies nsLabels resource (version # versions) tracked b y (evs \<union> evs'))
        (list_resource_versions S cfg fuel resource policies nsLabels tracked b' (Some (ListError e')) versions)" for e'
      by (rule yields_mono[OF Cons.IH]) (use p in \<open>auto intro: resource_listed_later\<close>)
    moreover have "resource_listed policies nsLabels resource (version # versions) tracked b ((items, version, err), b') evs"
      using p by (auto simp: resource_listed_def charged_def)
    moreover have "resource_listed policies nsLabels resource (version # versions) tracked b (([], version, Some e'), b') evs" for e'
      using p by (auto simp: resource_listed_def charged_def)
    ultimately show ?case
      unfolding x prod.case by (intro yields_rules ensures_case_list_error) simp_all
  qed
qed

lemma listResource_sees:
  "sees (resource_listed policies nsLabels resource (all_versions resource) tracked b)
     (listResource S cfg fuel resource policies nsLabels tracked b)"
  unfolding listResource_def
proof (rule yields_mono[OF list_resource_versions_sees])
  fix x evs
  assume "resource_listed policies nsLabels resource
    (OrderedVersions resource (v_Version (res_PreferredVersion resource))) tracked b x evs"
  then show "resource_listed policies nsLabels resource (all_versions resource) tracked b x evs"
    using OrderedVersions_subset[of resource "v_Version (res_PreferredVersion resource)"]
    unfolding resource_listed_def by (auto split: prod.splits)
qed (simp add: OrderedVersions_nonempty)

text \<open>The results of all workers.\<close>

definition result_seen ::
  "compiledPolicies \<Rightarrow> (string \<rightharpoonup> labels) \<Rightarrow> (GroupResource \<Rightarrow> trackedTargets) \<Rightarrow> Resource set \<Rightarrow> targetBudget \<Rightarrow> event set
     \<Rightarrow> listed_resource \<Rightarrow> bool" where
  "result_seen policies nsLabels tracked resources b evs x \<longleftrightarrow>
     (case x of (r, items, err) \<Rightarrow>
        charged policies nsLabels r (res_PreferredVersion r) b items
        \<and> (err = None \<longrightarrow> (\<exists>resource\<in>resources. res_GroupResource r = res_GroupResource resource
             \<and> res_PreferredVersion r \<in> set (all_versions resource)
             \<and> version_listed policies nsLabels resource (res_PreferredVersion r) (tracked (res_GroupResource resource)) [] [] items evs)))"

lemma deleting_selected_cong:
  "res_GroupResource r = res_GroupResource r' \<Longrightarrow> deleting_selected p n r v item = deleting_selected p n r' v item"
  by (simp add: deleting_selected_def)

lemma result_seen_mono:
  "result_seen p n t resources b evs x \<Longrightarrow> resources \<subseteq> resources' \<Longrightarrow> budget_le b b' \<Longrightarrow> evs \<subseteq> evs' \<Longrightarrow>
   result_seen p n t resources' b' evs' x"
  unfolding result_seen_def by (auto split: prod.splits intro: charged_mono dest: version_listed_mono)

lemma run_list_jobs_sees:
  "sees (\<lambda>results evs. \<exists>b'. budget_le b b' \<and> list_all (result_seen policies nsLabels tracked (set resources) b' evs) results)
     (run_list_jobs S cfg fuel policies nsLabels tracked b resources)"
proof (induction resources arbitrary: b)
  case Nil
  show ?case unfolding run_list_jobs.simps by (rule yields_give) (auto intro: budget_le_refl)
next
  case (Cons resource resources)
  show ?case
    unfolding run_list_jobs.simps
  proof (rule yields_bind_may[OF listResource_sees], goal_cases)
    case (1 x evs)
    obtain items version err b1 where x: "x = ((items, version, err), b1)" by (metis surj_pair)
    show ?case
      unfolding x prod.case
    proof (intro yields_bind_may[OF Cons.IH] yields_give, goal_cases)
      case (1 rest evs')
      then obtain b' where b': "budget_le b1 b'" "list_all (result_seen policies nsLabels tracked (set resources) b' evs') rest"
        and le: "budget_le b b1" and ch: "charged policies nsLabels resource version b1 items"
        and ok: "err = None \<longrightarrow> version \<in> set (all_versions resource)
          \<and> version_listed policies nsLabels resource version (tracked (res_GroupResource resource)) [] [] items evs"
        using \<open>resource_listed policies nsLabels resource (all_versions resource) (tracked (res_GroupResource resource)) b x evs\<close>
        unfolding x by (auto simp: resource_listed_def)
      have "result_seen policies nsLabels tracked (set (resource # resources)) b' (evs \<union> (evs' \<union> {}))
          (resource\<lparr>res_PreferredVersion := version\<rparr>, items, err)"
        using charged_mono[OF ch b'(1)] ok
        by (auto simp: result_seen_def charged_def deleting_selected_def intro: version_listed_mono)
      moreover have "list_all (result_seen policies nsLabels tracked (set (resource # resources)) b' (evs \<union> (evs' \<union> {}))) rest"
        by (rule list.pred_mono_strong[OF b'(2)]) (auto elim: result_seen_mono)
      ultimately show ?case using budget_le_trans[OF le b'(1)] by auto
    qed
  qed
qed

section \<open>Observations and coverage\<close>

text \<open>What the loop over the items of a result has added to the observations and to the coverage.\<close>

definition items_observed ::
  "compiledPolicies \<Rightarrow> (string \<rightharpoonup> labels) \<Rightarrow> Resource \<Rightarrow> (UID \<times> observation) list \<times> resourceCoverage \<Rightarrow> PartialObjectMetadata set
     \<Rightarrow> (UID \<times> observation) list \<times> resourceCoverage \<Rightarrow> bool" where
  "items_observed policies nsLabels r x items y \<longleftrightarrow>
     (let deleting = {item\<in>items. deleting_selected policies nsLabels r (res_PreferredVersion r) item};
          winning = {item\<in>items. selectWinning policies
             (policy_target_of (res_GroupResource r) (v_Namespaced (res_PreferredVersion r)) nsLabels item) \<noteq> None}
      in fst ` set (fst y) = fst ` set (fst x) \<union> pom_UID ` deleting
         \<and> (distinct (map fst (fst x)) \<longrightarrow> distinct (map fst (fst y)))
         \<and> cov_success (snd y) = cov_success (snd x)
         \<and> cov_allUIDs (snd y) = cov_allUIDs (snd x) \<union> pom_UID ` items
         \<and> cov_selectedUIDs (snd y) = cov_selectedUIDs (snd x) \<union> pom_UID ` winning
         \<and> (\<forall>k u. map_of (cov_identities (snd y)) k = Some u \<longrightarrow>
              map_of (cov_identities (snd x)) k = Some u
              \<or> (\<exists>item\<in>items. k = objectIdentity (pom_Namespace item) (pom_Name item) \<and> u = pom_UID item)))"

lemma keys_update: "fst ` set (AList.update k v al) = insert k (fst ` set al)"
  using dom_update[of k v al] by (simp add: dom_map_of_conv_image_fst update_conv)

lemma observe_item_observed: "items_observed policies nsLabels r x {item} (observe_item policies nsLabels r x item)"
proof -
  let ?t = "policy_target_of (res_GroupResource r) (v_Namespaced (res_PreferredVersion r)) nsLabels item"
  have known: "map_of (fst x) k \<noteq> None \<Longrightarrow> insert k (fst ` set (fst x)) = fst ` set (fst x)" for k
    by (auto simp: map_of_eq_None_iff)
  show ?thesis
    by (cases "selectWinning policies ?t"; cases x)
      (use known in \<open>auto simp: items_observed_def observe_item_def deleting_selected_def Let_def keys_update update_conv' map_of_eq_None_iff
        split: if_splits\<close>)
qed

lemma items_observedD:
  assumes "items_observed policies nsLabels r x items y"
  shows "fst ` set (fst y) = fst ` set (fst x) \<union> pom_UID ` {item\<in>items. deleting_selected policies nsLabels r (res_PreferredVersion r) item}"
    and "distinct (map fst (fst x)) \<Longrightarrow> distinct (map fst (fst y))" and "cov_success (snd y) = cov_success (snd x)"
    and "cov_allUIDs (snd y) = cov_allUIDs (snd x) \<union> pom_UID ` items"
    and "map_of (cov_identities (snd y)) k = Some u \<Longrightarrow> map_of (cov_identities (snd x)) k = Some u
      \<or> (\<exists>item\<in>items. k = objectIdentity (pom_Namespace item) (pom_Name item) \<and> u = pom_UID item)"
  using assms unfolding items_observed_def Let_def by simp_all

lemma items_observed_trans:
  assumes "items_observed p n r x A y" and "items_observed p n r y B z"
  shows "items_observed p n r x (A \<union> B) z"
proof -
  have split: "{item\<in>A \<union> B. Q item} = {item\<in>A. Q item} \<union> {item\<in>B. Q item}" for Q by blast
  show ?thesis
    unfolding items_observed_def Let_def split image_Un
  proof (intro conjI allI impI, goal_cases)
    case (6 k u)
    from items_observedD(5)[OF assms(2) this] items_observedD(5)[OF assms(1), of k u] show ?case by blast
  qed (use assms in \<open>simp_all add: items_observed_def Let_def Un_assoc\<close>)
qed

lemma fold_items_observed: "items_observed policies nsLabels r x (set items) (foldl (observe_item policies nsLabels r) x items)"
proof (induction items arbitrary: x)
  case Nil
  show ?case by (simp add: items_observed_def)
next
  case (Cons item items)
  show ?case
    using items_observed_trans[OF observe_item_observed Cons.IH] by simp
qed

text \<open>
  The view after the results: every observation is of a selected object in deletion that a result
  retained, and a resource that counts as covered has a result without error.
\<close>

definition covered_by ::
  "compiledPolicies \<Rightarrow> (string \<rightharpoonup> labels) \<Rightarrow> UID set \<Rightarrow> GroupResource \<Rightarrow> resourceCoverage \<Rightarrow> listed_resource \<Rightarrow> bool" where
  "covered_by policies nsLabels observed gr state x \<longleftrightarrow>
     (case x of (r, items, err) \<Rightarrow>
        err = None \<and> res_GroupResource r = gr \<and> cov_allUIDs state = pom_UID ` set items
        \<and> pom_UID ` {item\<in>set items. deleting_selected policies nsLabels r (res_PreferredVersion r) item} \<subseteq> observed
        \<and> (\<forall>k u. map_of (cov_identities state) k = Some u \<longrightarrow>
             (\<exists>item\<in>set items. k = objectIdentity (pom_Namespace item) (pom_Name item) \<and> u = pom_UID item)))"

definition observed_in ::
  "compiledPolicies \<Rightarrow> (string \<rightharpoonup> labels) \<Rightarrow> UID \<Rightarrow> listed_resource \<Rightarrow> bool" where
  "observed_in policies nsLabels u x \<longleftrightarrow>
     (case x of (r, items, err) \<Rightarrow>
        u \<in> pom_UID ` {item\<in>set items. deleting_selected policies nsLabels r (res_PreferredVersion r) item})"

definition view_ok ::
  "compiledPolicies \<Rightarrow> (string \<rightharpoonup> labels) \<Rightarrow> listed_resource list \<Rightarrow> scan_view \<Rightarrow> bool" where
  "view_ok policies nsLabels results v \<longleftrightarrow>
     distinct (map fst (sv_observations v))
     \<and> (\<forall>u\<in>fst ` set (sv_observations v). \<exists>x\<in>set results. observed_in policies nsLabels u x)
     \<and> (\<forall>gr state. (gr, state) \<in> set (sv_coverage v) \<longrightarrow> cov_success state \<longrightarrow>
          (\<exists>x\<in>set results. covered_by policies nsLabels (fst ` set (sv_observations v)) gr state x))"

lemma view_okD:
  assumes "view_ok policies nsLabels results v"
  shows "distinct (map fst (sv_observations v))"
    and "u \<in> fst ` set (sv_observations v) \<Longrightarrow> \<exists>x\<in>set results. observed_in policies nsLabels u x"
    and "(gr, state) \<in> set (sv_coverage v) \<Longrightarrow> cov_success state \<Longrightarrow>
      \<exists>x\<in>set results. covered_by policies nsLabels (fst ` set (sv_observations v)) gr state x"
  using assms unfolding view_ok_def by blast+

lemma covered_by_mono: "covered_by p n A gr st x \<Longrightarrow> A \<subseteq> B \<Longrightarrow> covered_by p n B gr st x"
  unfolding covered_by_def by (auto split: prod.splits)

lemma view_ok_observe:
  assumes ok: "view_ok policies nsLabels results v" and obs: "sv_observations v0 = sv_observations v" "sv_coverage v0 = sv_coverage v"
    and fold: "foldl (observe_item policies nsLabels r) (sv_observations v, empty_coverage (err = None)) items = (observations, state)"
  shows "view_ok policies nsLabels (results @ [(r, items, err)])
    (v0\<lparr>sv_observations := observations, sv_coverage := AList.update (res_GroupResource r) state (sv_coverage v0)\<rparr>)"
proof -
  note f = items_observedD[OF fold_items_observed[of policies nsLabels r "(sv_observations v, empty_coverage (err = None))" items,
    unfolded fold], unfolded fst_conv snd_conv]
  have cov: "covered_by policies nsLabels (fst ` set observations) (res_GroupResource r) state (r, items, err)" if "cov_success state"
    unfolding covered_by_def prod.case
  proof (intro conjI allI impI, goal_cases)
    case (5 k u)
    from f(5)[OF 5] show ?case by (simp add: empty_coverage_def)
  qed (use f(1,3,4) that in \<open>auto simp: empty_coverage_def\<close>)
  show ?thesis
    unfolding view_ok_def scan_view.simps obs
  proof (intro conjI ballI allI impI, goal_cases)
    case 1
    show ?case using f(2)[OF view_okD(1)[OF ok]] by simp
  next
    case (2 u)
    then have "u \<in> fst ` set observations" by simp
    then consider "u \<in> fst ` set (sv_observations v)" | "observed_in policies nsLabels u (r, items, err)"
      unfolding f(1) observed_in_def prod.case by blast
    then show ?case using view_okD(2)[OF ok] by cases auto
  next
    case (3 gr st)
    then consider "(gr, st) = (res_GroupResource r, state)" | "(gr, st) \<in> set (sv_coverage v)"
      using set_update_subset[of "res_GroupResource r" state "sv_coverage v"] by auto
    then show ?case
    proof cases
      case 1
      with cov 3(2) show ?thesis by simp
    next
      case 2
      from view_okD(3)[OF ok this 3(2)] obtain x where x: "x \<in> set results"
        "covered_by policies nsLabels (fst ` set (sv_observations v)) gr st x" by (rule bexE)
      have "covered_by policies nsLabels (fst ` set observations) gr st x"
        by (rule covered_by_mono[OF x(2)]) (simp add: f(1))
      with x(1) show ?thesis by (intro bexI[of _ x]) simp_all
    qed
  qed
qed

lemma view_ok_failed:
  assumes ok: "view_ok policies nsLabels results v"
    and v': "sv_observations v' = sv_observations v" "sv_coverage v' = AList.update gr (empty_coverage False) (sv_coverage v)"
  shows "view_ok policies nsLabels (results @ [x]) v'"
  unfolding view_ok_def v'
proof (intro conjI ballI allI impI, goal_cases)
  case 1
  show ?case by (rule view_okD(1)[OF ok])
next
  case (2 u)
  from view_okD(2)[OF ok this] show ?case by auto
next
  case (3 gr' st)
  then have "(gr', st) \<in> set (sv_coverage v)"
    using set_update_subset[of gr "empty_coverage False" "sv_coverage v"] by (auto simp: empty_coverage_def)
  from view_okD(3)[OF ok this 3(2)] show ?case by auto
qed

lemma record_listing_ok:
  assumes "view_ok policies nsLabels results v"
  shows "view_ok policies nsLabels (results @ [x]) (record_listing L policies nsLabels v x)"
proof -
  obtain r items err where x: "x = (r, items, err)" by (cases x)
  obtain observations state where fold:
    "foldl (observe_item policies nsLabels r) (sv_observations v, empty_coverage (err = None)) items = (observations, state)"
    by (cases "foldl (observe_item policies nsLabels r) (sv_observations v, empty_coverage (err = None)) items")
  show ?thesis
  proof (cases "\<exists>e. err = Some (ListError e)")
    case True
    then show ?thesis
      unfolding x by (intro view_ok_failed[OF assms, where gr = "res_GroupResource r"]) (auto simp: record_listing_def Let_def)
  next
    case False
    then consider "err = None" | "err = Some TargetBound" by (metis list_error.exhaust not_Some_eq)
    then show ?thesis
      by cases (use view_ok_observe[OF assms _ _ fold] fold in \<open>auto simp: x record_listing_def Let_def\<close>)
  qed
qed

lemma fold_record_listing_ok:
  "view_ok policies nsLabels results v \<Longrightarrow>
   view_ok policies nsLabels (results @ xs) (foldl (record_listing L policies nsLabels) v xs)"
proof (induction xs arbitrary: results v)
  case (Cons x xs)
  from Cons.IH[OF record_listing_ok[OF Cons.prems], of x] show ?case by simp
qed simp

lemma seal_view_ok:
  assumes "view_ok policies nsLabels results v"
  shows "view_ok policies nsLabels results (seal_view cfg v)"
  using assms unfolding view_ok_def seal_view_def by auto

lemma listed_view_ok:
  "view_ok policies nsLabels results (seal_view cfg (foldl (record_listing L policies nsLabels) empty_view results))"
  using fold_record_listing_ok[of policies nsLabels "[]" empty_view results L]
  by (intro seal_view_ok) (simp add: view_ok_def empty_view_def)

section \<open>The scope of a scan\<close>

definition tracks :: "Snapshot \<Rightarrow> DeletionIncident list \<Rightarrow> (GroupResource \<Rightarrow> trackedTargets) \<Rightarrow> bool" where
  "tracks catalog incidents tracked \<longleftrightarrow>
     (\<forall>i\<in>set incidents. is_Phase (di_Status i) \<noteq> IncidentPhaseResolved
        \<longrightarrow> Resolve catalog (target_gr (ds_Target (di_Spec i))) \<noteq> None
        \<longrightarrow> tr_UID (ds_Target (di_Spec i)) \<in> trk_uids (tracked (target_gr (ds_Target (di_Spec i)))))"

definition resolved_by :: "Snapshot \<Rightarrow> (GroupResource \<times> Resource) list \<Rightarrow> bool" where
  "resolved_by catalog selected \<longleftrightarrow> (\<forall>(gr, r)\<in>set selected. Resolve catalog gr = Some r)"

lemma resolved_by_update: "resolved_by catalog al \<Longrightarrow> Resolve catalog gr = Some r \<Longrightarrow> resolved_by catalog (AList.update gr r al)"
  using set_update_subset[of gr r al] unfolding resolved_by_def by auto

lemma policy_resources_resolved: "resolved_by catalog (policy_resources L catalog policies)"
proof -
  have "resolved_by catalog al \<Longrightarrow> resolved_by catalog (foldl (\<lambda>selected gr. case Resolve catalog gr of None \<Rightarrow> selected
      | Some resource \<Rightarrow> AList.update gr resource selected) al grs)" for al grs
    by (induction grs arbitrary: al) (auto split: option.splits intro: resolved_by_update)
  moreover have "resolved_by catalog []" by (simp add: resolved_by_def)
  ultimately show ?thesis unfolding policy_resources_def by blast
qed

lemma track_incident_spec:
  assumes "track_incident catalog (selected, tracked) i = (selected', tracked')"
  shows "resolved_by catalog selected \<Longrightarrow> resolved_by catalog selected'" and "trk_uids (tracked gr) \<subseteq> trk_uids (tracked' gr)"
    and "tracks catalog [i] tracked'"
  using assms unfolding track_incident_def Let_def target_gr_def[symmetric]
  by (auto simp: tracks_def split: if_splits option.splits intro: resolved_by_update)

lemma tracks_mono: "tracks catalog is t \<Longrightarrow> (\<And>gr. trk_uids (t gr) \<subseteq> trk_uids (t' gr)) \<Longrightarrow> tracks catalog is t'"
  unfolding tracks_def by blast

lemma fold_track_incident:
  assumes "foldl (track_incident catalog) (selected, tracked) incidents = (selected', tracked')"
  shows "(resolved_by catalog selected \<longrightarrow> resolved_by catalog selected') \<and> (\<forall>gr. trk_uids (tracked gr) \<subseteq> trk_uids (tracked' gr))
    \<and> tracks catalog incidents tracked'"
  using assms
proof (induction incidents arbitrary: selected tracked)
  case Nil
  then show ?case by (simp add: tracks_def)
next
  case (Cons i incidents)
  obtain s t where st: "track_incident catalog (selected, tracked) i = (s, t)" by (cases "track_incident catalog (selected, tracked) i")
  note spec = track_incident_spec[OF st]
  from Cons.IH[of s t] Cons.prems st
  have ih: "resolved_by catalog s \<longrightarrow> resolved_by catalog selected'" "\<forall>gr. trk_uids (t gr) \<subseteq> trk_uids (tracked' gr)"
    "tracks catalog incidents tracked'" by simp_all
  have "tracks catalog [i] tracked'" using tracks_mono[OF spec(3)] ih(2) by blast
  then have "tracks catalog (i # incidents) tracked'" using ih(3) by (simp add: tracks_def)
  then show ?case using ih(1,2) spec(1,2) by (meson order_trans)
qed

text \<open>
  What a scan returns, in terms of its calls: the results of its workers account for the view, and the
  unresolved incidents it was told about were tracked.
\<close>

definition scan_seen ::
  "Config \<Rightarrow> Snapshot \<Rightarrow> compiledPolicies \<Rightarrow> (string \<rightharpoonup> labels) \<Rightarrow> scan_view \<times> DeletionIncident list option \<Rightarrow> event set \<Rightarrow> bool" where
  "scan_seen cfg catalog policies nsLabels x evs \<longleftrightarrow>
     (\<exists>results tracked resources b.
        budget_le \<lparr>tb_maximum = cfg_MaxTargets cfg, tb_reserved = {}\<rparr> b
        \<and> list_all (result_seen policies nsLabels tracked resources b evs) results
        \<and> view_ok policies nsLabels results (fst x)
        \<and> (\<forall>r\<in>resources. \<exists>gr. Resolve catalog gr = Some r)
        \<and> (\<forall>incidents. snd x = Some incidents \<longrightarrow> tracks catalog incidents tracked))"

lemma resourcesToScan_sees:
  "ensures (\<lambda>_. True)
     (\<lambda>x evs. \<forall>resources tracked incidents. x = Inr (resources, tracked, incidents) \<longrightarrow>
        (\<forall>r\<in>set resources. \<exists>gr. Resolve catalog gr = Some r) \<and> tracks catalog incidents tracked)
     (resourcesToScan L S catalog policies)"
  unfolding resourcesToScan_def scan_call_def Let_def
proof (intro ensures_bind[OF ensures_invoke] ensures_cases ensures_return, goal_cases)
  case (3 r evs incidents selected tracked)
  have "resolved_by catalog selected \<and> tracks catalog incidents tracked"
    using fold_track_incident[OF 3(3)] policy_resources_resolved by blast
  then show ?case by (fastforce simp: resolved_by_def)
qed auto

lemma emits_each_any: "(\<And>x. emits P (f x)) \<Longrightarrow> emits P (each f xs)"
  by (induction xs) (auto intro!: emits_intro)

lemma listTargets_sees: "sees (scan_seen cfg catalog policies nsLabels) (listTargets L S cfg fuel catalog policies nsLabels)"
  unfolding listTargets_def
proof (intro ensures_bind[OF resourcesToScan_sees] yields_rules, goal_cases)
  case (1 x evs err)
  have "view_ok policies nsLabels [] (empty_view\<lparr>sv_errors := [err]\<rparr>)" by (simp add: view_ok_def empty_view_def)
  then show ?case unfolding scan_seen_def by (intro exI[where x = "[]"]) (auto intro: budget_le_refl)
next
  case (2 x evs a resources b tracked incidents)
  then have r: "\<forall>r\<in>set resources. \<exists>gr. Resolve catalog gr = Some r" "tracks catalog incidents tracked" by auto
  show ?case
  proof (rule yields_bind_may[OF run_list_jobs_sees], goal_cases)
    case (1 results evs')
    then obtain b' where b': "budget_le \<lparr>tb_maximum = cfg_MaxTargets cfg, tb_reserved = {}\<rparr> b'"
      "list_all (result_seen policies nsLabels tracked (set (dispatch (se_ListOrder S) resources)) b' evs') results" by blast
    have seen: "list_all (result_seen policies nsLabels tracked (set resources) b' (evs \<union> (evs' \<union> evs''))) results" for evs''
      by (rule list.pred_mono_strong[OF b'(2)]) (auto elim!: result_seen_mono simp: dispatch_def)
    have "scan_seen cfg catalog policies nsLabels
        (seal_view cfg (foldl (record_listing L policies nsLabels) empty_view results), Some incidents) (evs \<union> (evs' \<union> evs''))" for evs''
      unfolding scan_seen_def using b'(1) seen listed_view_ok r by auto blast
    moreover have "emits (\<lambda>_. True) (each count_listing results)"
      by (intro emits_each_any) (simp add: count_listing_def metric_def emits_note)
    ultimately show ?case
      by (intro ensures_bind[OF ensures_emits] yields_give) auto
  qed
qed

section \<open>Conclusions from a scan\<close>

lemma scan_seen_bound:
  assumes "scan_seen cfg catalog policies nsLabels (view, incidents) evs"
  shows "distinct (map fst (sv_observations view))"
    and "int (length (sv_observations view)) \<le> max 0 (cfg_MaxTargets cfg)"
proof -
  from assms obtain results tracked resources b where le: "budget_le \<lparr>tb_maximum = cfg_MaxTargets cfg, tb_reserved = {}\<rparr> b"
    and seen: "list_all (result_seen policies nsLabels tracked resources b evs) results"
    and ok: "view_ok policies nsLabels results view"
    unfolding scan_seen_def by auto
  show d: "distinct (map fst (sv_observations view))" by (rule view_okD(1)[OF ok])
  have b: "finite (tb_reserved b)" "int (card (tb_reserved b)) \<le> max 0 (cfg_MaxTargets cfg)"
    using le by (auto simp: budget_le_def budget_ok_def)
  have "fst ` set (sv_observations view) \<subseteq> tb_reserved b"
  proof
    fix u assume "u \<in> fst ` set (sv_observations view)"
    from view_okD(2)[OF ok this] obtain x where x: "x \<in> set results" "observed_in policies nsLabels u x" by blast
    moreover from x(1) seen have "result_seen policies nsLabels tracked resources b evs x" by (simp add: list_all_iff)
    ultimately show "u \<in> tb_reserved b" by (auto simp: observed_in_def result_seen_def charged_def split: prod.splits)
  qed
  then have "card (fst ` set (sv_observations view)) \<le> card (tb_reserved b)" by (rule card_mono[OF b(1)])
  moreover have "card (fst ` set (sv_observations view)) = length (sv_observations view)"
    using distinct_card[OF d] by simp
  ultimately show "int (length (sv_observations view)) \<le> max 0 (cfg_MaxTargets cfg)" using b(2) by linarith
qed

text \<open>
  Why a target is taken to be gone: its resource type is no longer served, or one served version of its
  resource was listed to the last page, and in that listing its UID does not occur, or occurs only on
  objects that are not in deletion or that no policy selects.
\<close>

definition resolution_justified ::
  "Snapshot \<Rightarrow> compiledPolicies \<Rightarrow> (string \<rightharpoonup> labels) \<Rightarrow> event set \<Rightarrow> TargetReference \<Rightarrow> string \<Rightarrow> bool" where
  "resolution_justified catalog policies nsLabels evs target reason \<longleftrightarrow>
     reason = ''ResourceTypeRemoved'' \<and> Resolve catalog (target_gr target) = None
     \<or> (\<exists>resource version items.
          (\<exists>gr. Resolve catalog gr = Some resource) \<and> res_GroupResource resource = target_gr target
          \<and> version \<in> set (all_versions resource) \<and> page_chain evs (resource_version resource version) [] [] items
          \<and> (if reason \<in> {''TargetAbsent'', ''TargetReplaced''}
             then tr_UID target \<notin> pom_UID ` set items
               \<and> (reason = ''TargetReplaced'' \<longrightarrow>
                    (\<exists>item\<in>set items. objectIdentity (pom_Namespace item) (pom_Name item)
                       = objectIdentity (tr_Namespace target) (tr_Name target)))
             else tr_UID target \<in> pom_UID ` set items
               \<and> (\<forall>item\<in>set items. pom_UID item = tr_UID target \<longrightarrow>
                    \<not> deleting_selected policies nsLabels resource version item)))"

text \<open>A covered resource was listed to the last page, and what was retained of it is in the coverage.\<close>

lemma scan_seen_covered:
  assumes "scan_seen cfg catalog policies nsLabels (view, Some incidents) evs"
    and "i \<in> set incidents" and "is_Phase (di_Status i) \<noteq> IncidentPhaseResolved"
    and "target = ds_Target (di_Spec i)" and "Resolve catalog (target_gr target) \<noteq> None"
    and "map_of (sv_coverage view) (target_gr target) = Some state" and "cov_success state"
  obtains resource version items retained gr where "Resolve catalog gr = Some resource" and "res_GroupResource resource = target_gr target"
    and "version \<in> set (all_versions resource)" and "page_chain evs (resource_version resource version) [] [] items"
    and "set retained \<subseteq> set items" and "cov_allUIDs state = pom_UID ` set retained"
    and "tr_UID target \<in> pom_UID ` set items \<longrightarrow> tr_UID target \<in> cov_allUIDs state"
    and "\<forall>item\<in>set items. deleting_selected policies nsLabels resource version item \<longrightarrow> pom_UID item \<in> fst ` set (sv_observations view)"
    and "\<forall>k u. map_of (cov_identities state) k = Some u \<longrightarrow>
      (\<exists>item\<in>set retained. k = objectIdentity (pom_Namespace item) (pom_Name item) \<and> u = pom_UID item)"
proof -
  from assms(1) obtain results tracked resources b where
    seen: "list_all (result_seen policies nsLabels tracked resources b evs) results"
    and ok: "view_ok policies nsLabels results view" and res: "\<forall>r\<in>resources. \<exists>gr. Resolve catalog gr = Some r"
    and tr: "tracks catalog incidents tracked"
    unfolding scan_seen_def by auto
  from view_okD(3)[OF ok map_of_SomeD[OF assms(6)] assms(7)] obtain x where x: "x \<in> set results"
    "covered_by policies nsLabels (fst ` set (sv_observations view)) (target_gr target) state x" by blast
  obtain r retained err where xe: "x = (r, retained, err)" by (cases x)
  from x(2) have c: "err = None" "res_GroupResource r = target_gr target" "cov_allUIDs state = pom_UID ` set retained"
    "pom_UID ` {item\<in>set retained. deleting_selected policies nsLabels r (res_PreferredVersion r) item} \<subseteq> fst ` set (sv_observations view)"
    "\<forall>k u. map_of (cov_identities state) k = Some u \<longrightarrow>
      (\<exists>item\<in>set retained. k = objectIdentity (pom_Namespace item) (pom_Name item) \<and> u = pom_UID item)"
    unfolding xe covered_by_def by simp_all
  from x(1) seen have "result_seen policies nsLabels tracked resources b evs (r, retained, None)"
    unfolding xe c(1) by (simp add: list_all_iff)
  then obtain resource where resource: "resource \<in> resources" "res_GroupResource r = res_GroupResource resource"
    "res_PreferredVersion r \<in> set (all_versions resource)"
    and "version_listed policies nsLabels resource (res_PreferredVersion r) (tracked (res_GroupResource resource)) [] [] retained evs"
    unfolding result_seen_def by auto
  then obtain items where items: "page_chain evs (resource_version resource (res_PreferredVersion r)) [] [] items"
    and ret: "retains policies nsLabels resource (res_PreferredVersion r) (tracked (target_gr target)) [] items retained"
    unfolding version_listed_def using c(2) by auto
  have uid: "tr_UID target \<in> trk_uids (tracked (target_gr target))"
    using tr assms(2-5) unfolding tracks_def by simp
  have "tr_UID target \<in> cov_allUIDs state" if "tr_UID target \<in> pom_UID ` set items"
    using that ret uid unfolding c(3) retains_def is_tracked_def by auto
  moreover have "pom_UID item \<in> fst ` set (sv_observations view)"
    if "item \<in> set items" "deleting_selected policies nsLabels resource (res_PreferredVersion r) item" for item
    using that ret c(4) unfolding retains_def deleting_selected_cong[OF resource(2)] by blast
  moreover from res resource(1) obtain gr where "Resolve catalog gr = Some resource" by blast
  ultimately show thesis
    using that[of gr resource "res_PreferredVersion r" items retained] resource(2,3) c(2,3,5) items ret
    unfolding retains_def by auto
qed

lemma lifecycle_decision_resolves:
  assumes "lifecycle_decision S observations coverage catalog policies now i = ResolveAs reason"
  defines "target \<equiv> ds_Target (di_Spec i)"
  shows "is_Phase (di_Status i) \<noteq> IncidentPhaseResolved" and "map_of observations (tr_UID target) = None"
    and "Resolve catalog (target_gr target) = None \<and> reason = ''ResourceTypeRemoved''
      \<or> Resolve catalog (target_gr target) \<noteq> None
        \<and> (\<exists>state. map_of coverage (target_gr target) = Some state \<and> cov_success state
             \<and> (if tr_UID target \<in> cov_allUIDs state then reason \<in> {''PolicyNoLongerMatches'', ''TargetNoLongerDeleting''}
                else reason = ''TargetAbsent''
                  \<or> reason = ''TargetReplaced'' \<and> map_of (cov_identities state)
                       (objectIdentity (tr_Namespace target) (tr_Name target)) \<noteq> None))"
  using assms(1) unfolding lifecycle_decision_def Let_def target_gr_def[symmetric] target_def
  by (auto split: if_splits option.splits)

text \<open>The reason of a resolution is the one that the listing shows.\<close>

lemma listing_shows_reason:
  assumes r: "if tr_UID t \<in> cov_allUIDs state then reason \<in> {''PolicyNoLongerMatches'', ''TargetNoLongerDeleting''}
      else reason = ''TargetAbsent'' \<or> reason = ''TargetReplaced''
        \<and> map_of (cov_identities state) (objectIdentity (tr_Namespace t) (tr_Name t)) \<noteq> None"
    and all: "cov_allUIDs state \<subseteq> pom_UID ` set items" and tracked: "tr_UID t \<in> pom_UID ` set items \<longrightarrow> tr_UID t \<in> cov_allUIDs state"
    and ids: "\<forall>k u. map_of (cov_identities state) k = Some u \<longrightarrow> (\<exists>item\<in>set items. k = objectIdentity (pom_Namespace item) (pom_Name item))"
  shows "if reason \<in> {''TargetAbsent'', ''TargetReplaced''}
     then tr_UID t \<notin> pom_UID ` set items
       \<and> (reason = ''TargetReplaced'' \<longrightarrow> (\<exists>item\<in>set items. objectIdentity (pom_Namespace item) (pom_Name item)
            = objectIdentity (tr_Namespace t) (tr_Name t)))
     else tr_UID t \<in> pom_UID ` set items"
proof (cases "tr_UID t \<in> cov_allUIDs state")
  case True
  moreover from this have "reason \<notin> {''TargetAbsent'', ''TargetReplaced''}" using r by auto
  ultimately show ?thesis using all by auto
next
  case False
  then have out: "tr_UID t \<notin> pom_UID ` set items" using tracked by blast
  show ?thesis
  proof (cases "reason = ''TargetReplaced''")
    case True
    with r False obtain u where "map_of (cov_identities state) (objectIdentity (tr_Namespace t) (tr_Name t)) = Some u" by auto
    with ids obtain item where "item \<in> set items"
      "objectIdentity (pom_Namespace item) (pom_Name item) = objectIdentity (tr_Namespace t) (tr_Name t)"
      by metis
    with True out show ?thesis by auto
  qed (use r False out in auto)
qed

lemma scan_resolution:
  assumes seen: "scan_seen cfg catalog policies nsLabels (view, Some incidents) evs" and i: "i \<in> set incidents"
    and dec: "lifecycle_decision S (sv_observations view) (sv_coverage view) catalog policies now i = ResolveAs reason"
  shows "resolution_justified catalog policies nsLabels evs (ds_Target (di_Spec i)) reason"
proof -
  let ?t = "ds_Target (di_Spec i)"
  note d = lifecycle_decision_resolves[OF dec]
  show ?thesis
  proof (cases "Resolve catalog (target_gr ?t)")
    case None
    then show ?thesis using d(3) by (simp add: resolution_justified_def)
  next
    case (Some any)
    with d(3) obtain state where st: "map_of (sv_coverage view) (target_gr ?t) = Some state" "cov_success state"
      and r: "if tr_UID ?t \<in> cov_allUIDs state then reason \<in> {''PolicyNoLongerMatches'', ''TargetNoLongerDeleting''}
        else reason = ''TargetAbsent'' \<or> reason = ''TargetReplaced'' \<and> map_of (cov_identities state)
               (objectIdentity (tr_Namespace ?t) (tr_Name ?t)) \<noteq> None" by auto
    have ne: "Resolve catalog (target_gr ?t) \<noteq> None" using Some by simp
    from seen i d(1) refl ne st show ?thesis
    proof (rule scan_seen_covered)
      fix resource version items retained gr
      assume c: "Resolve catalog gr = Some resource" "res_GroupResource resource = target_gr ?t"
        "version \<in> set (all_versions resource)" "page_chain evs (resource_version resource version) [] [] items"
        "set retained \<subseteq> set items" "cov_allUIDs state = pom_UID ` set retained"
        "tr_UID ?t \<in> pom_UID ` set items \<longrightarrow> tr_UID ?t \<in> cov_allUIDs state"
        "\<forall>item\<in>set items. deleting_selected policies nsLabels resource version item \<longrightarrow> pom_UID item \<in> fst ` set (sv_observations view)"
        "\<forall>k u. map_of (cov_identities state) k = Some u \<longrightarrow>
          (\<exists>item\<in>set retained. k = objectIdentity (pom_Namespace item) (pom_Name item) \<and> u = pom_UID item)"
      have "tr_UID ?t \<notin> fst ` set (sv_observations view)" using d(2) by (simp add: map_of_eq_None_iff)
      then have nd: "\<forall>item\<in>set items. pom_UID item = tr_UID ?t \<longrightarrow> \<not> deleting_selected policies nsLabels resource version item"
        using c(8) by metis
      have "if reason \<in> {''TargetAbsent'', ''TargetReplaced''}
         then tr_UID ?t \<notin> pom_UID ` set items
           \<and> (reason = ''TargetReplaced'' \<longrightarrow> (\<exists>item\<in>set items. objectIdentity (pom_Namespace item) (pom_Name item)
                = objectIdentity (tr_Namespace ?t) (tr_Name ?t)))
         else tr_UID ?t \<in> pom_UID ` set items"
        by (rule listing_shows_reason[OF r]) (use c(5-7,9) in \<open>blast+\<close>)
      with nd have here: "if reason \<in> {''TargetAbsent'', ''TargetReplaced''}
         then tr_UID ?t \<notin> pom_UID ` set items
           \<and> (reason = ''TargetReplaced'' \<longrightarrow> (\<exists>item\<in>set items. objectIdentity (pom_Namespace item) (pom_Name item)
                = objectIdentity (tr_Namespace ?t) (tr_Name ?t)))
         else tr_UID ?t \<in> pom_UID ` set items
           \<and> (\<forall>item\<in>set items. pom_UID item = tr_UID ?t \<longrightarrow> \<not> deleting_selected policies nsLabels resource version item)"
        by (simp split: if_split)
      show ?thesis unfolding resolution_justified_def using c(1-4) here by blast
    qed
  qed
qed

end
