(* ===== verification/Scan_Policies.thy ===== *)
theory Scan_Policies
  imports Scanner Samples
begin

text \<open>
  The policies of a scan: the compile cache changes nothing but the work done, and the sorted list the
  scanner searches picks the policy that the policy engine picks.
\<close>

section \<open>Caches of results that age\<close>

text \<open>
  The contract of a cache whose entries can be brought up to date: an entry made for an item with the
  same key, refreshed while it is still valid for another item, is what the other item would get now.
\<close>

locale ageing_cache =
  fixes key :: "'p \<Rightarrow> 'k" and fresh :: "'c \<Rightarrow> 't \<Rightarrow> 'p \<Rightarrow> 'e" and valid :: "'e \<Rightarrow> 'p \<Rightarrow> bool" and refresh :: "'t \<Rightarrow> 'e \<Rightarrow> 'e"
  assumes refresh_fresh: "key q = key p \<Longrightarrow> valid (fresh c t q) p \<Longrightarrow> refresh t' (fresh c t q) = fresh c t' p"
begin

definition made_for :: "'c \<Rightarrow> ('k \<times> 'e) list \<Rightarrow> bool" where
  "made_for c cache \<longleftrightarrow> (\<forall>(k, e)\<in>set cache. \<exists>q t. k = key q \<and> e = fresh c t q)"

definition cached :: "('k \<times> 'e) list \<Rightarrow> 'c \<Rightarrow> 't \<Rightarrow> 'p \<Rightarrow> 'e" where
  "cached cache c now p =
     (case map_of cache (key p) of
        None \<Rightarrow> fresh c now p
      | Some e \<Rightarrow> if valid e p then refresh now e else fresh c now p)"

lemma made_for_Nil: "made_for c []"
  by (simp add: made_for_def)

lemma made_for_update: "made_for c cache \<Longrightarrow> made_for c (AList.update (key p) (fresh c t p) cache)"
  using set_update_subset[of "key p" "fresh c t p" cache] unfolding made_for_def by fastforce

lemma cached_fresh:
  assumes "made_for c cache"
  shows "cached cache c now p = fresh c now p"
proof (cases "map_of cache (key p)")
  case None
  then show ?thesis by (simp add: cached_def)
next
  case (Some e)
  then have "(key p, e) \<in> set cache" by (rule map_of_SomeD)
  with assms obtain q t where "key p = key q" "e = fresh c t q" unfolding made_for_def by blast
  then show ?thesis using Some refresh_fresh[of q p c t now] by (simp add: cached_def)
qed

end

section \<open>The compile cache\<close>

lemma wp_any: "(\<And>x s'. Q x s') \<Longrightarrow> wp m Q s"
  by (simp add: wp_def)

definition policy_key :: "TerminationPolicy \<Rightarrow> policyCompileCacheKey" where
  "policy_key p = (om_UID (tp_Meta p), om_Name (tp_Meta p))"

definition fresh_entry :: "kube_lib \<Rightarrow> Snapshot \<Rightarrow> time \<Rightarrow> TerminationPolicy \<Rightarrow> policyCompileCacheEntry" where
  "fresh_entry L catalog now p =
     \<lparr>ce_generation = om_Generation (tp_Meta p), ce_spec = tp_Spec p,
      ce_compiled = fst (Compile L (Some p) catalog now), ce_status = snd (Compile L (Some p) catalog now)\<rparr>"

definition entry_valid :: "policyCompileCacheEntry \<Rightarrow> TerminationPolicy \<Rightarrow> bool" where
  "entry_valid e p \<longleftrightarrow> ce_generation e = om_Generation (tp_Meta p) \<and> ce_spec e = tp_Spec p"

lemma validationStatus_refresh:
  "(validationStatus g t se re ce n)\<lparr>ps_LastValidatedTime := Some t',
     ps_Conditions := map (\<lambda>c. c\<lparr>cond_LastTransitionTime := t'\<rparr>) (ps_Conditions (validationStatus g t se re ce n))\<rparr>
   = validationStatus g t' se re ce n"
  by (simp add: validationStatus_def condition_def Let_def)

lemma refresh_fresh_entry:
  assumes "policy_key q = policy_key p" and "entry_valid (fresh_entry L catalog t q) p"
  shows "refresh_entry t' (fresh_entry L catalog t q) = fresh_entry L catalog t' p"
proof -
  have same: "om_UID (tp_Meta q) = om_UID (tp_Meta p)" "om_Name (tp_Meta q) = om_Name (tp_Meta p)"
    "om_Generation (tp_Meta q) = om_Generation (tp_Meta p)" "tp_Spec q = tp_Spec p"
    using assms by (simp_all add: policy_key_def entry_valid_def fresh_entry_def)
  have "Compile L (Some q) catalog u = Compile L (Some p) catalog u" for u
    by (simp add: Compile_def same)
  then have f: "fresh_entry L catalog u q = fresh_entry L catalog u p" for u
    by (simp add: fresh_entry_def same)
  show ?thesis
    unfolding f refresh_entry_def Let_def using Compile_time[of L "Some p" catalog t t'] validationStatus_refresh
    by (simp add: fresh_entry_def) (simp add: Compile_def Let_def validationStatus_refresh)
qed

interpretation policy_cache: ageing_cache policy_key "fresh_entry L" entry_valid refresh_entry for L
  by unfold_locales (rule refresh_fresh_entry)

lemma compile_entry_cached: "compile_entry L cache catalog now p = policy_cache.cached L cache catalog now p"
  unfolding compile_entry_def policy_cache.cached_def Let_def
  by (simp add: fresh_entry_def policy_key_def entry_valid_def split_beta split: option.splits)

text \<open>
  The runner between two cycles: its cache holds what the compiler made of some policies on the catalog
  that it remembers.
\<close>

definition runner_ok :: "kube_lib \<Rightarrow> liveCycleRunner \<Rightarrow> bool" where
  "runner_ok L r \<longleftrightarrow>
     (\<exists>catalog. wf_snapshot catalog \<and> Snapshot_Resources catalog = lr_policyCatalog r
        \<and> policy_cache.made_for L catalog (lr_policyCompileCache r))"

lemma fresh_runner_ok: "lr_policyCompileCache r = [] \<Longrightarrow> lr_policyCatalog r = [] \<Longrightarrow> runner_ok L r"
  unfolding runner_ok_def
  by (intro exI[where x = "newSnapshot []"])
    (simp add: newSnapshot_wf Snapshot_Resources_eq newSnapshot_ordered policy_cache.made_for_Nil)

lemma snapshot_determined:
  "wf_snapshot c \<Longrightarrow> wf_snapshot c' \<Longrightarrow> Snapshot_Resources c = Snapshot_Resources c' \<Longrightarrow> c = c'"
  by (cases c; cases c') (simp add: wf_snapshot_def Snapshot_Resources_eq)

lemma compile_loop_cache:
  assumes "policy_cache.made_for L catalog cache"
  shows "compile_loop L S cache catalog now nextCache result policies = compile_loop L S [] catalog now nextCache result policies"
  by (induction policies arbitrary: nextCache result)
    (simp_all add: compile_entry_cached policy_cache.cached_fresh[OF assms] policy_cache.cached_fresh[OF policy_cache.made_for_Nil])

lemma compile_loop_keeps:
  "policy_cache.made_for L catalog nextCache \<Longrightarrow>
   wp (compile_loop L S [] catalog now nextCache result policies)
     (\<lambda>x _. \<forall>cache' result'. x = Inr (cache', result') \<longrightarrow> policy_cache.made_for L catalog cache') s"
proof (induction policies arbitrary: nextCache result s)
  case Nil
  then show ?case by (auto intro!: wp_return)
next
  case (Cons p policies)
  have made: "policy_cache.made_for L catalog (AList.update (policy_key p) (compile_entry L [] catalog now p) nextCache)"
    using policy_cache.made_for_update[OF Cons.prems]
    by (simp add: compile_entry_cached policy_cache.cached_fresh[OF policy_cache.made_for_Nil])
  show ?case
    unfolding compile_loop.simps Let_def policy_key_def[symmetric]
    by (intro wp_bind, rule wp_any, intro wp_case_option wp_return Cons.IH[OF made]) simp
qed

lemma compilePolicies_cache:
  assumes "runner_ok L r" and "wf_snapshot catalog"
  shows "compilePolicies L S r catalog now = compilePolicies L S (r\<lparr>lr_policyCompileCache := []\<rparr>) catalog now"
proof -
  let ?cache = "if lr_policyCatalog r \<noteq> Snapshot_Resources catalog then [] else lr_policyCompileCache r"
  have "policy_cache.made_for L catalog ?cache"
    using assms snapshot_determined[OF _ assms(2)] by (force simp: runner_ok_def policy_cache.made_for_Nil)
  from compile_loop_cache[OF this] show ?thesis
    unfolding compilePolicies_def Let_def by (simp add: policy_cache.made_for_Nil)
qed

lemma compilePolicies_keeps:
  assumes "wf_snapshot catalog" and "lr_policyCompileCache r = []"
  shows "wp (compilePolicies L S r catalog now) (\<lambda>x _. \<forall>policies r'. x = Inr (policies, r') \<longrightarrow> runner_ok L r') s"
proof -
  have ok: "runner_ok L (r\<lparr>lr_policyCatalog := Snapshot_Resources catalog, lr_policyCompileCache := cache\<rparr>)"
    if "policy_cache.made_for L catalog cache" for cache
    using assms(1) that unfolding runner_ok_def by auto
  show ?thesis
    unfolding compilePolicies_def Let_def assms(2) if_cancel
  proof (rule wp_bind, rule wp_any, intro wp_case_sum wp_return, goal_cases)
    case (2 x s' policies)
    show ?case
      by (rule wp_bind, rule wp_mono[OF compile_loop_keeps[OF policy_cache.made_for_Nil]])
        (auto intro!: ok simp: wp_def split_beta split: sum.splits)
  qed simp
qed

section \<open>The winning policy\<close>

lemma find_winner:
  assumes "sorted_wrt beats ps"
  shows "winner_of (set (map Some ps)) t (find (\<lambda>p. Match (Some p) t) ps)"
  using assms
proof (induction ps)
  case Nil
  show ?case by (simp add: winner_of_def)
next
  case (Cons p ps)
  then show ?case
    by (auto simp: winner_of_def beats_refl split: option.splits dest: find_Some_mem)
qed

text \<open>Sorting by priority keeps policies of the same priority in the order of their names.\<close>

lemma insort_beats:
  assumes "sorted_wrt beats qs" and "\<forall>q\<in>set qs. cp_name p \<le> cp_name q"
  shows "sorted_wrt beats (insort_key (\<lambda>p. - cp_priority p) p qs)"
  using assms
proof (induction qs)
  case (Cons q qs)
  show ?case
  proof (cases "cp_priority q \<le> cp_priority p")
    case True
    then have "beats p q" using Cons.prems(2) by (auto simp: beats_def)
    then show ?thesis using True Cons.prems(1) by (auto intro: beats_trans)
  next
    case False
    then have "beats q p" by (simp add: beats_def)
    then show ?thesis using False Cons by (simp add: set_insort_key)
  qed
qed simp

lemma sort_policies_beats: "sorted_wrt beats (sort_policies ps)"
proof -
  have "sorted_wrt beats (foldr (insort_key (\<lambda>p. - cp_priority p)) qs [])" if "sorted (map cp_name qs)" for qs
    using that by (induction qs) (auto intro!: insort_beats simp: sort_key_def[symmetric])
  from this[OF sorted_sort_key, of ps] show ?thesis unfolding sort_policies_def sort_key_def[symmetric] .
qed

lemma set_sort_policies [simp]: "set (sort_policies ps) = set ps"
  by (simp add: sort_policies_def)

end
