(* ===== verification/Scanner_Properties.thy ===== *)
theory Scanner_Properties
  imports Scanner_Safety Scan_Listing Scan_Policies
begin

text \<open>The properties of the scanner, each with a run that satisfies its hypotheses.\<close>

section \<open>A sample cluster\<close>

text \<open>
  One unresolved incident about a widget that no listing shows any more, one policy, and a server that
  agrees to every write.
\<close>

definition lost_incident :: DeletionIncident where
  "lost_incident =
     \<lparr>di_Meta = zero_ObjectMeta\<lparr>om_Name := ''deletion-gone''\<rparr>,
      di_Spec = \<lparr>ds_Target = \<lparr>tr_APIGroup = gr_Group widgetsGR, tr_Version = ''v1'', tr_Resource = gr_Resource widgetsGR,
                              tr_Kind = ''Widget'', tr_Namespace = ''shop'', tr_Name = ''w'', tr_UID = ''gone''\<rparr>,
                 ds_FirstObservedTime = 1\<rparr>,
      di_Status = zero_DeletionIncidentStatus\<lparr>is_Phase := IncidentPhaseActive\<rparr>\<rparr>"

definition unconfigured_crd :: CustomResourceDefinition where
  "unconfigured_crd =
     \<lparr>crd_Name = ''ns'', crd_Finalizers = [], crd_Group = ''example.io'', crd_Plural = ''gadgets'', crd_Kind = ''Gadget'',
      crd_Versions = [(''v1'', True)], crd_Conversion = Some \<lparr>crc_Strategy = ''Webhook'', crc_Webhook = Some None\<rparr>\<rparr>"

definition quiet_scan :: scan_env where
  "quiet_scan =
     \<lparr>se_env = quiet_env\<lparr>env_GetIncident := \<lambda>_ _. Inr lost_incident\<rparr>, se_TryLock = (\<lambda>_. True), se_LastResult = (\<lambda>_. Some 1),
      se_ListPolicies = (\<lambda>_. Inr [sample_policy]), se_PolicyStatus = (\<lambda>_ _. None), se_ListIncidents = (\<lambda>_. Inr [lost_incident]),
      se_CreateIncident = (\<lambda>_ _. None), se_PatchIncident = (\<lambda>_ i. Inr i), se_IncidentStatus = (\<lambda>_ i. Inr i),
      se_DeleteIncident = (\<lambda>_ _. None), se_ListAPIServices = (\<lambda>_. Inr []), se_ListWebhooks = (\<lambda>_ _. Inr []),
      se_GetCRD = (\<lambda>_ _. Inr unconfigured_crd),
      se_GetService = (\<lambda>_ _ _. Inl (errors_New [])), se_ListEndpointSlices = (\<lambda>_ _ _. Inr []),
      se_GetWorkload = (\<lambda>_ _ _ _. Inl (errors_New [])), se_CtxErr = (\<lambda>_. False), se_ListOrder = (\<lambda>xs. xs),
      se_DiagnoseOrder = (\<lambda>xs. xs), se_Fraction = (\<lambda>f unit k. f * unit div 10 ^ k)\<rparr>"

definition small_config :: Config where
  "small_config = \<lparr>cfg_Interval = minute, cfg_Timeout = minute, cfg_ResourceWorkers = 1, cfg_DiagnosisWorkers = 1,
     cfg_PageSize = 100, cfg_MaxTargets = 10\<rparr>"

definition no_policies :: compiledPolicies where
  "no_policies = \<lparr>cps_items = [], cps_byUID = []\<rparr>"

section \<open>Writes\<close>

lemma added_grounded:
  "list_all (scan_write L (set (added (Coordinator_Start L S r fuel ticks) s))) (added (Coordinator_Start L S r fuel ticks) s)"
proof -
  have "wp (Coordinator_Start L S r fuel ticks) (\<lambda>_ s'. \<exists>es. s' = s @ es \<and> list_all (scan_write L (set es)) es) s"
    using grounded_Start[of L S r fuel ticks] unfolding accounted_def ensures_def wp_def list_all_iff by blast
  then show ?thesis by (rule added_wp)
qed

text \<open>
  C2.  However many cycles the scanner runs and whatever the cluster answers, it never mutates a target and
  never writes to an approval.  Every incident status it writes is either resolved with a time and a known
  reason, or failed without actions and evidence, or active without a resolution; and in an active status
  the evidence is dated exactly when there are actions, each of which is grounded in the calls of the run:
  the target was read with the UID of a request, overdue under the ready policy the status names, and the
  reading or a listing backs the action.  The metrics it sets have the labels documented as bounded.
\<close>

theorem scan_writes_grounded:
  "list_all (scan_write L (set (added (Coordinator_Start L S r fuel ticks) s))) (added (Coordinator_Start L S r fuel ticks) s)"
  by (rule added_grounded)

text \<open>Every metric that a run of the scanner sets belongs to a collector that was registered, with the labels it declares.\<close>

theorem scan_metrics_registered:
  assumes "EvScan (ScMetric name label n) \<in> set (added (Coordinator_Start L S r fuel ticks) s)"
  shows "\<exists>c \<in> set scanner_collectors. col_Name c = name \<and> (label = [] \<longleftrightarrow> col_Labels c = []) \<and> length (col_Labels c) \<le> 1"
  using added_grounded[of L S r fuel ticks s] assms by (intro bounded_metric_registered) (auto simp: list_all_iff)

text \<open>
  C27.  The scanner returns: if the continue tokens of the server advance by some measure, fuel above the
  measure of the first request gives a result after any number of ticks, and more fuel gives the same
  result with the same calls.
\<close>

theorem scan_returns:
  assumes "tokens_advance rank (se_env S)" and "rank [] < fuel"
  shows "\<exists>r' s'. \<forall>fuel'\<ge>fuel. run_state (Coordinator_Start L S r fuel' ticks) s = (Some r', s')"
proof -
  obtain r' s' where run: "run_state (Coordinator_Start L S r fuel ticks) s = (Some r', s')"
    using Start_total[OF assms, of L r ticks] unfolding total_def by (metis not_None_eq prod.collapse)
  have "run_state (Coordinator_Start L S r fuel' ticks) s = (Some r', s')" if "fuel \<le> fuel'" for fuel'
    using Start_extends[OF that, of L S r ticks] run by (simp add: extends_def)
  then show ?thesis by blast
qed

theorem scan_returns_witness:
  "\<exists>r' s'. \<forall>fuel'\<ge>1. run_state (Coordinator_Start sample_lib quiet_scan
     \<lparr>lr_config = small_config, lr_policyCatalog = [], lr_policyCompileCache = []\<rparr> fuel' 3) [] = (Some r', s')"
proof (rule scan_returns)
  show "tokens_advance (\<lambda>_. 0) (se_env quiet_scan)"
    by (simp add: tokens_advance_def quiet_scan_def quiet_env_def empty_page_def)
qed simp

section \<open>Listings\<close>

text \<open>
  C24.  A scan never observes more targets than configured, and never one UID twice: whatever the listings
  return, the observations have distinct UIDs and at most \<open>MaxTargets\<close> entries.
\<close>

theorem scan_within_budget:
  "case fst (run_state (listTargets L S cfg fuel catalog policies nsLabels) s) of
     None \<Rightarrow> True
   | Some (view, incidents) \<Rightarrow> distinct (map fst (sv_observations view))
       \<and> int (length (sv_observations view)) \<le> max 0 (cfg_MaxTargets cfg)"
proof -
  obtain es where "\<forall>x. fst (run_state (listTargets L S cfg fuel catalog policies nsLabels) s) = Some x
      \<longrightarrow> scan_seen cfg catalog policies nsLabels x (set es)"
    using listTargets_sees[of cfg catalog policies nsLabels L S fuel] unfolding ensures_def wp_def by blast
  then show ?thesis using scan_seen_bound by (fastforce split: option.splits)
qed

section \<open>Giving up on a cycle\<close>

text \<open>
  C5.  A cycle that gives up leaves nothing to act on.  When \<open>degraded\<close> adds no error of its own, the
  incidents were listed, and for every one that was not resolved the calls show that it is gone, that it was
  read as resolved or already without actions and evidence, or that the status read was overwritten with a
  failed diagnosis without actions and evidence and the server agreed.
\<close>

theorem degraded_blocks_remediation:
  assumes "run_state (degraded S now v errs reason message) s = (CycleErrors errs, s @ es)"
  shows "\<exists>incidents. EvScan (ScListIncidents (Inr incidents)) \<in> set es
    \<and> (\<forall>i\<in>set incidents. is_Phase (di_Status i) \<noteq> IncidentPhaseResolved \<longrightarrow> incident_blocked (om_Name (di_Meta i)) (set es))"
  using degraded_blocks[of errs S now v reason message, unfolded ensures_def wp_def, rule_format, of s] assms by auto

theorem degraded_blocks_remediation_witness:
  "\<exists>es incidents. run_state (degraded quiet_scan 7 no_view [errors_New ''boom''] ''r'' ''m'') [] = (CycleErrors [errors_New ''boom''], [] @ es)
     \<and> EvScan (ScListIncidents (Inr incidents)) \<in> set es
     \<and> (\<forall>i\<in>set incidents. is_Phase (di_Status i) \<noteq> IncidentPhaseResolved \<longrightarrow> incident_blocked (om_Name (di_Meta i)) (set es))"
proof -
  have "fst (run_state (degraded quiet_scan 7 no_view [errors_New ''boom''] ''r'' ''m'') []) = CycleErrors [errors_New ''boom'']"
    by (simp add: degraded_def failActiveIncidentDiagnoses_def list_incidents_def scan_call_def quiet_scan_def
        failIncidentDiagnosis_def RetryOnConflict_def quiet_env_def get_incident_def write_incident_status_def
        incident_status_update_def lost_incident_def failed_status_def zero_DeletionIncidentStatus_def numeral_eq_Suc split_beta)
  moreover obtain es where "snd (run_state (degraded quiet_scan 7 no_view [errors_New ''boom''] ''r'' ''m'') []) = [] @ es" by simp
  ultimately have run: "run_state (degraded quiet_scan 7 no_view [errors_New ''boom''] ''r'' ''m'') [] = (CycleErrors [errors_New ''boom''], [] @ es)"
    by (simp add: prod_eq_iff)
  from degraded_blocks_remediation[OF this] run show ?thesis by blast
qed

section \<open>Policies\<close>

text \<open>
  C13.  The compile cache is transparent: from a runner whose cache was filled by earlier cycles, compiling the
  policies gives the same policies, the same status writes and the same next runner as compiling every one
  anew, and the next runner's cache is again one that compilation filled.
\<close>

theorem compile_cache_transparent:
  assumes "runner_ok L r" and "wf_snapshot catalog"
  shows "run_state (compilePolicies L S r catalog now) s = run_state (compilePolicies L S (r\<lparr>lr_policyCompileCache := []\<rparr>) catalog now) s
    \<and> (case fst (run_state (compilePolicies L S r catalog now) s) of
          Inl err \<Rightarrow> True
        | Inr (policies, r') \<Rightarrow> runner_ok L r')"
proof -
  note eq = compilePolicies_cache[OF assms, of S now]
  have "wp (compilePolicies L S r catalog now) (\<lambda>x _. \<forall>policies r'. x = Inr (policies, r') \<longrightarrow> runner_ok L r') s"
    unfolding eq by (rule compilePolicies_keeps[OF assms(2)]) simp
  then show ?thesis by (auto simp: eq wp_def split: sum.splits)
qed

definition warm_runner :: liveCycleRunner where
  "warm_runner = \<lparr>lr_config = small_config, lr_policyCatalog = sample_resources,
     lr_policyCompileCache = [(policy_key sample_policy, fresh_entry sample_lib sample_snapshot 0 sample_policy)]\<rparr>"

theorem compile_cache_transparent_witness:
  "runner_ok sample_lib warm_runner
   \<and> run_state (compilePolicies sample_lib quiet_scan warm_runner sample_snapshot 9) []
     = run_state (compilePolicies sample_lib quiet_scan (warm_runner\<lparr>lr_policyCompileCache := []\<rparr>) sample_snapshot 9) []"
proof
  show ok: "runner_ok sample_lib warm_runner"
    unfolding runner_ok_def
    by (intro exI[where x = sample_snapshot])
      (auto simp: sample_snapshot_wf sample_snapshot_resources warm_runner_def policy_cache.made_for_def)
  show "run_state (compilePolicies sample_lib quiet_scan warm_runner sample_snapshot 9) []
     = run_state (compilePolicies sample_lib quiet_scan (warm_runner\<lparr>lr_policyCompileCache := []\<rparr>) sample_snapshot 9) []"
    using compile_cache_transparent[OF ok sample_snapshot_wf] by blast
qed

text \<open>
  C14.  The scanner's choice of a policy is the policy engine's: the first match in the list sorted once per
  cycle is what \<open>SelectWinning\<close> finds in the unsorted list, for policies with distinct names.
\<close>

theorem sorted_selection:
  assumes "inj_on cp_name (set ps)"
  shows "selectWinning \<lparr>cps_items = sort_policies ps, cps_byUID = byUID\<rparr> target = SelectWinning (map Some ps) target"
proof (rule winner_unique)
  show "winner_of (set (map Some ps)) target (selectWinning \<lparr>cps_items = sort_policies ps, cps_byUID = byUID\<rparr> target)"
    using find_winner[OF sort_policies_beats[of ps], of target] by (simp add: selectWinning_def)
  show "winner_of (set (map Some ps)) target (SelectWinning (map Some ps) target)" by (rule SelectWinning_winner)
qed (use assms in \<open>auto dest: inj_onD\<close>)

theorem sorted_selection_witness:
  "selectWinning \<lparr>cps_items = sort_policies [sample_compiled ''b'' 1, sample_compiled ''a'' 1], cps_byUID = []\<rparr> sample_target
   = SelectWinning [Some (sample_compiled ''b'' 1), Some (sample_compiled ''a'' 1)] sample_target"
  using sorted_selection[of "[sample_compiled ''b'' 1, sample_compiled ''a'' 1]" "[]" sample_target]
  by (simp add: inj_on_def sample_compiled_def)

section \<open>A crash\<close>










subsection \<open>The snapshot\<close>









subsection \<open>The cycle\<close>














definition deleted_crd :: observation where
  "deleted_crd =
     \<lparr>obs_target = req_Target (overdue_request crdsGR), obs_policy = ready_policy,
      obs_meta = \<lparr>pom_Name = ''ns'', pom_Namespace = [], pom_UID = ''u'', pom_ResourceVersion = ''7'', pom_Finalizers = [],
        pom_Labels = Map.empty, pom_DeletionTimestamp = Some 10\<rparr>\<rparr>"

lemma deleted_crd_panics:
  "fst (run_state (diagnosisSnapshot quiet_scan sample_snapshot Map.empty [(''u'', deleted_crd)]) []) = Inl SnapshotPanic"
  by (simp add: diagnosisSnapshot_def observed_services_def conversion_service_def and_step_def list_step_def scan_call_def
      unconfigured_crd_def deleted_crd_def quiet_scan_def overdue_request_def webhook_services_def Let_def)

end
