(* ===== verification/Diagnosis_Schema.thy ===== *)
theory Diagnosis_Schema
  imports Diagnosis_Properties Api_Schema Typed_Programs
begin

text \<open>
  What a diagnosis reports satisfies the schema of DeletionIncident: an invariant of the collector that every
  analyzer keeps, given a well-formed request and a server that returns well-formed objects.  The
  validity can only be lost through the summary of omitted evidence, and its two ways are named in the theorem.
\<close>

section \<open>Well-formed inputs\<close>

text \<open>A qualified name, as the API server demands of a finalizer: printable, a prefix of 253 and a name of 63 bytes.\<close>

definition finalizer_ok :: "string \<Rightarrow> bool" where
  "finalizer_ok f \<longleftrightarrow> printable f \<and> length f \<le> 317"

definition item_ok :: "PartialObjectMetadata \<Rightarrow> bool" where
  "item_ok item \<longleftrightarrow> pom_Name item \<noteq> [] \<and> pom_UID item \<noteq> [] \<and> list_all finalizer_ok (pom_Finalizers item)"

definition crd_ok :: "CustomResourceDefinition \<Rightarrow> bool" where
  "crd_ok crd \<longleftrightarrow> crd_Plural crd \<noteq> [] \<and> crd_Kind crd \<noteq> [] \<and> list_all (\<lambda>v. fst v \<noteq> []) (crd_Versions crd)"

definition object_ok :: "Unstructured \<Rightarrow> bool" where
  "object_ok object \<longleftrightarrow>
     obj_Name object \<noteq> [] \<and> list_all finalizer_ok (obj_Finalizers object) \<and> distinct (obj_Finalizers object)
     \<and> (case obj_AsNamespace object of Inl _ \<Rightarrow> True | Inr namespace \<Rightarrow> distinct (ns_SpecFinalizers namespace))
     \<and> (case obj_AsCRD object of Inl _ \<Rightarrow> True | Inr crd \<Rightarrow> crd_ok crd)"

definition version_ok :: "Version \<Rightarrow> bool" where
  "version_ok v \<longleftrightarrow> v_Version v \<noteq> [] \<and> v_Kind v \<noteq> []"

definition resource_ok :: "Resource \<Rightarrow> bool" where
  "resource_ok r \<longleftrightarrow> gr_Resource (res_GroupResource r) \<noteq> [] \<and> list_all version_ok (all_versions r)"

definition policy_ok :: "CompiledPolicy \<Rightarrow> bool" where
  "policy_ok p \<longleftrightarrow>
     (\<forall>finalizer owner. policy_FinalizerOwner (Some p) finalizer = Some owner \<longrightarrow> valid_ControllerReference owner)
     \<and> (set_MaxRisk (cp_settings p) = [] \<or> valid_RiskLevel (set_MaxRisk (cp_settings p)))
     \<and> dp_MaxNamespaceObjects (set_Diagnosis (cp_settings p)) < 2 ^ 31
     \<and> dp_MaxCRDInstances (set_Diagnosis (cp_settings p)) < 2 ^ 31"

section \<open>The invariant of the collector\<close>

text \<open>A finding as an analyzer passes it on; its message may still be too long.\<close>

definition sound_finding :: "Finding \<Rightarrow> bool" where
  "sound_finding f \<longleftrightarrow>
     valid_FindingType (f_Type f) \<and> optional valid_TargetReference (f_ResourceRef f)
     \<and> optional valid_ControllerReference (f_ControllerRef f) \<and> optional (\<lambda>n. 0 \<le> n) (f_Count f)
     \<and> (f_Count f \<noteq> None \<longrightarrow> f_Type f = FindingRemainingResource)"

definition sound :: "collector \<Rightarrow> bool" where
  "sound c \<longleftrightarrow>
     collector_ok c \<and> (\<forall>f \<in> snd ` set (c_findings c). valid_Finding f \<and> sound_finding f)
     \<and> (\<forall>a \<in> snd ` set (c_actions c). valid_RemediationAction a)"

named_theorems sound_rules \<open>rules that keep the invariant of the collector\<close>

lemma stored_valid: "sound_finding f \<Longrightarrow> valid_Finding (stored_finding f) \<and> sound_finding (stored_finding f)"
  using stored_finding_facts(2)[of f]
  by (simp add: valid_Finding_def sound_finding_def max_length_def stored_finding_def Let_def findingID_def)

lemma sound_new: "sound (newCollector p)"
  by (simp add: sound_def collector_ok_new) (simp add: newCollector_def)

lemma sound_addFinding [sound_rules]: "sound c \<Longrightarrow> sound_finding f \<Longrightarrow> sound (addFinding f c)"
  using stored_valid[of f] collector_ok_addFinding[of c f] unfolding sound_def addFinding_alt by auto

lemma sound_addAction [sound_rules]: "sound c \<Longrightarrow> valid_RemediationAction a \<Longrightarrow> sound (addAction a c)"
  using collector_ok_addAction[of c a] unfolding sound_def addAction_alt by auto

lemma sound_foldl [sound_rules]: "sound c \<Longrightarrow> (\<And>c x. sound c \<Longrightarrow> x \<in> set xs \<Longrightarrow> sound (f c x)) \<Longrightarrow> sound (foldl f c xs)"
  by (induction xs arbitrary: c) auto

lemma sound_cases [sound_rules]:
  "(b \<Longrightarrow> sound x) \<Longrightarrow> (\<not> b \<Longrightarrow> sound y) \<Longrightarrow> sound (if b then x else y)"
  "(opt = None \<Longrightarrow> sound n) \<Longrightarrow> (\<And>z. opt = Some z \<Longrightarrow> sound (m z)) \<Longrightarrow> sound (case opt of None \<Rightarrow> n | Some z \<Rightarrow> m z)"
  "(\<And>y z. pair = (y, z) \<Longrightarrow> sound (k y z)) \<Longrightarrow> sound (case pair of (y, z) \<Rightarrow> k y z)"
  by (auto split: option.splits prod.splits)

section \<open>The analyzers\<close>

lemma finding_types [simp]:
  "valid_FindingType FindingBlockingFinalizer" "valid_FindingType FindingRemainingResource"
  "valid_FindingType FindingUnavailableAPIService" "valid_FindingType FindingDiscoveryFailure"
  "valid_FindingType FindingBlockingWebhook" "valid_FindingType FindingMissingFinalizerController"
  "valid_FindingType FindingDeletionGracePeriodExceeded" "valid_FindingType FindingUnknown"
  by (simp_all add: valid_FindingType_def)

lemma sound_findings [simp]:
  "sound_finding (zero_Finding\<lparr>f_Type := t, f_Message := m\<rparr>) = valid_FindingType t"
  "sound_finding (zero_Finding\<lparr>f_Type := t, f_Message := m, f_APIService := s\<rparr>) = valid_FindingType t"
  "sound_finding (zero_Finding\<lparr>f_Type := t, f_Message := m, f_Webhook := w\<rparr>) = valid_FindingType t"
  "sound_finding (zero_Finding\<lparr>f_Type := t, f_Message := m, f_Webhook := w, f_ResourceRef := Some r\<rparr>)
     = (valid_FindingType t \<and> valid_TargetReference r)"
  "sound_finding (zero_Finding\<lparr>f_Type := t, f_Message := m, f_ResourceRef := Some r\<rparr>)
     = (valid_FindingType t \<and> valid_TargetReference r)"
  "sound_finding (zero_Finding\<lparr>f_Type := t, f_Message := m, f_ResourceRef := Some r, f_Finalizer := f\<rparr>)
     = (valid_FindingType t \<and> valid_TargetReference r)"
  "sound_finding (zero_Finding\<lparr>f_Type := t, f_Message := m, f_Finalizer := f, f_ControllerRef := Some o'\<rparr>)
     = (valid_FindingType t \<and> valid_ControllerReference o')"
  "sound_finding (zero_Finding\<lparr>f_Type := FindingRemainingResource, f_Message := m, f_Count := Some n, f_Truncated := True\<rparr>)
     = (0 \<le> n)"
  by (simp_all add: sound_finding_def zero_Finding_def)

lemma sound_analyzeAPIServices [sound_rules]: "sound c \<Longrightarrow> sound (analyzeAPIServices L request c)"
  unfolding analyzeAPIServices_def analyze_api_service_def Let_def by (intro sound_rules) simp_all

lemma sound_analyzeWebhook [sound_rules]:
  "sound c \<Longrightarrow> valid_TargetReference (req_Target request) \<Longrightarrow> sound (analyzeWebhook L request target w c)"
  unfolding analyzeWebhook_def webhook_finding_def Let_def by (intro sound_rules) simp_all

lemma sound_admission [sound_rules]:
  "sound c \<Longrightarrow> valid_TargetReference (req_Target request) \<Longrightarrow> sound (analyzeAdmissionWebhooks L request target c)"
  unfolding analyzeAdmissionWebhooks_def Let_def by (intro sound_rules)

lemma valid_object_reference:
  "valid_TargetReference t \<Longrightarrow> object_ok object \<Longrightarrow> obj_UID object = tr_UID t \<Longrightarrow> valid_TargetReference (object_reference t object)"
  by (simp add: valid_TargetReference_def object_reference_def targetReference_def object_ok_def)

lemma sound_grace [sound_rules]:
  "sound c \<Longrightarrow> valid_TargetReference (object_reference (req_Target request) target) \<Longrightarrow> sound (analyzeGracePeriod request target c)"
  unfolding analyzeGracePeriod_def by (auto split: option.splits intro!: sound_rules)

lemma sound_owner [sound_rules]:
  "sound c \<Longrightarrow> policy_ok (req_Policy request) \<Longrightarrow> sound (analyzeFinalizerOwner L request finalizer c)"
  unfolding analyzeFinalizerOwner_def Let_def by (intro sound_rules) (auto simp: policy_ok_def)

lemma sound_conditions [sound_rules]:
  "sound c \<Longrightarrow> valid_TargetReference t \<Longrightarrow> sound (analyzeNamespaceConditions conds t c)"
  unfolding analyzeNamespaceConditions_def analyze_condition_def
  by (intro sound_rules) (simp_all add: namespace_finding_type_def)

lemma sound_truncation [sound_rules]:
  "sound c \<Longrightarrow> 0 \<le> n \<Longrightarrow> n < 2 ^ 31 \<Longrightarrow> sound (addTruncationFinding n c)"
  "sound c \<Longrightarrow> 0 \<le> n \<Longrightarrow> n < 2 ^ 31 \<Longrightarrow> sound (addCRDTruncationFinding n c)"
  unfolding addTruncationFinding_def addCRDTruncationFinding_def by (auto intro!: sound_rules simp: wrap32_id)

lemma sound_conversion [sound_rules]: "sound c \<Longrightarrow> sound (snd (analyzeCRDConversion request crd c))"
  unfolding analyzeCRDConversion_def conversion_finding_def Let_def
  by (auto split: option.splits prod.splits intro!: sound_rules)

subsection \<open>Actions\<close>

lemma valid_risk: "valid_RiskLevel (RiskFor t f)"
  by (simp add: RiskFor_def valid_RiskLevel_def)

lemma eligibility_reason: "policy_ok p \<Longrightarrow> length (snd (ActionEligibility (Some p) t f)) \<le> 512"
proof -
  assume p: "policy_ok p"
  have "length risk \<le> 8" if "valid_RiskLevel risk" for risk
    using that by (auto simp: valid_RiskLevel_def RiskNone_def RiskLow_def RiskMedium_def RiskHigh_def RiskCritical_def)
  then have "length (RiskFor t f) \<le> 8" "length (set_MaxRisk (cp_settings p)) \<le> 8"
    using p by (auto simp: valid_risk policy_ok_def)
  then show ?thesis by (simp add: ActionEligibility_def Let_def)
qed

lemma valid_newAction:
  assumes "policy_ok p" and "valid_TargetReference ref" and "valid_RemediationActionType t" and "length reason \<le> 1024"
  shows "valid_RemediationAction (newAction p t ref f v reason)"
proof -
  have "a_IneligibleReason (newAction p t ref f v reason) = snd (ActionEligibility (Some p) t f)"
    by (simp add: newAction_def split: prod.splits)
  then show ?thesis
    using assms eligibility_reason[of p t f] valid_risk
    by (simp add: valid_RemediationAction_def max_length_bytes actionID_def policy_ok_def)
qed

lemma action_types [simp]:
  "valid_RemediationActionType ActionRemoveResourceFinalizer" "valid_RemediationActionType ActionRemoveCRDFinalizer"
  "valid_RemediationActionType ActionForceFinalizeNamespace"
  by (simp_all add: valid_RemediationActionType_def)

lemma finalizer_quoted: "finalizer_ok f \<Longrightarrow> length (quote isPrint f) \<le> 636"
  using quote_printable[of f isPrint] by (simp add: finalizer_ok_def)

lemma quoted_reason: "finalizer_ok f \<Longrightarrow> length prefix + length suffix \<le> 388 \<Longrightarrow>
   length (prefix @ quote isPrint f @ suffix) \<le> 1024" "finalizer_ok f \<Longrightarrow> length prefix \<le> 388 \<Longrightarrow>
   length (prefix @ quote isPrint f) \<le> 1024"
  using finalizer_quoted[of f isPrint] by simp_all

lemma sound_metadata_finalizers [sound_rules]:
  assumes "sound c" and "policy_ok (req_Policy request)" and "valid_TargetReference (req_Target request)"
    and "valid_TargetReference (object_reference (req_Target request) target)" and "list_all finalizer_ok (obj_Finalizers target)"
  shows "sound (analyzeMetadataFinalizers L request target crd c)"
  unfolding analyzeMetadataFinalizers_def analyze_finalizer_def Let_def
  using assms by (intro sound_rules valid_newAction quoted_reason) (auto simp: list_all_iff)

section \<open>Listings\<close>

text \<open>
  The server: objects have names, UIDs and finalizers as the API demands, a page has no more items than were
  asked for, and a definition names its resource and versions.
\<close>

definition orderly_server :: "env \<Rightarrow> bool" where
  "orderly_server E \<longleftrightarrow>
     (\<forall>log gvr ns tok lim page. env_ListMeta E log gvr ns tok lim = Inr page \<longrightarrow>
        length (page_Items page) \<le> lim \<and> list_all item_ok (page_Items page))
     \<and> (\<forall>log gvr ns name object. env_DynGet E log gvr ns name = Inr object \<longrightarrow> object_ok object)"

definition catalog_ok :: "Snapshot \<Rightarrow> bool" where
  "catalog_ok s \<longleftrightarrow>
     list_all resource_ok (Snapshot_Resources s) \<and> int (length (Snapshot_Resources s)) < 2 ^ 31
     \<and> list_all (\<lambda>(_, r). resource_ok r) (sn_resources s)"

lemma catalog_Resolve: "catalog_ok s \<Longrightarrow> Resolve s gr = Some r \<Longrightarrow> resource_ok r"
  by (auto simp: catalog_ok_def Resolve_def list_all_iff dest!: map_of_SomeD)

lemma resource_versions: "resource_ok r \<Longrightarrow> v \<in> set (OrderedVersions r q) \<Longrightarrow> version_ok v"
  using OrderedVersions_subset[of r q] by (auto simp: resource_ok_def list_all_iff)

abbreviation returns :: "('a \<Rightarrow> bool) \<Rightarrow> 'a option io \<Rightarrow> bool" where
  "returns R m \<equiv> gives (\<lambda>_. True) (optional R) m"

lemma gives_give [gives_intro]: "R x \<Longrightarrow> gives P (optional R) (give x)"
  unfolding give_def by (intro gives_return) simp

lemma gives_none [gives_intro]: "gives P (optional R) (State_Monad.return None)"
  by (intro gives_return) simp

lemma gives_bind_may:
  "gives P (optional R) m \<Longrightarrow> (\<And>x. R x \<Longrightarrow> gives P (optional S) (f x)) \<Longrightarrow> gives P (optional S) (bind_may m f)"
  unfolding bind_may_def by (erule gives_bind) (auto intro!: gives_intro split: option.splits)

lemma gives_page:
  assumes "orderly_server E" and "\<And>r. P (EvListMeta gvr ns tok lim r)"
  shows "gives P (\<lambda>r. \<forall>page. r = Inr page \<longrightarrow> length (page_Items page) \<le> lim \<and> list_all item_ok (page_Items page))
    (list_meta E gvr ns tok lim)"
  using assms unfolding list_meta_def orderly_server_def by (intro gives_invoke) auto

lemma gives_object:
  assumes "orderly_server E"
  shows "gives (\<lambda>_. True) (\<lambda>r. \<forall>object. r = Inr object \<longrightarrow> object_ok object) (dyn_get E gvr ns n)"
  using assms unfolding dyn_get_def orderly_server_def by (intro gives_invoke) auto

definition page_ok :: "int \<Rightarrow> ApiError + PartialObjectMetadata list \<times> bool \<Rightarrow> bool" where
  "page_ok maximum r \<longleftrightarrow>
     (case r of Inl _ \<Rightarrow> True | Inr (items, _) \<Rightarrow> list_all item_ok items \<and> int (length items) \<le> maximum)"

lemma returns_list_pages:
  assumes E: "orderly_server E"
  shows "list_all item_ok items \<Longrightarrow> int (length items) \<le> maximum \<Longrightarrow>
    returns (page_ok maximum) (list_pages E gvr ns maximum items tok fuel)"
proof (induction fuel arbitrary: items tok)
  case (Suc fuel)
  show ?case
    unfolding list_pages.simps Let_def using Suc.prems
    by (intro gives_intro gives_bind[OF gives_page[OF E TrueI]] Suc.IH) (auto simp: page_ok_def)
qed (simp add: gives_intro)

definition listing_ok :: "int \<Rightarrow> listing \<Rightarrow> bool" where
  "listing_ok maximum x \<longleftrightarrow>
     (case x of (items, version, _) \<Rightarrow> list_all item_ok items \<and> int (length items) \<le> maximum \<and> version_ok version)"

lemma returns_list_versions:
  assumes E: "orderly_server E" and "version_ok (res_PreferredVersion resource)" and "0 \<le> maximum"
  shows "list_all version_ok versions \<Longrightarrow>
    returns (listing_ok maximum) (list_versions E fuel resource ns maximum err versions)"
proof (induction versions arbitrary: err)
  case (Cons version versions)
  show ?case
    unfolding list_versions.simps using Cons.prems assms(3)
    by (intro gives_intro gives_bind_may[OF returns_list_pages[OF E]] Cons.IH) (auto simp: page_ok_def listing_ok_def)
qed (use assms in \<open>auto simp: listing_ok_def intro!: gives_intro\<close>)

lemma returns_listNamespaceResource:
  assumes "orderly_server E" and "resource_ok resource" and "0 \<le> maximum"
  shows "returns (listing_ok maximum) (listNamespaceResource E fuel resource ns maximum)"
  unfolding listNamespaceResource_def
proof (rule returns_list_versions[OF assms(1) _ assms(3)])
  show "version_ok (res_PreferredVersion resource)" using assms(2) by (simp add: resource_ok_def all_versions_def)
  show "list_all version_ok (OrderedVersions resource (v_Version (res_PreferredVersion resource)))"
    using resource_versions[OF assms(2)] by (simp add: list_all_iff)
qed

section \<open>Remaining objects of a namespace\<close>

lemma valid_metadataReference:
  "resource_ok r \<Longrightarrow> version_ok v \<Longrightarrow> item_ok item \<Longrightarrow>
   valid_TargetReference (metadataReference (r\<lparr>res_PreferredVersion := v\<rparr>) item)"
  by (simp add: valid_TargetReference_def metadataReference_def resource_ok_def version_ok_def item_ok_def)

lemma sound_namespace_item:
  assumes "sound c" and "policy_ok (req_Policy request)" and "resource_ok r" and "version_ok v" and "item_ok item"
  shows "sound (namespace_item L request r v c item)"
proof -
  note ref = valid_metadataReference[OF assms(3-5)]
  show ?thesis
    unfolding namespace_item_def item_finalizer_def Let_def using assms ref
    by (intro sound_rules valid_newAction quoted_reason) (auto simp: item_ok_def list_all_iff)
qed

text \<open>What the analyzers hand on: the result so far with its snapshot of the target, and the collector.\<close>

definition analysis_ok :: "Result \<times> collector \<Rightarrow> bool" where
  "analysis_ok x \<longleftrightarrow> valid_TargetSnapshot (dg_TargetSnapshot (fst x)) \<and> sound (snd x)"

lemma returns_enumerate:
  assumes E: "orderly_server E" and p: "policy_ok (req_Policy request)" and m: "maxObjects < 2 ^ 31"
  shows "list_all resource_ok resources \<Longrightarrow> analysis_ok (result, c) \<Longrightarrow> 0 \<le> observed \<Longrightarrow> observed \<le> max 0 maxObjects \<Longrightarrow>
    returns analysis_ok (enumerate_resources L E fuel request maxObjects observed result c resources)"
proof (induction resources arbitrary: observed result c)
  case (Cons resource resources)
  have items: "sound (foldl (namespace_item L request resource version) c items)"
    if "list_all item_ok items" "version_ok version" for items version
    using that Cons.prems p by (intro sound_rules sound_namespace_item) (auto simp: list_all_iff analysis_ok_def)
  have step: "returns analysis_ok (case x of (items, version, truncated, err) \<Rightarrow>
      case err of
        Some e \<Rightarrow> enumerate_resources L E fuel request maxObjects observed (result\<lparr>dg_DiagnosisComplete := False\<rparr>)
          (addFinding (zero_Finding\<lparr>f_Type := FindingDiscoveryFailure,
             f_Message := ''list '' @ lib_GroupResourceString L (res_GroupResource resource) @ '' in Namespace ''
               @ quote (lib_IsPrint L) (tr_Name (req_Target request)) @ '': '' @ ae_Text e\<rparr>) c) resources
      | None \<Rightarrow>
          (let c' = foldl (namespace_item L request resource version) c items;
               observed' = observed + int (length items)
           in if truncated \<or> (observed' \<ge> maxObjects \<and> hasLaterNamespacedResource resources)
              then give (result\<lparr>dg_DiagnosisComplete := False\<rparr>, addTruncationFinding observed' c')
              else enumerate_resources L E fuel request maxObjects observed' result c' resources))"
    if "listing_ok (maxObjects - observed) x" for x
    unfolding Let_def using that Cons.prems m
    by (intro gives_intro Cons.IH) (auto simp: analysis_ok_def listing_ok_def items sound_truncation sound_addFinding)
  show ?case
    unfolding enumerate_resources.simps Let_def
    by (intro gives_intro Cons.IH gives_bind_may[OF returns_listNamespaceResource[OF E]] step[unfolded Let_def])
      (use Cons.prems m in \<open>auto simp: analysis_ok_def intro!: sound_rules\<close>)
qed (simp add: gives_intro)

lemma returns_diagnoseNamespace:
  assumes E: "orderly_server E" and p: "policy_ok (req_Policy request)" and "valid_TargetReference (req_Target request)"
    and "object_ok target" and "obj_UID target = tr_UID (req_Target request)" and "catalog_ok (dsn_Catalog (req_Snapshot request))"
    and "analysis_ok (result, c)"
  shows "returns analysis_ok (diagnoseNamespace L E fuel request target result c)"
proof -
  note ref = valid_object_reference[OF assms(3-5)]
  have c: "sound (analyzeNamespaceConditions conds (req_Target request)
      (analyzeMetadataFinalizers L request target False (analyzeGracePeriod request target c)))" for conds
    using assms ref by (intro sound_rules) (simp_all add: object_ok_def analysis_ok_def)
  show ?thesis
    unfolding diagnoseNamespace_def enumerateNamespace_def Let_def
    by (intro gives_intro gives_bind_may[OF returns_enumerate[OF E p]])
      (use assms c in \<open>auto simp: analysis_ok_def object_ok_def valid_TargetSnapshot_def policy_ok_def catalog_ok_def sound_addFinding
         intro!: sound_addAction valid_newAction\<close>)
qed

section \<open>Instances of a definition\<close>

lemma sound_crd_items:
  assumes "crd_ok crd" and "version \<noteq> []" and "maxInstances < 2 ^ 31"
  shows "list_all item_ok items \<Longrightarrow> sound (cs_collector st) \<Longrightarrow> 0 \<le> cs_retained st \<Longrightarrow> cs_retained st \<le> max 0 maxInstances \<Longrightarrow>
    (case crd_items L crd maxInstances version st items of
       Inl c \<Rightarrow> sound c
     | Inr st' \<Rightarrow> sound (cs_collector st') \<and> 0 \<le> cs_retained st' \<and> cs_retained st' \<le> max 0 maxInstances)"
proof (induction items arbitrary: st)
  case (Cons item items)
  have "valid_TargetReference \<lparr>tr_APIGroup = crd_Group crd, tr_Version = version, tr_Resource = crd_Plural crd,
      tr_Kind = crd_Kind crd, tr_Namespace = pom_Namespace item, tr_Name = pom_Name item, tr_UID = pom_UID item\<rparr>"
    using assms Cons.prems(1) by (simp add: valid_TargetReference_def crd_ok_def item_ok_def)
  moreover have "sound (addCRDTruncationFinding (cs_retained st) (cs_collector st))"
    using Cons.prems assms(3) by (intro sound_truncation) auto
  ultimately show ?case
    using Cons.prems by (auto intro!: Cons.IH sound_addFinding)
qed simp

definition scan_ok :: "int \<Rightarrow> crd_scan \<Rightarrow> bool" where
  "scan_ok maxInstances st \<longleftrightarrow> sound (cs_collector st) \<and> 0 \<le> cs_retained st \<and> cs_retained st \<le> max 0 maxInstances"

lemma returns_crd_pages:
  assumes E: "orderly_server E" and crd: "crd_ok crd" "version \<noteq> []" "maxInstances < 2 ^ 31"
  shows "scan_ok maxInstances st \<Longrightarrow>
    returns (\<lambda>r. case r of Inl c \<Rightarrow> sound c | Inr st \<Rightarrow> scan_ok maxInstances st)
      (crd_pages L E crd maxInstances version st tok fuel)"
proof (induction fuel arbitrary: st tok)
  case (Suc fuel)
  have items: "crd_items L crd maxInstances version st (page_Items page) = Inl c \<Longrightarrow> sound c"
    "crd_items L crd maxInstances version st (page_Items page) = Inr st' \<Longrightarrow> scan_ok maxInstances st'"
    if "list_all item_ok (page_Items page)" for page c st'
    using sound_crd_items[OF crd that, of st L] Suc.prems by (simp_all add: scan_ok_def)
  have failed: "scan_ok maxInstances (st\<lparr>cs_complete := False,
      cs_collector := addFinding (zero_Finding\<lparr>f_Type := FindingDiscoveryFailure, f_Message := m\<rparr>) (cs_collector st)\<rparr>)" for m
    using Suc.prems by (simp add: scan_ok_def sound_addFinding)
  show ?case
    unfolding crd_pages.simps
    by (intro gives_intro gives_bind[OF gives_page[OF E TrueI]] Suc.IH) (auto simp: failed items)
qed (simp add: gives_intro)

lemma returns_crd_versions:
  assumes E: "orderly_server E" and crd: "crd_ok crd" "maxInstances < 2 ^ 31"
  shows "list_all (\<lambda>v. v \<noteq> []) versions \<Longrightarrow> scan_ok maxInstances st \<Longrightarrow>
    returns (\<lambda>(_, c). sound c) (crd_versions L E fuel crd maxInstances st versions)"
proof (induction versions arbitrary: st)
  case (Cons version versions)
  then have v: "version \<noteq> []" by simp
  show ?case
    unfolding crd_versions.simps using Cons.prems
    by (intro gives_bind_may[OF returns_crd_pages[OF E crd(1) v crd(2)]] gives_intro Cons.IH) auto
qed (simp add: gives_intro scan_ok_def)

lemma returns_diagnoseCRD:
  assumes E: "orderly_server E" and p: "policy_ok (req_Policy request)" and "valid_TargetReference (req_Target request)"
    and "object_ok target" and "obj_UID target = tr_UID (req_Target request)" and "analysis_ok (result, c)"
  shows "returns analysis_ok (diagnoseCRD L E fuel request target result c)"
proof -
  note ref = valid_object_reference[OF assms(3-5)]
  have c: "sound (analyzeMetadataFinalizers L request target True (analyzeGracePeriod request target c))"
    using assms ref by (intro sound_rules) (simp_all add: object_ok_def analysis_ok_def)
  have "returns (\<lambda>(_, c). sound c) (enumerateCRDInstances L E fuel crd
      (dp_MaxCRDInstances (set_Diagnosis (policy_Settings (Some (req_Policy request))))) c')"
    if "obj_AsCRD target = Inr crd" "sound c'" for crd c'
    unfolding enumerateCRDInstances_def using that assms(4) p
    by (intro returns_crd_versions[OF E])
      (auto simp: object_ok_def policy_ok_def scan_ok_def crd_ok_def served_versions_def list_all_iff)
  moreover have "sound c4" if "analyzeCRDConversion request crd c3 = (b, c4)" "sound c3" for crd c3 b c4
    using sound_conversion[OF that(2), of request crd] that(1) by simp
  ultimately show ?thesis
    unfolding diagnoseCRD_def Let_def using assms c
    by (auto simp: analysis_ok_def intro!: gives_intro gives_bind_may[where R = "\<lambda>(_, c). sound c"] sound_addFinding sound_addAction valid_newAction
        split: sum.splits prod.splits)
qed

section \<open>What is reported\<close>

text \<open>The part of the schema of a DeletionIncident status that is about evidence.\<close>

definition evidence_valid :: "Finding list \<Rightarrow> RemediationAction list \<Rightarrow> bool" where
  "evidence_valid findings actions \<longleftrightarrow>
     length findings \<le> 513 \<and> list_all valid_Finding findings \<and> distinct (map f_ID findings)
     \<and> length actions \<le> 256 \<and> list_all valid_RemediationAction actions \<and> distinct (map a_ID actions)"

text \<open>
  The summary of omitted evidence is not added through the collector, so its count may wrap around and its
  identifier may collide with that of another finding.
\<close>

definition spoiled_summary :: "Finding list \<Rightarrow> bool" where
  "spoiled_summary findings \<longleftrightarrow>
     (\<exists>n. overflow_summary n \<in> set findings
        \<and> (2 ^ 31 \<le> n \<or> (\<exists>f\<in>set findings. f \<noteq> overflow_summary n \<and> f_ID f = f_ID (overflow_summary n))))"

lemma evidence_valid_Nil [simp]: "evidence_valid [] []"
  by (simp add: evidence_valid_def)

lemma distinct_sort_key: "distinct (map f (sort_key f xs)) = distinct (map f xs)"
proof -
  have "mset (map f (sort_key f xs)) = mset (map f xs)" by simp
  then show ?thesis by (rule mset_eq_imp_distinct_iff)
qed

lemma collector_ids:
  assumes "collector_ok c"
  shows "map f_ID (map snd (c_findings c)) = map fst (c_findings c)" "map a_ID (map snd (c_actions c)) = map fst (c_actions c)"
  using assms by (auto simp: collector_ok_def list_all_iff)

lemma valid_summary:
  "n < 2 ^ 31 \<Longrightarrow> valid_Finding (overflow_summary n)" "\<not> sound_finding (overflow_summary n)"
proof -
  have "length ''diagnostic evidence exceeded the persisted status budget'' \<le> 1024" by simp
  then have "max_length 1024 ''diagnostic evidence exceeded the persisted status budget''" by (rule max_length_bytes)
  then show "n < 2 ^ 31 \<Longrightarrow> valid_Finding (overflow_summary n)"
    by (simp add: valid_Finding_def overflow_summary_def Let_def findingID_def zero_Finding_def wrap32_id)
  show "\<not> sound_finding (overflow_summary n)"
    by (simp add: sound_finding_def overflow_summary_def Let_def zero_Finding_def go_enum)
qed

lemma sorted_valid:
  assumes c: "sound c" and s: "collector_sorted c = (findings, actions, overflow)"
  shows "evidence_valid findings actions \<or> spoiled_summary findings"
proof -
  have ok: "collector_ok c" using c by (simp add: sound_def)
  note ids = collector_ids[OF ok]
  have actions: "actions = sort_key a_ID (map snd (c_actions c))"
    and findings: "findings = sort_key f_ID (map snd (c_findings c)
      @ (if overflow then [overflow_summary (c_omittedFindings c + c_omittedActions c)] else []))"
    using s by (auto simp: collector_sorted_def Let_def)
  have a: "length actions \<le> 256 \<and> list_all valid_RemediationAction actions \<and> distinct (map a_ID actions)"
    using ok c unfolding actions distinct_sort_key ids
    by (auto simp: collector_ok_def maxPersistedActions_def sound_def list_all_iff)
  have stored: "length (c_findings c) \<le> 512" "distinct (map fst (c_findings c))"
    "\<forall>f \<in> snd ` set (c_findings c). valid_Finding f \<and> sound_finding f"
    using ok c by (auto simp: collector_ok_def maxPersistedFindings_def sound_def)
  show ?thesis
  proof (cases "overflow \<and> \<not> spoiled_summary findings")
    case True
    let ?s = "overflow_summary (c_omittedFindings c + c_omittedActions c)"
    have set: "set findings = snd ` set (c_findings c) \<union> {?s}" using True by (simp add: findings)
    then have small: "c_omittedFindings c + c_omittedActions c < 2 ^ 31"
      and fresh: "\<forall>f \<in> snd ` set (c_findings c). f_ID f \<noteq> f_ID ?s"
      using True stored(3) valid_summary(2) unfolding spoiled_summary_def by (force simp: not_le)+
    have "f_ID ?s \<notin> set (map fst (c_findings c))" using fresh unfolding ids(1)[symmetric] by auto
    then have "distinct (map f_ID findings)"
      unfolding findings distinct_sort_key map_append ids(1) using True stored(2) by simp
    moreover have "list_all valid_Finding findings" using stored(3) valid_summary(1)[OF small] by (auto simp: list_all_iff set)
    moreover have "length findings \<le> 513" using stored(1) True by (simp add: findings)
    ultimately show ?thesis using a by (simp add: evidence_valid_def)
  next
    case False
    moreover have "evidence_valid findings actions" if "\<not> overflow"
    proof -
      have "distinct (map f_ID findings)" unfolding findings distinct_sort_key map_append ids(1) using that stored(2) by simp
      then show ?thesis using a stored that by (auto simp: evidence_valid_def findings list_all_iff)
    qed
    ultimately show ?thesis by blast
  qed
qed

definition result_valid :: "Result \<Rightarrow> bool" where
  "result_valid r \<longleftrightarrow>
     valid_TargetSnapshot (dg_TargetSnapshot r)
     \<and> (evidence_valid (dg_Findings r) (dg_Actions r) \<or> spoiled_summary (dg_Findings r))"

lemma result_valid_finish: "analysis_ok x \<Longrightarrow> result_valid (finish_diagnosis x)"
  using sorted_valid[of "snd x"]
  by (cases x; cases "collector_sorted (snd x)")
    (auto simp: analysis_ok_def finish_diagnosis_def result_valid_def evidence_valid_def Let_def)

lemma result_valid_empty:
  "dg_Findings r = [] \<Longrightarrow> dg_Actions r = [] \<Longrightarrow> valid_TargetSnapshot (dg_TargetSnapshot r) \<Longrightarrow> result_valid r"
  by (simp add: result_valid_def)

lemma no_evidence [simp]:
  "dg_Findings zero_Result = []" "dg_Actions zero_Result = []" "valid_TargetSnapshot (dg_TargetSnapshot zero_Result)"
  by (simp_all add: zero_Result_def zero_TargetSnapshot_def valid_TargetSnapshot_def)

lemma returns_diagnose_object:
  assumes E: "orderly_server E" and p: "policy_ok (req_Policy request)" and "valid_TargetReference (req_Target request)"
    and "object_ok target" and "catalog_ok (dsn_Catalog (req_Snapshot request))"
  shows "returns result_valid (diagnose_object L E fuel request target)"
proof -
  have c: "sound (if dp_CheckWebhooks d then analyzeAdmissionWebhooks L request target c1 else c1)" if "sound c1" for d c1
    using that assms(3) by (intro sound_rules)
  have c1: "sound (if dp_CheckAPIServices d then analyzeAPIServices L request (newCollector q) else newCollector q)" for d q
    by (intro sound_rules sound_new)
  have "returns analysis_ok (analyze_target L E fuel request target r)"
    if "obj_UID target = tr_UID (req_Target request)" "valid_TargetSnapshot (dg_TargetSnapshot r)" for r
  proof -
    note ref = valid_object_reference[OF assms(3,4) that(1)]
    show ?thesis
      unfolding analyze_target_def Let_def
      by (intro gives_intro returns_diagnoseNamespace[OF assms(1-4) that(1) assms(5)] returns_diagnoseCRD[OF assms(1-4) that(1)])
        (use assms ref that c[OF c1] in \<open>auto simp: analysis_ok_def diagnoseGeneric_def object_ok_def intro!: sound_rules sound_new\<close>)
  qed
  then show ?thesis
    unfolding diagnose_object_def Let_def
    by (intro gives_intro gives_bind_may[where R = analysis_ok])
      (use assms(4) in \<open>auto simp: result_valid_finish zero_Result_def zero_TargetSnapshot_def valid_TargetSnapshot_def object_ok_def sortedCopy_def
         intro!: result_valid_empty\<close>)
qed

text \<open>The target as it was read: a well-formed object under a named version.\<close>

definition read_object :: "get_answer \<Rightarrow> bool" where
  "read_object x \<longleftrightarrow> (case x of (obj, gvr, _) \<Rightarrow> optional (\<lambda>object. object_ok object \<and> gvr_Version gvr \<noteq> []) obj)"

lemma gives_getTarget:
  assumes E: "orderly_server E" and "valid_TargetReference (req_Target request)" and "catalog_ok (dsn_Catalog (req_Snapshot request))"
  shows "gives (\<lambda>_. True) read_object (getTarget E request)"
proof -
  have "list_all version_ok versions \<Longrightarrow> gives (\<lambda>_. True) read_object (get_versions E t gr e versions)" for t gr e versions
    by (induction versions arbitrary: e)
      (auto simp: read_object_def WithVersion_def version_ok_def intro!: gives_intro gives_bind[OF gives_object[OF E]])
  moreover have "list_all version_ok (OrderedVersions resource q)" if "Resolve (dsn_Catalog (req_Snapshot request)) gr = Some resource"
    for resource gr q
    using resource_versions[OF catalog_Resolve[OF assms(3) that]] by (simp add: list_all_iff)
  ultimately show ?thesis
    unfolding getTarget_def Let_def using assms(2)
    by (intro gives_intro gives_bind[OF gives_object[OF E]])
      (auto simp: read_object_def WithVersion_def valid_TargetReference_def)
qed

lemma valid_observed_target:
  assumes "valid_TargetReference t" and "catalog_ok (dsn_Catalog s)" and "version \<noteq> []"
  shows "valid_TargetReference (observed_target s t version)"
  using assms resource_versions[OF catalog_Resolve[OF assms(2)]]
  by (auto simp: observed_target_def valid_TargetReference_def version_ok_def find_Some_iff Let_def
      split: option.splits dest: nth_mem)

fun diagnosis_valid :: "diagnosis \<Rightarrow> bool" where
  "diagnosis_valid (Diagnosed r) = result_valid r"
| "diagnosis_valid _ = True"

lemma returns_Diagnose:
  assumes E: "orderly_server E" and t: "valid_TargetReference (req_Target request)"
    and cat: "catalog_ok (dsn_Catalog (req_Snapshot request))" and p: "optional policy_ok (req_Policy request)"
  shows "returns diagnosis_valid (Diagnose L (Some E) fuel request)"
  unfolding Diagnose_def option.case
  by (intro gives_intro gives_bind[OF gives_getTarget[OF E t cat]] gives_bind_may[OF returns_diagnose_object[OF E]])
    (use assms in \<open>auto simp: read_object_def result_valid_empty intro!: valid_observed_target\<close>)

text \<open>
  What a diagnosis reports satisfies the schema of DeletionIncident: at most 513 findings and 256 actions with
  known types and risks, references with all their parts, texts within their limits, counts that are not
  negative no identifier twice, and no
  finalizer twice in the snapshot of the target.  The only exceptions are a summary of 2^31 or more omitted pieces of
  evidence, whose count wraps around, and a summary whose digest collides with that of another
  finding.  It holds for a request with a complete target reference, a catalog of fewer than 2^31 resources with named versions,
  and a server that returns objects with names, UIDs and distinct qualified finalizers, in pages of at most the
  size asked for.
\<close>

theorem diagnosis_valid_evidence:
  assumes "orderly_server E" and "valid_TargetReference (req_Target request)"
    and "catalog_ok (dsn_Catalog (req_Snapshot request))" and "optional policy_ok (req_Policy request)"
    and "fst (run_state (Diagnose L (Some E) fuel request) log) = Some (Diagnosed r)"
  shows "valid_TargetSnapshot (dg_TargetSnapshot r)
    \<and> (evidence_valid (dg_Findings r) (dg_Actions r) \<or> spoiled_summary (dg_Findings r))"
  using gives_result[OF returns_Diagnose[OF assms(1-4)], of L fuel log] assms(5) by (simp add: result_valid_def)

theorem diagnosis_valid_evidence_witness:
  "orderly_server quiet_env
   \<and> (evidence_valid (dg_Findings namespace_result) (dg_Actions namespace_result) \<or> spoiled_summary (dg_Findings namespace_result))"
proof -
  have "object_ok overdue_object"
    by (simp add: object_ok_def overdue_object_def child_object_def crd_ok_def)
  then have E: "orderly_server quiet_env" by (simp add: orderly_server_def quiet_env_def empty_page_def)
  have t: "valid_TargetReference (req_Target (overdue_request namespacesGR))"
    by (simp add: valid_TargetReference_def overdue_request_def namespacesGR_def)
  have cat: "catalog_ok (dsn_Catalog (req_Snapshot (overdue_request namespacesGR)))"
    by code_simp
  have "policy_ok ready_policy"
    by (simp add: policy_ok_def ready_policy_def empty_policy_def zero_Settings_def policy_FinalizerOwner_def)
  then have p: "optional policy_ok (req_Policy (overdue_request namespacesGR))" by simp
  have run: "fst (run_state namespace_diagnosis []) = Some (Diagnosed namespace_result)" by (simp only: namespace_run fst_conv)
  show ?thesis using diagnosis_valid_evidence[OF E t cat p run] E by simp
qed

section \<open>Objects without a UID\<close>

text \<open>
  The hypothesis on UIDs is needed.  The enumeration of CRD instances reports an object without a UID by a
  finding without a reference; the enumeration of a namespace puts the empty UID into a reference,
  which the schema forbids, so the status with this finding is rejected as a whole.
\<close>

theorem remaining_object_without_uid:
  assumes "pom_UID item = []" and "pom_Finalizers item = []"
    and "\<not> dp_CheckWebhooks (set_Diagnosis (cp_settings (req_Policy request)))"
    and "finding_size (stored_finding (remaining_finding L resource version item)) \<le> maxPersistedEvidenceBytes"
  shows "\<not> list_all valid_Finding
    (fst (collector_sorted (namespace_item L request resource version (newCollector p) item)))"
proof -
  let ?f = "stored_finding (remaining_finding L resource version item)"
  have "namespace_item L request resource version (newCollector p) item
      = addFinding (remaining_finding L resource version item) (newCollector p)"
    using assms(2,3) by (simp add: namespace_item_def remaining_finding_def Let_def sortedCopy_def)
  then have "set (fst (collector_sorted (namespace_item L request resource version (newCollector p) item))) = {?f}"
    using assms(4) by (simp add: addFinding_alt newCollector_def collector_sorted_def maxPersistedFindings_def)
  moreover have "\<not> valid_Finding ?f"
    using assms(1)
    by (simp add: stored_finding_def remaining_finding_def metadataReference_def valid_Finding_def valid_TargetReference_def Let_def)
  ultimately show ?thesis by (simp add: list_all_iff)
qed

end
