(* ===== verification/Scan_Schema.thy ===== *)
theory Scan_Schema
  imports Scanner_Properties Diagnosis_Schema
begin

text \<open>
  The scanner writes only statuses that the schema of DeletionIncident admits, over any number of cycles, as long as
  the server keeps its side: what it returns is well formed, and what it has stored it has validated.
\<close>

section \<open>Statuses\<close>

definition reported_status :: "DeletionIncidentStatus \<Rightarrow> bool" where
  "reported_status st \<longleftrightarrow> valid_DeletionIncidentStatus st \<or> spoiled_summary (is_Findings st)"

fun valid_scan_write :: "event \<Rightarrow> bool" where
  "valid_scan_write (EvScan (ScIncidentStatus i _)) \<longleftrightarrow> reported_status (di_Status i)"
| "valid_scan_write (EvScan (ScPolicyStatus p _)) \<longleftrightarrow> valid_TerminationPolicyStatus (tp_Status p)"
| "valid_scan_write _ = True"

text \<open>A reason and a message of a condition that the scanner sets.\<close>

definition notice :: "string \<Rightarrow> string \<Rightarrow> bool" where
  "notice reason message \<longleftrightarrow> condition_reason reason \<and> length message \<le> 1024"

lemma notices [simp]:
  "notice ''ScanTimedOut'' ''the current scan did not complete''"
  "notice ''SnapshotFailed'' ''diagnosis snapshot is incomplete''"
  "notice ''DiscoveryUnavailable'' ''discovery has no complete snapshot''"
  "notice ''PolicyCompilationFailed'' ''current policies could not be compiled''"
  "notice ''NamespaceInventoryFailed'' ''namespace label inventory is incomplete''"
  "notice ''ResourceListFailed'' ''resource coverage is incomplete''"
  "notice ''EvidenceTooLarge'' ''diagnostic evidence exceeded the Kubernetes object size limit''"
  by code_simp+

lemma incident_phases [simp]:
  "valid_IncidentPhase IncidentPhaseActive" "valid_IncidentPhase IncidentPhaseDiagnosisFailed" "valid_IncidentPhase IncidentPhaseResolved"
  by (simp_all add: valid_IncidentPhase_def)

lemma condition_types [simp]: "condition_type ''TargetVisible''" "condition_type ''DiagnosisComplete''"
  by code_simp+

lemma preserve_valid: "valid_conditions (preserveConditionTransitions current desired) = valid_conditions desired"
proof -
  have "map cond_Type (preserveConditionTransitions current desired) = map cond_Type desired"
    by (simp add: preserveConditionTransitions_def split: option.splits)
  moreover have "list_all valid_Condition (preserveConditionTransitions current desired) = list_all valid_Condition desired"
    by (simp add: preserveConditionTransitions_def list.pred_map o_def)
      (rule list.pred_cong, auto simp: valid_Condition_def split: option.splits)
  ultimately show ?thesis by (simp add: valid_conditions_def)
qed

definition incident_stored :: "DeletionIncident \<Rightarrow> bool" where
  "incident_stored i \<longleftrightarrow> valid_DeletionIncidentStatus (di_Status i) \<and> 0 \<le> om_Generation (di_Meta i)"

lemma resolved_valid:
  assumes "incident_stored i" and "reason \<in> resolution_reasons"
  shows "valid_DeletionIncidentStatus (resolved_status i reason now)"
proof -
  have "list_all (\<lambda>r. condition_reason r \<and> length r \<le> 512)
      [''TargetAbsent'', ''TargetReplaced'', ''ResourceTypeRemoved'', ''PolicyNoLongerMatches'', ''TargetNoLongerDeleting'']"
    by code_simp
  then have "condition_reason reason" "length reason \<le> 512" using assms(2) by (auto simp: resolution_reasons_def)
  then show ?thesis
    using assms(1)
    by (simp add: incident_stored_def valid_DeletionIncidentStatus_def resolved_status_def valid_conditions_def valid_Condition_def
        max_length_bytes)
qed

lemma failed_valid:
  assumes "incident_stored i" and "notice reason message"
  shows "valid_DeletionIncidentStatus (failed_status i now reason message)"
proof -
  let ?c = "\<lambda>type status message. \<lparr>cond_Type = type, cond_Status = status, cond_ObservedGeneration = om_Generation (di_Meta i),
    cond_LastTransitionTime = now, cond_Reason = reason, cond_Message = message\<rparr>"
  have "valid_conditions [?c ''DiagnosisComplete'' ConditionFalse message, ?c ''TargetVisible'' ConditionUnknown
      ''target visibility is unknown because current evidence is incomplete'']"
    using assms by (simp add: incident_stored_def notice_def valid_conditions_def valid_Condition_def max_length_bytes)
  then show ?thesis
    using assms(1)
    by (simp add: incident_stored_def valid_DeletionIncidentStatus_def failed_status_def preserve_valid
        zero_TargetSnapshot_def valid_TargetSnapshot_def)
qed

lemma diagnosis_conditions_valid: "valid_conditions (diagnosisConditions result now)"
proof -
  have "list_all condition_reason [''TargetAbsent'', ''TargetReplaced'', ''TargetObserved'', ''DiagnosisIncomplete'', ''DiagnosisComplete'']"
    by code_simp
  then show ?thesis
    by (simp add: diagnosisConditions_def valid_conditions_def valid_Condition_def)
qed

lemma diagnosed_valid:
  assumes "result_valid result"
  shows "reported_status (diagnosed_status cfg observed result now st)"
proof -
  have "is_Findings (diagnosed_status cfg observed result now st) = dg_Findings result"
    "is_TargetSnapshot (diagnosed_status cfg observed result now st) = dg_TargetSnapshot result"
    "valid_conditions (is_Conditions (diagnosed_status cfg observed result now st))"
    by (simp_all add: diagnosed_status_def Let_def preserve_valid diagnosis_conditions_valid)
  then show ?thesis
    using assms unfolding reported_status_def result_valid_def evidence_valid_def valid_DeletionIncidentStatus_def
    by (auto simp: diagnosed_status_fields)
qed

section \<open>Writers\<close>

text \<open>The contract of the server towards the scanner.\<close>

definition policy_source_ok :: "TerminationPolicy \<Rightarrow> bool" where
  "policy_source_ok p \<longleftrightarrow>
     0 \<le> om_Generation (tp_Meta p)
     \<and> list_all (\<lambda>ow. valid_ControllerReference (fo_ControllerRef ow)) (sp_FinalizerOwners (tp_Spec p))
     \<and> valid_RiskLevel (rp_MaxRisk (sp_Remediation (tp_Spec p)))
     \<and> dp_MaxNamespaceObjects (sp_Diagnosis (tp_Spec p)) < 2 ^ 31 \<and> dp_MaxCRDInstances (sp_Diagnosis (tp_Spec p)) < 2 ^ 31"

definition validating_cluster :: "scan_env \<Rightarrow> bool" where
  "validating_cluster S \<longleftrightarrow>
     orderly_server (se_env S)
     \<and> (\<forall>log. catalog_ok (env_Snapshot (se_env S) log))
     \<and> (\<forall>log name. pred_sum (\<lambda>_. True) incident_stored (env_GetIncident (se_env S) log name))
     \<and> (\<forall>log. pred_sum (\<lambda>_. True) (list_all policy_source_ok) (se_ListPolicies S log))"

abbreviation writes_ok :: "'a io \<Rightarrow> bool" where
  "writes_ok m \<equiv> emits valid_scan_write m"

lemma gives_incident:
  assumes "validating_cluster S"
  shows "gives valid_scan_write (pred_sum (\<lambda>_. True) incident_stored) (get_incident (se_env S) n)"
  using assms unfolding get_incident_def validating_cluster_def by (intro gives_invoke) auto

lemma writes_stored:
  assumes S: "validating_cluster S" and "\<And>i. incident_stored i \<Longrightarrow> writes_ok (f i)" and "\<And>e. writes_ok (g e)"
  shows "writes_ok (do { r \<leftarrow> get_incident (se_env S) n; case r of Inl e \<Rightarrow> g e | Inr i \<Rightarrow> f i })"
  by (rule emits_gives[OF gives_bind[OF gives_incident[OF S], where S = "\<lambda>_. True"]])
    (auto intro!: gives_emits assms(2,3) split: sum.splits)

lemma writes_incident_status: "reported_status (di_Status i) \<Longrightarrow> writes_ok (write_incident_status S i)"
  unfolding write_incident_status_def incident_status_update_def by (intro emits_scan_all) simp_all

lemma writes_resolve:
  assumes "validating_cluster S" and "reason \<in> resolution_reasons"
  shows "writes_ok (resolveIncident S name reason now)"
  unfolding resolveIncident_def
  by (intro emits_RetryOnConflict writes_stored[OF assms(1)] emits_if emits_return writes_incident_status)
    (simp add: reported_status_def resolved_valid assms(2))

lemma writes_fail:
  assumes "validating_cluster S" and "notice reason message"
  shows "writes_ok (failIncidentDiagnosis S name now reason message)"
  unfolding failIncidentDiagnosis_def
  by (intro emits_RetryOnConflict writes_stored[OF assms(1)] emits_if emits_return writes_incident_status)
    (simp add: reported_status_def failed_valid assms(2))

lemma writes_fail_all:
  assumes "validating_cluster S" and "notice reason message"
  shows "writes_ok (fail_incidents S now reason message incidents)"
  by (induction incidents) (auto intro!: emits_scan_all writes_fail assms)

lemma writes_metrics: "writes_ok (finalizeIncidentMetrics S v)"
  unfolding finalizeIncidentMetrics_def updateIncidentMetrics_def set_incident_gauges_def list_incidents_def
  by (intro emits_scan_all) simp_all

lemma writes_degraded:
  assumes "validating_cluster S" and "notice reason message"
  shows "writes_ok (degraded S now v errs reason message)"
  unfolding degraded_def failActiveIncidentDiagnoses_def list_incidents_def
  by (intro emits_scan_all writes_fail_all[OF assms] writes_metrics) simp_all

lemma writes_lifecycle:
  assumes S: "validating_cluster S"
  shows "writes_ok (finish_cycle S catalog policies now view v errs)"
proof -
  have "writes_ok (apply_lifecycle S now incident action)" if "\<And>reason. action = ResolveAs reason \<Longrightarrow> reason \<in> resolution_reasons"
    for incident action
    using that by (cases action) (auto simp: apply_lifecycle_def intro!: emits_scan_all writes_resolve[OF S] writes_fail[OF S])
  then have "writes_ok (lifecycle_loop S observations coverage catalog policies now incidents)" for observations coverage incidents
    by (induction incidents) (auto simp: Let_def intro!: emits_intro dest: lifecycle_reasons)
  then show ?thesis
    unfolding finish_cycle_def reconcileLifecycle_def list_incidents_def
    by (intro emits_scan_all writes_metrics) simp_all
qed

lemma writes_persistDiagnosis:
  assumes S: "validating_cluster S" and r: "result_valid result"
  shows "writes_ok (persistDiagnosis S cfg observed result existing now)"
proof -
  have "writes_ok (persist_attempt S cfg observed result now name st)" for name st
    unfolding persist_attempt_def annotate_and_write_def write_diagnosis_def incident_status_update_def Let_def
    by (intro emits_scan_all) (simp_all add: diagnosed_valid[OF r])
  then show ?thesis
    unfolding persistDiagnosis_def persist_existing_def persist_new_def persist_status_def Let_def
    by (intro emits_scan_all writes_resolve[OF S] writes_fail[OF S]) (simp_all add: resolution_reasons_def)
qed

section \<open>Policies\<close>

lemma all_update: "\<forall>x \<in> snd ` set al. Q x \<Longrightarrow> Q v \<Longrightarrow> \<forall>x \<in> snd ` set (AList.update k v al). Q x"
  by (induction al) auto

lemma owners_valid:
  "\<forall>r \<in> snd ` set al. valid_ControllerReference r \<Longrightarrow> list_all (\<lambda>ow. valid_ControllerReference (fo_ControllerRef ow)) ows \<Longrightarrow>
   \<forall>r \<in> snd ` set (foldl (\<lambda>m ow. AList.update (fo_Finalizer ow) (fo_ControllerRef ow) m) al ows). valid_ControllerReference r"
proof (induction ows arbitrary: al)
  case (Cons ow ows)
  have "\<forall>r \<in> snd ` set (AList.update (fo_Finalizer ow) (fo_ControllerRef ow) al). valid_ControllerReference r"
    by (rule all_update[OF Cons.prems(1)]) (use Cons.prems(2) in simp)
  from Cons.IH[OF this] Cons.prems(2) show ?case by simp
qed simp

lemma Compile_owners:
  "cp_owners (fst (Compile L (Some p) catalog now)) =
     foldl (\<lambda>m ow. AList.update (fo_Finalizer ow) (fo_ControllerRef ow) m) [] (sp_FinalizerOwners (tp_Spec p))"
  by (simp add: Compile_def Let_def)

lemma policy_ok_Compile:
  assumes "policy_source_ok p"
  shows "policy_ok (fst (Compile L (Some p) catalog now))"
proof -
  let ?q = "fst (Compile L (Some p) catalog now)"
  have owners: "\<forall>r \<in> snd ` set (cp_owners ?q). valid_ControllerReference r"
    unfolding Compile_owners by (rule owners_valid) (use assms in \<open>simp_all add: policy_source_ok_def\<close>)
  have "valid_ControllerReference owner" if "policy_FinalizerOwner (Some ?q) finalizer = Some owner" for finalizer owner
  proof -
    have "(finalizer, owner) \<in> set (cp_owners ?q)"
      using that by (simp add: policy_FinalizerOwner_def map_of_SomeD)
    then have "owner \<in> snd ` set (cp_owners ?q)" by (metis imageI snd_conv)
    then show ?thesis using owners by blast
  qed
  moreover have "set_MaxRisk (cp_settings ?q) = rp_MaxRisk (sp_Remediation (tp_Spec p))"
    "set_Diagnosis (cp_settings ?q) = sp_Diagnosis (tp_Spec p)" by (simp_all add: spec_settings_def)
  ultimately show ?thesis using assms unfolding policy_ok_def policy_source_ok_def by presburger
qed

lemma compile_rules_resolved:
  "cs_resolved (compile_rules L catalog i rules st) \<subseteq> cs_resolved st \<union> res_GroupResource ` set (Snapshot_Resources catalog)"
proof (induction rules arbitrary: i st)
  case (Cons rule rules)
  have "cs_resolved (compile_rule L catalog i rule st) \<subseteq> cs_resolved st \<union> res_GroupResource ` set (Snapshot_Resources catalog)"
    by (auto simp: compile_rule_def Let_def resolveRule_set split: prod.splits)
  then show ?case using Cons.IH[of "Suc i" "compile_rule L catalog i rule st"] by auto
qed simp

lemma policy_reasons:
  "condition_reason ''ValidSelectors''" "condition_reason ''InvalidSelectors''" "condition_reason ''ResourcesResolved''"
  "condition_reason ''ResourcesUnresolved''" "condition_reason ''Compiled''" "condition_reason ''InvalidPolicy''"
  "condition_type ConditionReady" "condition_type ConditionDiscoveryResolved" "condition_type ConditionSelectorsValid"
  "distinct [ConditionReady, ConditionDiscoveryResolved, ConditionSelectorsValid]"
  by code_simp+

lemma valid_policy_condition:
  assumes "condition_type type" and "0 \<le> generation" and "condition_reason good" and "condition_reason bad" and "length good \<le> 64"
  shows "valid_Condition (condition type generation now valid good bad problems)"
proof -
  have "max_length 32768 (truncateConditionMessage m)" for m
    using truncateConditionMessage_runes[of m] by (simp add: max_length_def maxConditionMessageRunes_def)
  moreover have "max_length 32768 good" using assms(5) by (intro max_length_bytes) simp
  ultimately show ?thesis using assms by (simp add: valid_Condition_def condition_def)
qed

lemma condition_type_of: "cond_Type (condition type generation now valid good bad problems) = type"
  by (simp add: condition_def)

lemma Compile_status_valid:
  assumes "policy_source_ok p" and "catalog_ok catalog"
  shows "valid_TerminationPolicyStatus (snd (Compile L (Some p) catalog now))"
proof -
  let ?st = "compile_rules L catalog 0 (sp_TargetRules (tp_Spec p)) empty_compile_state"
  have "card (cs_resolved ?st) \<le> card (res_GroupResource ` set (Snapshot_Resources catalog))"
    using compile_rules_resolved[of L catalog 0 "sp_TargetRules (tp_Spec p)" empty_compile_state]
    by (intro card_mono) (auto simp: empty_compile_state_def)
  also have "\<dots> \<le> length (Snapshot_Resources catalog)" by (meson List.finite_set card_image_le card_length order_trans)
  finally have "int (card (cs_resolved ?st)) < 2 ^ 31" using assms(2) by (simp add: catalog_ok_def)
  then have count: "0 \<le> wrap32 (int (card (cs_resolved ?st)))" by (simp add: wrap32_id)
  have "0 \<le> om_Generation (tp_Meta p)" using assms(1) by (simp add: policy_source_ok_def)
  then show ?thesis
    using count policy_reasons
    by (simp add: valid_TerminationPolicyStatus_def valid_conditions_def Compile_def validationStatus_def Let_def
        valid_policy_condition condition_type_of)
qed

definition entry_ok :: "policyCompileCacheEntry \<Rightarrow> bool" where
  "entry_ok entry \<longleftrightarrow> policy_ok (ce_compiled entry) \<and> valid_TerminationPolicyStatus (ce_status entry)"

definition cache_ok :: "compile_cache \<Rightarrow> bool" where
  "cache_ok cache \<longleftrightarrow> (\<forall>entry \<in> snd ` set cache. entry_ok entry)"

definition runner_ok :: "liveCycleRunner \<Rightarrow> bool" where
  "runner_ok r \<longleftrightarrow> cache_ok (lr_policyCompileCache r)"

definition policies_ok :: "compiledPolicies \<Rightarrow> bool" where
  "policies_ok ps \<longleftrightarrow> list_all policy_ok (cps_items ps)"

lemma cache_ok_update: "cache_ok cache \<Longrightarrow> entry_ok entry \<Longrightarrow> cache_ok (AList.update k entry cache)"
  unfolding cache_ok_def by (rule all_update)

lemma retimed_valid:
  "valid_conditions (map (\<lambda>c. c\<lparr>cond_LastTransitionTime := now\<rparr>) cs) = valid_conditions cs"
  by (simp add: valid_conditions_def list.pred_map o_def valid_Condition_def cong: list.pred_cong)

lemma compile_entry_ok:
  assumes "cache_ok cache" and "policy_source_ok p" and "catalog_ok catalog"
  shows "entry_ok (compile_entry L cache catalog now p)"
proof -
  have "entry_ok (refresh_entry now entry)" if "entry_ok entry" for entry
    using that by (simp add: entry_ok_def refresh_entry_def Let_def valid_TerminationPolicyStatus_def retimed_valid)
  moreover have "entry_ok entry" if "map_of cache k = Some entry" for k entry
    using assms(1) that unfolding cache_ok_def by (metis imageI map_of_SomeD snd_conv)
  moreover obtain compiled status where c: "Compile L (Some p) catalog now = (compiled, status)" by fastforce
  moreover have "policy_ok compiled" "valid_TerminationPolicyStatus status"
    using policy_ok_Compile[OF assms(2), of L catalog now] Compile_status_valid[OF assms(2,3), of L now] c by simp_all
  ultimately show ?thesis by (auto simp: compile_entry_def Let_def entry_ok_def split: option.splits)
qed

lemma gives_retry_closure:
  assumes "\<And>st. I st \<Longrightarrow> gives P (\<lambda>(_, st). I st) (fn st)"
  shows "I st \<Longrightarrow> gives P (\<lambda>(_, st). I st) (retry_closure S fn st)"
proof -
  have "I st \<Longrightarrow> gives P (\<lambda>(_, st). I st) (retry_with n fn st)" for n
    by (induction n arbitrary: st) (auto intro!: assms gives_bind[OF assms] gives_intro)
  then show "I st \<Longrightarrow> gives P (\<lambda>(_, st). I st) (retry_closure S fn st)" unfolding retry_closure_def by blast
qed

lemma writes_policy_status:
  assumes "valid_TerminationPolicyStatus desired"
  shows "writes_ok (updatePolicyStatus S current desired)"
proof -
  let ?I = "\<lambda>st :: TerminationPolicy option \<times> TerminationPolicyStatus. valid_TerminationPolicyStatus (snd st)"
  have "valid_TerminationPolicyStatus (d\<lparr>ps_Conditions := preserveConditionTransitions cs (ps_Conditions d)\<rparr>)"
    if "valid_TerminationPolicyStatus d" for d cs
    using that by (simp add: valid_TerminationPolicyStatus_def preserve_valid)
  then have updated: "gives valid_scan_write (\<lambda>(_, st). ?I st) (write_policy_status S p d)"
    if "valid_TerminationPolicyStatus d" for p d
    unfolding write_policy_status_def policy_status_update_def Let_def using that
    by (intro gives_intro gives_seq[OF emits_scan_call]) (auto, metis)
  have attempt: "gives valid_scan_write (\<lambda>(_, st). ?I st) (policy_status_attempt S name st)" if "?I st" for name st
    unfolding policy_status_attempt_def using that
    by (intro gives_intro gives_seq[OF emits_calls(5)] updated) auto
  have "gives valid_scan_write (\<lambda>(_, st). ?I st)
      (retry_closure S (policy_status_attempt S (om_Name (tp_Meta current))) (Some current, desired))"
    by (rule gives_retry_closure[where I = ?I, OF attempt]) (use assms in auto)
  then show ?thesis
    unfolding updatePolicyStatus_def by (intro emits_bind emits_case_prod emits_return) (rule emits_gives)
qed

lemma gives_compile_loop:
  assumes "cache_ok cache" and "catalog_ok catalog"
  shows "list_all policy_source_ok ps \<Longrightarrow> cache_ok nextCache \<Longrightarrow> policies_ok result \<Longrightarrow>
    gives valid_scan_write (pred_sum (\<lambda>_. True) (\<lambda>(c, r). cache_ok c \<and> policies_ok r))
      (compile_loop L S cache catalog now nextCache result ps)"
proof (induction ps arbitrary: nextCache result)
  case (Cons p ps)
  then have e: "entry_ok (compile_entry L cache catalog now p)" using assms by (simp add: compile_entry_ok)
  then have "valid_TerminationPolicyStatus (ce_status (compile_entry L cache catalog now p))" by (simp add: entry_ok_def)
  note written = writes_policy_status[OF this]
  show ?case
    unfolding compile_loop.simps Let_def using Cons.prems e
    by (intro gives_seq[OF written] gives_intro Cons.IH cache_ok_update) (auto simp: policies_ok_def entry_ok_def)
qed (simp add: gives_intro)

lemma gives_compilePolicies:
  assumes S: "validating_cluster S" and r: "runner_ok r" and c: "catalog_ok catalog"
  shows "gives valid_scan_write (pred_sum (\<lambda>_. True) (\<lambda>(ps, r). policies_ok ps \<and> runner_ok r)) (compilePolicies L S r catalog now)"
proof -
  have list: "gives valid_scan_write (pred_sum (\<lambda>_. True) (list_all policy_source_ok)) (scan_call (se_ListPolicies S) ScListPolicies)"
    using S unfolding scan_call_def validating_cluster_def by (intro gives_invoke) auto
  have sorted: "list_all policy_ok (sort_policies ps) = list_all policy_ok ps" for ps
    by (simp add: sort_policies_def list_all_iff)
  have cache: "cache_ok (if b then [] else lr_policyCompileCache r)" for b using r by (simp add: runner_ok_def cache_ok_def)
  show ?thesis
    unfolding compilePolicies_def Let_def
    by (intro gives_bind[OF list] gives_intro gives_bind[OF gives_compile_loop[OF cache c]] gives_seq[OF emits_metric])
      (auto simp: policies_ok_def cache_ok_def runner_ok_def sorted)
qed

section \<open>Listings\<close>

lemma writes_namespace_pages: "writes_ok (namespace_pages E limit m tok fuel)"
  by (induction fuel arbitrary: m tok) (auto simp: Let_def intro!: emits_scan_all)

lemma retain_items_ok:
  "list_all item_ok retained \<Longrightarrow> list_all item_ok items \<Longrightarrow>
   list_all item_ok (fst (retain_items resource version policies nsLabels tracked budget retained items))"
  by (induction items arbitrary: budget retained) (auto simp: Let_def split: prod.splits)

lemma gives_list_version_pages:
  assumes E: "orderly_server (se_env S)"
  shows "list_all item_ok retained \<Longrightarrow>
    gives valid_scan_write (optional (\<lambda>(items, _). list_all item_ok items))
      (list_version_pages S cfg resource version policies nsLabels tracked budget retained tok fuel)"
proof (induction fuel arbitrary: budget retained tok)
  case (Suc fuel)
  have "list_all item_ok kept"
    if "retain_items resource version policies nsLabels tracked budget retained items = (kept, x)" "list_all item_ok items" for items kept x
    using retain_items_ok[OF Suc.prems that(2), of resource version policies nsLabels tracked budget] that(1) by simp
  then show ?case
    unfolding list_version_pages.simps Let_def
    by (intro gives_bind[OF gives_page[OF E]] gives_intro Suc.IH) auto
qed (simp add: gives_intro)

lemma gives_list_resource_versions:
  assumes E: "orderly_server (se_env S)" and "version_ok (res_PreferredVersion resource)"
  shows "list_all version_ok versions \<Longrightarrow>
    gives valid_scan_write (optional (\<lambda>((items, version, _), _). list_all item_ok items \<and> version_ok version))
      (list_resource_versions S cfg fuel resource policies nsLabels tracked budget err versions)"
proof (induction versions arbitrary: budget err)
  case (Cons version versions)
  then show ?case
    unfolding list_resource_versions.simps listResourceVersion_def
    by (intro gives_bind_may[OF gives_list_version_pages[OF E]]) (auto intro!: gives_intro split: option.splits list_error.splits)
qed (use assms in \<open>auto intro!: gives_intro\<close>)

text \<open>A resource as it was listed, with the version it was listed under.\<close>

definition listed_ok :: "listed_resource \<Rightarrow> bool" where
  "listed_ok x \<longleftrightarrow>
     (case x of (resource, items, _) \<Rightarrow>
        gr_Resource (res_GroupResource resource) \<noteq> [] \<and> version_ok (res_PreferredVersion resource) \<and> list_all item_ok items)"

lemma gives_run_list_jobs:
  assumes E: "orderly_server (se_env S)"
  shows "list_all resource_ok resources \<Longrightarrow>
    gives valid_scan_write (optional (list_all listed_ok)) (run_list_jobs S cfg fuel policies nsLabels tracked budget resources)"
proof (induction resources arbitrary: budget)
  case (Cons resource resources)
  then have r: "resource_ok resource" and rs: "list_all resource_ok resources" by simp_all
  have v: "version_ok (res_PreferredVersion resource)" "list_all version_ok (OrderedVersions resource q)" for q
    using r resource_versions[OF r] by (auto simp: resource_ok_def all_versions_def list_all_iff)
  have gr: "gr_Resource (res_GroupResource resource) \<noteq> []" using r by (simp add: resource_ok_def)
  show ?case
    unfolding run_list_jobs.simps listResource_def
  proof (rule gives_bind_may[OF gives_list_resource_versions[OF E v]], clarify)
    fix items version err budget'
    assume "list_all item_ok items" "version_ok version"
    then show "gives valid_scan_write (optional (list_all listed_ok))
        (bind_may (run_list_jobs S cfg fuel policies nsLabels tracked budget' resources)
          (\<lambda>rest. give ((resource\<lparr>res_PreferredVersion := version\<rparr>, items, err) # rest)))"
      by (intro gives_bind_may[OF Cons.IH[OF rs]] gives_give) (simp add: listed_ok_def[of "(_, _, _)"] gr)
  qed
qed (simp add: gives_intro)

section \<open>Observations\<close>

definition observation_ok :: "observation \<Rightarrow> bool" where
  "observation_ok obs \<longleftrightarrow> valid_TargetReference (obs_target obs) \<and> policy_ok (obs_policy obs)"

definition observations_ok :: "(UID \<times> observation) list \<Rightarrow> bool" where
  "observations_ok observations \<longleftrightarrow> (\<forall>obs \<in> snd ` set observations. observation_ok obs)"

lemma observations_ok_update: "observations_ok al \<Longrightarrow> observation_ok obs \<Longrightarrow> observations_ok (AList.update uid obs al)"
  unfolding observations_ok_def by (rule all_update)

lemma observe_item_ok:
  assumes "policies_ok policies" and "gr_Resource (res_GroupResource resource) \<noteq> []" and "version_ok (res_PreferredVersion resource)"
    and "item_ok item" and "observations_ok (fst st)"
  shows "observations_ok (fst (observe_item policies nsLabels resource st item))"
proof -
  have "policy_ok winner" if "selectWinning policies target = Some winner" for winner target
    using that assms(1) by (auto simp: selectWinning_def policies_ok_def find_Some_iff list_all_length)
  then show ?thesis
    using assms(2-)
    by (auto simp: observe_item_def observation_ok_def valid_TargetReference_def version_ok_def item_ok_def Let_def
        split: option.splits prod.splits intro!: observations_ok_update)
qed

lemma record_listing_ok_schema:
  assumes "policies_ok policies" and "listed_ok x" and "observations_ok (sv_observations v)"
  shows "observations_ok (sv_observations (record_listing L policies nsLabels v x))"
proof -
  obtain resource items err where x: "x = (resource, items, err)" by (cases x)
  have "observations_ok (fst (foldl (observe_item policies nsLabels resource) st items))" if "observations_ok (fst st)" for st
    using assms(1,2) that unfolding x listed_ok_def
  proof (induction items arbitrary: st)
    case (Cons item items)
    then have "observations_ok (fst (observe_item policies nsLabels resource st item))" by (intro observe_item_ok) simp_all
    then show ?case using Cons by simp
  qed simp
  from this[of "(sv_observations v, empty_coverage _)"] show ?thesis
    using assms(3) by (auto simp: record_listing_def x Let_def split: option.splits list_error.splits prod.splits) (metis fst_conv)+
qed

lemma gives_listTargets:
  assumes S: "validating_cluster S" and c: "catalog_ok catalog" and p: "policies_ok policies"
  shows "gives valid_scan_write (optional (\<lambda>(view, _). observations_ok (sv_observations view)))
    (listTargets L S cfg fuel catalog policies nsLabels)"
proof -
  have E: "orderly_server (se_env S)" using S by (simp add: validating_cluster_def)
  have view: "observations_ok (sv_observations (seal_view cfg (foldl (record_listing L policies nsLabels) v xs)))"
    if "list_all listed_ok xs" "observations_ok (sv_observations v)" for v xs
    using that by (induction xs arbitrary: v) (simp_all add: seal_view_def record_listing_ok_schema[OF p])
  have scope: "gives valid_scan_write (\<lambda>x. \<forall>resources tracked incidents. x = Inr (resources, tracked, incidents) \<longrightarrow>
      list_all resource_ok resources) (resourcesToScan L S catalog policies)"
  proof (rule gives_ensures[OF _ resourcesToScan_sees])
    show "writes_ok (resourcesToScan L S catalog policies)" unfolding resourcesToScan_def Let_def by (intro emits_scan_all) auto
  qed (use catalog_Resolve[OF c] in \<open>fastforce simp: list_all_iff\<close>)
  have jobs: "list_all resource_ok rs \<Longrightarrow> list_all resource_ok (dispatch order rs)" for order rs
    by (auto simp: dispatch_def list_all_iff)
  have count: "writes_ok (each count_listing xs)" for xs unfolding count_listing_def by (intro emits_scan_all) auto
  have empty: "observations_ok (sv_observations empty_view)" by (simp add: empty_view_def observations_ok_def)
  show ?thesis
    unfolding listTargets_def
    by (intro gives_bind[OF scope] gives_intro gives_bind_may[OF gives_run_list_jobs[OF E jobs]] gives_seq[OF count])
      (auto simp: view empty)
qed

section \<open>Diagnosing\<close>

lemma gives_and_step:
  "gives P (pred_sum (\<lambda>_. True) R) m \<Longrightarrow> (\<And>x. R x \<Longrightarrow> gives P (pred_sum (\<lambda>_. True) R') (f x)) \<Longrightarrow>
   gives P (pred_sum (\<lambda>_. True) R') (and_step m f)"
  unfolding and_step_def by (erule gives_bind) (auto intro!: gives_intro split: sum.splits)

lemma gives_sum_any: "emits P m \<Longrightarrow> gives P (pred_sum (\<lambda>_. True) (\<lambda>_. True)) m"
  by (rule gives_mono[OF gives_emits]) (auto simp: pred_sum.simps split: sum.splits intro: sum.exhaust)

lemma gives_diagnosisSnapshot:
  "gives valid_scan_write (pred_sum (\<lambda>_. True) (\<lambda>s. dsn_Catalog s = catalog)) (diagnosisSnapshot S catalog nsLabels observations)"
proof -
  have services: "dsn_Catalog s = catalog \<Longrightarrow>
      gives valid_scan_write (pred_sum (\<lambda>_. True) (\<lambda>s. dsn_Catalog s = catalog)) (fetch_services S s keys)" for s keys
    by (induction keys arbitrary: s)
      (auto simp: snapshot_error_def intro!: gives_intro gives_seq emits_scan_all gives_and_step[OF gives_sum_any])
  have owners: "dsn_Catalog s = catalog \<Longrightarrow>
      gives valid_scan_write (pred_sum (\<lambda>_. True) (\<lambda>s. dsn_Catalog s = catalog)) (fetch_owners S s ows)" for s ows
    by (induction ows arbitrary: s)
      (auto simp: snapshot_error_def add_workload_def Let_def intro!: gives_intro gives_seq emits_scan_all)
  have gather: "writes_ok (gather_services S keys obs)" for keys obs
    by (induction obs arbitrary: keys) (auto simp: observed_services_def Let_def intro!: emits_scan_all)
  show ?thesis
    unfolding diagnosisSnapshot_def Let_def
    by (intro gives_and_step[OF gives_sum_any] gives_and_step[OF services] owners emits_scan_all gather)
      (simp_all add: bare_snapshot_def)
qed

lemma optional_any: "optional (\<lambda>_. True) x"
  by (cases x) simp_all

lemma writes_diagnose_target:
  assumes S: "validating_cluster S" and "observation_ok observed" and "catalog_ok (dsn_Catalog snapshot)"
  shows "writes_ok (diagnose_target L S cfg fuel snapshot known now incidents observed)"
proof -
  have E: "orderly_server (se_env S)" using S by (simp add: validating_cluster_def)
  let ?request = "\<lparr>req_Target = obs_target observed, req_Policy = Some (obs_policy observed), req_Snapshot = snapshot, req_Now = now\<rparr>"
  have "returns diagnosis_valid (Diagnose L (Some (se_env S)) fuel ?request)"
    using assms by (intro returns_Diagnose[OF E]) (simp_all add: observation_ok_def)
  moreover have "writes_ok (Diagnose L (Some (se_env S)) fuel ?request)"
  proof (rule emits_mono[OF emits_ensures[OF Diagnose_reads]])
    show "diagnosis_read e \<Longrightarrow> valid_scan_write e" for e by (cases e) simp_all
  qed
  ultimately have d: "gives valid_scan_write (optional diagnosis_valid) (Diagnose L (Some (se_env S)) fuel ?request)"
    by (intro gives_wp) (auto simp: wp_def gives_result)
  have failed: "result_valid (failed_result observed now)" by (rule result_valid_empty) (simp_all add: failed_result_def)
  have "result_valid (fst (job_result observed now x))" if "diagnosis_valid x" for x
    using that failed by (cases x) (simp_all add: job_result_def)
  then have "writes_ok (persist_job S cfg known now incidents observed (job_result observed now x))" if "diagnosis_valid x" for x
    unfolding persist_job_def Let_def using that
    by (intro emits_scan_all writes_persistDiagnosis[OF S]) (auto simp: prod_eq_iff)
  then show ?thesis
    unfolding diagnose_target_def
    by (intro emits_gives[OF gives_bind_may[OF d, where S = "\<lambda>_. True"]] gives_mono[OF gives_emits]) (simp_all add: optional_any)
qed

lemma writes_run_diagnose_jobs:
  assumes S: "validating_cluster S" and c: "catalog_ok (dsn_Catalog snapshot)"
  shows "list_all observation_ok observations \<Longrightarrow> writes_ok (run_diagnose_jobs L S cfg fuel snapshot known now incidents observations)"
  by (induction observations arbitrary: incidents) (auto intro!: emits_scan_all writes_diagnose_target[OF S _ c])

section \<open>The cycle\<close>

lemma writes_timed_out: "writes_ok (timed_out S errs)"
  unfolding timed_out_def ctx_err_def by (auto intro!: emits_scan_all)

lemma writes_diagnose_stage:
  assumes S: "validating_cluster S" and c: "catalog_ok (dsn_Catalog snapshot)" and "observations_ok (sv_observations view)"
  shows "writes_ok (diagnose_stage L S cfg fuel catalog policies now view v snapshot)"
proof -
  have "list_all observation_ok (List.map_filter (map_of (sv_observations view)) uids)" for uids
    using assms(3) by (force simp: observations_ok_def list_all_iff List.map_filter_def dest: map_of_SomeD)
  then show ?thesis
    unfolding diagnose_stage_def diagnoseTargets_def Let_def
    by (intro emits_scan_all writes_run_diagnose_jobs[OF S c] writes_timed_out writes_degraded[OF S] writes_lifecycle[OF S]) simp_all
qed

lemma writes_scan_stage:
  assumes S: "validating_cluster S" and c: "catalog_ok catalog" and p: "policies_ok policies"
  shows "writes_ok (scan_stage L S cfg fuel catalog policies now nsLabels)"
proof -
  have snapshot: "writes_ok (do { x \<leftarrow> diagnosisSnapshot S catalog nsLabels (sv_observations view);
      case x of
        Inl (SnapshotError err) \<Rightarrow>
          do { r \<leftarrow> degraded S now v (sv_errors view @ [err]) ''SnapshotFailed'' ''diagnosis snapshot is incomplete''; give r }
      | Inl SnapshotPanic \<Rightarrow> give CyclePanic
      | Inr snapshot \<Rightarrow> diagnose_stage L S cfg fuel catalog policies now view v snapshot })"
    if "observations_ok (sv_observations view)" for view v
    by (rule emits_gives[OF gives_bind[OF gives_diagnosisSnapshot, where S = "\<lambda>_. True"]])
      (auto split: sum.splits snapshot_failure.splits
        intro!: gives_emits emits_intro emits_give writes_degraded[OF S] writes_diagnose_stage[OF S _ that] simp: c)
  have stage: "writes_ok (do { late \<leftarrow> timed_out S (sv_errors view);
      if late then do { r \<leftarrow> degraded S now v (sv_errors view) ''ScanTimedOut'' ''the current scan did not complete''; give r }
      else if length (sv_observations view) > 0 then
        do { x \<leftarrow> diagnosisSnapshot S catalog nsLabels (sv_observations view);
             case x of
               Inl (SnapshotError err) \<Rightarrow>
                 do { r \<leftarrow> degraded S now v (sv_errors view @ [err]) ''SnapshotFailed'' ''diagnosis snapshot is incomplete''; give r }
             | Inl SnapshotPanic \<Rightarrow> give CyclePanic
             | Inr snapshot \<Rightarrow> diagnose_stage L S cfg fuel catalog policies now view v snapshot }
      else diagnose_stage L S cfg fuel catalog policies now view v (bare_snapshot catalog nsLabels) })"
    if "observations_ok (sv_observations view)" for view v
    by (intro emits_bind[OF writes_timed_out] emits_if snapshot[OF that] emits_bind[OF writes_degraded[OF S]] emits_give
        writes_diagnose_stage[OF S _ that]) (simp_all add: bare_snapshot_def c)
  show ?thesis
    unfolding scan_stage_def Let_def
    by (rule emits_gives[OF gives_bind_may[OF gives_listTargets[OF S c p], where S = "\<lambda>_. True"]])
      (auto intro!: gives_mono[OF gives_emits[OF stage]] simp: optional_any)
qed

text \<open>The runner that a cycle leaves behind satisfies the invariant again.\<close>

abbreviation leaves_runner :: "cycle_answer option io \<Rightarrow> bool" where
  "leaves_runner m \<equiv> gives valid_scan_write (optional (\<lambda>(_, r). runner_ok r)) m"

lemma leaves_Run:
  assumes S: "validating_cluster S" and r: "runner_ok r"
  shows "leaves_runner (Run L S r fuel now)"
proof -
  have snapshot: "gives valid_scan_write catalog_ok (call_snapshot (se_env S))"
    using S unfolding call_snapshot_def validating_cluster_def by (intro gives_invoke) auto
  have labels: "gives valid_scan_write (optional (\<lambda>_. True)) (namespaceLabels S cfg fuel)" for cfg
    unfolding namespaceLabels_def by (rule gives_mono[OF gives_emits[OF writes_namespace_pages]]) (simp add: optional_any)
  have scan: "gives valid_scan_write (optional (\<lambda>_. True)) (scan_stage L S cfg fuel catalog policies now nsLabels)"
    if "catalog_ok catalog" "policies_ok policies" for cfg catalog policies nsLabels
    by (rule gives_mono[OF gives_emits[OF writes_scan_stage[OF S that]]]) (simp add: optional_any)
  show ?thesis
    unfolding Run_def
    by (intro gives_seq[OF emits_scan_call] gives_if gives_seq[OF writes_degraded[OF S]] gives_give
        gives_bind[OF snapshot] gives_seq[OF emits_metric] gives_bind[OF gives_compilePolicies[OF S r]]
        gives_case_sum gives_case_prod gives_bind_may[OF labels] gives_bind_may[OF scan])
      (use r in auto)
qed

lemma leaves_runTimedCycle:
  assumes S: "validating_cluster S" and r: "runner_ok r"
  shows "leaves_runner (runTimedCycle L S r fuel)"
proof -
  have "leaves_runner (RunCycle L S r fuel)"
    unfolding RunCycle_def
    by (intro gives_seq[OF emits_scan_call] gives_if gives_seq[OF emits_metric] gives_give gives_seq[OF emits_calls(1)]
        gives_bind[OF leaves_Run[OF S r]] gives_seq[OF emits_note] gives_return)
      (use r in auto)
  then show ?thesis
    unfolding runTimedCycle_def
    by (rule gives_bind_may) (auto split: cycle_result.splits intro!: gives_give gives_seq[OF emits_metric])
qed

text \<open>
  C16.  Every status of a policy or an incident that the scanner writes, over any number of cycles, is one that the API
  server's schema admits, unless the summary of omitted evidence of an incident has a wrapped count or a
  colliding identifier.  It holds from a runner whose cached policies and statuses are well formed, as a new
  runner's are, and for a server (\<open>validating_cluster\<close>) whose pages respect their limit and list objects with a
  name, a UID and finalizers of admissible length, whose objects, catalogs and policies are well formed, and that
  returns only incidents it has validated.  Without UIDs it fails (\<open>remaining_object_without_uid\<close>).
\<close>

theorem scan_status_valid:
  assumes "validating_cluster S" and "runner_ok r"
  shows "list_all valid_scan_write (added (Coordinator_Start L S r fuel ticks) log)"
proof (rule added_emits)
  have "gives valid_scan_write (optional runner_ok) (Coordinator_Start L S r fuel ticks)" if "runner_ok r" for r
    using that
  proof (induction ticks arbitrary: r)
    case 0
    show ?case unfolding Coordinator_Start.simps
      by (intro gives_bind_may[OF leaves_runTimedCycle[OF assms(1) 0]] gives_case_prod gives_give) auto
  next
    case (Suc ticks)
    show ?case unfolding Coordinator_Start.simps
      by (intro gives_bind_may[OF leaves_runTimedCycle[OF assms(1) Suc.prems]] gives_case_prod Suc.IH) auto
  qed
  then show "writes_ok (Coordinator_Start L S r fuel ticks)" using assms(2) emits_gives by blast
qed

definition new_runner :: liveCycleRunner where
  "new_runner = \<lparr>lr_config = small_config, lr_policyCatalog = [], lr_policyCompileCache = []\<rparr>"

theorem scan_status_valid_witness:
  "validating_cluster quiet_scan \<and> runner_ok new_runner
   \<and> list_all valid_scan_write (added (Coordinator_Start sample_lib quiet_scan new_runner 1 2) [])"
proof -
  have "object_ok overdue_object" by (simp add: object_ok_def overdue_object_def child_object_def crd_ok_def)
  then have E: "orderly_server (se_env quiet_scan)" by (simp add: orderly_server_def quiet_scan_def quiet_env_def empty_page_def)
  have "catalog_ok (newSnapshot [])" "incident_stored lost_incident" "policy_source_ok sample_policy" by code_simp+
  then have S: "validating_cluster quiet_scan"
    using E by (simp add: validating_cluster_def) (simp add: quiet_scan_def quiet_env_def)
  have r: "runner_ok new_runner" by (simp add: runner_ok_def cache_ok_def new_runner_def)
  show ?thesis using scan_status_valid[OF S r] S r by blast
qed

end
