(* ===== verification/Scan_Resolution.thy ===== *)
theory Scan_Resolution
  imports Scan_Schema
begin

text \<open>
  Why the scanner marks an incident as resolved.  Two places of a cycle do: \<open>persistDiagnosis\<close>, when the
  target it is about to diagnose is gone, and the life cycle, for the incidents whose target the scan did not
  observe.  Every status with phase Resolved that a cycle writes is traced here to the calls of that cycle.
\<close>

section \<open>A target that is gone\<close>

text \<open>The versions under which \<open>getTarget\<close> reads a target.\<close>

definition read_versions :: "Snapshot \<Rightarrow> TargetReference \<Rightarrow> string list" where
  "read_versions catalog target =
     (case Resolve catalog (target_gr target) of
        None \<Rightarrow> [tr_Version target]
      | Some resource \<Rightarrow> map v_Version (OrderedVersions resource (tr_Version target)))"

definition absent_at :: "event set \<Rightarrow> TargetReference \<Rightarrow> string \<Rightarrow> bool" where
  "absent_at evs target version \<longleftrightarrow>
     (\<exists>err. EvDynGet (WithVersion (target_gr target) version) (tr_Namespace target) (tr_Name target) (Inl err) \<in> evs
        \<and> (ae_NotFound err \<or> ae_Gone err))"

definition replaced_at :: "event set \<Rightarrow> TargetReference \<Rightarrow> string \<Rightarrow> bool" where
  "replaced_at evs target version \<longleftrightarrow>
     (\<exists>obj. EvDynGet (WithVersion (target_gr target) version) (tr_Namespace target) (tr_Name target) (Inr obj) \<in> evs
        \<and> obj_UID obj \<noteq> tr_UID target)"

text \<open>A direct read of the target: not found under any served version, or found with another UID.\<close>

definition read_gone :: "Snapshot \<Rightarrow> event set \<Rightarrow> TargetReference \<Rightarrow> string \<Rightarrow> bool" where
  "read_gone catalog evs target reason \<longleftrightarrow>
     reason = ''TargetAbsent'' \<and> list_all (absent_at evs target) (read_versions catalog target)
     \<or> reason = ''TargetReplaced'' \<and> list_ex (replaced_at evs target) (read_versions catalog target)"



lemma absent_at_mono: "absent_at evs t v \<Longrightarrow> evs \<subseteq> evs' \<Longrightarrow> absent_at evs' t v"
  unfolding absent_at_def by blast

lemma replaced_at_mono: "replaced_at evs t v \<Longrightarrow> evs \<subseteq> evs' \<Longrightarrow> replaced_at evs' t v"
  unfolding replaced_at_def by blast

lemma read_gone_mono: "read_gone catalog evs t reason \<Longrightarrow> evs \<subseteq> evs' \<Longrightarrow> read_gone catalog evs' t reason"
  unfolding read_gone_def list_all_iff list_ex_iff using absent_at_mono replaced_at_mono by meson






section \<open>What the server keeps\<close>



section \<open>The diagnosis\<close>





text \<open>A diagnosis that does not find its target has read that it is gone.\<close>

definition result_fate :: "Snapshot \<Rightarrow> TargetReference \<Rightarrow> Result \<Rightarrow> event set \<Rightarrow> bool" where
  "result_fate catalog t r evs \<longleftrightarrow>
     (\<not> dg_TargetFound r \<longrightarrow> read_gone catalog evs t ''TargetAbsent'')
     \<and> (dg_TargetFound r \<longrightarrow> \<not> dg_UIDMatches r \<longrightarrow> read_gone catalog evs t ''TargetReplaced'')"

lemma result_fate_mono: "result_fate catalog t r evs \<Longrightarrow> evs \<subseteq> evs' \<Longrightarrow> result_fate catalog t r evs'"
  unfolding result_fate_def using read_gone_mono by blast




lemma failed_result_fate [simp]: "result_fate catalog t (failed_result observed now) evs"
  by (simp add: result_fate_def failed_result_def)




section \<open>The list of incidents\<close>








lemma kept_aliased [simp]: "pst_aliased (store_existing i st) = pst_aliased st" "pst_aliased (st\<lparr>pst_dirty := d\<rparr>) = pst_aliased st"
  by (simp_all add: store_existing_def)










section \<open>The life cycle\<close>





section \<open>The scan\<close>















text \<open>The rest of a cycle resolves nothing.\<close>

fun unresolved_write :: "event \<Rightarrow> bool" where
  "unresolved_write (EvScan (ScIncidentStatus i _)) \<longleftrightarrow> is_Phase (di_Status i) \<noteq> IncidentPhaseResolved"
| "unresolved_write _ \<longleftrightarrow> True"

interpretation outside: scan_calls unresolved_write
proof unfold_locales
  show "calm e \<Longrightarrow> unresolved_write e" for e by (induction e rule: calm.induct) simp_all
qed (simp_all add: failed_status_def)

lemma outside_scan_stage:
  "emits unresolved_write (compilePolicies L S r catalog now)" "emits unresolved_write (namespaceLabels S cfg fuel)"
  "emits unresolved_write (degraded S now v errs reason message)"
  unfolding namespaceLabels_def by (rule outside.emits_compilePolicies outside.emits_namespace_pages outside.emits_degraded)+

section \<open>The property\<close>




definition widgets :: Resource where
  "widgets = newResourceOwned widgetsGR (sample_version ''v1'' ''Widget'' True) [sample_version ''v1beta1'' ''Widget'' True]"

lemma widgets_gr [simp]: "res_GroupResource widgets = widgetsGR" "res_GroupResource (widgets\<lparr>res_PreferredVersion := v\<rparr>) = widgetsGR"
  by (simp_all add: widgets_def newResourceOwned_def)









end
