(* ===== verification/Scan_Retention.thy ===== *)
theory Scan_Retention
  imports Scanner_Properties
begin

text \<open>
  How long resolved incidents are kept: the scanner writes the retention of the active policy into an
  annotation of the incident, and reads it back when the policy is gone.
\<close>

text \<open>The incident that a call creates or patches.\<close>

definition annotated_by :: "event \<Rightarrow> DeletionIncident option" where
  "annotated_by e =
     (case e of EvScan (ScCreateIncident i _) \<Rightarrow> Some i | EvScan (ScPatchIncident i _) \<Rightarrow> Some i | _ \<Rightarrow> None)"

abbreviation observed_ttl :: "observation \<Rightarrow> duration" where
  "observed_ttl observed \<equiv> set_ResolvedIncidentTTL (policy_Settings (Some (obs_policy observed)))"

definition annotates :: "string \<Rightarrow> event \<Rightarrow> bool" where
  "annotates text e \<longleftrightarrow> (\<forall>i. annotated_by e = Some i \<longrightarrow> om_Annotations (di_Meta i) retentionAnnotation = Some text)"

lemma annotates_simps [simp]:
  "annotates t (EvScan (ScCreateIncident i x)) \<longleftrightarrow> om_Annotations (di_Meta i) retentionAnnotation = Some t"
  "annotates t (EvScan (ScPatchIncident i y)) \<longleftrightarrow> om_Annotations (di_Meta i) retentionAnnotation = Some t"
  "annotates t (EvScan (ScIncidentStatus i y))" "annotates t (EvGetIncident n a)"
  by (simp_all add: annotates_def annotated_by_def)

lemma emits_annotates_status:
  "emits (annotates t) (write_incident_status S i)" "emits (annotates t) (resolveIncident S name reason now)"
  "emits (annotates t) (failIncidentDiagnosis S name now reason message)"
  unfolding write_incident_status_def incident_status_update_def resolveIncident_def failIncidentDiagnosis_def
  by (intro emits_scan_all emits_calls emits_RetryOnConflict, simp_all)+

lemma emits_annotates_persist:
  "emits (annotates (duration_String (observed_ttl observed))) (persistDiagnosis S cfg observed result existing now)"
  unfolding persistDiagnosis_def persist_existing_def persist_new_def persist_status_def persist_attempt_def
    annotate_and_write_def write_diagnosis_def incident_status_update_def Let_def
  by (intro emits_scan_all emits_calls emits_annotates_status) (simp_all add: new_incident_def)

lemma annotation_read_back:
  assumes "exact_fraction (se_Fraction S)" and "0 < ttl" and "ttl \<le> max_int64"
    and "om_Annotations (di_Meta i) retentionAnnotation = Some (duration_String ttl)"
    and "map_of (cps_byUID policies) (policyUID (is_ActivePolicyRef (di_Status i))) = None"
  shows "incidentRetention S i policies = Some ttl"
proof -
  have parsed: "ParseDuration (se_Fraction S) (duration_String ttl) = Some ttl"
    using assms(1-3) by (intro ParseDuration_String) (simp_all add: min_int64_def)
  then have "duration_String ttl \<noteq> []" by (auto simp: ParseDuration_def byte_vals_def Let_def)
  with parsed assms(2,4,5) show ?thesis by (simp add: incidentRetention_def Let_def)
qed

text \<open>
  C17.  The retention of a policy outlives the policy.  Whatever the scanner creates or patches when it persists
  a diagnosis carries the retention of the policy it observed; once the policy is gone and the incident is
  resolved, a later cycle deletes an incident with these annotations exactly when that time has passed, for every
  positive 64-bit retention.
\<close>

theorem retention_survives:
  assumes "exact_fraction (se_Fraction S)" and "0 < observed_ttl observed" and "observed_ttl observed \<le> max_int64"
    and "e \<in> set (added (persistDiagnosis S cfg observed result existing now) s)" and "annotated_by e = Some written"
    and "om_Annotations (di_Meta i) = om_Annotations (di_Meta written)" and "is_Phase (di_Status i) = IncidentPhaseResolved"
    and "is_ResolvedTime (di_Status i) = Some resolved"
    and "map_of (cps_byUID policies) (policyUID (is_ActivePolicyRef (di_Status i))) = None"
  shows "lifecycle_decision S observations coverage catalog policies later i
    = (if later < resolved + observed_ttl observed then LeaveAlone else DeleteIncident)"
proof -
  have "annotates (duration_String (observed_ttl observed)) e"
    using added_emits[OF emits_annotates_persist] assms(4) unfolding list_all_iff by blast
  then have "om_Annotations (di_Meta i) retentionAnnotation = Some (duration_String (observed_ttl observed))"
    using assms(5,6) by (simp add: annotates_def)
  then have "incidentRetention S i policies = Some (observed_ttl observed)"
    using annotation_read_back assms(1-3,9) by blast
  then show ?thesis using assms(7,8) by (simp add: lifecycle_decision_def Let_def)
qed

definition fresh_scan :: scan_env where
  "fresh_scan = quiet_scan\<lparr>se_env := quiet_env\<lparr>env_GetIncident := \<lambda>_ _. Inl ((errors_New [])\<lparr>ae_NotFound := True\<rparr>), env_ConflictRetries := 0\<rparr>\<rparr>"

definition kept_crd :: observation where
  "kept_crd = deleted_crd\<lparr>obs_policy := ready_policy\<lparr>cp_settings := zero_Settings\<lparr>set_ResolvedIncidentTTL := 90 * second + 500000000\<rparr>\<rparr>\<rparr>"

theorem retention_survives_witness:
  "lifecycle_decision fresh_scan [] [] sample_snapshot no_policies (50 + observed_ttl kept_crd)
     ((new_incident fresh_scan kept_crd 20)\<lparr>di_Status := zero_DeletionIncidentStatus\<lparr>is_Phase := IncidentPhaseResolved,
        is_ResolvedTime := Some 50\<rparr>\<rparr>) = DeleteIncident"
proof -
  let ?i = "new_incident fresh_scan kept_crd 20"
  have frac: "exact_fraction (se_Fraction fresh_scan)"
    unfolding exact_fraction_def
  proof (intro allI impI)
    fix p k f :: nat assume "k \<le> p"
    then have "(10 :: nat) ^ p = 10 ^ (p - k) * 10 ^ k" by (simp flip: power_add)
    then show "se_Fraction fresh_scan f (10 ^ p) k = f * 10 ^ (p - k)"
      by (simp add: fresh_scan_def quiet_scan_def mult.assoc[symmetric] del: mult.assoc)
  qed
  have ttl: "0 < observed_ttl kept_crd" "observed_ttl kept_crd \<le> max_int64"
    by (simp_all add: kept_crd_def max_int64_def second_def)
  have "EvScan (ScCreateIncident ?i None) \<in> set (added (persistDiagnosis fresh_scan small_config kept_crd crd_result None 20) [])"
    by (simp add: added_def persistDiagnosis_def persist_new_def persist_status_def persist_attempt_def retry_closure_def call_defs scan_call_def fresh_scan_def quiet_scan_def Let_def split_beta errors_New_def)
  from retention_survives[OF frac ttl this, of ?i] show ?thesis
    by (simp add: annotated_by_def no_policies_def)
qed

end
