(* ===== verification/Go_Flags.thy ===== *)
theory Go_Flags
  imports Go_Numbers
begin

text \<open>
  The part of Go's standard library that reads command lines: \<open>strconv.ParseBool\<close> and \<open>FlagSet.Parse\<close> of the
  package \<open>flag\<close>.  The flag set of the command line ends the process on an error, so that errors have no text.
\<close>

definition ParseBool :: "string \<Rightarrow> bool option" where
  "ParseBool s =
     (if s \<in> {''1'', ''t'', ''T'', ''TRUE'', ''true'', ''True''} then Some True
      else if s \<in> {''0'', ''f'', ''F'', ''FALSE'', ''false'', ''False''} then Some False else None)"

section \<open>Flag sets\<close>

text \<open>A flag: whether it is a boolean flag, and its \<open>Set\<close> on the variables it is bound to.\<close>

type_synonym 'o flag_value = "bool \<times> (string \<Rightarrow> 'o \<Rightarrow> 'o option)"

definition string_flag :: "(string \<Rightarrow> 'o \<Rightarrow> 'o) \<Rightarrow> 'o flag_value" where
  "string_flag store = (False, \<lambda>s opts. Some (store s opts))"

definition bool_flag :: "(bool \<Rightarrow> 'o \<Rightarrow> 'o) \<Rightarrow> 'o flag_value" where
  "bool_flag store = (True, \<lambda>s opts. map_option (\<lambda>b. store b opts) (ParseBool s))"

definition int_flag :: "(int \<Rightarrow> 'o \<Rightarrow> 'o) \<Rightarrow> 'o flag_value" where
  "int_flag store = (False, \<lambda>s opts. map_option (\<lambda>i. store i opts) (ParseInt s))"

definition duration_flag :: "fraction_value \<Rightarrow> (int \<Rightarrow> 'o \<Rightarrow> 'o) \<Rightarrow> 'o flag_value" where
  "duration_flag frac store = (False, \<lambda>s opts. map_option (\<lambda>d. store d opts) (ParseDuration frac s))"

datatype 'o parsed = Parsed 'o | ParseFailed | HelpRequested

text \<open>
  \<open>FlagSet.Parse\<close>: one or two dashes, a value after an equals sign or in the next argument, boolean flags
  without one; the first argument that is no flag, or \<open>--\<close>, ends the flags.
\<close>

fun flag_Parse :: "(string \<Rightarrow> 'o flag_value option) \<Rightarrow> string list \<Rightarrow> 'o \<Rightarrow> 'o parsed" where
  "flag_Parse formal [] opts = Parsed opts"
| "flag_Parse formal (s # args) opts =
     (if length s < 2 \<or> s ! 0 \<noteq> CHR ''-'' then Parsed opts
      else if s = ''--'' then Parsed opts
      else
        let text = drop (if s ! 1 = CHR ''-'' then 2 else 1) s
        in if text = [] \<or> hd text = CHR ''-'' \<or> hd text = CHR ''='' then ParseFailed
           else
             let name = takeWhile (\<lambda>c. c \<noteq> CHR ''='') text;
                 hasValue = (CHR ''='' \<in> set text);
                 value = drop (Suc (length name)) text
             in case formal name of
                  None \<Rightarrow> if name = ''help'' \<or> name = ''h'' then HelpRequested else ParseFailed
                | Some (boolFlag, set_value) \<Rightarrow>
                    if boolFlag \<or> hasValue then
                      (case set_value (if hasValue then value else ''true'') opts of
                         None \<Rightarrow> ParseFailed
                       | Some opts' \<Rightarrow> flag_Parse formal args opts')
                    else
                      (case args of
                         [] \<Rightarrow> ParseFailed
                       | v # rest \<Rightarrow>
                           (case set_value v opts of
                              None \<Rightarrow> ParseFailed
                            | Some opts' \<Rightarrow> flag_Parse formal rest opts')))"

lemma ParseBool_format [simp]: "ParseBool (format_bool b) = Some b"
  by (simp add: ParseBool_def format_bool_def)

text \<open>The argument that sets a flag.\<close>

definition flag_arg :: "string \<Rightarrow> string \<Rightarrow> string" where
  "flag_arg name value = ''--'' @ name @ ''='' @ value"

lemma flag_Parse_arg:
  assumes "name \<noteq> []" and "hd name \<noteq> CHR ''-''" and "CHR ''='' \<notin> set name" and "formal name = Some (b, set_value)"
    and "set_value value opts = Some opts'"
  shows "flag_Parse formal (flag_arg name value # args) opts = flag_Parse formal args opts'"
proof -
  have "takeWhile (\<lambda>c. c \<noteq> CHR ''='') (name @ CHR ''='' # value) = name"
    using assms(3) by (induction name) auto
  moreover have "hd name \<noteq> CHR ''=''" using assms(1,3) hd_in_set by metis
  ultimately show ?thesis using assms by (simp add: flag_arg_def hd_append Let_def)
qed

end
