(* ===== verification/Startup.thy ===== *)
theory Startup
  imports Scanner Go_Flags
begin

text \<open>
  The process: \<open>internal/options/options.go\<close> (the flags and their validation) and \<open>cmd/main.go\<close> (the order
  in which the command builds the manager, the catalog and the selected component, and its exit codes).

  The controller-runtime manager and the Kubernetes clients are the environment of the command: each
  call that can fail is logged with its answer.  The flags that other packages bind to the command line
  (\<open>zap\<close>, \<open>kubeconfig\<close>) are an argument.
\<close>

section \<open>Options\<close>

type_synonym Component = string

definition ComponentScanner :: Component where [go_enum]: "ComponentScanner = ''scanner''"
definition ComponentExecutor :: Component where [go_enum]: "ComponentExecutor = ''executor''"

record Options =
  op_Component :: Component
  op_MetricsBindAddress :: string
  op_MetricsSecure :: bool
  op_HealthProbeBindAddress :: string
  op_LeaderElect :: bool
  op_ScanInterval :: duration
  op_DiscoveryRefreshInterval :: duration
  op_ScanTimeout :: duration
  op_ResourceWorkers :: int
  op_DiagnosisWorkers :: int
  op_MetadataPageSize :: int
  op_MaxQueuedTargets :: int
  op_MaxRemediationAttempts :: int

definition New_Options :: Options where
  "New_Options =
     \<lparr>op_Component = ComponentScanner,
      op_MetricsBindAddress = '':8443'',
      op_MetricsSecure = True,
      op_HealthProbeBindAddress = '':8081'',
      op_LeaderElect = True,
      op_ScanInterval = 30 * second,
      op_DiscoveryRefreshInterval = 5 * minute,
      op_ScanTimeout = 2 * minute,
      op_ResourceWorkers = 4,
      op_DiagnosisWorkers = 8,
      op_MetadataPageSize = 500,
      op_MaxQueuedTargets = 10000,
      op_MaxRemediationAttempts = 5\<rparr>"

definition Bind :: "fraction_value \<Rightarrow> (string \<times> Options flag_value) list" where
  "Bind frac =
     [(''component'', string_flag (\<lambda>value opts. opts\<lparr>op_Component := value\<rparr>)),
      (''metrics-bind-address'', string_flag (\<lambda>value opts. opts\<lparr>op_MetricsBindAddress := value\<rparr>)),
      (''metrics-secure'', bool_flag (\<lambda>value opts. opts\<lparr>op_MetricsSecure := value\<rparr>)),
      (''health-probe-bind-address'', string_flag (\<lambda>value opts. opts\<lparr>op_HealthProbeBindAddress := value\<rparr>)),
      (''leader-elect'', bool_flag (\<lambda>value opts. opts\<lparr>op_LeaderElect := value\<rparr>)),
      (''scan-interval'', duration_flag frac (\<lambda>value opts. opts\<lparr>op_ScanInterval := value\<rparr>)),
      (''discovery-refresh-interval'', duration_flag frac (\<lambda>value opts. opts\<lparr>op_DiscoveryRefreshInterval := value\<rparr>)),
      (''scan-timeout'', duration_flag frac (\<lambda>value opts. opts\<lparr>op_ScanTimeout := value\<rparr>)),
      (''resource-workers'', int_flag (\<lambda>value opts. opts\<lparr>op_ResourceWorkers := value\<rparr>)),
      (''diagnosis-workers'', int_flag (\<lambda>value opts. opts\<lparr>op_DiagnosisWorkers := value\<rparr>)),
      (''metadata-page-size'', int_flag (\<lambda>value opts. opts\<lparr>op_MetadataPageSize := value\<rparr>)),
      (''max-queued-targets'', int_flag (\<lambda>value opts. opts\<lparr>op_MaxQueuedTargets := value\<rparr>)),
      (''max-remediation-attempts'', int_flag (\<lambda>value opts. opts\<lparr>op_MaxRemediationAttempts := value\<rparr>))]"

definition option_errors :: "(rune \<Rightarrow> bool) \<Rightarrow> Options \<Rightarrow> string list" where
  "option_errors isPrint opts =
     (if op_Component opts \<noteq> ComponentScanner \<and> op_Component opts \<noteq> ComponentExecutor
      then [''component must be '' @ quote isPrint ComponentScanner @ '' or '' @ quote isPrint ComponentExecutor
             @ '', got '' @ quote isPrint (op_Component opts)] else [])
     @ (if op_MetricsBindAddress opts = [] then [''metrics-bind-address must not be empty''] else [])
     @ (if op_HealthProbeBindAddress opts = [] then [''health-probe-bind-address must not be empty''] else [])
     @ (if op_ScanInterval opts \<le> 0 then [''scan-interval must be positive''] else [])
     @ (if op_DiscoveryRefreshInterval opts \<le> 0 then [''discovery-refresh-interval must be positive''] else [])
     @ (if op_ScanTimeout opts \<le> 0 then [''scan-timeout must be positive''] else [])
     @ (if op_ResourceWorkers opts \<le> 0 then [''resource-workers must be positive''] else [])
     @ (if op_DiagnosisWorkers opts \<le> 0 then [''diagnosis-workers must be positive''] else [])
     @ (if op_MetadataPageSize opts \<le> 0 then [''metadata-page-size must be positive''] else [])
     @ (if op_MaxQueuedTargets opts \<le> 0 then [''max-queued-targets must be positive''] else [])
     @ (if op_MaxRemediationAttempts opts \<le> 0 \<or> op_MaxRemediationAttempts opts > 5
        then [''max-remediation-attempts must be between 1 and 5''] else [])"

definition Validate :: "(rune \<Rightarrow> bool) \<Rightarrow> Options \<Rightarrow> ApiError option" where
  "Validate isPrint opts =
     (let errs = option_errors isPrint opts
      in if errs = [] then None else Some (errors_New (strings_Join errs [CHR 0x0A])))"

definition LeaderElectionID :: "Options \<Rightarrow> string" where
  "LeaderElectionID opts = op_Component opts @ ''.safety.exitguard.io''"

section \<open>The command\<close>

record metricsOptions =
  mo_BindAddress :: string
  mo_SecureServing :: bool
  mo_FilterProvider :: bool

record managerOptions =
  mgr_Metrics :: metricsOptions
  mgr_HealthProbeBindAddress :: string
  mgr_LeaderElection :: bool
  mgr_LeaderElectionID :: string

definition manager_options :: "Options \<Rightarrow> managerOptions" where
  "manager_options opts =
     \<lparr>mgr_Metrics = \<lparr>mo_BindAddress = op_MetricsBindAddress opts, mo_SecureServing = op_MetricsSecure opts,
                     mo_FilterProvider = op_MetricsSecure opts\<rparr>,
      mgr_HealthProbeBindAddress = op_HealthProbeBindAddress opts,
      mgr_LeaderElection = op_LeaderElect opts,
      mgr_LeaderElectionID = LeaderElectionID opts\<rparr>"

text \<open>The calls that can fail.\<close>

datatype start_call =
    AddToScheme string
  | GetConfig
  | NewManager managerOptions
  | AddHealthzCheck string
  | AddReadyzCheck string
  | NewDiscoveryClient
  | AddCatalog Catalog
  | NewDynamicClient
  | NewMetadataClient
  | AddCoordinator Coordinator
  | NewKubernetesClient
  | CompleteController Reconciler
  | StartManager

datatype start_event = Called start_call "ApiError option" | LogError ApiError string | LogInfo string Component

text \<open>
  The surroundings of the process.  \<open>su_Reader\<close>, \<open>su_Client\<close> and \<open>su_Recorder\<close> say that the manager has an
  API reader, a client and an event recorder that are not nil, and \<open>su_Metadata\<close> that a metadata client
  made without an error is not nil; the other clients are concrete pointers, which are never a nil interface.
  \<open>su_Flags\<close> holds the flags of other packages: whether they are boolean and which values they take.
\<close>

record start_env =
  su_Args :: "string list"
  su_Flags :: "string \<Rightarrow> (bool \<times> (string \<Rightarrow> bool)) option"
  su_Fraction :: fraction_value
  su_IsPrint :: "rune \<Rightarrow> bool"
  su_Answer :: "start_event list \<Rightarrow> start_call \<Rightarrow> ApiError option"
  su_Reader :: bool
  su_Client :: bool
  su_Recorder :: bool
  su_Metadata :: bool

type_synonym 'a start = "(start_event, 'a) prog"

definition make_call :: "start_env \<Rightarrow> start_call \<Rightarrow> ApiError option start" where
  "make_call E call = invoke (\<lambda>log. su_Answer E log call) (Called call)"

text \<open>\<open>setupLog.Error\<close> and \<open>return 1\<close>.\<close>

definition give_up :: "ApiError \<Rightarrow> string \<Rightarrow> int start" where
  "give_up err message = do { note_event (LogError err message); State_Monad.return 1 }"

definition attempt :: "start_env \<Rightarrow> start_call \<Rightarrow> string \<Rightarrow> int start \<Rightarrow> int start" where
  "attempt E call message continue =
     do { err \<leftarrow> make_call E call;
          case err of None \<Rightarrow> continue | Some e \<Rightarrow> give_up e message }"

fun register_schemes :: "start_env \<Rightarrow> (string \<times> string) list \<Rightarrow> ApiError option start" where
  "register_schemes E [] = State_Monad.return None"
| "register_schemes E ((package, prefix) # rest) =
     do { err \<leftarrow> make_call E (AddToScheme package);
          case err of None \<Rightarrow> register_schemes E rest | Some e \<Rightarrow> State_Monad.return (Some (errorf_wrap prefix e)) }"

definition newScheme :: "start_env \<Rightarrow> ApiError option start" where
  "newScheme E = register_schemes E
     [(''clientgoscheme'', ''register Kubernetes scheme: ''),
      (''apiextensionsv1'', ''register apiextensions scheme: ''),
      (''apiregistrationv1'', ''register apiregistration scheme: ''),
      (''safetyv1alpha1'', ''register safety API scheme: '')]"

definition scanner_config :: "Options \<Rightarrow> Config" where
  "scanner_config opts =
     \<lparr>cfg_Interval = op_ScanInterval opts, cfg_Timeout = op_ScanTimeout opts,
      cfg_ResourceWorkers = op_ResourceWorkers opts, cfg_DiagnosisWorkers = op_DiagnosisWorkers opts,
      cfg_PageSize = op_MetadataPageSize opts, cfg_MaxTargets = op_MaxQueuedTargets opts\<rparr>"

text \<open>The cases of \<open>switch opts.Component\<close>; an unknown component registers nothing.\<close>

definition setup_scanner :: "start_env \<Rightarrow> Options \<Rightarrow> int start \<Rightarrow> int start" where
  "setup_scanner E opts continue =
     attempt E NewMetadataClient ''create metadata client''
       (case NewCoordinator (su_Reader E) (su_Client E) (su_Metadata E) True True (scanner_config opts) of
          Inl err \<Rightarrow> give_up err ''create scanner''
        | Inr coordinator \<Rightarrow> attempt E (AddCoordinator coordinator) ''register scanner'' continue)"

definition SetupWithManager :: "Reconciler \<Rightarrow> start_call" where
  "SetupWithManager r = CompleteController r"

definition setup_executor :: "start_env \<Rightarrow> Options \<Rightarrow> int start \<Rightarrow> int start" where
  "setup_executor E opts continue =
     attempt E NewKubernetesClient ''create Kubernetes client''
       (case NewReconciler (su_Reader E) (su_Client E) True True True (su_Recorder E) (op_MaxRemediationAttempts opts) of
          Inl err \<Rightarrow> give_up err ''create executor''
        | Inr reconciler \<Rightarrow> attempt E (SetupWithManager reconciler) ''register executor'' continue)"

definition setup_component :: "start_env \<Rightarrow> Options \<Rightarrow> int start \<Rightarrow> int start" where
  "setup_component E opts continue =
     (if op_Component opts = ComponentScanner then setup_scanner E opts continue
      else if op_Component opts = ComponentExecutor then setup_executor E opts continue
      else continue)"

definition start_manager :: "start_env \<Rightarrow> Options \<Rightarrow> int start" where
  "start_manager E opts =
     do { note_event (LogInfo ''starting component'' (op_Component opts));
          attempt E StartManager (''run '' @ op_Component opts @ '' component'') (State_Monad.return 0) }"

definition setup_manager :: "start_env \<Rightarrow> Options \<Rightarrow> int start" where
  "setup_manager E opts =
     attempt E GetConfig ''load Kubernetes REST config''
     (attempt E (NewManager (manager_options opts)) ''create manager''
     (attempt E (AddHealthzCheck ''healthz'') ''register health check''
     (attempt E (AddReadyzCheck ''readyz'') ''register readiness check''
     (attempt E NewDiscoveryClient ''create discovery client''
     (attempt E (AddCatalog (NewCatalog True (op_DiscoveryRefreshInterval opts))) ''register discovery catalog''
     (attempt E NewDynamicClient ''create dynamic client''
     (setup_component E opts (start_manager E opts))))))))"

definition command_flags :: "start_env \<Rightarrow> string \<Rightarrow> Options flag_value option" where
  "command_flags E name =
     (case map_of (Bind (su_Fraction E)) name of
        Some flag \<Rightarrow> Some flag
      | None \<Rightarrow> map_option (\<lambda>(boolFlag, accepts). (boolFlag, \<lambda>s opts. if accepts s then Some opts else None)) (su_Flags E name))"

definition parsed_options :: "start_env \<Rightarrow> Options parsed" where
  "parsed_options E = flag_Parse (command_flags E) (su_Args E) New_Options"

definition run :: "start_env \<Rightarrow> int start" where
  "run E =
     (case parsed_options E of
        ParseFailed \<Rightarrow> State_Monad.return 2
      | HelpRequested \<Rightarrow> State_Monad.return 0
      | Parsed opts \<Rightarrow>
          (case Validate (su_IsPrint E) opts of
             Some err \<Rightarrow> do { note_event (LogError err ''invalid options''); State_Monad.return 2 }
           | None \<Rightarrow>
               do { err \<leftarrow> newScheme E;
                    case err of
                      Some e \<Rightarrow> give_up e ''register API schemes''
                    | None \<Rightarrow> setup_manager E opts }))"

section \<open>What validation accepts\<close>

lemma Validate_ok:
  "Validate isPrint opts = None \<longleftrightarrow>
     (op_Component opts = ComponentScanner \<or> op_Component opts = ComponentExecutor)
     \<and> op_MetricsBindAddress opts \<noteq> [] \<and> op_HealthProbeBindAddress opts \<noteq> []
     \<and> 0 < op_ScanInterval opts \<and> 0 < op_DiscoveryRefreshInterval opts \<and> 0 < op_ScanTimeout opts
     \<and> 0 < op_ResourceWorkers opts \<and> 0 < op_DiagnosisWorkers opts \<and> 0 < op_MetadataPageSize opts
     \<and> 0 < op_MaxQueuedTargets opts \<and> 0 < op_MaxRemediationAttempts opts \<and> op_MaxRemediationAttempts opts \<le> 5"
proof -
  have none: "(if b then [x] else []) = [] \<longleftrightarrow> \<not> b" for b and x :: string by simp
  have joined: "(let errs = xs in if errs = [] then None else Some (f errs)) = None \<longleftrightarrow> xs = []" for xs :: "string list" and f :: "string list \<Rightarrow> ApiError"
    by (simp add: Let_def)
  show ?thesis
    unfolding Validate_def joined option_errors_def append_is_Nil_conv none not_le[symmetric] by blast
qed

lemma components_distinct [simp]: "ComponentScanner \<noteq> ComponentExecutor"
  by (simp add: go_enum)

text \<open>The coordinator and the reconciler of validated options: neither constructor rejects them.\<close>

definition the_coordinator :: "Options \<Rightarrow> Coordinator" where
  "the_coordinator opts =
     \<lparr>co_interval = op_ScanInterval opts, co_timeout = op_ScanTimeout opts, co_config = scanner_config opts\<rparr>"

definition the_reconciler :: "Options \<Rightarrow> Reconciler" where
  "the_reconciler opts = \<lparr>rec_maxAttempts = op_MaxRemediationAttempts opts\<rparr>"

lemma constructors_accept:
  assumes "Validate isPrint opts = None"
  shows "NewCoordinator True True True True True (scanner_config opts) = Inr (the_coordinator opts)"
    and "NewReconciler True True True True True True (op_MaxRemediationAttempts opts) = Inr (the_reconciler opts)"
  using assms unfolding Validate_ok
  by (simp_all add: NewCoordinator_def NewReconciler_def scanner_config_def the_coordinator_def the_reconciler_def)

section \<open>The plan of a start\<close>

text \<open>
  The specification of a start: a fixed list of calls, made in order until one fails.  The exit code is 1
  if one fails and 0 if none does.
\<close>

definition startup_plan :: "Options \<Rightarrow> start_call list" where
  "startup_plan opts =
     map AddToScheme [''clientgoscheme'', ''apiextensionsv1'', ''apiregistrationv1'', ''safetyv1alpha1'']
     @ [GetConfig, NewManager (manager_options opts), AddHealthzCheck ''healthz'', AddReadyzCheck ''readyz'',
        NewDiscoveryClient, AddCatalog (NewCatalog True (op_DiscoveryRefreshInterval opts)), NewDynamicClient]
     @ (if op_Component opts = ComponentScanner then [NewMetadataClient, AddCoordinator (the_coordinator opts)]
        else [NewKubernetesClient, CompleteController (the_reconciler opts)])
     @ [StartManager]"

fun plan_outcome :: "start_call list \<Rightarrow> int \<Rightarrow> (start_call \<times> ApiError option) list \<Rightarrow> bool" where
  "plan_outcome [] code calls \<longleftrightarrow> code = 0 \<and> calls = []"
| "plan_outcome (c # plan) code [] \<longleftrightarrow> False"
| "plan_outcome (c # plan) code ((d, err) # calls) \<longleftrightarrow>
     d = c \<and> (case err of None \<Rightarrow> plan_outcome plan code calls | Some e \<Rightarrow> code = 1 \<and> calls = [])"

fun called :: "start_event list \<Rightarrow> (start_call \<times> ApiError option) list" where
  "called [] = []"
| "called (Called c err # es) = (c, err) # called es"
| "called (LogError err message # es) = called es"
| "called (LogInfo message component # es) = called es"

lemma called_append [simp]: "called (es @ es') = called es @ called es'"
  by (induction es rule: called.induct) auto

definition follows :: "start_call list \<Rightarrow> int start \<Rightarrow> bool" where
  "follows plan m \<longleftrightarrow>
     (\<forall>log. \<exists>es. snd (run_state m log) = log @ es \<and> plan_outcome plan (fst (run_state m log)) (called es))"

lemma followsE:
  assumes "follows plan m"
  obtains es where "snd (run_state m log) = log @ es" and "plan_outcome plan (fst (run_state m log)) (called es)"
  using assms unfolding follows_def by blast

lemma follows_attempt:
  assumes "follows plan m"
  shows "follows (c # plan) (attempt E c message m)"
  unfolding follows_def
proof
  fix log
  let ?log = "log @ [Called c (su_Answer E log c)]"
  show "\<exists>es. snd (run_state (attempt E c message m) log) = log @ es
      \<and> plan_outcome (c # plan) (fst (run_state (attempt E c message m) log)) (called es)"
  proof (cases "su_Answer E log c")
    case None
    from assms obtain es where "snd (run_state m ?log) = ?log @ es" "plan_outcome plan (fst (run_state m ?log)) (called es)"
      by (rule followsE)
    with None show ?thesis
      by (intro exI[of _ "Called c None # es"]) (simp add: attempt_def make_call_def)
  next
    case (Some e)
    then show ?thesis
      by (intro exI[of _ "[Called c (Some e), LogError e message]"]) (simp add: attempt_def make_call_def give_up_def)
  qed
qed

lemma follows_schemes:
  assumes "follows plan m"
  shows "follows (map (\<lambda>x. AddToScheme (fst x)) xs @ plan)
    (State_Monad.bind (register_schemes E xs) (\<lambda>err. case err of None \<Rightarrow> m | Some e \<Rightarrow> give_up e message))"
proof (induction xs)
  case Nil
  then show ?case using assms by (simp add: follows_def)
next
  case (Cons x xs)
  obtain package prefix where x: "x = (package, prefix)" by (cases x)
  let ?m = "\<lambda>xs. State_Monad.bind (register_schemes E xs) (\<lambda>err. case err of None \<Rightarrow> m | Some e \<Rightarrow> give_up e message)"
  show ?case unfolding follows_def
  proof
    fix log
    let ?c = "AddToScheme package"
    let ?log = "log @ [Called ?c (su_Answer E log ?c)]"
    show "\<exists>es. snd (run_state (?m (x # xs)) log) = log @ es
      \<and> plan_outcome (map (\<lambda>x. AddToScheme (fst x)) (x # xs) @ plan) (fst (run_state (?m (x # xs)) log)) (called es)"
    proof (cases "su_Answer E log ?c")
      case None
      then have same: "run_state (?m (x # xs)) log = run_state (?m xs) ?log" by (simp add: x make_call_def)
      from Cons.IH obtain es where "snd (run_state (?m xs) ?log) = ?log @ es"
        "plan_outcome (map (\<lambda>x. AddToScheme (fst x)) xs @ plan) (fst (run_state (?m xs) ?log)) (called es)"
        by (rule followsE)
      with None show ?thesis unfolding same by (intro exI[of _ "Called ?c None # es"]) (simp add: x)
    next
      case (Some e)
      then show ?thesis
        by (intro exI[of _ "[Called ?c (Some e), LogError (errorf_wrap prefix e) message]"])
           (simp add: x make_call_def give_up_def)
    qed
  qed
qed

lemma follows_note:
  assumes "follows plan m" and "called [e] = []"
  shows "follows plan (State_Monad.bind (note_event e) (\<lambda>_. m))"
  unfolding follows_def
proof
  fix log
  from assms(1) obtain es where "snd (run_state m (log @ [e])) = (log @ [e]) @ es"
    "plan_outcome plan (fst (run_state m (log @ [e]))) (called es)"
    by (rule followsE)
  moreover have "called (e # es) = called es" using assms(2) called_append[of "[e]" es] by simp
  ultimately show "\<exists>es. snd (run_state (State_Monad.bind (note_event e) (\<lambda>_. m)) log) = log @ es
      \<and> plan_outcome plan (fst (run_state (State_Monad.bind (note_event e) (\<lambda>_. m)) log)) (called es)"
    by (intro exI[of _ "e # es"]) simp
qed

lemma follows_start_manager: "follows [StartManager] (start_manager E opts)"
  unfolding start_manager_def by (intro follows_note follows_attempt) (simp_all add: follows_def)

lemma follows_setup_component:
  assumes "Validate isPrint opts = None" and "su_Reader E" and "su_Client E" and "su_Recorder E" and "su_Metadata E"
    and "follows plan m"
  shows "follows
    ((if op_Component opts = ComponentScanner then [NewMetadataClient, AddCoordinator (the_coordinator opts)]
      else [NewKubernetesClient, CompleteController (the_reconciler opts)]) @ plan) (setup_component E opts m)"
proof (cases "op_Component opts = ComponentScanner")
  case True
  then show ?thesis using assms
    by (simp add: setup_component_def setup_scanner_def constructors_accept(1)[OF assms(1)] follows_attempt)
next
  case False
  then have "op_Component opts = ComponentExecutor" using assms(1) by (simp add: Validate_ok)
  then show ?thesis using assms components_distinct[symmetric]
    by (simp add: setup_component_def setup_executor_def SetupWithManager_def constructors_accept(2)[OF assms(1)] follows_attempt)
qed

lemma follows_run:
  assumes "Validate isPrint opts = None" and "su_Reader E" and "su_Client E" and "su_Recorder E" and "su_Metadata E"
  shows "follows (startup_plan opts)
    (State_Monad.bind (newScheme E) (\<lambda>err. case err of None \<Rightarrow> setup_manager E opts | Some e \<Rightarrow> give_up e message))"
proof -
  let ?schemes = "[(''clientgoscheme'', ''register Kubernetes scheme: ''),
      (''apiextensionsv1'', ''register apiextensions scheme: ''),
      (''apiregistrationv1'', ''register apiregistration scheme: ''),
      (''safetyv1alpha1'', ''register safety API scheme: '')]"
  let ?rest = "drop 4 (startup_plan opts)"
  have "follows ?rest (setup_manager E opts)"
    using follows_setup_component[OF assms follows_start_manager]
    by (simp add: setup_manager_def startup_plan_def follows_attempt)
  from follows_schemes[OF this, of ?schemes E message] show ?thesis
    by (simp add: newScheme_def startup_plan_def)
qed

section \<open>Properties\<close>

text \<open>
  C26.  The start of the process refines its plan.  A command line that cannot be parsed or options that do not
  validate end the process with code 2 before any call; help ends it with code 0.  Validated options are
  accepted by the constructors of both components: the calls made are those of the plan, in order, up to the
  first that fails; the process exits with 1 if one fails and with 0 if all of them, the run of the manager
  included, succeed.  The plan registers the selected component only, with its own leader election identity.
\<close>

theorem startup_follows_plan:
  assumes "su_Reader E" and "su_Client E" and "su_Recorder E" and "su_Metadata E"
  shows "case parsed_options E of
      ParseFailed \<Rightarrow> run_state (run E) [] = (2, [])
    | HelpRequested \<Rightarrow> run_state (run E) [] = (0, [])
    | Parsed opts \<Rightarrow>
        if Validate (su_IsPrint E) opts = None
        then plan_outcome (startup_plan opts) (fst (run_state (run E) [])) (called (snd (run_state (run E) [])))
        else fst (run_state (run E) []) = 2 \<and> called (snd (run_state (run E) [])) = []"
proof (cases "parsed_options E")
  case (Parsed opts)
  show ?thesis
  proof (cases "Validate (su_IsPrint E) opts")
    case None
    then have "follows (startup_plan opts) (run E)"
      using follows_run[OF None assms] Parsed by (simp add: run_def)
    then obtain es where "snd (run_state (run E) []) = [] @ es"
      "plan_outcome (startup_plan opts) (fst (run_state (run E) [])) (called es)"
      by (rule followsE)
    then show ?thesis using Parsed None by simp
  next
    case (Some err)
    then show ?thesis using Parsed by (simp add: run_def)
  qed
qed (simp_all add: run_def)

definition sample_start :: "string list \<Rightarrow> start_env" where
  "sample_start args =
     \<lparr>su_Args = args, su_Flags = (\<lambda>_. None), su_Fraction = (\<lambda>_ _ _. 0), su_IsPrint = (\<lambda>_. True),
      su_Answer = (\<lambda>_ call. if call = NewKubernetesClient then Some (errors_New ''refused'') else None),
      su_Reader = True, su_Client = True, su_Recorder = True, su_Metadata = True\<rparr>"

theorem startup_follows_plan_witness:
  "plan_outcome (startup_plan (New_Options\<lparr>op_Component := ComponentExecutor\<rparr>)) 1
     (called (snd (run_state (run (sample_start [''--component=executor''])) [])))"
proof -
  let ?E = "sample_start [''--component=executor'']"
  have p: "parsed_options ?E = Parsed (New_Options\<lparr>op_Component := ComponentExecutor\<rparr>)"
    by (simp add: parsed_options_def sample_start_def command_flags_def Bind_def string_flag_def Let_def go_enum)
  moreover have v: "Validate (su_IsPrint ?E) (New_Options\<lparr>op_Component := ComponentExecutor\<rparr>) = None"
    unfolding Validate_ok by (simp add: New_Options_def second_def minute_def)
  moreover have "run ?E = State_Monad.bind (newScheme ?E)
      (\<lambda>err. case err of Some e \<Rightarrow> give_up e ''register API schemes''
        | None \<Rightarrow> setup_manager ?E (New_Options\<lparr>op_Component := ComponentExecutor\<rparr>))"
    by (simp add: run_def p v)
  then have "fst (run_state (run ?E) []) = 1"
    using components_distinct[symmetric]
    by (simp add: newScheme_def setup_manager_def setup_component_def setup_executor_def attempt_def
        make_call_def give_up_def sample_start_def)
  ultimately show ?thesis
    using startup_follows_plan[of ?E] by (simp add: sample_start_def)
qed

text \<open>A command line that sets every option, durations in nanoseconds.\<close>

definition flag_args :: "Options \<Rightarrow> string list" where
  "flag_args opts =
     [flag_arg ''component'' (op_Component opts),
      flag_arg ''metrics-bind-address'' (op_MetricsBindAddress opts),
      flag_arg ''metrics-secure'' (format_bool (op_MetricsSecure opts)),
      flag_arg ''health-probe-bind-address'' (op_HealthProbeBindAddress opts),
      flag_arg ''leader-elect'' (format_bool (op_LeaderElect opts)),
      flag_arg ''scan-interval'' (itoa (op_ScanInterval opts) @ ''ns''),
      flag_arg ''discovery-refresh-interval'' (itoa (op_DiscoveryRefreshInterval opts) @ ''ns''),
      flag_arg ''scan-timeout'' (itoa (op_ScanTimeout opts) @ ''ns''),
      flag_arg ''resource-workers'' (itoa (op_ResourceWorkers opts)),
      flag_arg ''diagnosis-workers'' (itoa (op_DiagnosisWorkers opts)),
      flag_arg ''metadata-page-size'' (itoa (op_MetadataPageSize opts)),
      flag_arg ''max-queued-targets'' (itoa (op_MaxQueuedTargets opts)),
      flag_arg ''max-remediation-attempts'' (itoa (op_MaxRemediationAttempts opts))]"

definition int64_options :: "Options \<Rightarrow> bool" where
  "int64_options opts \<longleftrightarrow>
     list_all (\<lambda>i. min_int64 \<le> i \<and> i \<le> max_int64)
       [op_ScanInterval opts, op_DiscoveryRefreshInterval opts, op_ScanTimeout opts, op_ResourceWorkers opts,
        op_DiagnosisWorkers opts, op_MetadataPageSize opts, op_MaxQueuedTargets opts, op_MaxRemediationAttempts opts]"

lemma command_flags_Bind: "map_of (Bind (su_Fraction E)) name = Some flag \<Longrightarrow> command_flags E name = Some flag"
  by (simp add: command_flags_def)

lemma flag_Parse_bound:
  assumes "map_of (Bind (su_Fraction E)) name \<noteq> None" and "name \<noteq> []" and "hd name \<noteq> CHR ''-''" and "CHR ''='' \<notin> set name"
    and "snd (the (map_of (Bind (su_Fraction E)) name)) value opts \<noteq> None"
  shows "flag_Parse (command_flags E) (flag_arg name value # args) opts
    = flag_Parse (command_flags E) args (the (snd (the (map_of (Bind (su_Fraction E)) name)) value opts))"
proof -
  from assms(1,5) obtain b set_value opts' where f: "map_of (Bind (su_Fraction E)) name = Some (b, set_value)"
    "set_value value opts = Some opts'" by auto
  with assms(2-4) show ?thesis
    using flag_Parse_arg[of name "command_flags E" b set_value "value" opts opts' args] command_flags_Bind by simp
qed

text \<open>
  C33.  The flags reach every option: whatever the options were before, the command line that sets all of them
  is read back exactly, for every 64-bit value of the numbers and whatever flags other packages bind.
\<close>

theorem flags_roundtrip:
  assumes "int64_options opts"
  shows "flag_Parse (command_flags E) (flag_args opts) before = Parsed opts"
proof -
  note flags = string_flag_def bool_flag_def int_flag_def duration_flag_def
  have num: "ParseInt (itoa i) = Some i" "ParseDuration frac (itoa i @ ''ns'') = Some i"
    if "min_int64 \<le> i \<and> i \<le> max_int64" for i frac
    using that by (simp_all add: ParseInt_itoa ParseDuration_nanoseconds)
  show ?thesis
    using assms unfolding flag_args_def int64_options_def
    by (cases opts, cases before) (simp add: flag_Parse_bound Bind_def flags num del: flag_Parse.simps(2))
qed

theorem flags_roundtrip_witness:
  "flag_Parse (command_flags (sample_start [])) (flag_args (New_Options\<lparr>op_ScanInterval := 45 * second\<rparr>)) New_Options
   = Parsed (New_Options\<lparr>op_ScanInterval := 45 * second\<rparr>)"
  by (rule flags_roundtrip)
     (simp add: int64_options_def New_Options_def second_def minute_def min_int64_def max_int64_def)

end
