(* ===== verification/Spec2Isabelle.thy ===== *)
theory Spec2Isabelle
  imports Api_Deepcopy Perf_Client Perf_Fixtures Executor_Schema Keyed_Locks Scan_Resolution Scan_Retention Scan_Schema Startup
begin

text \<open>
  \<^bold>\<open>ExitGuard.\<close>  A Kubernetes controller for objects that are stuck in deletion.  The process (\<open>cmd/main.go\<close>)
  runs one of two components over a shared catalog of served resources.  The \<^emph>\<open>scanner\<close> lists what the
  TerminationPolicies of the cluster select, diagnoses every target that stays in deletion too long, and keeps
  one DeletionIncident per target with findings and recommended actions.  The \<^emph>\<open>executor\<close> carries out an action
  that a person has approved with a RemediationApproval, after checking everything again.  The components meet
  only in the cluster: the incident the scanner writes is what the executor reads.

  \<^bold>\<open>Theories and sources.\<close>
  \<^item> \<open>EG_Prelude\<close>: shared facts on lists, and the calculus of programs over a log (\<open>emits\<close>, \<open>wp\<close>, \<open>ensures\<close>).
    \<open>Typed_Programs\<close> adds the judgement \<open>gives P R m\<close>: the events of \<open>m\<close> satisfy \<open>P\<close> and its result \<open>R\<close>.
  \<^item> \<open>Go_Runtime\<close>, \<open>Go_Numbers\<close>, \<open>Go_Flags\<close>, \<open>Sha256\<close>: what the sources use of Go's standard library.  Strings are byte
    sequences, numbers are integers with their 64-bit wrap-around written out where the code adds or multiplies,
    an instant is a number of nanoseconds.
  \<^item> \<open>Kube_Types\<close>, \<open>Api_Types\<close>: the Kubernetes data the code looks at and \<open>api/v1alpha1\<close>.  Functions of the
    Kubernetes libraries (selectors, formatting of groups) are fields of \<open>kube_lib\<close>, an argument of every
    definition that uses them.
  \<^item> \<open>Api_Schema\<close>: what the API server checks of a status (the validation markers of \<open>api/v1alpha1\<close> and the schema of
    conditions).  \<open>Executor_Schema\<close>, \<open>Diagnosis_Schema\<close> and \<open>Scan_Schema\<close> show that the statuses the program
    writes pass it, and where they do not.
  \<^item> \<open>Go_Memory\<close>, \<open>Api_Deepcopy\<close> (\<open>api/v1alpha1/zz_generated.deepcopy.go\<close>): a memory of cells with typed reading,
    and the generated copying functions over it.
  \<^item> \<open>Metrics\<close> (the three \<open>metrics.go\<close>): the collectors, their registration and the label values they may have.
  \<^item> \<open>Discovery\<close> (\<open>internal/discovery/catalog.go\<close>): versions, snapshots and the catalog with its refreshes.  The
    interface that its clients rely on is the locale \<open>resource_catalog\<close>.
  \<^item> \<open>Policy\<close> (\<open>internal/policy/engine.go\<close>): \<open>Compile\<close>, \<open>Match\<close>, \<open>SelectWinning\<close>, \<open>RiskFor\<close>, \<open>ActionEligibility\<close>.
  \<^item> \<open>World\<close>: the events of the controllers, one constructor per call that leaves the process, and the
    environment \<open>env\<close> that answers them.
  \<^item> \<open>Executor\<close>, \<open>Executor_Safety\<close>, \<open>Keyed_Locks\<close> (\<open>internal/executor/executor.go\<close>): \<open>Reconcile\<close> and its stages,
    in the order of the code; the per-target locks as a \<open>transition_system\<close>, a locale for invariants of step relations.
  \<^item> \<open>Evidence\<close>, \<open>Analyzers\<close>, \<open>Diagnosis\<close>, \<open>Diagnosis_Safety\<close>, \<open>Diagnosis_Properties\<close> (\<open>internal/diagnosis\<close>): the
    bounded collector of findings and actions with their identifiers, the analyzers, \<open>Diagnose\<close> with its
    paginated listings, and what a diagnosis shows.
  \<^item> \<open>Scanner\<close>, \<open>Scanner_Safety\<close>, \<open>Scan_Listing\<close>, \<open>Scan_Policies\<close>, \<open>Scanner_Properties\<close> (\<open>internal/scanner/scanner.go\<close>,
    \<open>cycle.go\<close>): \<open>Coordinator_Start\<close>, the cycle \<open>Run\<close> with its stages and degraded paths, and their properties.
    The compile cache is an instance of the locale \<open>ageing_cache\<close>.  \<open>Scan_Retention\<close> follows the retention of a
    policy through the annotation of an incident, \<open>Scan_Resolution\<close> why incidents are resolved.  What any account
    of the scanner's writes has to admit is the locale \<open>scan_calls\<close>, and an account that grows with the calls the
    locale \<open>accounting\<close>; the properties of writes are their interpretations.  \<open>scanner/reader.go\<close> is two calls
    of \<open>World\<close>.
  \<^item> \<open>Startup\<close> (\<open>internal/options/options.go\<close>, \<open>cmd/main.go\<close>): flags, validation and the start of the process.
  \<^item> \<open>Perf_Counters\<close>, \<open>Perf_Client\<close>, \<open>Perf_Fixtures\<close> (\<open>internal/perftest\<close>): the counters of the benchmarks with
    the locale \<open>operation_counters\<close> of what their users rely on, the counting wrappers as clients over a state with
    counters (locale \<open>status_client\<close>), the pager and the fixtures.
  \<^item> \<open>Samples\<close>: values the witnesses share.  This theory: properties that span the components.

  \<^bold>\<open>How the code is rendered.\<close>  A function that calls the API server, the clock, a lock or a metric is a program
  of the state monad over the log of its calls.  The environment chooses each answer from the log so far and the
  arguments, so a theorem about every environment covers every behaviour of other writers between two calls.
  Go's \<open>(value, error)\<close> is a sum, a nil pointer is \<open>None\<close>, and a dereference of nil is a result of its own
  (\<open>Panicked\<close>).  \<open>RetryOnConflict\<close> repeats its closure as often as the environment says.  Mutexes that only
  make an operation atomic are the atomicity of the definition; the executor's lock of a target is an event,
  and \<open>Keyed_Locks\<close> shows what the event relies on.  The scanner's workers run one after the other, in an order
  the environment chooses; the list of incidents is shared by the stages of a cycle, and the places where the code
  updates it through a pointer are updates of the list that is threaded through.

  \<^bold>\<open>Fuel.\<close>  The sources put no bound on the number of pages of a listing, so the loops over pages take a fuel and
  give \<open>None\<close> without it.  \<open>diagnosis_returns\<close> and \<open>scan_returns\<close> show that a result exists as soon as the fuel
  covers the longest chain of page tokens, and the lemmas \<open>Diagnose_extends\<close> and \<open>Start_extends\<close> that more fuel
  does not change it.  A reader of the benchmark pager needs as much fuel as there are pages, which
  \<open>pager_serves_all\<close> counts.  All other loops are over finite data.

  \<^bold>\<open>What is shown.\<close>
  \<^item> Executor: a mutation is sent only when everything that warrants it was read before, under the lock of its
    target; at most one per reconciliation; a valid approval is carried out if nobody interferes and the server stores
    what it is sent (\<open>approved_action_executed\<close>, for runs of up to 64 calls, twice what a run needs); the patch removes
    exactly the finalizer at its index and is rejected by the server otherwise; statuses are complete; finished
    approvals are left alone; retries and texts are bounded.
  \<^item> Locks: mutual exclusion per key, and the map holds exactly the keys in use.
  \<^item> Policy: matching agrees with a declarative reading of the rules; the winner is unique and independent of the
    order; eligibility, status conditions and bounds of settings.
  \<^item> Discovery: order of versions, that a snapshot holds exactly what discovery offers, and that only complete
    answers are published.
  \<^item> Diagnosis: it reads only; it is gated by identity and age; its actions rest on objects read in the run; a
    complete diagnosis of a namespace or CRD has read every listing to its end; the evidence keeps within its
    budget, does not depend on the order in which it is found unless something is omitted, and has identifiers
    that determine what they stand for up to a collision of SHA-256.
  \<^item> Scanner: what it writes is grounded in what it read; an incident is resolved only on a complete listing or a
    direct read that shows its target gone; the one answer of the server that crashes a cycle (\<open>cycle_crash_iff\<close>); a degraded cycle leaves nothing that could be executed; the target budget holds; the compile cache is transparent;
    the retention of a policy survives the policy; metrics keep to their bounded labels.
  \<^item> Schema: the statuses of approvals, policies and incidents that the program writes are valid
    (\<open>approval_status_valid\<close>, \<open>scan_status_valid\<close>), under hypotheses on the server that are shown to be needed
    (\<open>denied_reason_invalid\<close>, \<open>remaining_object_without_uid\<close>).
  \<^item> Process: the start refines a fixed plan of calls, and the flags reach every option.
  \<^item> Deep copies: a copy has the value of the original and no cell in common with it (\<open>deep_copies_independent\<close>),
    which is why the models above may treat copies as values.
  \<^item> Benchmarks: a counting client is transparent and accounts for every call, checks of counts are exact in any
    interleaving, and the pager serves every item once and in order.
  \<^item> Across components: the executor judges what the diagnosis recommends as the diagnosis did, and which actions it
    refuses (\<open>recommended_action_accepted\<close>); how long the scanner's evidence is current for the executor
    (\<open>evidence_window_bounds\<close>) and that it may lapse between cycles (\<open>evidence_gap\<close>); what a degraded scan writes stops the executor (\<open>blocked_incident_untouched\<close>).

  \<^bold>\<open>Not modelled.\<close>  Logging and the histogram of cycle durations, which nothing reads back, and the registration of
  the types with a scheme (\<open>groupversion_info.go\<close>) beyond its place in the start of the process.  Contexts are
  modelled by their answers: a call may fail with the error of an expired context, and the code's own tests of the
  context are calls.  The API server's storing of times to the second shows only where a property is about what is
  read back (\<open>stored_time\<close>); elsewhere every environment is covered anyway.
\<close>

section \<open>From the scanner to the executor: the evidence window\<close>

text \<open>
  The API server stores the times of a status to the second (\<open>metav1.Time\<close> is written in the format RFC 3339
  without fractions), so what the executor and the next cycle read is the status with its evidence times cut.
\<close>

definition stored_evidence :: "DeletionIncidentStatus \<Rightarrow> DeletionIncidentStatus" where
  "stored_evidence st = st\<lparr>is_ActionEvidenceTime := map_option stored_time (is_ActionEvidenceTime st),
     is_ActionEvidenceExpiresTime := map_option stored_time (is_ActionEvidenceExpiresTime st)\<rparr>"

lemma stored_time_bounds: "stored_time t \<le> t" "t < stored_time t + second"
proof -
  have "t = t div second * second + t mod second" by simp
  moreover have "0 \<le> t mod second" "t mod second < second" by (simp_all add: second_def)
  ultimately show "stored_time t \<le> t" "t < stored_time t + second" unfolding stored_time_def by linarith+
qed

lemma stored_time_mono: "t \<le> u \<Longrightarrow> stored_time t \<le> stored_time u"
  unfolding stored_time_def by (simp add: second_def zdiv_mono1)

text \<open>The window of a status as earlier cycles of the same configuration left it: it ends no later than a new one would.\<close>

definition window_ok :: "Config \<Rightarrow> time \<Rightarrow> DeletionIncidentStatus \<Rightarrow> bool" where
  "window_ok cfg now st \<longleftrightarrow>
     (case (is_ActionEvidenceTime st, is_ActionEvidenceExpiresTime st) of
        (Some evidence, Some expires) \<Rightarrow> evidence \<le> expires \<and> expires \<le> now + cfg_Timeout cfg + 2 * cfg_Interval cfg
      | _ \<Rightarrow> True)"

lemma evidence_window_cases:
  assumes "0 < cfg_Interval cfg" and "0 < cfg_Timeout cfg" and "cfg_Timeout cfg + 2 * cfg_Interval cfg \<le> max_int64"
    and "dg_DiagnosisComplete result" and "dg_Actions result \<noteq> []" and "window_ok cfg now st"
  obtains evidence expires where "evidence_window cfg now result st = (Some evidence, Some expires)"
    and "evidence \<le> expires" and "expires \<le> now + cfg_Timeout cfg + 2 * cfg_Interval cfg"
    and "now + max (cfg_Interval cfg) (cfg_Timeout cfg) < expires"
proof -
  let ?w = "cfg_Timeout cfg + 2 * cfg_Interval cfg"
  have wrap: "wrap64 (cfg_Timeout cfg + wrap64 (2 * cfg_Interval cfg)) = ?w"
    using assms(1-3) by (simp add: wrap64_id min_int64_def max_int64_def)
  show thesis
  proof (cases "evidence_window cfg now result st = (Some now, Some (now + ?w))")
    case True
    then show ?thesis using assms(1,2) by (intro that[of now "now + ?w"]) auto
  next
    case False
    then have kept: "evidence_window cfg now result st = (is_ActionEvidenceTime st, is_ActionEvidenceExpiresTime st)"
      and "is_ActionEvidenceTime st \<noteq> None"
      and lead: "\<exists>x. is_ActionEvidenceExpiresTime st = Some x \<and> \<not> time_sub x now \<le> max (cfg_Interval cfg) (cfg_Timeout cfg)"
      using assms(4,5) by (auto simp: evidence_window_def Let_def wrap split: if_splits option.splits)
    then obtain e x where ex: "is_ActionEvidenceTime st = Some e" "is_ActionEvidenceExpiresTime st = Some x"
      and far: "max (cfg_Interval cfg) (cfg_Timeout cfg) < time_sub x now" unfolding not_le by blast
    have "now + max (cfg_Interval cfg) (cfg_Timeout cfg) < x"
      using far assms(1,2) by (auto simp: time_sub_def min_int64_def max_int64_def split: if_splits)
    with ex assms(6) kept show ?thesis by (intro that[of e x]) (auto simp: window_ok_def)
  qed
qed

text \<open>
  C10.  How long the executor takes the evidence of the scanner for current.  Let a cycle at an instant \<open>now\<close> find
  a complete diagnosis with actions, over a status whose window ends no later than a new one would (no window,
  or one that a cycle of the same configuration left).  Then the status it writes, with its times stored to
  the second, is current for the executor up to the longer of the interval and the time limit of a cycle
  after \<open>now\<close>, less the second of the rounding; it is stale from a time limit and two intervals after \<open>now\<close>; and
  its window is again one that the next cycles, at any later instant, may find.  That the next cycle renews it in
  time is not claimed: \<open>evidence_gap\<close> shows that it need not.
\<close>

theorem evidence_window_bounds:
  assumes "0 < cfg_Interval cfg" and "0 < cfg_Timeout cfg" and "cfg_Timeout cfg + 2 * cfg_Interval cfg \<le> max_int64"
    and "dg_DiagnosisComplete result" and "dg_Actions result \<noteq> []" and "window_ok cfg now st"
  shows "let written = stored_evidence (diagnosed_status cfg observed result now st)
    in (\<forall>t. t + second \<le> now + max (cfg_Interval cfg) (cfg_Timeout cfg) \<longrightarrow> actionEvidenceCurrent written t)
      \<and> (\<forall>t\<ge>now + cfg_Timeout cfg + 2 * cfg_Interval cfg. \<not> actionEvidenceCurrent written t)
      \<and> (\<forall>later\<ge>now. window_ok cfg later written)"
proof -
  let ?written = "stored_evidence (diagnosed_status cfg observed result now st)"
  obtain evidence expires where w: "evidence_window cfg now result st = (Some evidence, Some expires)"
    and e: "evidence \<le> expires" and x: "expires \<le> now + cfg_Timeout cfg + 2 * cfg_Interval cfg"
    and far: "now + max (cfg_Interval cfg) (cfg_Timeout cfg) < expires"
    using evidence_window_cases[OF assms] by blast
  have written: "is_ActionEvidenceTime ?written = Some (stored_time evidence)"
    "is_ActionEvidenceExpiresTime ?written = Some (stored_time expires)"
    by (simp_all add: stored_evidence_def diagnosed_status_evidence w)
  have "stored_time expires \<le> expires" "expires < stored_time expires + second" "stored_time evidence \<le> stored_time expires"
    using stored_time_bounds stored_time_mono[OF e] by auto
  then show ?thesis
    using x far unfolding actionEvidenceCurrent_def window_ok_def Let_def written by auto
qed

theorem evidence_window_bounds_witness:
  "actionEvidenceCurrent (stored_evidence (diagnosed_status small_config deleted_crd crd_result 100 zero_DeletionIncidentStatus)) 200
   \<and> \<not> actionEvidenceCurrent (stored_evidence (diagnosed_status small_config deleted_crd crd_result 100 zero_DeletionIncidentStatus))
       (100 + 3 * minute)"
proof -
  have "window_ok small_config 100 zero_DeletionIncidentStatus"
    by (simp add: window_ok_def zero_DeletionIncidentStatus_def)
  from evidence_window_bounds[OF _ _ _ _ _ this, of crd_result deleted_crd] show ?thesis
    by (simp add: Let_def small_config_def minute_def second_def max_int64_def)
qed

text \<open>
  With an interval of 30 and a time limit of 50 seconds, evidence dated 0 is kept by a cycle that begins 50 seconds
  later and is stale at 110 seconds, when the cycle that begins at 100 seconds need not have written yet.
\<close>

definition slow_config :: Config where
  "slow_config = small_config\<lparr>cfg_Interval := 30 * second, cfg_Timeout := 50 * second\<rparr>"

lemma evidence_gap:
  "let first = stored_evidence (diagnosed_status slow_config deleted_crd crd_result 0 zero_DeletionIncidentStatus);
       kept = stored_evidence (diagnosed_status slow_config deleted_crd crd_result (50 * second) first)
   in actionEvidenceCurrent kept (100 * second) \<and> \<not> actionEvidenceCurrent kept (110 * second)"
  by (simp add: slow_config_def stored_evidence_def diagnosed_status_evidence evidence_window_def diagnosed_status_def Let_def
      actionEvidenceCurrent_def zero_DeletionIncidentStatus_def second_def stored_time_def time_sub_def wrap64_def min_int64_def max_int64_def)

section \<open>From the diagnosis to the executor: actions\<close>

lemma reported_actions_distinct:
  assumes "grows Q R (newCollector p) c"
  shows "distinct (map a_ID (fst (snd (collector_sorted c))))"
proof -
  from assms obtain ev where "c = collect ev (newCollector p)" unfolding grows_def by blast
  then have ok: "collector_ok c" by (simp add: collector_ok_collect collector_ok_new)
  then have ids: "map (a_ID \<circ> snd) (c_actions c) = map fst (c_actions c)"
    by (auto simp: collector_ok_def list_all_iff)
  have "distinct (map (a_ID \<circ> snd) (c_actions c))" unfolding ids using ok by (simp add: collector_ok_def)
  then show ?thesis by (simp add: collector_sorted_def Let_def)
qed

lemma find_unique_key: "distinct (map f xs) \<Longrightarrow> x \<in> set xs \<Longrightarrow> find (\<lambda>y. f y = f x) xs = Some x"
  by (induction xs) (auto simp: image_iff)

text \<open>
  A listed object that the executor can identify as one of the namespace that an incident is about: listed in
  that namespace, with a name, a UID and a resource.  The target of the incident has no namespace of its own.
\<close>

definition identified_in :: "TargetReference \<Rightarrow> GroupResource \<Rightarrow> PartialObjectMetadata \<Rightarrow> bool" where
  "identified_in target gr item \<longleftrightarrow>
     tr_Namespace target = [] \<and> pom_Namespace item = tr_Name target \<and> pom_Name item \<noteq> [] \<and> pom_UID item \<noteq> []
     \<and> gr_Resource gr \<noteq> []"

lemma backed_belongs:
  assumes b: "backed L (observed_request request policy version) obj evs a" and same: "sameTargetIdentity (req_Target request) target"
  shows "if sameTargetIdentity (a_Target a) target then actionBelongsToIncident (Some a) target
    else target_gr target = namespacesGR \<and> (\<exists>resource v item. listed evs (resource_version resource v) (tr_Name target) item
      \<and> a_Target a = metadataReference (resource\<lparr>res_PreferredVersion := v\<rparr>) item
      \<and> (actionBelongsToIncident (Some a) target \<longleftrightarrow> identified_in target (res_GroupResource resource) item))"
proof (cases "sameTargetIdentity (a_Target a) target")
  case False
  have "sameTargetIdentity (req_Target (observed_request request policy version)) target"
    using same by (auto simp: sameTargetIdentity_def observed_request_def observed_target_def Let_def split: option.splits)
  with False b have ns: "target_gr (req_Target request) = namespacesGR" and c: "child_action L (observed_request request policy version) evs a"
    by (auto simp: backed_def)
  from c obtain resource v item where item: "listed evs (resource_version resource v) (tr_Name (req_Target request)) item"
    "a = item_action L policy resource v item (a_Finalizer a)"
    unfolding child_action_def by auto
  have t: "target_gr target = namespacesGR" "tr_Name (req_Target request) = tr_Name target"
    using ns same by (simp_all add: target_gr_def sameTargetIdentity_def)
  then have ref: "tr_APIGroup target = []" "tr_Resource target = ''namespaces''" by (auto simp: target_gr_def namespacesGR_def)
  have act: "a_Type a = ActionRemoveResourceFinalizer" "a_Target a = metadataReference (resource\<lparr>res_PreferredVersion := v\<rparr>) item"
    by (subst item(2), simp add: item_action_def)+
  have "actionBelongsToIncident (Some a) target \<longleftrightarrow> identified_in target (res_GroupResource resource) item"
    using False ref act by (auto simp: actionBelongsToIncident_def identified_in_def metadataReference_def)
  with False t item(1) act(2) show ?thesis by auto
qed (simp add: actionBelongsToIncident_def)

text \<open>
  C9.  The executor finds and judges what the diagnosis recommends as the diagnosis did.  For an incident about
  the diagnosed target, every recommended action is found by its identifier and carries the risk and the
  eligibility that the executor computes again from the same policy.  An action on the target itself belongs to the
  incident in the executor's sense.  Any other action is about an object that a listing of the target namespace
  returned, and it belongs to the incident exactly when that object was listed with the namespace's name, a
  name, a UID and a resource: an action on an object without a UID is recommended but refused.
\<close>

theorem recommended_action_accepted:
  assumes "run_state (Diagnose L reader fuel request) s = (Some (Diagnosed r), s @ es)" and "a \<in> set (dg_Actions r)"
    and "sameTargetIdentity (req_Target request) target"
  shows "findAction (dg_Actions r) (a_ID a) = Some a
    \<and> a_Risk a = RiskFor (a_Type a) (a_Finalizer a)
    \<and> (a_Eligible a, a_IneligibleReason a) = ActionEligibility (req_Policy request) (a_Type a) (a_Finalizer a)
    \<and> (if sameTargetIdentity (a_Target a) target then actionBelongsToIncident (Some a) target
       else target_gr target = namespacesGR
         \<and> (\<exists>resource v item. listed (set es) (resource_version resource v) (tr_Name target) item
              \<and> a_Target a = metadataReference (resource\<lparr>res_PreferredVersion := v\<rparr>) item
              \<and> (actionBelongsToIncident (Some a) target \<longleftrightarrow> identified_in target (res_GroupResource resource) item)))"
proof -
  have "dg_ThresholdElapsed r" using diagnosis_not_overdue(2)[OF assms(1)] assms(2) by fastforce
  with assms(1) show ?thesis
  proof (rule diagnosis_overdue)
    fix policy version obj r0 c R
    assume od: "overdue request (set es) policy version obj" and r: "r = finish_diagnosis (r0, c)"
      and g: "grows (backed L (observed_request request policy version) obj (set es)) R (newCollector policy) c"
    note a = finish_diagnosis_actions[OF assms(2)[unfolded r]]
    note b = grows_actions[OF g a(2)]
    have built: "built_action policy a" using b by (simp add: backed_def)
    have "dg_Actions r = fst (snd (collector_sorted c))" using finish_diagnosis_complete(4)[OF a(1)] by (simp add: r)
    then have "findAction (dg_Actions r) (a_ID a) = Some a"
      using find_unique_key[OF reported_actions_distinct[OF g] a(2)] by (simp add: findAction_def)
    moreover have "a_Risk a = RiskFor (a_Type a) (a_Finalizer a)"
      "(a_Eligible a, a_IneligibleReason a) = ActionEligibility (Some policy) (a_Type a) (a_Finalizer a)"
      using built newAction_fields(6,7)[of policy] unfolding built_action_def by metis+
    moreover have "req_Policy request = Some policy" using od by (simp add: overdue_def)
    ultimately show ?thesis using backed_belongs[OF b assms(3)] by simp
  qed
qed

theorem recommended_action_accepted_witness:
  "findAction [force_action] (a_ID force_action) = Some force_action
   \<and> actionBelongsToIncident (Some force_action) (req_Target (overdue_request namespacesGR))"
  using recommended_action_accepted[OF namespace_run, of force_action "req_Target (overdue_request namespacesGR)"]
  by (simp add: sameTargetIdentity_def)

section \<open>From a degraded scan to the executor\<close>

text \<open>
  C6.  What a degraded scan writes stops the executor: a reconciliation that reads incidents only as blocked
  (a failed diagnosis without actions and evidence) or as resolved sends no mutation, not even a dry run.
\<close>

theorem blocked_incident_untouched:
  assumes "\<forall>name i. EvGetIncident name (Inr i) \<in> set (added (Reconcile L E r request) s)
    \<longrightarrow> remediation_blocked (di_Status i) \<or> is_Phase (di_Status i) = IncidentPhaseResolved"
  shows "list_all (\<lambda>e. \<not> is_mutation e) (added (Reconcile L E r request) s)"
proof -
  obtain es where es: "snd (run_state (Reconcile L E r request) s) = s @ es" and one: "one_mutation (warranted L r request) es"
    using Reconcile_ok[of L E r request s] unfolding wp_def by blast
  have added: "added (Reconcile L E r request) s = es" by (simp add: added_def es)
  have none: "\<not> warranted L r request pre ev" if "set pre \<subseteq> set es" for pre ev
  proof
    assume "warranted L r request pre ev"
    then obtain first second i act ref where pre: "pre = first @ EvLock (targetKey (a_Target act)) # second"
      and "under_lock L r request i act ref (set second) ev"
      unfolding warranted_def by blast
    then obtain name li where "EvGetIncident name (Inr li) \<in> set pre" "is_Phase (di_Status li) = IncidentPhaseActive"
      unfolding pre under_lock_def cleared_def by auto
    with assms that show False unfolding added remediation_blocked_def by (metis phases_distinct(1,3) subsetD)
  qed
  have "no_mutation es"
  proof (rule ccontr)
    assume "\<not> no_mutation es"
    with one obtain pre ev post where "es = pre @ ev # post" "warranted L r request pre ev"
      unfolding one_mutation_def by blast
    with none[of pre ev] show False by auto
  qed
  then show ?thesis by (simp add: added)
qed

definition failed_incident :: DeletionIncident where
  "failed_incident = sample_incident\<lparr>di_Status := failed_status sample_incident 5 ''ScanTimedOut'' ''the current scan did not complete''\<rparr>"

definition failed_env :: env where
  "failed_env = sample_env\<lparr>env_GetIncident := \<lambda>_ _. Inr failed_incident, env_ConflictRetries := 0\<rparr>"

lemma failed_env_run:
  "\<forall>name i. EvGetIncident name (Inr i) \<in> set (added (Reconcile sample_lib failed_env \<lparr>rec_maxAttempts = 3\<rparr> ''ok'') []) \<longrightarrow> i = failed_incident"
  by (simp add: added_def Reconcile_def and_then_def load_request_def choose_action_def stop_with_def finish_def finishByName_def
      updateStatus_def ensureOwnerReference_def RetryOnConflict_def failed_env_def sample_env_def sample_approval_def call_defs
      failed_incident_def failed_status_def sample_incident_def findAction_def terminal_def go_enum Let_def)

theorem blocked_incident_untouched_witness:
  "remediation_blocked (di_Status failed_incident)
   \<and> list_all (\<lambda>e. \<not> is_mutation e) (added (Reconcile sample_lib failed_env \<lparr>rec_maxAttempts = 3\<rparr> ''ok'') [])"
proof
  show b: "remediation_blocked (di_Status failed_incident)"
    using failed_status_blocked by (simp add: failed_incident_def)
  show "list_all (\<lambda>e. \<not> is_mutation e) (added (Reconcile sample_lib failed_env \<lparr>rec_maxAttempts = 3\<rparr> ''ok'') [])"
    by (rule blocked_incident_untouched) (use b failed_env_run in blast)
qed

end
